(* ===== verification/Prelude.thy ===== *)
theory Prelude
  imports Main "HOL-Library.Word"
begin

text \<open>
  Shared vocabulary of the development: the machine integer types of the Rust sources, byte
  strings and their little and big endian readings (\<^verbatim>\<open>to_le_bytes\<close>, \<^verbatim>\<open>from_be_bytes\<close>, ...),
  results as values of a sum type with their sequencing operator (the \<^verbatim>\<open>?\<close> operator), checked
  arithmetic, and \<^verbatim>\<open>std::io::Read::read_exact\<close>.

  Lemmas about these are collected in \<open>bytes_simps\<close> (lengths and round trips of byte
  conversions) and \<open>result_simps\<close> (sequencing and checked operations), so that the component
  theories can hand them to the simplifier as a group.
\<close>

named_theorems bytes_simps \<open>lengths and round trips of byte conversions\<close>
named_theorems result_simps \<open>sequencing of results and checked operations\<close>

section \<open>Machine integers and byte strings\<close>

type_synonym u8 = "8 word"
type_synonym u32 = "32 word"
type_synonym u64 = "64 word"
type_synonym u128 = "128 word"
type_synonym u256 = "256 word"
type_synonym bytes = "u8 list"

text \<open>
  \<^verbatim>\<open>H160\<close>, \<^verbatim>\<open>H256\<close> and \<^verbatim>\<open>H512\<close> wrap byte arrays of 20, 32 and 64 bytes; they are the words whose
  big endian reading is that array. A Solana \<^verbatim>\<open>Pubkey\<close> is a 32 byte array as well.
\<close>

type_synonym h160 = "160 word"
type_synonym h256 = "256 word"
type_synonym h512 = "512 word"
type_synonym pubkey = "256 word"

subsection \<open>Little and big endian byte strings\<close>

primrec le_of_nat :: "nat \<Rightarrow> nat \<Rightarrow> bytes" where
  "le_of_nat 0 k = []"
| "le_of_nat (Suc n) k = word_of_nat (k mod 256) # le_of_nat n (k div 256)"

primrec nat_of_le :: "bytes \<Rightarrow> nat" where
  "nat_of_le [] = 0"
| "nat_of_le (b # bs) = unat b + 256 * nat_of_le bs"

definition to_le_bytes :: "nat \<Rightarrow> 'a::len word \<Rightarrow> bytes" where
  "to_le_bytes n w = le_of_nat n (unat w)"

definition from_le_bytes :: "bytes \<Rightarrow> 'a::len word" where
  "from_le_bytes bs = word_of_nat (nat_of_le bs)"

definition to_be_bytes :: "nat \<Rightarrow> 'a::len word \<Rightarrow> bytes" where
  "to_be_bytes n w = rev (to_le_bytes n w)"

definition from_be_bytes :: "bytes \<Rightarrow> 'a::len word" where
  "from_be_bytes bs = from_le_bytes (rev bs)"

text \<open>The byte array of a hash or key: \<^verbatim>\<open>as_ref()\<close>, \<^verbatim>\<open>as_bytes()\<close>, \<^verbatim>\<open>to_bytes()\<close>.\<close>

abbreviation h256_bytes :: "h256 \<Rightarrow> bytes" where
  "h256_bytes h \<equiv> to_be_bytes 32 h"

abbreviation h256_from_slice :: "bytes \<Rightarrow> h256" where
  "h256_from_slice bs \<equiv> from_be_bytes bs"

text \<open>The bytes of a string literal.\<close>

definition str_bytes :: "string \<Rightarrow> bytes" where
  "str_bytes s = map of_char s"

lemma length_str_bytes [simp]: "length (str_bytes s) = length s"
  by (simp add: str_bytes_def)

lemma length_le_of_nat [simp, bytes_simps]: "length (le_of_nat n k) = n"
  by (induction n arbitrary: k) auto

lemma length_to_bytes [simp, bytes_simps]:
  "length (to_le_bytes n w) = n" "length (to_be_bytes n w) = n"
  by (simp_all add: to_le_bytes_def to_be_bytes_def)

lemma unat_byte_mod [simp]: "unat (word_of_nat (k mod 256) :: u8) = k mod 256"
  by (simp add: unat_of_nat)

lemma nat_of_le_le_of_nat: "nat_of_le (le_of_nat n k) = k mod 256 ^ n"
proof (induction n arbitrary: k)
  case 0
  then show ?case by simp
next
  case (Suc n)
  have "k mod 256 + 256 * (k div 256 mod 256 ^ n) = k mod (256 * 256 ^ n)"
    by (simp add: mod_mult2_eq)
  with Suc show ?case by simp
qed

lemma le_of_nat_nat_of_le: "le_of_nat (length bs) (nat_of_le bs) = bs"
proof (induction bs)
  case Nil
  then show ?case by simp
next
  case (Cons b bs)
  have lt: "unat b < 256" using unsigned_less [of b] by simp
  then have "(unat b + 256 * nat_of_le bs) mod 256 = unat b"
    and "(unat b + 256 * nat_of_le bs) div 256 = nat_of_le bs"
    by simp_all
  with Cons show ?case by simp
qed

lemma nat_of_le_less: "nat_of_le bs < 256 ^ length bs"
proof (induction bs)
  case Nil
  then show ?case by simp
next
  case (Cons b bs)
  have "unat b < 256" using unsigned_less [of b] by simp
  with Cons show ?case by simp
qed

lemma from_to_le_bytes:
  fixes w :: "'a::len word"
  assumes "8 * n = LENGTH('a)"
  shows "from_le_bytes (to_le_bytes n w) = w"
proof -
  have "256 ^ n = (2::nat) ^ LENGTH('a)"
    using assms by (simp add: power_mult flip: assms)
  then show ?thesis
    by (simp add: from_le_bytes_def to_le_bytes_def nat_of_le_le_of_nat)
qed

lemma to_from_le_bytes:
  assumes "length bs = n" and "8 * n = LENGTH('a::len)"
  shows "to_le_bytes n (from_le_bytes bs :: 'a word) = bs"
proof -
  have "256 ^ n = (2::nat) ^ LENGTH('a)"
    using assms(2) by (simp add: power_mult flip: assms(2))
  with nat_of_le_less [of bs] assms(1) have "nat_of_le bs < 2 ^ LENGTH('a)"
    by simp
  then have "unat (word_of_nat (nat_of_le bs) :: 'a word) = nat_of_le bs"
    by (simp add: unat_of_nat)
  with assms(1) show ?thesis
    by (auto simp: from_le_bytes_def to_le_bytes_def le_of_nat_nat_of_le)
qed

lemma from_to_be_bytes:
  fixes w :: "'a::len word"
  assumes "8 * n = LENGTH('a)"
  shows "from_be_bytes (to_be_bytes n w) = w"
  using from_to_le_bytes [OF assms] by (simp add: from_be_bytes_def to_be_bytes_def)

lemma to_from_be_bytes:
  assumes "length bs = n" and "8 * n = LENGTH('a::len)"
  shows "to_be_bytes n (from_be_bytes bs :: 'a word) = bs"
proof -
  have "to_le_bytes n (from_le_bytes (rev bs) :: 'a word) = rev bs"
    using assms by (intro to_from_le_bytes) simp_all
  then show ?thesis by (simp add: from_be_bytes_def to_be_bytes_def)
qed

lemma bytes_roundtrip [simp, bytes_simps]:
  "from_be_bytes (to_be_bytes 32 (h :: h256)) = h"
  "from_be_bytes (to_be_bytes 20 (a :: h160)) = a"
  "from_be_bytes (to_be_bytes 64 (b :: h512)) = b"
  "from_be_bytes (to_be_bytes 1 (v :: u8)) = v"
  "from_be_bytes (to_be_bytes 4 (n :: u32)) = n"
  "from_be_bytes (to_be_bytes 8 (m :: u64)) = m"
  "from_le_bytes (to_le_bytes 4 (n :: u32)) = n"
  "from_le_bytes (to_le_bytes 8 (m :: u64)) = m"
  "from_le_bytes (to_le_bytes 16 (q :: u128)) = q"
  "from_le_bytes (to_le_bytes 32 (u :: u256)) = u"
  by (simp_all add: from_to_be_bytes from_to_le_bytes)

lemma bytes_canonical [simp, bytes_simps]:
  "length bs = 32 \<Longrightarrow> to_be_bytes 32 (from_be_bytes bs :: h256) = bs"
  "length bs = 20 \<Longrightarrow> to_be_bytes 20 (from_be_bytes bs :: h160) = bs"
  "length bs = 64 \<Longrightarrow> to_be_bytes 64 (from_be_bytes bs :: h512) = bs"
  "length bs = 1 \<Longrightarrow> to_be_bytes 1 (from_be_bytes bs :: u8) = bs"
  "length bs = 4 \<Longrightarrow> to_be_bytes 4 (from_be_bytes bs :: u32) = bs"
  "length bs = 8 \<Longrightarrow> to_be_bytes 8 (from_be_bytes bs :: u64) = bs"
  "length bs = 4 \<Longrightarrow> to_le_bytes 4 (from_le_bytes bs :: u32) = bs"
  "length bs = 8 \<Longrightarrow> to_le_bytes 8 (from_le_bytes bs :: u64) = bs"
  "length bs = 16 \<Longrightarrow> to_le_bytes 16 (from_le_bytes bs :: u128) = bs"
  "length bs = 32 \<Longrightarrow> to_le_bytes 32 (from_le_bytes bs :: u256) = bs"
  by (rule to_from_be_bytes to_from_le_bytes, simp, simp)+

lemma h256_bytes_eq_iff [simp]: "h256_bytes a = h256_bytes b \<longleftrightarrow> a = b"
  by (metis bytes_roundtrip(1))

section \<open>Results\<close>

text \<open>
  A Rust \<^verbatim>\<open>Result<A, E>\<close> is a value of \<open>'e + 'a\<close>, the error on the left. \<open>rbind\<close> is the
  \<^verbatim>\<open>?\<close> operator: it stops at the first error. \<open>require c e k\<close> is the early return
  \<^verbatim>\<open>if !c { return Err(e) }; k\<close>.
\<close>

primrec rbind :: "'e + 'a \<Rightarrow> ('a \<Rightarrow> 'e + 'b) \<Rightarrow> 'e + 'b" where
  "rbind (Inl e) f = Inl e"
| "rbind (Inr a) f = f a"

definition require :: "bool \<Rightarrow> 'e \<Rightarrow> 'e + 'b \<Rightarrow> 'e + 'b" where
  "require c e k = (if c then k else Inl e)"

primrec map_err :: "('e \<Rightarrow> 'f) \<Rightarrow> 'e + 'a \<Rightarrow> 'f + 'a" where
  "map_err f (Inl e) = Inl (f e)"
| "map_err f (Inr a) = Inr a"

definition ok_or :: "'a option \<Rightarrow> 'e \<Rightarrow> 'e + 'a" where
  "ok_or o' e = (case o' of None \<Rightarrow> Inl e | Some a \<Rightarrow> Inr a)"

text \<open>
  Code that can panic has the failures \<open>'e failure\<close>: an error value the code returns, or a
  panic. \<open>unwrap\<close> reads an optional result whose \<open>None\<close> is a panic.
\<close>

datatype 'e failure = Err 'e | Panic

definition unwrap :: "'a option \<Rightarrow> 'e failure + 'a" where
  "unwrap o' = (case o' of None \<Rightarrow> Inl Panic | Some a \<Rightarrow> Inr a)"

lemma unwrap_simps [simp]: "unwrap None = Inl Panic" "unwrap (Some a) = Inr a"
  by (simp_all add: unwrap_def)

lemma unwrap_eq_Inr [result_simps]: "unwrap o' = Inr a \<longleftrightarrow> o' = Some a"
  by (cases o') auto

lemma rbind_eq_Inr [result_simps]: "rbind m f = Inr b \<longleftrightarrow> (\<exists>a. m = Inr a \<and> f a = Inr b)"
  by (cases m) auto

lemma rbind_eq_Inl [result_simps]:
  "rbind m f = Inl e \<longleftrightarrow> m = Inl e \<or> (\<exists>a. m = Inr a \<and> f a = Inl e)"
  by (cases m) auto

lemma require_eq_Inr [result_simps]: "require c e k = Inr b \<longleftrightarrow> c \<and> k = Inr b"
  by (simp add: require_def)

lemma require_eq_Inl [result_simps]: "require c e k = Inl x \<longleftrightarrow> (if c then k = Inl x else x = e)"
  by (auto simp: require_def)

lemma require_simps [simp]: "require True e k = k" "require False e k = Inl e"
  by (simp_all add: require_def)

lemma map_err_eq_Inr [simp, result_simps]: "map_err f m = Inr b \<longleftrightarrow> m = Inr b"
  by (cases m) auto

lemma ok_or_simps [simp]: "ok_or None e = Inl e" "ok_or (Some a) e = Inr a"
  by (simp_all add: ok_or_def)

lemma ok_or_eq_Inr [result_simps]: "ok_or o' e = Inr a \<longleftrightarrow> o' = Some a"
  by (cases o') auto

lemma rbind_cong [fundef_cong]:
  "m = m' \<Longrightarrow> (\<And>a. m' = Inr a \<Longrightarrow> f a = f' a) \<Longrightarrow> rbind m f = rbind m' f'"
  by (cases m') auto

section \<open>Checked arithmetic\<close>

text \<open>
  \<^verbatim>\<open>overflow-checks = true\<close> and \<^verbatim>\<open>checked_add\<close> both compare the exact result with the width of the
  type. The first argument is the error (or the panic) of the overflowing case.
\<close>

definition checked_add :: "'e \<Rightarrow> 'a::len word \<Rightarrow> 'a word \<Rightarrow> 'e + 'a word" where
  "checked_add e a b = (if unat a + unat b < 2 ^ LENGTH('a) then Inr (a + b) else Inl e)"

definition checked_sub :: "'e \<Rightarrow> 'a::len word \<Rightarrow> 'a word \<Rightarrow> 'e + 'a word" where
  "checked_sub e a b = (if unat b \<le> unat a then Inr (a - b) else Inl e)"

definition checked_mul :: "'e \<Rightarrow> 'a::len word \<Rightarrow> 'a word \<Rightarrow> 'e + 'a word" where
  "checked_mul e a b = (if unat a * unat b < 2 ^ LENGTH('a) then Inr (a * b) else Inl e)"

definition saturating_sub :: "'a::len word \<Rightarrow> 'a word \<Rightarrow> 'a word" where
  "saturating_sub a b = (if a < b then 0 else a - b)"

lemma checked_add_Inr [result_simps]:
  fixes a b c :: "'a::len word"
  shows "checked_add e a b = Inr c \<longleftrightarrow> unat c = unat a + unat b"
proof
  assume "checked_add e a b = Inr c"
  then show "unat c = unat a + unat b"
    by (auto simp: checked_add_def unat_word_ariths split: if_splits)
next
  assume c: "unat c = unat a + unat b"
  then have lt: "unat a + unat b < 2 ^ LENGTH('a)" by (metis unsigned_less)
  from c have "word_of_nat (unat c) = (word_of_nat (unat a + unat b) :: 'a word)" by simp
  then have "c = a + b" by simp
  with lt show "checked_add e a b = Inr c" by (simp add: checked_add_def)
qed

lemma checked_mul_Inr [result_simps]:
  fixes a b c :: "'a::len word"
  shows "checked_mul e a b = Inr c \<longleftrightarrow> unat c = unat a * unat b"
proof
  assume "checked_mul e a b = Inr c"
  then show "unat c = unat a * unat b"
    by (auto simp: checked_mul_def unat_word_ariths split: if_splits)
next
  assume c: "unat c = unat a * unat b"
  then have lt: "unat a * unat b < 2 ^ LENGTH('a)" by (metis unsigned_less)
  from c have "word_of_nat (unat c) = (word_of_nat (unat a * unat b) :: 'a word)" by simp
  then have "c = a * b" by simp
  with lt show "checked_mul e a b = Inr c" by (simp add: checked_mul_def)
qed

lemma checked_sub_Inr [result_simps]:
  fixes a b c :: "'a::len word"
  shows "checked_sub e a b = Inr c \<longleftrightarrow> unat a = unat b + unat c"
proof
  assume "checked_sub e a b = Inr c"
  then show "unat a = unat b + unat c"
    by (auto simp: checked_sub_def unat_sub word_le_nat_alt split: if_splits)
next
  assume a: "unat a = unat b + unat c"
  then have "word_of_nat (unat a) = (word_of_nat (unat b + unat c) :: 'a word)" by simp
  then have "c = a - b" by simp
  with a show "checked_sub e a b = Inr c" by (simp add: checked_sub_def)
qed

lemma unat_saturating_sub: "unat (saturating_sub a b) = unat a - unat b"
proof (cases "a < b")
  case True
  then show ?thesis by (simp add: saturating_sub_def word_less_nat_alt)
next
  case False
  then show ?thesis by (simp add: saturating_sub_def unat_sub not_less)
qed

section \<open>Reading from a byte source\<close>

text \<open>The errors of \<^verbatim>\<open>std::io\<close> the readers of the code can produce.\<close>

datatype io_error = UnexpectedEof | InvalidData

definition read_exact :: "nat \<Rightarrow> bytes \<Rightarrow> io_error + bytes \<times> bytes" where
  "read_exact n bs =
     (if length bs < n then Inl UnexpectedEof else Inr (take n bs, drop n bs))"

lemma read_exact_append [simp, bytes_simps]:
  "length xs = n \<Longrightarrow> read_exact n (xs @ ys) = Inr (xs, ys)"
  by (simp add: read_exact_def)

lemma read_exact_Inr [result_simps]:
  "read_exact n bs = Inr (xs, ys) \<longleftrightarrow> bs = xs @ ys \<and> length xs = n"
  by (auto simp: read_exact_def)

lemma read_exact_short: "length bs < n \<Longrightarrow> read_exact n bs = Inl UnexpectedEof"
  by (simp add: read_exact_def)

end
