(* ===== verification/Encoding.thy ===== *)
theory Encoding
  imports Prelude
begin

text \<open>
  The \<^verbatim>\<open>Encode\<close> and \<^verbatim>\<open>Decode\<close> traits of \<^verbatim>\<open>hyperlane-core/src/traits/encode.rs\<close> and their
  implementations for hashes, \<^verbatim>\<open>U256\<close>, \<^verbatim>\<open>u32\<close>, \<^verbatim>\<open>u64\<close>, \<^verbatim>\<open>bool\<close> and \<^verbatim>\<open>GasPaymentKey\<close>.

  The two traits are the interface \<open>encoding\<close>: \<open>write_to\<close> gives the bytes it writes and the
  count it returns, \<open>read_from\<close> gives the value and the unread rest, or the reader's error.
  An encoding whose reader stops where its writer stopped is a \<open>prefix_encoding\<close>; two of them
  in sequence are one again (\<open>seq_encoding\<close>). Each implementation is an interpretation.
\<close>

type_synonym written = "bytes \<times> nat"

text \<open>\<^verbatim>\<open>Encode::to_vec\<close>: the bytes alone.\<close>

definition to_vec :: "('a \<Rightarrow> written) \<Rightarrow> 'a \<Rightarrow> bytes" where
  "to_vec write_to x = fst (write_to x)"

section \<open>Implementations\<close>

text \<open>\<^verbatim>\<open>impl_encode_for_primitive_hash!\<close> for \<^verbatim>\<open>H160\<close>, \<^verbatim>\<open>H256\<close> and \<^verbatim>\<open>H512\<close>.\<close>

definition h160_write_to :: "h160 \<Rightarrow> written" where
  "h160_write_to h = (to_be_bytes 20 h, 20)"

definition h160_read_from :: "bytes \<Rightarrow> io_error + h160 \<times> bytes" where
  "h160_read_from r = rbind (read_exact 20 r) (\<lambda>(h, r). Inr (from_be_bytes h, r))"

definition h256_write_to :: "h256 \<Rightarrow> written" where
  "h256_write_to h = (h256_bytes h, 32)"

definition h256_read_from :: "bytes \<Rightarrow> io_error + h256 \<times> bytes" where
  "h256_read_from r = rbind (read_exact 32 r) (\<lambda>(h, r). Inr (h256_from_slice h, r))"

definition h512_write_to :: "h512 \<Rightarrow> written" where
  "h512_write_to h = (to_be_bytes 64 h, 64)"

definition h512_read_from :: "bytes \<Rightarrow> io_error + h512 \<times> bytes" where
  "h512_read_from r = rbind (read_exact 64 r) (\<lambda>(h, r). Inr (from_be_bytes h, r))"

definition u256_write_to :: "u256 \<Rightarrow> written" where
  "u256_write_to v = (to_le_bytes 32 v, 32)"

definition u256_read_from :: "bytes \<Rightarrow> io_error + u256 \<times> bytes" where
  "u256_read_from r = rbind (read_exact 32 r) (\<lambda>(buf, r). Inr (from_le_bytes buf, r))"

definition u32_write_to :: "u32 \<Rightarrow> written" where
  "u32_write_to v = (to_be_bytes 4 v, 4)"

definition u32_read_from :: "bytes \<Rightarrow> io_error + u32 \<times> bytes" where
  "u32_read_from r = rbind (read_exact 4 r) (\<lambda>(buf, r). Inr (from_be_bytes buf, r))"

definition u64_write_to :: "u64 \<Rightarrow> written" where
  "u64_write_to v = (to_be_bytes 8 v, 8)"

definition u64_read_from :: "bytes \<Rightarrow> io_error + u64 \<times> bytes" where
  "u64_read_from r = rbind (read_exact 8 r) (\<lambda>(buf, r). Inr (from_be_bytes buf, r))"

definition bool_write_to :: "bool \<Rightarrow> written" where
  "bool_write_to b = ([if b then 1 else 0], 1)"

definition bool_read_from :: "bytes \<Rightarrow> io_error + bool \<times> bytes" where
  "bool_read_from r = rbind (read_exact 1 r) (\<lambda>(buf, r).
     if buf ! 0 = 0 then Inr (False, r)
     else if buf ! 0 = 1 then Inr (True, r)
     else Inl InvalidData)"

text \<open>\<^verbatim>\<open>GasPaymentKey\<close> of \<^verbatim>\<open>types/mod.rs\<close>: the message id followed by the destination domain.\<close>

record gas_payment_key =
  gpk_message_id :: h256
  gpk_destination :: u32

definition gas_payment_key_write_to :: "gas_payment_key \<Rightarrow> written" where
  "gas_payment_key_write_to k =
     (let (b1, w1) = h256_write_to (gpk_message_id k);
          (b2, w2) = u32_write_to (gpk_destination k)
      in (b1 @ b2, w1 + w2))"

definition gas_payment_key_read_from :: "bytes \<Rightarrow> io_error + gas_payment_key \<times> bytes" where
  "gas_payment_key_read_from r =
     rbind (h256_read_from r) (\<lambda>(message_id, r).
     rbind (u32_read_from r) (\<lambda>(destination, r).
     Inr (\<lparr>gpk_message_id = message_id, gpk_destination = destination\<rparr>, r)))"

section \<open>The interface of the traits\<close>

text \<open>
  \<open>valid\<close> is the invariant of the Rust type where the HOL type is larger (a fixed size array
  modelled by a list); it is \<open>\<lambda>_. True\<close> for the word types.
\<close>

locale encoding =
  fixes write_to :: "'a \<Rightarrow> written"
    and read_from :: "bytes \<Rightarrow> io_error + 'a \<times> bytes"
    and valid :: "'a \<Rightarrow> bool"
  assumes read_back: "valid x \<Longrightarrow> read_from (fst (write_to x)) = Inr (x, [])"
    and canonical: "read_from bs = Inr (x, rest) \<Longrightarrow> bs = fst (write_to x) @ rest \<and> valid x"
    and count: "valid x \<Longrightarrow> snd (write_to x) = length (fst (write_to x))"
begin

lemma write_inj: "fst (write_to x) = fst (write_to y) \<Longrightarrow> valid x \<Longrightarrow> valid y \<Longrightarrow> x = y"
  by (metis read_back prod.inject sum.inject(2))

lemma read_complete: "read_from bs = Inr (x, []) \<longleftrightarrow> bs = to_vec write_to x \<and> valid x"
  using canonical [of bs x "[]"] read_back [of x] by (auto simp: to_vec_def)

end

locale prefix_encoding = encoding +
  assumes read_prefix: "valid x \<Longrightarrow> read_from (fst (write_to x) @ rest) = Inr (x, rest)"
begin

text \<open>No encoding is a proper prefix of another: concatenated encodings are read unambiguously.\<close>

lemma prefix_free:
  "fst (write_to x) @ r = fst (write_to y) @ s \<Longrightarrow> valid x \<Longrightarrow> valid y \<Longrightarrow> x = y \<and> r = s"
  by (metis read_prefix prod.inject sum.inject(2))

lemma read_iff: "read_from bs = Inr (x, rest) \<longleftrightarrow> bs = fst (write_to x) @ rest \<and> valid x"
  using canonical read_prefix by blast

end

locale seq_encoding =
  a: prefix_encoding wa ra va + b: prefix_encoding wb rb vb
  for wa :: "'a \<Rightarrow> written" and ra va and wb :: "'b \<Rightarrow> written" and rb vb
begin

definition seq_write :: "'a \<times> 'b \<Rightarrow> written" where
  "seq_write p = (fst (wa (fst p)) @ fst (wb (snd p)), snd (wa (fst p)) + snd (wb (snd p)))"

definition seq_read :: "bytes \<Rightarrow> io_error + ('a \<times> 'b) \<times> bytes" where
  "seq_read r = rbind (ra r) (\<lambda>(x, r). rbind (rb r) (\<lambda>(y, r). Inr ((x, y), r)))"

definition seq_valid :: "'a \<times> 'b \<Rightarrow> bool" where
  "seq_valid p \<longleftrightarrow> va (fst p) \<and> vb (snd p)"

lemma seq_read_prefix:
  "seq_valid p \<Longrightarrow> seq_read (fst (seq_write p) @ rest) = Inr (p, rest)"
  by (cases p) (simp add: seq_valid_def seq_read_def seq_write_def a.read_prefix b.read_prefix)

lemma seq_canonical:
  "seq_read bs = Inr (p, rest) \<Longrightarrow> bs = fst (seq_write p) @ rest \<and> seq_valid p"
  by (cases p)
     (auto simp: seq_read_def seq_write_def seq_valid_def a.read_iff b.read_iff result_simps)

lemma seq_count: "seq_valid p \<Longrightarrow> snd (seq_write p) = length (fst (seq_write p))"
  by (simp add: seq_write_def seq_valid_def a.count b.count)

end

sublocale seq_encoding \<subseteq> pair: prefix_encoding seq_write seq_read seq_valid
  using seq_read_prefix [of _ "[]"]
  by unfold_locales (auto simp: seq_read_prefix seq_count dest: seq_canonical)

section \<open>The implementations meet the interface\<close>

abbreviation always :: "'a \<Rightarrow> bool" where
  "always \<equiv> \<lambda>_. True"

text \<open>
  An encoding of fixed width \<open>n\<close> that reads \<open>n\<close> bytes and converts them: the common shape of
  the hash and integer implementations.
\<close>

lemma fixed_width_encoding:
  assumes "\<And>x. write x = (conv x, n)" and "\<And>x. length (conv x) = n"
    and "\<And>r. read r = rbind (read_exact n r) (\<lambda>(h, r). Inr (unconv h, r))"
    and "\<And>x. unconv (conv x) = x" and "\<And>bs. length bs = n \<Longrightarrow> conv (unconv bs) = bs"
  shows "prefix_encoding write read always"
  using assms by unfold_locales (auto simp: result_simps)

interpretation h160_enc: prefix_encoding h160_write_to h160_read_from always
  by (rule fixed_width_encoding [where n = 20 and conv = "to_be_bytes 20" and unconv = from_be_bytes])
     (simp_all add: h160_write_to_def h160_read_from_def)

interpretation h256_enc: prefix_encoding h256_write_to h256_read_from always
  by (rule fixed_width_encoding [where n = 32 and conv = "to_be_bytes 32" and unconv = from_be_bytes])
     (simp_all add: h256_write_to_def h256_read_from_def)

interpretation h512_enc: prefix_encoding h512_write_to h512_read_from always
  by (rule fixed_width_encoding [where n = 64 and conv = "to_be_bytes 64" and unconv = from_be_bytes])
     (simp_all add: h512_write_to_def h512_read_from_def)

interpretation u256_enc: prefix_encoding u256_write_to u256_read_from always
  by (rule fixed_width_encoding [where n = 32 and conv = "to_le_bytes 32" and unconv = from_le_bytes])
     (simp_all add: u256_write_to_def u256_read_from_def)

interpretation u32_enc: prefix_encoding u32_write_to u32_read_from always
  by (rule fixed_width_encoding [where n = 4 and conv = "to_be_bytes 4" and unconv = from_be_bytes])
     (simp_all add: u32_write_to_def u32_read_from_def)

interpretation u64_enc: prefix_encoding u64_write_to u64_read_from always
  by (rule fixed_width_encoding [where n = 8 and conv = "to_be_bytes 8" and unconv = from_be_bytes])
     (simp_all add: u64_write_to_def u64_read_from_def)

interpretation bool_enc: prefix_encoding bool_write_to bool_read_from always
proof unfold_locales
  fix bs x rest
  assume "bool_read_from bs = Inr (x, rest)"
  then show "bs = fst (bool_write_to x) @ rest \<and> always x"
    by (auto simp: bool_read_from_def bool_write_to_def result_simps length_Suc_conv
        split: if_splits)
qed (auto simp: bool_read_from_def bool_write_to_def read_exact_def)

interpretation gas_key_seq:
  seq_encoding h256_write_to h256_read_from always u32_write_to u32_read_from always
  by unfold_locales

lemma gas_payment_key_write_seq:
  "gas_payment_key_write_to k = gas_key_seq.seq_write (gpk_message_id k, gpk_destination k)"
  by (simp add: gas_payment_key_write_to_def gas_key_seq.seq_write_def split_def Let_def)

lemma gas_payment_key_read_seq:
  "gas_payment_key_read_from r = Inr (k, rest) \<longleftrightarrow>
   gas_key_seq.seq_read r = Inr ((gpk_message_id k, gpk_destination k), rest)"
  by (cases k) (auto simp: gas_payment_key_read_from_def gas_key_seq.seq_read_def result_simps)

interpretation gas_payment_key_enc:
  prefix_encoding gas_payment_key_write_to gas_payment_key_read_from always
  by unfold_locales
     (simp_all add: gas_payment_key_write_seq gas_payment_key_read_seq gas_key_seq.seq_valid_def
        gas_key_seq.pair.read_prefix gas_key_seq.pair.read_back gas_key_seq.pair.canonical
        gas_key_seq.pair.count)

lemmas enc_read_simps [bytes_simps] =
  h160_enc.read_prefix h256_enc.read_prefix h512_enc.read_prefix u256_enc.read_prefix
  u32_enc.read_prefix u64_enc.read_prefix bool_enc.read_prefix gas_payment_key_enc.read_prefix

lemmas enc_read_iffs =
  h160_enc.read_iff h256_enc.read_iff h512_enc.read_iff u256_enc.read_iff
  u32_enc.read_iff u64_enc.read_iff bool_enc.read_iff gas_payment_key_enc.read_iff

lemmas enc_write_defs =
  h160_write_to_def h256_write_to_def h512_write_to_def u256_write_to_def
  u32_write_to_def u64_write_to_def bool_write_to_def

end
