(* ===== verification/Merkle.thy ===== *)
theory Merkle
  imports Encoding "HOL-Library.Monad_Syntax"
begin

text \<open>
  The full Merkle tree of \<^verbatim>\<open>hyperlane-core/src/accumulator/merkle.rs\<close>: building it from leaves,
  pushing a leaf, generating a proof, and recomputing a root from a proof, with the table of zero
  hashes of \<^verbatim>\<open>zero_hashes.rs\<close>.

  Keccak-256 comes from the \<^verbatim>\<open>sha3\<close> crate: it is the parameter \<open>kc\<close> of every definition that
  hashes. What the code relies on is that its precomputed table agrees with the hash
  (\<open>zero_table kc\<close>, the assertion of the test \<^verbatim>\<open>it_prints_zero_hashes_items\<close>).

  The reference is \<open>mroot kc d xs\<close>, the root of the complete binary tree of depth \<open>d\<close> over the
  leaves \<open>xs\<close> padded with zero leaves, with \<open>mpath\<close> for its authentication paths; the theorems
  show that the tree operations compute it.
\<close>

type_synonym keccak = "bytes \<Rightarrow> h256"

section \<open>Model\<close>

definition TREE_DEPTH :: nat where
  "TREE_DEPTH = 32"

definition ZERO_HASHES :: "h256 list" where
  "ZERO_HASHES =
    [0,
     0xad3228b676f7d3cd4284a5443f17f1962b36e491b30a40b2405849e597ba5fb5,
     0xb4c11951957c6f8f642c4af61cd6b24640fec6dc7fc607ee8206a99e92410d30,
     0x21ddb9a356815c3fac1026b6dec5df3124afbadb485c9ba5a3e3398a04b7ba85,
     0xe58769b32a1beaf1ea27375a44095a0d1fb664ce2dd358e7fcbfb78c26a19344,
     0x0eb01ebfc9ed27500cd4dfc979272d1f0913cc9f66540d7e8005811109e1cf2d,
     0x887c22bd8750d34016ac3c66b5ff102dacdd73f6b014e710b51e8022af9a1968,
     0xffd70157e48063fc33c97a050f7f640233bf646cc98d9524c6b92bcf3ab56f83,
     0x9867cc5f7f196b93bae1e27e6320742445d290f2263827498b54fec539f756af,
     0xcefad4e508c098b9a7e1d8feb19955fb02ba9675585078710969d3440f5054e0,
     0xf9dc3e7fe016e050eff260334f18a5d4fe391d82092319f5964f2e2eb7c1c3a5,
     0xf8b13a49e282f609c317a833fb8d976d11517c571d1221a265d25af778ecf892,
     0x3490c6ceeb450aecdc82e28293031d10c7d73bf85e57bf041a97360aa2c5d99c,
     0xc1df82d9c4b87413eae2ef048f94b4d3554cea73d92b0f7af96e0271c691e2bb,
     0x5c67add7c6caf302256adedf7ab114da0acfe870d449a3a489f781d659e8becc,
     0xda7bce9f4e8618b6bd2f4132ce798cdc7a60e7e1460a7299e3c6342a579626d2,
     0x2733e50f526ec2fa19a22b31e8ed50f23cd1fdf94c9154ed3a7609a2f1ff981f,
     0xe1d3b5c807b281e4683cc6d6315cf95b9ade8641defcb32372f1c126e398ef7a,
     0x5a2dce0a8a7f68bb74560f8f71837c2c2ebbcbf7fffb42ae1896f13f7c7479a0,
     0xb46a28b6f55540f89444f63de0378e3d121be09e06cc9ded1c20e65876d36aa0,
     0xc65e9645644786b620e2dd2ad648ddfcbf4a7e5b1a3a4ecfe7f64667a3f0b7e2,
     0xf4418588ed35a2458cffeb39b93d26f18d2ab13bdce6aee58e7b99359ec2dfd9,
     0x5a9c16dc00d6ef18b7933a6f8dc65ccb55667138776f7dea101070dc8796e377,
     0x4df84f40ae0c8229d0d6069e5c8f39a7c299677a09d367fc7b05e3bc380ee652,
     0xcdc72595f74c7b1043d0e1ffbab734648c838dfb0527d971b602bc216c9619ef,
     0x0abf5ac974a1ed57f4050aa510dd9c74f508277b39d7973bb2dfccc5eeb0618d,
     0xb8cd74046ff337f0a7bf2c8e03e10f642c1886798d71806ab1e888d9e5ee87d0,
     0x838c5655cb21c6cb83313b5a631175dff4963772cce9108188b34ac87c81c41e,
     0x662ee4dd2dd7b2bc707961b1e646c4047669dcb6584f0d8d770daf5d7e7deb2e,
     0x388ab20e2573d171a88108e79d820e98f26c0b84aa8b2f4aa4968dbb818ea322,
     0x93237c50ba75ee485f4c22adf2f741400bdf8d6a9cc7df7ecae576221665d735,
     0x8448818bb4ae4562849e949e17ac16e0be16688e156b5cf15e098c627c0056a9,
     0x27ae5ba08d7291c96c8cbddcc148bf48a6d68c7974b94356f53754ef6171d757]"

definition hash_concat :: "keccak \<Rightarrow> h256 \<Rightarrow> h256 \<Rightarrow> h256" where
  "hash_concat kc left right = kc (h256_bytes left @ h256_bytes right)"

definition INITIAL_ROOT :: h256 where
  "INITIAL_ROOT = 0x27ae5ba08d7291c96c8cbddcc148bf48a6d68c7974b94356f53754ef6171d757"

datatype merkle_tree =
    Leaf h256
  | Node h256 merkle_tree merkle_tree
  | Zero nat

text \<open>Reading the constant arrays \<^verbatim>\<open>ZERO_HASHES\<close> and \<^verbatim>\<open>ZERO_NODES\<close> panics out of range.\<close>

definition zero_hash :: "nat \<Rightarrow> h256 option" where
  "zero_hash d = (if d < length ZERO_HASHES then Some (ZERO_HASHES ! d) else None)"

definition ZERO_NODES :: "merkle_tree list" where
  "ZERO_NODES = map Zero [0..<33]"

datatype merkle_tree_error = LeafReached | MerkleTreeFull | Invalid | DepthTooSmall

primrec mt_hash :: "merkle_tree \<Rightarrow> h256 option" where
  "mt_hash (Leaf h) = Some h"
| "mt_hash (Node h l r) = Some h"
| "mt_hash (Zero depth) = zero_hash depth"

text \<open>
  \<^verbatim>\<open>MerkleTree::create\<close>. \<open>None\<close> is the panic of a zero subtree deeper than the table. The
  subtree capacity \<^verbatim>\<open>2usize.pow(depth - 1)\<close> is a natural number here; at the depths where the
  64 bit power would overflow, the zero subtree panics first.
\<close>

fun create :: "keccak \<Rightarrow> h256 list \<Rightarrow> nat \<Rightarrow> merkle_tree option" where
  "create kc leaves 0 = (case leaves of [] \<Rightarrow> Some (Zero 0) | x # _ \<Rightarrow> Some (Leaf x))"
| "create kc leaves (Suc d) =
     (if leaves = [] then Some (Zero (Suc d))
      else let subtree_capacity = 2 ^ d;
               (left_leaves, right_leaves) =
                 (if length leaves \<le> subtree_capacity then (leaves, [])
                  else (take subtree_capacity leaves, drop subtree_capacity leaves))
           in do {
             left_subtree \<leftarrow> create kc left_leaves d;
             right_subtree \<leftarrow> create kc right_leaves d;
             lh \<leftarrow> mt_hash left_subtree;
             rh \<leftarrow> mt_hash right_subtree;
             Some (Node (hash_concat kc lh rh) left_subtree right_subtree)
           })"

text \<open>
  \<^verbatim>\<open>MerkleTree::push_leaf\<close> returns the updated tree; an error leaves the tree as it was.
\<close>

fun push_leaf ::
  "keccak \<Rightarrow> h256 \<Rightarrow> nat \<Rightarrow> merkle_tree \<Rightarrow> merkle_tree_error failure + merkle_tree" where
  "push_leaf kc elem 0 t = Inl (Err DepthTooSmall)"
| "push_leaf kc elem (Suc d) t =
     (case t of
        Leaf _ \<Rightarrow> Inl (Err LeafReached)
      | Zero _ \<Rightarrow> unwrap (create kc [elem] (Suc d))
      | Node h left right \<Rightarrow>
          rbind
            (case (left, right) of
               (Leaf _, Leaf _) \<Rightarrow> Inl (Err MerkleTreeFull)
             | (Node _ _ _, Node _ _ _) \<Rightarrow>
                 rbind (push_leaf kc elem d right) (\<lambda>right. Inr (left, right))
             | (Zero _, Zero _) \<Rightarrow>
                 rbind (unwrap (create kc [elem] d)) (\<lambda>left. Inr (left, right))
             | (Leaf _, Zero _) \<Rightarrow>
                 rbind (unwrap (create kc [elem] d)) (\<lambda>right. Inr (left, right))
             | (Node _ _ _, Zero _) \<Rightarrow>
                 (case push_leaf kc elem d left of
                    Inr left \<Rightarrow> Inr (left, right)
                  | Inl (Err MerkleTreeFull) \<Rightarrow>
                      rbind (unwrap (create kc [elem] d)) (\<lambda>right. Inr (left, right))
                  | Inl e \<Rightarrow> Inl e)
             | _ \<Rightarrow> Inl (Err Invalid))
            (\<lambda>(left, right).
               rbind (unwrap (mt_hash left)) (\<lambda>lh.
               rbind (unwrap (mt_hash right)) (\<lambda>rh.
               Inr (Node (hash_concat kc lh rh) left right)))))"

text \<open>\<^verbatim>\<open>left_and_right_branches\<close>: the outer \<open>None\<close> is the panic of \<^verbatim>\<open>ZERO_NODES[depth - 1]\<close>.\<close>

definition left_and_right_branches :: "merkle_tree \<Rightarrow> (merkle_tree \<times> merkle_tree) option option" where
  "left_and_right_branches t =
     (case t of
        Leaf _ \<Rightarrow> Some None
      | Zero 0 \<Rightarrow> Some None
      | Node _ l r \<Rightarrow> Some (Some (l, r))
      | Zero (Suc d) \<Rightarrow>
          (if d < length ZERO_NODES then Some (Some (ZERO_NODES ! d, ZERO_NODES ! d)) else None))"

primrec is_leaf :: "merkle_tree \<Rightarrow> bool" where
  "is_leaf (Leaf _) = True"
| "is_leaf (Node _ _ _) = False"
| "is_leaf (Zero _) = False"

text \<open>The loop of \<^verbatim>\<open>generate_proof\<close>; \<open>None\<close> is a panic (of an \<^verbatim>\<open>unwrap\<close> or of a table access).\<close>

fun generate_proof_loop ::
  "nat \<Rightarrow> merkle_tree \<Rightarrow> nat \<Rightarrow> h256 list \<Rightarrow> (merkle_tree \<times> h256 list) option" where
  "generate_proof_loop index current_node 0 proof = Some (current_node, proof)"
| "generate_proof_loop index current_node (Suc c) proof = do {
     branches \<leftarrow> left_and_right_branches current_node;
     (left, right) \<leftarrow> branches;
     if bit index c
     then do { lh \<leftarrow> mt_hash left; generate_proof_loop index right c (proof @ [lh]) }
     else do { rh \<leftarrow> mt_hash right; generate_proof_loop index left c (proof @ [rh]) }
   }"

text \<open>
  The two \<^verbatim>\<open>debug_assert\<close>s after the loop are checked, as a debug build does; a release build returns the
  same result when they hold.
\<close>

definition generate_proof :: "merkle_tree \<Rightarrow> nat \<Rightarrow> nat \<Rightarrow> (h256 \<times> h256 list) option" where
  "generate_proof t index depth = do {
     (current_node, proof) \<leftarrow> generate_proof_loop index t depth [];
     if length proof = depth \<and> is_leaf current_node
     then do { h \<leftarrow> mt_hash current_node; Some (h, rev proof) }
     else None
   }"

fun branch_loop :: "keccak \<Rightarrow> nat \<Rightarrow> nat \<Rightarrow> h256 \<Rightarrow> h256 list \<Rightarrow> h256" where
  "branch_loop kc index i current [] = current"
| "branch_loop kc index i current (next # rest) =
     branch_loop kc index (Suc i)
       (if bit index i then hash_concat kc next current else hash_concat kc current next) rest"

text \<open>\<open>None\<close> is the failed assertion on the length of the proof.\<close>

definition merkle_root_from_branch ::
  "keccak \<Rightarrow> h256 \<Rightarrow> h256 list \<Rightarrow> nat \<Rightarrow> nat \<Rightarrow> h256 option" where
  "merkle_root_from_branch kc leaf branch depth index =
     (if length branch = depth then Some (branch_loop kc index 0 leaf branch) else None)"

definition verify_merkle_proof ::
  "keccak \<Rightarrow> h256 \<Rightarrow> h256 list \<Rightarrow> nat \<Rightarrow> nat \<Rightarrow> h256 \<Rightarrow> bool" where
  "verify_merkle_proof kc leaf branch depth index root =
     (if length branch = depth
      then merkle_root_from_branch kc leaf branch depth index = Some root
      else False)"

text \<open>A \<^verbatim>\<open>Proof\<close>; its \<^verbatim>\<open>path: [H256; TREE_DEPTH]\<close> is a list of that length (\<open>proof_valid\<close>).\<close>

record mproof =
  proof_leaf :: h256
  proof_index :: u64
  proof_path :: "h256 list"

definition proof_valid :: "mproof \<Rightarrow> bool" where
  "proof_valid p \<longleftrightarrow> length (proof_path p) = TREE_DEPTH"

definition proof_root :: "keccak \<Rightarrow> mproof \<Rightarrow> h256 option" where
  "proof_root kc p =
     merkle_root_from_branch kc (proof_leaf p) (proof_path p) TREE_DEPTH (unat (proof_index p))"

definition proof_write_to :: "mproof \<Rightarrow> written" where
  "proof_write_to p =
     (h256_bytes (proof_leaf p) @ to_be_bytes 8 (proof_index p) @
        concat (map h256_bytes (proof_path p)),
      32 + 8 + TREE_DEPTH * 32)"

primrec read_hashes :: "nat \<Rightarrow> bytes \<Rightarrow> io_error + h256 list \<times> bytes" where
  "read_hashes 0 r = Inr ([], r)"
| "read_hashes (Suc n) r =
     rbind (read_exact 32 r) (\<lambda>(item, r).
     rbind (read_hashes n r) (\<lambda>(items, r). Inr (h256_from_slice item # items, r)))"

definition proof_read_from :: "bytes \<Rightarrow> io_error + mproof \<times> bytes" where
  "proof_read_from r =
     rbind (read_exact 32 r) (\<lambda>(leaf, r).
     rbind (read_exact 8 r) (\<lambda>(index_bytes, r).
     rbind (read_hashes 32 r) (\<lambda>(path, r).
     Inr (\<lparr>proof_leaf = h256_from_slice leaf, proof_index = from_be_bytes index_bytes,
           proof_path = path\<rparr>, r))))"

section \<open>The reference tree\<close>

primrec mroot :: "keccak \<Rightarrow> nat \<Rightarrow> h256 list \<Rightarrow> h256" where
  "mroot kc 0 xs = (case xs of [] \<Rightarrow> 0 | x # _ \<Rightarrow> x)"
| "mroot kc (Suc d) xs =
     hash_concat kc (mroot kc d (take (2 ^ d) xs)) (mroot kc d (drop (2 ^ d) xs))"

primrec mpath :: "keccak \<Rightarrow> nat \<Rightarrow> h256 list \<Rightarrow> nat \<Rightarrow> h256 list" where
  "mpath kc 0 xs i = []"
| "mpath kc (Suc d) xs i =
     (if bit i d
      then mpath kc d (drop (2 ^ d) xs) i @ [mroot kc d (take (2 ^ d) xs)]
      else mpath kc d (take (2 ^ d) xs) i @ [mroot kc d (drop (2 ^ d) xs)])"

definition leaf_at :: "h256 list \<Rightarrow> nat \<Rightarrow> h256" where
  "leaf_at xs i = (if i < length xs then xs ! i else 0)"

text \<open>The leaf a walk along the low \<open>d\<close> bits of \<open>i\<close> ends at.\<close>

primrec walk_leaf :: "nat \<Rightarrow> h256 list \<Rightarrow> nat \<Rightarrow> h256" where
  "walk_leaf 0 xs i = (case xs of [] \<Rightarrow> 0 | x # _ \<Rightarrow> x)"
| "walk_leaf (Suc d) xs i =
     (if bit i d then walk_leaf d (drop (2 ^ d) xs) i else walk_leaf d (take (2 ^ d) xs) i)"

text \<open>The tree \<open>create\<close> and \<open>push_leaf\<close> are meant to maintain.\<close>

primrec spec_tree :: "keccak \<Rightarrow> nat \<Rightarrow> h256 list \<Rightarrow> merkle_tree" where
  "spec_tree kc 0 xs = (case xs of [] \<Rightarrow> Zero 0 | x # _ \<Rightarrow> Leaf x)"
| "spec_tree kc (Suc d) xs =
     (if xs = [] then Zero (Suc d)
      else Node (mroot kc (Suc d) xs)
             (spec_tree kc d (take (2 ^ d) xs)) (spec_tree kc d (drop (2 ^ d) xs)))"

text \<open>The table of zero hashes is the one of the hash function.\<close>

definition zero_table :: "keccak \<Rightarrow> bool" where
  "zero_table kc \<longleftrightarrow>
     (\<forall>i<TREE_DEPTH. ZERO_HASHES ! Suc i = hash_concat kc (ZERO_HASHES ! i) (ZERO_HASHES ! i))"

text \<open>
  The pairs hashed along the walk to leaf \<open>i\<close> in the reference tree, and the pairs hashed when a
  proof is evaluated. Keccak cannot be injective on all pairs; a proof is binding as long as it
  has no collision among these.
\<close>

primrec walk_pairs :: "keccak \<Rightarrow> nat \<Rightarrow> h256 list \<Rightarrow> nat \<Rightarrow> (h256 \<times> h256) list" where
  "walk_pairs kc 0 xs i = []"
| "walk_pairs kc (Suc d) xs i =
     (mroot kc d (take (2 ^ d) xs), mroot kc d (drop (2 ^ d) xs)) #
     (if bit i d then walk_pairs kc d (drop (2 ^ d) xs) i else walk_pairs kc d (take (2 ^ d) xs) i)"

fun branch_pairs :: "keccak \<Rightarrow> nat \<Rightarrow> nat \<Rightarrow> h256 \<Rightarrow> h256 list \<Rightarrow> (h256 \<times> h256) list" where
  "branch_pairs kc index i current [] = []"
| "branch_pairs kc index i current (next # rest) =
     (let p = (if bit index i then (next, current) else (current, next))
      in p # branch_pairs kc index (Suc i) (hash_concat kc (fst p) (snd p)) rest)"

definition collision_free :: "keccak \<Rightarrow> (h256 \<times> h256) list \<Rightarrow> bool" where
  "collision_free kc ps \<longleftrightarrow>
     (\<forall>p \<in> set ps. \<forall>q \<in> set ps.
        hash_concat kc (fst p) (snd p) = hash_concat kc (fst q) (snd q) \<longrightarrow> p = q)"

section \<open>The zero table\<close>

lemma length_ZERO_HASHES [simp]: "length ZERO_HASHES = 33"
  by (simp add: ZERO_HASHES_def)

lemma zero_hash_0 [simp]: "ZERO_HASHES ! 0 = 0"
  by (simp add: ZERO_HASHES_def)

lemma length_ZERO_NODES [simp]: "length ZERO_NODES = 33"
  by (simp add: ZERO_NODES_def)

lemma nth_ZERO_NODES [simp]: "d < 33 \<Longrightarrow> ZERO_NODES ! d = Zero d"
  unfolding ZERO_NODES_def by (subst nth_map) simp_all

lemma zero_hash_eq: "d \<le> 32 \<Longrightarrow> zero_hash d = Some (ZERO_HASHES ! d)"
  by (simp add: zero_hash_def)

lemma mroot_Nil:
  assumes "zero_table kc"
  shows "d \<le> TREE_DEPTH \<Longrightarrow> mroot kc d [] = ZERO_HASHES ! d"
proof (induction d)
  case 0
  then show ?case by simp
next
  case (Suc d)
  then have "ZERO_HASHES ! Suc d = hash_concat kc (ZERO_HASHES ! d) (ZERO_HASHES ! d)"
    using assms by (simp add: zero_table_def)
  with Suc show ?case by simp
qed

section \<open>Creating the tree\<close>

lemma mt_hash_spec_tree:
  assumes "zero_table kc" and "d \<le> TREE_DEPTH"
  shows "mt_hash (spec_tree kc d xs) = Some (mroot kc d xs)"
proof (cases d)
  case 0
  then show ?thesis by (cases xs) (simp_all add: zero_hash_def)
next
  case (Suc e)
  then show ?thesis
    using assms mroot_Nil [OF assms(1), of d]
    by (simp add: zero_hash_eq TREE_DEPTH_def)
qed

lemma create_spec_tree:
  assumes "zero_table kc"
  shows "d \<le> TREE_DEPTH \<Longrightarrow> create kc xs d = Some (spec_tree kc d xs)"
proof (induction d arbitrary: xs)
  case 0
  then show ?case by (simp split: list.splits)
next
  case (Suc d)
  then have d: "d \<le> TREE_DEPTH" by simp
  show ?case
  proof (cases "length xs \<le> 2 ^ d")
    case True
    then show ?thesis
      using Suc.IH [OF d] mt_hash_spec_tree [OF assms d] by simp
  next
    case False
    then show ?thesis
      using Suc.IH [OF d] mt_hash_spec_tree [OF assms d] by (auto simp: Let_def)
  qed
qed

section \<open>Pushing a leaf\<close>

lemma spec_tree_shape:
  "xs \<noteq> [] \<Longrightarrow> 0 < d \<Longrightarrow> \<exists>h l r. spec_tree kc d xs = Node h l r"
  by (cases d) auto

lemma take_drop_snoc:
  "length xs < n \<Longrightarrow> take n (xs @ [x]) = xs @ [x] \<and> drop n (xs @ [x]) = []"
  "n \<le> length xs \<Longrightarrow> take n (xs @ [x]) = take n xs \<and> drop n (xs @ [x]) = drop n xs @ [x]"
  by auto

lemma push_leaf_full_spec:
  "0 < d \<Longrightarrow> length xs = 2 ^ d \<Longrightarrow> push_leaf kc x d (spec_tree kc d xs) = Inl (Err MerkleTreeFull)"
proof (induction d arbitrary: xs)
  case 0
  then show ?case by simp
next
  case (Suc d)
  let ?l = "take (2 ^ d) xs" and ?r = "drop (2 ^ d) xs"
  have ne: "xs \<noteq> []" "?l \<noteq> []" "?r \<noteq> []" and len: "length ?l = 2 ^ d" "length ?r = 2 ^ d"
    using Suc.prems by auto
  show ?case
  proof (cases d)
    case 0
    with ne len show ?thesis by (auto split: list.splits)
  next
    case (Suc e)
    then obtain h l r h' l' r' where "spec_tree kc d ?l = Node h l r" "spec_tree kc d ?r = Node h' l' r'"
      using spec_tree_shape ne by (metis zero_less_Suc)
    moreover have "push_leaf kc x d (spec_tree kc d ?r) = Inl (Err MerkleTreeFull)"
      using Suc.IH [of ?r] Suc len by simp
    ultimately show ?thesis using ne by simp
  qed
qed

lemma spec_tree_Nil: "spec_tree kc d [] = Zero d"
  by (cases d) simp_all

lemma push_leaf_left_step:
  assumes zt: "zero_table kc" and d: "0 < d" "d \<le> TREE_DEPTH" and xs: "xs \<noteq> []" "length xs < 2 ^ d"
    and push: "push_leaf kc x d (spec_tree kc d xs) = Inr (spec_tree kc d (xs @ [x]))"
  shows "push_leaf kc x (Suc d) (spec_tree kc (Suc d) xs) = Inr (spec_tree kc (Suc d) (xs @ [x]))"
proof -
  obtain h l r where node: "spec_tree kc d xs = Node h l r"
    using spec_tree_shape d xs by blast
  have zh: "mt_hash (Zero d) = Some (mroot kc d [])"
    using mt_hash_spec_tree [OF zt d(2), of "[]"] by (simp add: spec_tree_Nil)
  show ?thesis
    using xs node push mt_hash_spec_tree [OF zt d(2), of "xs @ [x]"] zh
    by (simp add: take_drop_snoc spec_tree_Nil)
qed

lemma push_leaf_right_step:
  assumes zt: "zero_table kc" and d: "0 < d" "d \<le> TREE_DEPTH"
    and len: "2 ^ d \<le> length xs" "length xs < 2 ^ Suc d"
    and push: "\<And>ys. length ys < 2 ^ d \<Longrightarrow>
      push_leaf kc x d (spec_tree kc d ys) = Inr (spec_tree kc d (ys @ [x]))"
  shows "push_leaf kc x (Suc d) (spec_tree kc (Suc d) xs) = Inr (spec_tree kc (Suc d) (xs @ [x]))"
proof -
  let ?l = "take (2 ^ d) xs" and ?r = "drop (2 ^ d) xs"
  note hash = mt_hash_spec_tree [OF zt d(2)]
  have ne: "xs \<noteq> []" "?l \<noteq> []" and "length ?l = 2 ^ d" "length ?r < 2 ^ d"
    using len by auto
  then obtain h l r where nl: "spec_tree kc d ?l = Node h l r"
    and full: "push_leaf kc x d (spec_tree kc d ?l) = Inl (Err MerkleTreeFull)"
    using spec_tree_shape d push_leaf_full_spec by metis
  show ?thesis
  proof (cases "?r = []")
    case True
    with ne nl full len hash [of ?l] hash [of "[x]"] create_spec_tree [OF zt d(2), of "[x]"]
    show ?thesis by (simp add: take_drop_snoc spec_tree_Nil)
  next
    case False
    then obtain h' l' r' where nr: "spec_tree kc d ?r = Node h' l' r'"
      using spec_tree_shape d by blast
    with ne nl len push [OF \<open>length ?r < 2 ^ d\<close>] hash [of ?l] hash [of "?r @ [x]"]
    show ?thesis by (simp add: take_drop_snoc)
  qed
qed

lemma push_leaf_spec_tree:
  assumes zt: "zero_table kc"
  shows "0 < d \<Longrightarrow> d \<le> TREE_DEPTH \<Longrightarrow> length xs < 2 ^ d \<Longrightarrow>
    push_leaf kc x d (spec_tree kc d xs) = Inr (spec_tree kc d (xs @ [x]))"
proof (induction d arbitrary: xs)
  case 0
  then show ?case by simp
next
  case (Suc d)
  have d: "d \<le> TREE_DEPTH" using Suc.prems by simp
  consider (empty) "xs = []" | (bottom) "xs \<noteq> []" "d = 0"
    | (left) "xs \<noteq> []" "0 < d" "length xs < 2 ^ d" | (right) "0 < d" "2 ^ d \<le> length xs"
    by linarith
  then show ?case
  proof cases
    case empty
    then show ?thesis using create_spec_tree [OF zt Suc.prems(2), of "[x]"] by simp
  next
    case bottom
    with Suc.prems obtain y where "xs = [y]" by (cases xs) auto
    with bottom show ?thesis by (simp add: zero_hash_def)
  next
    case left
    then show ?thesis using Suc.IH d by (intro push_leaf_left_step [OF zt]) auto
  next
    case right
    then show ?thesis using Suc.IH Suc.prems d by (intro push_leaf_right_step [OF zt]) auto
  qed
qed

section \<open>Proofs\<close>

lemma branch_loop_append:
  "branch_loop kc index i c (xs @ ys) =
   branch_loop kc index (i + length xs) (branch_loop kc index i c xs) ys"
  by (induction xs arbitrary: i c) simp_all

lemma length_mpath [simp]: "length (mpath kc d xs i) = d"
  by (induction d arbitrary: xs) simp_all

lemma mod_pow_Suc_bit:
  fixes i :: nat
  shows "bit i d \<Longrightarrow> i mod 2 ^ Suc d = 2 ^ d + i mod 2 ^ d"
    and "\<not> bit i d \<Longrightarrow> i mod 2 ^ Suc d = i mod 2 ^ d"
  using mod_mult2_eq [of i "2 ^ d" 2]
  by (simp_all add: bit_iff_odd mult.commute odd_iff_mod_2_eq_one even_iff_mod_2_eq_zero)

lemma walk_leaf_eq: "walk_leaf d xs i = leaf_at xs (i mod 2 ^ d)"
  if "length xs \<le> 2 ^ d"
  using that
proof (induction d arbitrary: xs)
  case 0
  then show ?case by (cases xs) (simp_all add: leaf_at_def)
next
  case (Suc d)
  have lt: "i mod 2 ^ d < 2 ^ d" by simp
  have "length (drop (2 ^ d) xs) \<le> 2 ^ d" using Suc.prems by simp
  then have "walk_leaf d (drop (2 ^ d) xs) i = leaf_at (drop (2 ^ d) xs) (i mod 2 ^ d)"
    by (rule Suc.IH)
  with Suc lt show ?case
    by (cases "bit i d") (auto simp: leaf_at_def mod_pow_Suc_bit simp del: power_Suc)
qed

lemma branch_loop_mpath:
  "branch_loop kc i 0 (walk_leaf d xs i) (mpath kc d xs i) = mroot kc d xs"
  by (induction d arbitrary: xs) (simp_all add: branch_loop_append)

lemma branches_spec_tree:
  assumes "Suc d \<le> TREE_DEPTH"
  shows "left_and_right_branches (spec_tree kc (Suc d) xs) =
    Some (Some (spec_tree kc d (take (2 ^ d) xs), spec_tree kc d (drop (2 ^ d) xs)))"
  using assms
  by (auto simp: left_and_right_branches_def spec_tree_Nil TREE_DEPTH_def)

lemma generate_proof_loop_spec:
  assumes zt: "zero_table kc"
  shows "d \<le> TREE_DEPTH \<Longrightarrow>
    \<exists>t. generate_proof_loop i (spec_tree kc d xs) d acc = Some (t, acc @ rev (mpath kc d xs i)) \<and>
        mt_hash t = Some (walk_leaf d xs i) \<and> (is_leaf t \<longleftrightarrow> i mod 2 ^ d < length xs)"
proof (induction d arbitrary: xs acc)
  case 0
  then show ?case by (simp add: zero_hash_def split: list.splits)
next
  case (Suc d)
  then have d: "d \<le> TREE_DEPTH" by simp
  note hash = mt_hash_spec_tree [OF zt d]
  have lt: "i mod 2 ^ d < 2 ^ d" by simp
  have half: "i mod 2 ^ Suc d < length xs \<longleftrightarrow>
      i mod 2 ^ d < length (if bit i d then drop (2 ^ d) xs else take (2 ^ d) xs)"
    using lt by (cases "bit i d") (auto simp: mod_pow_Suc_bit simp del: power_Suc)
  show ?case
    unfolding half
    using Suc.IH [OF d, of "drop (2 ^ d) xs" "acc @ [mroot kc d (take (2 ^ d) xs)]"]
      Suc.IH [OF d, of "take (2 ^ d) xs" "acc @ [mroot kc d (drop (2 ^ d) xs)]"]
    by (cases "bit i d") (simp_all add: branches_spec_tree [OF Suc.prems] hash del: spec_tree.simps)
qed

lemma generate_proof_spec:
  assumes "zero_table kc" and "d \<le> TREE_DEPTH"
  shows "generate_proof (spec_tree kc d xs) i d =
    (if i mod 2 ^ d < length xs then Some (walk_leaf d xs i, mpath kc d xs i) else None)"
  using generate_proof_loop_spec [OF assms, of i xs "[]"] by (auto simp: generate_proof_def)

text \<open>Binding: a path that leads from a leaf to the root carries the right leaf.\<close>

lemma branch_pairs_append:
  "branch_pairs kc index i c (xs @ ys) =
   branch_pairs kc index i c xs @
   branch_pairs kc index (i + length xs) (branch_loop kc index i c xs) ys"
proof (induction xs arbitrary: i c)
  case Nil
  then show ?case by simp
next
  case (Cons x xs)
  then show ?case by (cases "bit index i") (simp_all add: Let_def)
qed

lemma collision_free_subset:
  "collision_free kc ps \<Longrightarrow> set qs \<subseteq> set ps \<Longrightarrow> collision_free kc qs"
  unfolding collision_free_def by blast

lemma branch_loop_binding:
  assumes "length branch = d" and "branch_loop kc i 0 leaf branch = mroot kc d xs"
    and "collision_free kc (branch_pairs kc i 0 leaf branch @ walk_pairs kc d xs i)"
  shows "leaf = walk_leaf d xs i"
  using assms
proof (induction d arbitrary: branch xs)
  case 0
  then show ?case by simp
next
  case (Suc d)
  then obtain sib rest where branch: "branch = rest @ [sib]" and len: "length rest = d"
    by (cases branch rule: rev_cases) auto
  let ?c = "branch_loop kc i 0 leaf rest"
  let ?l = "mroot kc d (take (2 ^ d) xs)" and ?r = "mroot kc d (drop (2 ^ d) xs)"
  let ?p = "if bit i d then (sib, ?c) else (?c, sib)"
  have "?p = (?l, ?r)"
    using Suc.prems(2,3) branch len
    by (auto simp: collision_free_def branch_pairs_append branch_loop_append Let_def)
  then have c: "?c = (if bit i d then ?r else ?l)"
    by (simp split: if_splits)
  let ?ys = "if bit i d then drop (2 ^ d) xs else take (2 ^ d) xs"
  have "collision_free kc (branch_pairs kc i 0 leaf rest @ walk_pairs kc d ?ys i)"
    by (rule collision_free_subset [OF Suc.prems(3)])
       (auto simp: branch branch_pairs_append)
  then have "leaf = walk_leaf d ?ys i"
    using Suc.IH [OF len, of ?ys] c by simp
  then show ?case by simp
qed

section \<open>The encoding of a proof\<close>

lemma read_hashes_append:
  "length hs = n \<Longrightarrow> read_hashes n (concat (map h256_bytes hs) @ rest) = Inr (hs, rest)"
proof (induction n arbitrary: hs)
  case 0
  then show ?case by simp
next
  case (Suc n)
  then obtain h hs' where "hs = h # hs'" "length hs' = n" by (cases hs) auto
  with Suc.IH [of hs'] show ?case by simp
qed

lemma read_hashes_canonical:
  "read_hashes n bs = Inr (hs, rest) \<Longrightarrow> bs = concat (map h256_bytes hs) @ rest \<and> length hs = n"
proof (induction n arbitrary: bs hs)
  case 0
  then show ?case by simp
next
  case (Suc n)
  then show ?case by (fastforce simp: result_simps)
qed

lemma length_hash_bytes: "length (concat (map h256_bytes hs)) = 32 * length hs"
  by (induction hs) simp_all

interpretation proof_enc: prefix_encoding proof_write_to proof_read_from proof_valid
proof
  fix p rest
  assume "proof_valid p"
  then have len: "length (proof_path p) = 32" by (simp add: proof_valid_def TREE_DEPTH_def)
  show "proof_read_from (fst (proof_write_to p) @ rest) = Inr (p, rest)"
    using read_hashes_append [OF len]
    by (cases p) (simp add: proof_write_to_def proof_read_from_def)
  then show "proof_read_from (fst (proof_write_to p)) = Inr (p, [])"
    using read_hashes_append [OF len, of "[]"]
    by (cases p) (simp add: proof_write_to_def proof_read_from_def)
  show "snd (proof_write_to p) = length (fst (proof_write_to p))"
    using len by (simp add: proof_write_to_def length_hash_bytes TREE_DEPTH_def)
next
  fix bs p rest
  assume "proof_read_from bs = Inr (p, rest)"
  then obtain leaf idx path r1 r2 where "read_exact 32 bs = Inr (leaf, r1)"
    "read_exact 8 r1 = Inr (idx, r2)" "read_hashes 32 r2 = Inr (path, rest)"
    and p: "p = \<lparr>proof_leaf = h256_from_slice leaf, proof_index = from_be_bytes idx, proof_path = path\<rparr>"
    by (auto simp: proof_read_from_def result_simps)
  then show "bs = fst (proof_write_to p) @ rest \<and> proof_valid p"
    using read_hashes_canonical [of 32 r2 path rest]
    by (auto simp: proof_write_to_def proof_valid_def TREE_DEPTH_def result_simps)
qed

section \<open>A hash that agrees with the table\<close>

text \<open>
  A concrete stand-in for Keccak-256, for the witnesses: on the inputs the table fixes it gives
  the table's hash, elsewhere the big endian reading of its input.
\<close>

definition table_keccak :: keccak where
  "table_keccak bs =
     (case map_of (zip (map (\<lambda>z. h256_bytes z @ h256_bytes z) (butlast ZERO_HASHES)) (tl ZERO_HASHES)) bs of
        Some z \<Rightarrow> z
      | None \<Rightarrow> from_be_bytes bs)"

lemma distinct_ZERO_HASHES: "distinct ZERO_HASHES"
proof -
  have "distinct (map uint ZERO_HASHES)" by (simp add: ZERO_HASHES_def)
  then show ?thesis by (simp add: distinct_map)
qed

lemma zero_table_table_keccak: "zero_table table_keccak"
  unfolding zero_table_def
proof (intro allI impI)
  fix i assume "i < TREE_DEPTH"
  then have i: "i < 32" by (simp add: TREE_DEPTH_def)
  let ?ks = "map (\<lambda>z. h256_bytes z @ h256_bytes z) (butlast ZERO_HASHES)"
  have "length ?ks = length (tl ZERO_HASHES)"
    by simp
  moreover have "distinct ?ks"
    using distinct_ZERO_HASHES by (auto simp: distinct_map distinct_butlast inj_on_def)
  moreover have "i < length (tl ZERO_HASHES)"
    using i by simp
  ultimately have "map_of (zip ?ks (tl ZERO_HASHES)) (?ks ! i) = Some (tl ZERO_HASHES ! i)"
    by (rule map_of_zip_nth)
  moreover have "?ks ! i = h256_bytes (ZERO_HASHES ! i) @ h256_bytes (ZERO_HASHES ! i)"
    using i by (simp add: nth_butlast)
  moreover have "tl ZERO_HASHES ! i = ZERO_HASHES ! Suc i"
    using i by (simp add: nth_tl)
  ultimately show "ZERO_HASHES ! Suc i = hash_concat table_keccak (ZERO_HASHES ! i) (ZERO_HASHES ! i)"
    by (simp add: hash_concat_def table_keccak_def)
qed

section \<open>Properties\<close>

text \<open>
  \<^verbatim>\<open>MerkleTree::create\<close> never panics up to the tree depth and builds a tree whose root hash is
  that of the complete binary tree over the given leaves padded with zero leaves.
\<close>

theorem create_root:
  assumes "zero_table kc" and "d \<le> TREE_DEPTH" and "length xs \<le> 2 ^ d"
  shows "\<exists>t. create kc xs d = Some t \<and> mt_hash t = Some (mroot kc d xs)"
  using create_spec_tree [OF assms(1,2)] mt_hash_spec_tree [OF assms(1,2)] by blast

theorem create_root_witness:
  "\<exists>t. create table_keccak [1, 2, 3] 2 = Some t \<and>
       mt_hash t = Some (mroot table_keccak 2 [1, 2, 3])"
  by (rule create_root) (simp_all add: zero_table_table_keccak TREE_DEPTH_def)

text \<open>
  C23. \<^verbatim>\<open>MerkleTree::push_leaf\<close> implements appending: on the tree created from \<open>xs\<close> it gives the tree
  created from \<open>xs @ [x]\<close>, and reports \<^verbatim>\<open>MerkleTreeFull\<close> exactly when all leaves are taken.
\<close>

theorem push_leaf_appends:
  assumes "zero_table kc" and "0 < d" and "d \<le> TREE_DEPTH" and "length xs \<le> 2 ^ d"
    and "create kc xs d = Some t"
  shows "push_leaf kc x d t =
    (if length xs = 2 ^ d then Inl (Err MerkleTreeFull) else unwrap (create kc (xs @ [x]) d))"
proof -
  have "t = spec_tree kc d xs" using assms(5) create_spec_tree [OF assms(1,3)] by simp
  then show ?thesis
    using assms push_leaf_full_spec push_leaf_spec_tree create_spec_tree [OF assms(1,3)] by auto
qed

theorem push_leaf_appends_witness:
  "\<exists>t. create table_keccak [7] 1 = Some t \<and>
       push_leaf table_keccak 8 1 t = unwrap (create table_keccak [7, 8] 1)"
proof -
  have d: "(1::nat) \<le> TREE_DEPTH" by (simp add: TREE_DEPTH_def)
  obtain t where t: "create table_keccak [7] 1 = Some t"
    using create_spec_tree [OF zero_table_table_keccak d] by blast
  show ?thesis
    using t push_leaf_appends [OF zero_table_table_keccak _ d _ t, of 8] by simp
qed

text \<open>
  C25. \<^verbatim>\<open>MerkleTree::generate_proof\<close> is complete and its assertions are exact: for the index of a pushed leaf
  it returns that leaf with a branch of the length of the tree that \<^verbatim>\<open>verify_merkle_proof\<close> accepts against
  the root of the tree, and the only indices of the tree at which \<^verbatim>\<open>debug_assert!(current_node.is_leaf())\<close>
  fails are those past the last leaf.
\<close>

theorem generate_proof_verifies:
  assumes "zero_table kc" and "d \<le> TREE_DEPTH" and "length xs \<le> 2 ^ d" and "i < 2 ^ d"
    and "create kc xs d = Some t" and "mt_hash t = Some root"
  shows "(i < length xs \<longrightarrow> (\<exists>branch. generate_proof t i d = Some (xs ! i, branch) \<and>
      length branch = d \<and> verify_merkle_proof kc (xs ! i) branch d i root)) \<and>
    (\<not> i < length xs \<longrightarrow> generate_proof t i d = None)"
proof -
  have t: "t = spec_tree kc d xs" using assms(5) create_spec_tree [OF assms(1,2)] by simp
  have root: "root = mroot kc d xs" using assms(6) t mt_hash_spec_tree [OF assms(1,2)] by simp
  have leaf: "walk_leaf d xs i = leaf_at xs i"
    using walk_leaf_eq [OF assms(3), of i] assms(4) by simp
  show ?thesis
    using generate_proof_spec [OF assms(1,2), of xs i] branch_loop_mpath [of kc i d xs] assms(4)
    by (cases "i < length xs")
       (simp_all add: t root leaf leaf_at_def verify_merkle_proof_def merkle_root_from_branch_def)
qed

theorem generate_proof_verifies_witness:
  "\<exists>t branch. create table_keccak [5, 6, 7] 2 = Some t \<and>
     generate_proof t 2 2 = Some (7, branch) \<and> generate_proof t 3 2 = None \<and>
     verify_merkle_proof table_keccak 7 branch 2 2 (mroot table_keccak 2 [5, 6, 7])"
proof -
  have d: "(2::nat) \<le> TREE_DEPTH" by (simp add: TREE_DEPTH_def)
  obtain t where t: "create table_keccak [5, 6, 7] 2 = Some t"
    and h: "mt_hash t = Some (mroot table_keccak 2 [5, 6, 7])"
    using create_spec_tree [OF zero_table_table_keccak d]
      mt_hash_spec_tree [OF zero_table_table_keccak d] by blast
  show ?thesis
    using t generate_proof_verifies [OF zero_table_table_keccak d _ _ t h, of 2]
      generate_proof_verifies [OF zero_table_table_keccak d _ _ t h, of 3] by auto
qed

text \<open>
  C24. A Merkle proof is binding: if \<^verbatim>\<open>verify_merkle_proof\<close> accepts a leaf at an index against the
  root of a tree, then it is the leaf stored there, provided the hash has no collision among the
  pairs hashed by this proof and along this path of the tree.
\<close>

theorem verify_merkle_proof_binding:
  assumes "length xs \<le> 2 ^ d" and "i < 2 ^ d"
    and "verify_merkle_proof kc leaf branch d i (mroot kc d xs)"
    and "collision_free kc (branch_pairs kc i 0 leaf branch @ walk_pairs kc d xs i)"
  shows "leaf = leaf_at xs i"
proof -
  have "length branch = d" "branch_loop kc i 0 leaf branch = mroot kc d xs"
    using assms(3)
    by (auto simp: verify_merkle_proof_def merkle_root_from_branch_def split: if_splits)
  then show ?thesis
    using branch_loop_binding [OF _ _ assms(4)] walk_leaf_eq [OF assms(1), of i] assms(2) by simp
qed

theorem verify_merkle_proof_binding_witness:
  "verify_merkle_proof table_keccak 1 [2] 1 0 (mroot table_keccak 1 [1, 2]) \<and>
   (1 :: h256) = leaf_at [1, 2] 0"
proof -
  have v: "verify_merkle_proof table_keccak 1 [2] 1 0 (mroot table_keccak 1 [1, 2])"
    by (simp add: verify_merkle_proof_def merkle_root_from_branch_def)
  have "collision_free table_keccak
          (branch_pairs table_keccak 0 0 1 [2] @ walk_pairs table_keccak 1 [1, 2] 0)"
    by (simp add: collision_free_def Let_def)
  then show ?thesis
    using v verify_merkle_proof_binding [of "[1, 2]" 1 0 table_keccak 1 "[2]"] by simp
qed

text \<open>
  The byte encoding of a proof round-trips: \<^verbatim>\<open>read_from\<close> gives back exactly the proof that was
  written and leaves the bytes after it, it accepts nothing else, and the count \<^verbatim>\<open>write_to\<close>
  returns is the number of bytes written.
\<close>

theorem proof_roundtrip:
  assumes "proof_valid p"
  shows "(proof_read_from bs = Inr (p, rest) \<longleftrightarrow> bs = to_vec proof_write_to p @ rest) \<and>
    snd (proof_write_to p) = length (to_vec proof_write_to p)"
  using assms proof_enc.read_iff [of bs p rest] proof_enc.count
  by (auto simp: to_vec_def)

theorem proof_roundtrip_witness:
  "proof_read_from (to_vec proof_write_to \<lparr>proof_leaf = 1, proof_index = 2, proof_path = replicate 32 3\<rparr> @ [9]) =
   Inr (\<lparr>proof_leaf = 1, proof_index = 2, proof_path = replicate 32 3\<rparr>, [9])"
  using proof_roundtrip [of "\<lparr>proof_leaf = 1, proof_index = 2, proof_path = replicate 32 3\<rparr>"]
  by (simp add: proof_valid_def TREE_DEPTH_def)

end
