(* ===== verification/Incremental.thy ===== *)
theory Incremental
  imports Merkle
begin

text \<open>
  The incremental Merkle tree of \<^verbatim>\<open>hyperlane-core/src/accumulator/incremental.rs\<close>, the accumulator
  the outbox of a mailbox keeps: the leading-edge branch of 32 hashes and the number of leaves.

  Its abstraction is the list of leaves ingested so far: \<open>represents kc t xs\<close> says that the entries
  of the branch that the binary digits of the count select are the roots of the complete blocks of
  \<open>xs\<close>. Ingesting appends a leaf and \<^verbatim>\<open>root\<close> is the root of the reference tree \<open>mroot\<close> over the
  leaves, so that this tree and the full tree of the theory Merkle are two implementations of one
  interface, the locale \<open>accumulator\<close>.
\<close>

section \<open>Model\<close>

text \<open>\<^verbatim>\<open>IncrementalMerkle\<close>; the array \<^verbatim>\<open>branch: [H256; TREE_DEPTH]\<close> is a list of that length.\<close>

record incremental_merkle =
  im_branch :: "h256 list"
  im_count :: u64

definition im_default :: incremental_merkle where
  "im_default = \<lparr>im_branch = map (\<lambda>i. ZERO_HASHES ! i) [0..<TREE_DEPTH], im_count = 0\<rparr>"

text \<open>The loop of \<^verbatim>\<open>ingest\<close> over the remaining levels: the updated branch.\<close>

fun ingest_loop :: "keccak \<Rightarrow> nat list \<Rightarrow> h256 \<Rightarrow> u64 \<Rightarrow> h256 list \<Rightarrow> h256 list" where
  "ingest_loop kc [] node size' branch = branch"
| "ingest_loop kc (i # levels) node size' branch =
     (if and size' 1 = 1 then branch[i := node]
      else ingest_loop kc levels (hash_concat kc (branch ! i) node) (size' div 2) branch)"

text \<open>\<open>None\<close> is the failed assertion \<^verbatim>\<open>self.count < u32::MAX\<close>.\<close>

definition ingest :: "keccak \<Rightarrow> h256 \<Rightarrow> incremental_merkle \<Rightarrow> incremental_merkle option" where
  "ingest kc element t =
     (if im_count t < 0xffffffff
      then let count = im_count t + 1
           in Some \<lparr>im_branch = ingest_loop kc [0..<TREE_DEPTH] element count (im_branch t),
                    im_count = count\<rparr>
      else None)"

fun root_loop :: "keccak \<Rightarrow> nat \<Rightarrow> h256 list \<Rightarrow> h256 \<Rightarrow> u64 \<Rightarrow> h256" where
  "root_loop kc i [] node size' = node"
| "root_loop kc i (elem # branch) node size' =
     root_loop kc (Suc i) branch
       (if and size' 1 = 1 then hash_concat kc elem node
        else hash_concat kc node (ZERO_HASHES ! i))
       (size' div 2)"

definition im_root :: "keccak \<Rightarrow> incremental_merkle \<Rightarrow> h256" where
  "im_root kc t = root_loop kc 0 (im_branch t) 0 (im_count t)"

text \<open>
  \<^verbatim>\<open>index\<close> truncates the count to 32 bits before it subtracts one; \<open>None\<close> is the failed assertion
  on an empty tree.
\<close>

definition im_index :: "incremental_merkle \<Rightarrow> u32 option" where
  "im_index t = (if im_count t > 0 then Some (ucast (im_count t) - 1) else None)"

definition branch_root :: "keccak \<Rightarrow> h256 \<Rightarrow> h256 list \<Rightarrow> nat \<Rightarrow> h256 option" where
  "branch_root kc item branch index = merkle_root_from_branch kc item branch 32 index"

definition im_verify :: "keccak \<Rightarrow> incremental_merkle \<Rightarrow> mproof \<Rightarrow> bool option" where
  "im_verify kc t proof =
     (case branch_root kc (proof_leaf proof) (proof_path proof) (unat (proof_index proof)) of
        None \<Rightarrow> None
      | Some computed \<Rightarrow> Some (computed = im_root kc t))"

text \<open>Ingesting a sequence of leaves, as the callers do.\<close>

fun ingest_all :: "keccak \<Rightarrow> h256 list \<Rightarrow> incremental_merkle \<Rightarrow> incremental_merkle option" where
  "ingest_all kc [] t = Some t"
| "ingest_all kc (x # xs) t = Option.bind (ingest kc x t) (ingest_all kc xs)"

section \<open>Blocks of leaves\<close>

text \<open>The \<open>k\<close>th aligned block of \<open>2 ^ i\<close> leaves.\<close>

definition chunk :: "nat \<Rightarrow> nat \<Rightarrow> h256 list \<Rightarrow> h256 list" where
  "chunk i k xs = take (2 ^ i) (drop (2 ^ i * k) xs)"

definition represents :: "keccak \<Rightarrow> incremental_merkle \<Rightarrow> h256 list \<Rightarrow> bool" where
  "represents kc t xs \<longleftrightarrow>
     length (im_branch t) = TREE_DEPTH \<and>
     unat (im_count t) = length xs \<and> length xs < 2 ^ TREE_DEPTH \<and>
     (\<forall>i<TREE_DEPTH. odd (length xs div 2 ^ i) \<longrightarrow>
        im_branch t ! i = mroot kc i (chunk i (length xs div 2 ^ i - 1) xs))"

lemma mroot_chunk_Suc:
  "mroot kc (Suc i) (chunk (Suc i) k xs) =
   hash_concat kc (mroot kc i (chunk i (2 * k) xs)) (mroot kc i (chunk i (Suc (2 * k)) xs))"
proof -
  have "take (2 ^ i) (chunk (Suc i) k xs) = chunk i (2 * k) xs"
    by (simp add: chunk_def min_def ac_simps)
  moreover have "drop (2 ^ i) (chunk (Suc i) k xs) = chunk i (Suc (2 * k)) xs"
    by (simp add: chunk_def drop_take algebra_simps)
  ultimately show ?thesis by simp
qed

lemma chunk_append: "2 ^ i * Suc k \<le> length xs \<Longrightarrow> chunk i k (xs @ ys) = chunk i k xs"
  by (simp add: chunk_def)

lemma chunk_beyond: "length xs \<le> 2 ^ i * k \<Longrightarrow> chunk i k xs = []"
  by (simp add: chunk_def)

lemma odd_word_iff: "and w (1 :: 'a::len word) = 1 \<longleftrightarrow> odd (unat w)"
proof -
  have "bit (unat w) 0 = bit w 0" by (simp add: bit_unsigned_iff)
  then have "odd w \<longleftrightarrow> odd (unat w)" by (simp add: bit_0)
  then show ?thesis by (simp add: and_one_eq odd_iff_mod_2_eq_one)
qed

lemma unat_div_two: "LENGTH('a) > 1 \<Longrightarrow> unat (w div 2 :: 'a::len word) = unat w div 2"
  by (simp add: unat_div)

lemma div_pow_Suc: "(n::nat) div 2 ^ Suc i = n div 2 ^ i div 2"
  by (metis div_mult2_eq power_Suc2)

text \<open>A block that ends at or before the last complete block boundary lies within the list.\<close>

lemma chunk_within: "0 < n div 2 ^ i \<Longrightarrow> n \<le> length xs \<Longrightarrow>
   chunk i (n div 2 ^ i - 1) (xs @ ys) = chunk i (n div 2 ^ i - 1) xs"
  by (rule chunk_append) (metis Suc_pred' le_trans mult.commute div_times_less_eq_dividend)

section \<open>Ingesting\<close>

lemma pred_div_dvd:
  fixes m :: nat
  assumes "2 ^ i dvd m" and "0 < m"
  shows "(m - 1) div 2 ^ i = m div 2 ^ i - 1"
proof -
  obtain k where k: "m = 2 ^ i * k" using assms(1) by (elim dvdE)
  with assms(2) obtain j where j: "k = Suc j" by (cases k) auto
  have m: "m - 1 = (2 ^ i - 1) + 2 ^ i * j" using k j by simp
  have "(m - 1) div 2 ^ i = j" unfolding m by (subst div_mult_self2) simp_all
  then show ?thesis using k j by simp
qed

text \<open>Above the lowest set digit \<open>i\<close> of \<open>m\<close> its digits are those of \<open>m - 1\<close>.\<close>

lemma pred_div_above:
  fixes m :: nat
  assumes "2 ^ i dvd m" and "odd (m div 2 ^ i)" and "i < j"
  shows "(m - 1) div 2 ^ j = m div 2 ^ j"
proof -
  have m: "0 < m" using assms(2) by (cases m) auto
  have j: "2 ^ j = 2 ^ i * (2 ^ (j - i) :: nat)"
    using assms(3) by (simp flip: power_add)
  obtain b where b: "m div 2 ^ i = 2 * b + 1" using assms(2) by (elim oddE)
  have "(1 + 2 * b) div 2 ^ (j - i) = 2 * b div 2 ^ (j - i)"
    using assms(3) by (intro even_succ_div_exp) simp_all
  then have "(m div 2 ^ i - 1) div 2 ^ (j - i) = m div 2 ^ i div 2 ^ (j - i)"
    by (simp add: b)
  then show ?thesis
    using pred_div_dvd [OF assms(1) m] by (simp add: j div_mult2_eq)
qed

text \<open>
  The state of the loop at level \<open>i\<close>: \<open>m\<close> leaves with the new one, no digit set below \<open>i\<close>, and the
  node is the root of the last block of \<open>2 ^ i\<close> leaves.
\<close>

lemma ingest_loop_step:
  assumes rep: "represents kc t xs" and i: "i < TREE_DEPTH" and dvd: "2 ^ Suc i dvd Suc (length xs)"
    and node: "node = mroot kc i (chunk i (Suc (length xs) div 2 ^ i - 1) (xs @ [x]))"
  shows "hash_concat kc (im_branch t ! i) node =
    mroot kc (Suc i) (chunk (Suc i) (Suc (length xs) div 2 ^ Suc i - 1) (xs @ [x]))"
proof -
  let ?n = "length xs"
  obtain k where k: "Suc ?n = 2 ^ Suc i * k" using dvd by (elim dvdE)
  then obtain j where j: "k = Suc j" by (cases k) auto
  have q: "Suc ?n div 2 ^ i = 2 * Suc j" "Suc ?n div 2 ^ Suc i = Suc j"
    using k j by (simp_all add: div_mult_self1_is_m mult.assoc del: power_Suc) (simp add: mult.assoc)
  have "?n div 2 ^ i = Suc (2 * j)"
    using pred_div_dvd [of i "Suc ?n"] dvd q by (simp add: power_le_dvd)
  moreover from this have "im_branch t ! i = mroot kc i (chunk i (2 * j) xs)"
    using rep i by (simp add: represents_def)
  moreover have "chunk i (2 * j) (xs @ [x]) = chunk i (2 * j) xs"
    using chunk_within [of ?n i xs "[x]"] calculation(1) by simp
  ultimately show ?thesis
    by (simp add: q node mroot_chunk_Suc del: mroot.simps power_Suc)
qed

lemma ingest_loop_done:
  assumes rep: "represents kc t xs" and i: "i < TREE_DEPTH" and dvd: "2 ^ i dvd Suc (length xs)"
    and odd: "odd (Suc (length xs) div 2 ^ i)"
    and node: "node = mroot kc i (chunk i (Suc (length xs) div 2 ^ i - 1) (xs @ [x]))"
    and j: "j < TREE_DEPTH" "odd (Suc (length xs) div 2 ^ j)"
  shows "(im_branch t)[i := node] ! j =
    mroot kc j (chunk j (Suc (length xs) div 2 ^ j - 1) (xs @ [x]))"
proof -
  have len: "length (im_branch t) = TREE_DEPTH" using rep by (simp add: represents_def)
  consider (below) "j < i" | (here) "j = i" | (above) "i < j" by linarith
  then show ?thesis
  proof cases
    case below
    then have "2 ^ Suc j dvd Suc (length xs)"
      using dvd by (meson Suc_leI power_le_dvd)
    then have "2 dvd Suc (length xs) div 2 ^ j"
      by (metis dvd_div_iff_mult div_pow_Suc dvd_mult_div_cancel dvd_triv_left mult.commute power_Suc
          dvd_mult_left nat_dvd_1_iff_1 power_not_zero zero_neq_numeral)
    then show ?thesis using j by simp
  next
    case here
    then show ?thesis using i len node by simp
  next
    case above
    then have eq: "length xs div 2 ^ j = Suc (length xs) div 2 ^ j"
      using pred_div_above [OF dvd odd] by simp
    then have "im_branch t ! j = mroot kc j (chunk j (length xs div 2 ^ j - 1) xs)"
      using rep j by (simp add: represents_def)
    moreover have "chunk j (length xs div 2 ^ j - 1) (xs @ [x]) = chunk j (length xs div 2 ^ j - 1) xs"
      using eq j by (intro chunk_within) (auto intro: odd_pos)
    ultimately show ?thesis using above eq by simp
  qed
qed

lemma ingest_loop_represents:
  assumes rep: "represents kc t xs" and len: "Suc (length xs) < 2 ^ TREE_DEPTH"
  shows "i \<le> TREE_DEPTH \<Longrightarrow> 2 ^ i dvd Suc (length xs) \<Longrightarrow>
    unat size' = Suc (length xs) div 2 ^ i \<Longrightarrow>
    node = mroot kc i (chunk i (Suc (length xs) div 2 ^ i - 1) (xs @ [x])) \<Longrightarrow>
    j < TREE_DEPTH \<Longrightarrow> odd (Suc (length xs) div 2 ^ j) \<Longrightarrow>
    ingest_loop kc [i..<TREE_DEPTH] node size' (im_branch t) ! j =
      mroot kc j (chunk j (Suc (length xs) div 2 ^ j - 1) (xs @ [x]))"
proof (induction "TREE_DEPTH - i" arbitrary: i node size')
  case 0
  then have "2 ^ TREE_DEPTH \<le> Suc (length xs)" by (auto dest: dvd_imp_le)
  then show ?case using len by simp
next
  case (Suc d)
  then have i: "i < TREE_DEPTH" by simp
  show ?case
  proof (cases "odd (Suc (length xs) div 2 ^ i)")
    case True
    then show ?thesis
      using ingest_loop_done [OF rep i Suc.prems(2) _ Suc.prems(4-6)] Suc.prems(3) i
      by (simp add: upt_conv_Cons odd_word_iff)
  next
    case False
    then have dvd: "2 ^ Suc i dvd Suc (length xs)"
      using Suc.prems(2) by (metis dvd_div_iff_mult mult.commute power_Suc power_not_zero zero_neq_numeral)
    show ?thesis
      using Suc.hyps(1) [of "Suc i", OF _ _ dvd _ ingest_loop_step [OF rep i dvd Suc.prems(4)] Suc.prems(5,6), of "size' div 2"]
        Suc.hyps(2) Suc.prems(3) i False
      by (simp add: upt_conv_Cons odd_word_iff unat_div_two div_pow_Suc del: power_Suc)
  qed
qed

lemma length_ingest_loop [simp]: "length (ingest_loop kc is node size' branch) = length branch"
  by (induction "is" arbitrary: node size') simp_all

lemma represents_default: "represents kc im_default []"
  by (simp add: represents_def im_default_def)

lemma ingest_represents:
  assumes rep: "represents kc t xs" and len: "Suc (length xs) < 2 ^ TREE_DEPTH"
  shows "\<exists>t'. ingest kc x t = Some t' \<and> represents kc t' (xs @ [x])"
proof -
  have count: "unat (im_count t) = length xs" and lenb: "length (im_branch t) = TREE_DEPTH"
    using rep by (simp_all add: represents_def)
  have lt: "im_count t < 0xffffffff"
    using len by (simp add: word_less_nat_alt count TREE_DEPTH_def)
  have cnt: "unat (im_count t + 1) = Suc (length xs)"
    using count len by (simp add: unat_word_ariths TREE_DEPTH_def)
  have chunk: "x = mroot kc 0 (chunk 0 (length xs) (xs @ [x]))"
    by (simp add: chunk_def)
  let ?b = "ingest_loop kc [0..<TREE_DEPTH] x (im_count t + 1) (im_branch t)"
  have "?b ! j = mroot kc j (chunk j (Suc (length xs) div 2 ^ j - 1) (xs @ [x]))"
    if "j < TREE_DEPTH" "odd (Suc (length xs) div 2 ^ j)" for j
    using that chunk cnt by (intro ingest_loop_represents [OF rep len]) simp_all
  then show ?thesis
    using lt cnt len lenb by (simp add: ingest_def represents_def Let_def)
qed

lemma ingest_full:
  assumes "represents kc t xs" and "Suc (length xs) = 2 ^ TREE_DEPTH"
  shows "ingest kc x t = None"
  using assms by (simp add: ingest_def represents_def word_less_nat_alt TREE_DEPTH_def)

section \<open>The root\<close>

lemma root_loop_represents:
  assumes zt: "zero_table kc" and rep: "represents kc t xs"
  shows "i \<le> TREE_DEPTH \<Longrightarrow> unat size' = length xs div 2 ^ i \<Longrightarrow>
    node = mroot kc i (chunk i (length xs div 2 ^ i) xs) \<Longrightarrow>
    root_loop kc i (drop i (im_branch t)) node size' = mroot kc TREE_DEPTH xs"
proof (induction "TREE_DEPTH - i" arbitrary: i node size')
  case 0
  then have "i = TREE_DEPTH" and "length (im_branch t) = TREE_DEPTH" "length xs < 2 ^ TREE_DEPTH"
    using rep by (simp_all add: represents_def)
  then show ?case using 0 by (simp add: chunk_def)
next
  case (Suc d)
  then have i: "i < TREE_DEPTH" by simp
  let ?q = "length xs div 2 ^ i"
  let ?node = "if odd ?q then hash_concat kc (im_branch t ! i) node
               else hash_concat kc node (ZERO_HASHES ! i)"
  have "?node = mroot kc (Suc i) (chunk (Suc i) (?q div 2) xs)"
  proof (cases "odd ?q")
    case True
    then have "im_branch t ! i = mroot kc i (chunk i (2 * (?q div 2)) xs)"
      using rep i by (simp add: represents_def)
    then show ?thesis using True Suc.prems(3) by (simp add: mroot_chunk_Suc del: mroot.simps)
  next
    case False
    have "length xs \<le> 2 ^ i * Suc ?q"
      using dividend_less_times_div [of "2 ^ i" "length xs"] by simp
    then have "mroot kc i (chunk i (Suc ?q) xs) = ZERO_HASHES ! i"
      using mroot_Nil [OF zt] i by (simp add: chunk_beyond)
    then show ?thesis using False Suc.prems(3) by (simp add: mroot_chunk_Suc del: mroot.simps)
  qed
  moreover have "drop i (im_branch t) = im_branch t ! i # drop (Suc i) (im_branch t)"
    using rep i by (simp add: represents_def Cons_nth_drop_Suc)
  ultimately show ?case
    using Suc.hyps(1) [of "Suc i" "size' div 2" ?node] Suc.hyps(2) Suc.prems(2) i
    by (simp add: odd_word_iff unat_div_two div_pow_Suc del: power_Suc)
qed

lemma im_root_represents:
  assumes "zero_table kc" and "represents kc t xs"
  shows "im_root kc t = mroot kc TREE_DEPTH xs"
  using root_loop_represents [OF assms, of 0] assms(2)
  by (simp add: im_root_def represents_def chunk_def)

lemma im_index_represents:
  assumes "represents kc t xs"
  shows "im_index t = (if xs = [] then None else Some (word_of_nat (length xs - 1)))"
proof -
  have count: "ucast (im_count t) = (word_of_nat (length xs) :: u32)"
    using assms by (metis represents_def of_nat_unat)
  have "length xs < 2 ^ 64" using assms by (simp add: represents_def TREE_DEPTH_def)
  then have "im_count t > 0 \<longleftrightarrow> xs \<noteq> []"
    using assms by (auto simp: represents_def word_less_nat_alt)
  then show ?thesis by (cases xs) (auto simp: im_index_def count)
qed

section \<open>The interface of an accumulator\<close>

text \<open>
  What the agents rely on: an accumulator abstracts to the list of leaves pushed so far, a push
  below the capacity succeeds and appends, and the root is a function of the leaves. \<open>hash_ok\<close>
  is the hypothesis on the hash function under which this holds (\<open>zero_table\<close>).
\<close>

locale accumulator =
  fixes hash_ok :: bool
    and capacity :: nat
    and init :: "'s option"
    and push :: "h256 \<Rightarrow> 's \<Rightarrow> 's option"
    and root :: "'s \<Rightarrow> h256 option"
    and repr :: "'s \<Rightarrow> h256 list \<Rightarrow> bool"
    and spec_root :: "h256 list \<Rightarrow> h256"
  assumes init: "hash_ok \<Longrightarrow> \<exists>s. init = Some s \<and> repr s []"
    and push: "hash_ok \<Longrightarrow> repr s xs \<Longrightarrow> length xs < capacity \<Longrightarrow>
      \<exists>s'. push x s = Some s' \<and> repr s' (xs @ [x])"
    and root: "hash_ok \<Longrightarrow> repr s xs \<Longrightarrow> root s = Some (spec_root xs)"
begin

fun push_all :: "h256 list \<Rightarrow> 's \<Rightarrow> 's option" where
  "push_all [] s = Some s"
| "push_all (x # xs) s = Option.bind (push x s) (push_all xs)"

lemma push_all_repr:
  "hash_ok \<Longrightarrow> repr s xs \<Longrightarrow> length xs + length ys \<le> capacity \<Longrightarrow>
   \<exists>s'. push_all ys s = Some s' \<and> repr s' (xs @ ys)"
proof (induction ys arbitrary: s xs)
  case Nil
  then show ?case by simp
next
  case (Cons y ys)
  then obtain s1 where s1: "push y s = Some s1" "repr s1 (xs @ [y])"
    using push [of s xs y] by auto
  then show ?case using Cons.IH [of s1 "xs @ [y]"] Cons.prems by simp
qed

lemma root_after_pushes:
  assumes "hash_ok" and "length xs \<le> capacity"
  shows "\<exists>s0 s. init = Some s0 \<and> push_all xs s0 = Some s \<and> root s = Some (spec_root xs)"
  using assms init push_all_repr [of _ "[]" xs] root by fastforce

end

text \<open>Two accumulators over the same leaves have the same root at every moment.\<close>

locale accumulator_pair =
  a: accumulator hash_ok cap_a init_a push_a root_a repr_a spec_root +
  b: accumulator hash_ok cap_b init_b push_b root_b repr_b spec_root
  for hash_ok cap_a init_a push_a root_a repr_a spec_root cap_b init_b push_b root_b repr_b
begin

definition both :: "'a \<Rightarrow> 'b \<Rightarrow> h256 list \<Rightarrow> bool" where
  "both s t xs \<longleftrightarrow> repr_a s xs \<and> repr_b t xs"

lemma both_roots: "hash_ok \<Longrightarrow> both s t xs \<Longrightarrow> root_a s = root_b t"
  using a.root [of s xs] b.root [of t xs] by (simp add: both_def)

lemma both_push:
  "hash_ok \<Longrightarrow> both s t xs \<Longrightarrow> length xs < cap_a \<Longrightarrow> length xs < cap_b \<Longrightarrow>
   \<exists>s' t'. push_a x s = Some s' \<and> push_b x t = Some t' \<and> both s' t' (xs @ [x])"
  using a.push [of s xs x] b.push [of t xs x] by (auto simp: both_def)

end

interpretation im: accumulator "zero_table kc" "2 ^ TREE_DEPTH - 1" "Some im_default" "ingest kc"
  "\<lambda>t. Some (im_root kc t)" "represents kc" "mroot kc TREE_DEPTH" for kc
  using represents_default ingest_represents im_root_represents by unfold_locales auto

lemma im_push_all: "im.push_all kc xs t = ingest_all kc xs t"
  by (induction xs arbitrary: t) (auto intro: Option.bind_cong)

section \<open>Properties\<close>

text \<open>
  C22. The incremental tree computes the root of the leaves it has ingested: from the default tree,
  any sequence of fewer than \<open>2 ^ 32\<close> leaves is ingested without a panic, the count is the number of
  leaves, and \<^verbatim>\<open>root\<close> is the root of the complete binary tree of depth 32 over them.
\<close>

theorem incremental_root:
  assumes "zero_table kc" and "length xs < 2 ^ TREE_DEPTH"
  shows "\<exists>t. ingest_all kc xs im_default = Some t \<and> unat (im_count t) = length xs \<and>
    im_root kc t = mroot kc TREE_DEPTH xs"
proof -
  have "length xs \<le> 2 ^ TREE_DEPTH - 1" using assms(2) by linarith
  then obtain t where "ingest_all kc xs im_default = Some t" and rep: "represents kc t xs"
    using im.push_all_repr [OF assms(1) represents_default, of xs] by (auto simp: im_push_all)
  then show ?thesis
    using im_root_represents [OF assms(1) rep] by (simp add: represents_def)
qed

theorem incremental_root_witness:
  "\<exists>t. ingest_all table_keccak [4, 5, 6] im_default = Some t \<and> unat (im_count t) = 3 \<and>
    im_root table_keccak t = mroot table_keccak TREE_DEPTH [4, 5, 6]"
  using incremental_root [OF zero_table_table_keccak, of "[4, 5, 6]"]
  by (simp add: TREE_DEPTH_def numeral_3_eq_3 del: ingest_all.simps)

text \<open>
  The incremental tree is full after \<open>2 ^ 32 - 1\<close> leaves: the next \<^verbatim>\<open>ingest\<close> fails its assertion,
  and no earlier one does.
\<close>

theorem ingest_bound:
  assumes "represents kc t xs"
  shows "ingest kc x t = None \<longleftrightarrow> length xs = 2 ^ TREE_DEPTH - 1"
proof
  assume "ingest kc x t = None"
  then have "\<not> Suc (length xs) < 2 ^ TREE_DEPTH"
    using ingest_represents [OF assms, of x] by auto
  then show "length xs = 2 ^ TREE_DEPTH - 1" using assms by (auto simp: represents_def)
next
  assume "length xs = 2 ^ TREE_DEPTH - 1"
  then show "ingest kc x t = None" by (intro ingest_full [OF assms]) simp
qed

theorem ingest_bound_witness:
  "represents table_keccak im_default [] \<and> ingest table_keccak 1 im_default \<noteq> None"
  using ingest_bound [OF represents_default, of table_keccak 1] represents_default
  by (simp add: TREE_DEPTH_def)

end
