(* ===== verification/Sparse.thy ===== *)
theory Sparse
  imports Incremental
begin

text \<open>
  Proofs against a previous root, \<^verbatim>\<open>hyperlane-core/src/accumulator/sparse.rs\<close>: the proof of a leaf
  when it was the latest one, sparse trees built from proofs, their merge, and
  \<^verbatim>\<open>prove_against_previous\<close>, which the relayer uses to prove a message against the root of an older
  checkpoint. The reference is the tree over the leaves up to the root's index.
\<close>

section \<open>Model\<close>

text \<open>The digit \<open>i\<close> of a \<^verbatim>\<open>usize\<close> index, \<^verbatim>\<open>((index >> i) & 1) == 1\<close>.\<close>

definition index_bit :: "u64 \<Rightarrow> nat \<Rightarrow> bool" where
  "index_bit index i \<longleftrightarrow> and (drop_bit i index) 1 = 1"

definition as_latest :: "mproof \<Rightarrow> mproof" where
  "as_latest p =
     \<lparr>proof_leaf = proof_leaf p, proof_index = proof_index p,
      proof_path = map (\<lambda>i. if index_bit (proof_index p) i then proof_path p ! i else ZERO_HASHES ! i)
                     [0..<TREE_DEPTH]\<rparr>"

text \<open>
  \<^verbatim>\<open>SparseMerkleTree\<close> wraps a \<^verbatim>\<open>MerkleTree\<close>, and its \<^verbatim>\<open>hash\<close> is the same match as the tree's.
  \<open>None\<close> is a panic: of the table of zero hashes or of \<^verbatim>\<open>assert_eq!(merged_hash, a_hash)\<close>.
\<close>

fun merge :: "keccak \<Rightarrow> merkle_tree \<Rightarrow> merkle_tree \<Rightarrow> merkle_tree option" where
  "merge kc (Zero d) b = Some (Zero d)"
| "merge kc (Leaf h) b = do {
     bh \<leftarrow> mt_hash b;
     if h = bh then Some b else Some (Leaf h)
   }"
| "merge kc (Node a_hash a_left a_right) b =
     (case b of
        Leaf _ \<Rightarrow> Some (Node a_hash a_left a_right)
      | Zero _ \<Rightarrow> Some (Node a_hash a_left a_right)
      | Node _ b_left b_right \<Rightarrow> do {
          merged_left \<leftarrow> merge kc a_left b_left;
          merged_right \<leftarrow> merge kc a_right b_right;
          lh \<leftarrow> mt_hash merged_left;
          rh \<leftarrow> mt_hash merged_right;
          if hash_concat kc lh rh = a_hash
          then Some (Node a_hash merged_left merged_right) else None
        })"

text \<open>The loop of \<^verbatim>\<open>From<Proof> for SparseMerkleTree\<close> over the levels.\<close>

fun sparse_from_loop ::
  "keccak \<Rightarrow> u64 \<Rightarrow> h256 list \<Rightarrow> nat list \<Rightarrow> merkle_tree \<Rightarrow> merkle_tree option" where
  "sparse_from_loop kc index path [] tree = Some tree"
| "sparse_from_loop kc index path (i # levels) tree = do {
     th \<leftarrow> mt_hash tree;
     (if index_bit index i
      then let left = Leaf (path ! i)
           in do { lh \<leftarrow> mt_hash left;
                   sparse_from_loop kc index path levels (Node (hash_concat kc lh th) left tree) }
      else let right = Leaf (path ! i)
           in do { rh \<leftarrow> mt_hash right;
                   sparse_from_loop kc index path levels (Node (hash_concat kc th rh) tree right) })
   }"

definition sparse_from_proof :: "keccak \<Rightarrow> mproof \<Rightarrow> merkle_tree option" where
  "sparse_from_proof kc p =
     sparse_from_loop kc (proof_index p) (proof_path p) [0..<TREE_DEPTH] (Leaf (proof_leaf p))"

definition prove_against_current :: "merkle_tree \<Rightarrow> u64 \<Rightarrow> mproof option" where
  "prove_against_current t index = do {
     (leaf, hashes) \<leftarrow> generate_proof t (unat index) TREE_DEPTH;
     if length hashes < 32 then None
     else Some \<lparr>proof_leaf = leaf, proof_index = index, proof_path = take 32 hashes\<rparr>
   }"

definition prove_against_previous :: "keccak \<Rightarrow> merkle_tree \<Rightarrow> u64 \<Rightarrow> u64 \<Rightarrow> mproof option" where
  "prove_against_previous kc t leaf_index root_index =
     (if root_index \<ge> leaf_index
      then do {
        root_proof \<leftarrow> prove_against_current t root_index;
        leaf_proof \<leftarrow> prove_against_current t leaf_index;
        a \<leftarrow> sparse_from_proof kc (as_latest root_proof);
        b \<leftarrow> sparse_from_proof kc leaf_proof;
        tree \<leftarrow> merge kc a b;
        prove_against_current tree leaf_index
      }
      else None)"

section \<open>The latest proof\<close>

lemma index_bit_iff: "index_bit w i \<longleftrightarrow> bit (unat w) i"
proof -
  have "bit (unat w) i = bit w i"
    using bit_imp_le_length [of w i] by (auto simp: bit_unsigned_iff)
  then show ?thesis
    by (simp add: index_bit_def and_one_eq bit_iff_odd_drop_bit flip: odd_iff_mod_2_eq_one)
qed

definition latest_path :: "nat \<Rightarrow> h256 list \<Rightarrow> h256 list" where
  "latest_path j path = map (\<lambda>i. if bit j i then path ! i else ZERO_HASHES ! i) [0..<length path]"

lemma latest_path_Nil [simp]: "latest_path j [] = []"
  by (simp add: latest_path_def)

lemma latest_path_snoc [simp]:
  "latest_path j (path @ [s]) =
   latest_path j path @ [if bit j (length path) then s else ZERO_HASHES ! length path]"
  by (auto simp: latest_path_def nth_append)

text \<open>The leaves up to the one a walk along the low \<open>d\<close> digits of \<open>j\<close> ends at.\<close>

definition upto_index :: "nat \<Rightarrow> nat \<Rightarrow> h256 list \<Rightarrow> h256 list" where
  "upto_index d j xs = take (Suc (j mod 2 ^ d)) xs"

lemma upto_index_halves:
  "bit j d \<Longrightarrow> take (2 ^ d) (upto_index (Suc d) j xs) = take (2 ^ d) xs"
  "bit j d \<Longrightarrow> drop (2 ^ d) (upto_index (Suc d) j xs) = upto_index d j (drop (2 ^ d) xs)"
  "\<not> bit j d \<Longrightarrow> take (2 ^ d) (upto_index (Suc d) j xs) = upto_index d j (take (2 ^ d) xs)"
  "\<not> bit j d \<Longrightarrow> drop (2 ^ d) (upto_index (Suc d) j xs) = []"
proof -
  have lt: "j mod 2 ^ d < 2 ^ d" by simp
  then show "\<not> bit j d \<Longrightarrow> take (2 ^ d) (upto_index (Suc d) j xs) = upto_index d j (take (2 ^ d) xs)"
    by (simp add: upto_index_def mod_pow_Suc_bit min_def del: power_Suc)
  show "\<not> bit j d \<Longrightarrow> drop (2 ^ d) (upto_index (Suc d) j xs) = []"
    using Suc_leI [OF lt] by (simp add: upto_index_def mod_pow_Suc_bit min_le_iff_disj del: power_Suc)
qed (simp_all add: upto_index_def mod_pow_Suc_bit min_def drop_take del: power_Suc)

lemma latest_path_mpath:
  assumes zt: "zero_table kc"
  shows "d \<le> TREE_DEPTH \<Longrightarrow> latest_path j (mpath kc d xs j) = mpath kc d (upto_index d j xs) j"
proof (induction d arbitrary: xs)
  case 0
  then show ?case by simp
next
  case (Suc d)
  then have d: "d \<le> TREE_DEPTH" by simp
  show ?case
    using Suc.IH [OF d] mroot_Nil [OF zt d]
    by (cases "bit j d") (simp_all add: upto_index_halves del: power_Suc)
qed

lemma walk_leaf_upto: "walk_leaf d (upto_index d j xs) j = walk_leaf d xs j"
proof (induction d arbitrary: xs)
  case 0
  then show ?case by (cases xs) (simp_all add: upto_index_def)
next
  case (Suc d)
  then show ?case by (cases "bit j d") (simp_all add: upto_index_halves del: power_Suc)
qed

section \<open>Sparse trees of proofs\<close>

text \<open>The sparse tree of a proof: the path to the leaf, with the siblings as leaves.\<close>

primrec path_tree :: "keccak \<Rightarrow> nat \<Rightarrow> h256 list \<Rightarrow> nat \<Rightarrow> merkle_tree" where
  "path_tree kc 0 xs i = Leaf (mroot kc 0 xs)"
| "path_tree kc (Suc d) xs i =
     (if bit i d
      then Node (mroot kc (Suc d) xs)
             (Leaf (mroot kc d (take (2 ^ d) xs))) (path_tree kc d (drop (2 ^ d) xs) i)
      else Node (mroot kc (Suc d) xs)
             (path_tree kc d (take (2 ^ d) xs) i) (Leaf (mroot kc d (drop (2 ^ d) xs))))"

lemma mt_hash_path_tree [simp]: "mt_hash (path_tree kc d xs i) = Some (mroot kc d xs)"
  by (cases d) simp_all

lemma sparse_from_loop_append:
  "sparse_from_loop kc w p (is @ js) t =
   Option.bind (sparse_from_loop kc w p is t) (sparse_from_loop kc w p js)"
  by (induction "is" arbitrary: t) (auto simp: Let_def split: bind_splits)

lemma sparse_from_loop_prefix:
  "(\<And>i. i \<in> set is \<Longrightarrow> p ! i = q ! i) \<Longrightarrow>
   sparse_from_loop kc w p is t = sparse_from_loop kc w q is t"
  by (induction "is" arbitrary: t) (auto simp: Let_def intro: Option.bind_cong)

lemma sparse_from_mpath:
  "sparse_from_loop kc w (mpath kc d xs (unat w)) [0..<d] (Leaf (walk_leaf d xs (unat w))) =
   Some (path_tree kc d xs (unat w))"
proof (induction d arbitrary: xs)
  case 0
  then show ?case by simp
next
  case (Suc d)
  let ?ys = "if bit (unat w) d then drop (2 ^ d) xs else take (2 ^ d) xs"
  have "sparse_from_loop kc w (mpath kc (Suc d) xs (unat w)) [0..<d] (Leaf (walk_leaf d ?ys (unat w))) =
    Some (path_tree kc d ?ys (unat w))"
    unfolding Suc.IH [symmetric] by (rule sparse_from_loop_prefix) (simp add: nth_append)
  then show ?case
    by (cases "bit (unat w) d") (simp_all add: sparse_from_loop_append index_bit_iff nth_append)
qed

text \<open>Walking down a sparse tree along its own path finds the path's siblings.\<close>

lemma generate_proof_loop_path_tree:
  "\<exists>t. generate_proof_loop i (path_tree kc d xs i) d acc = Some (t, acc @ rev (mpath kc d xs i)) \<and>
       mt_hash t = Some (walk_leaf d xs i) \<and> is_leaf t"
proof (induction d arbitrary: xs acc)
  case 0
  then show ?case by simp
next
  case (Suc d)
  show ?case
    using Suc.IH [of "drop (2 ^ d) xs" "acc @ [mroot kc d (take (2 ^ d) xs)]"]
      Suc.IH [of "take (2 ^ d) xs" "acc @ [mroot kc d (drop (2 ^ d) xs)]"]
    by (simp add: left_and_right_branches_def)
qed

lemma merge_Leaf_Leaf [simp]: "merge kc (Leaf a) (Leaf b) = Some (Leaf a)"
  by simp

lemma merge_path_tree_Leaf: "merge kc (path_tree kc d xs j) (Leaf h) = Some (path_tree kc d xs j)"
  by (cases d) simp_all

section \<open>Merging\<close>

text \<open>
  A merged tree proves leaf \<open>i\<close> of \<open>ys\<close>: its hash is the root over \<open>ys\<close>, and walking down
  along \<open>i\<close> meets the siblings of \<open>i\<close> in the tree over \<open>ys\<close>.
\<close>

definition proves_leaf :: "keccak \<Rightarrow> nat \<Rightarrow> h256 list \<Rightarrow> nat \<Rightarrow> merkle_tree \<Rightarrow> bool" where
  "proves_leaf kc d ys i m \<longleftrightarrow>
     mt_hash m = Some (mroot kc d ys) \<and>
     (\<forall>acc. \<exists>t. generate_proof_loop i m d acc = Some (t, acc @ rev (mpath kc d ys i)) \<and>
                mt_hash t = Some (walk_leaf d ys i) \<and> is_leaf t)"

lemma proves_leaf_path_tree: "proves_leaf kc d ys i (path_tree kc d ys i)"
  by (simp add: proves_leaf_def generate_proof_loop_path_tree)

lemma proves_leaf_Node:
  assumes "proves_leaf kc d (if bit i d then drop (2 ^ d) ys else take (2 ^ d) ys) i m"
    and "mt_hash s = Some (mroot kc d (if bit i d then take (2 ^ d) ys else drop (2 ^ d) ys))"
  shows "proves_leaf kc (Suc d) ys i
    (if bit i d then Node (mroot kc (Suc d) ys) s m else Node (mroot kc (Suc d) ys) m s)"
proof -
  let ?zs = "if bit i d then drop (2 ^ d) ys else take (2 ^ d) ys"
  let ?h = "mroot kc d (if bit i d then take (2 ^ d) ys else drop (2 ^ d) ys)"
  have "\<exists>t. generate_proof_loop i m d (acc @ [?h]) = Some (t, (acc @ [?h]) @ rev (mpath kc d ?zs i)) \<and>
    mt_hash t = Some (walk_leaf d ?zs i) \<and> is_leaf t" for acc
    using assms(1) unfolding proves_leaf_def by blast
  then show ?thesis
    using assms(2)
    by (cases "bit i d") (simp_all add: proves_leaf_def left_and_right_branches_def)
qed

lemma mod_pow_le_cases:
  fixes i j :: nat
  assumes "i mod 2 ^ Suc d \<le> j mod 2 ^ Suc d"
  shows "(bit i d \<longleftrightarrow> bit j d) \<and> i mod 2 ^ d \<le> j mod 2 ^ d \<or> \<not> bit i d \<and> bit j d"
proof -
  have "j mod 2 ^ d < 2 ^ d" by simp
  then show ?thesis
    using assms by (cases "bit i d"; cases "bit j d") (auto simp: mod_pow_Suc_bit simp del: power_Suc)
qed

lemma merge_path_trees:
  "i mod 2 ^ d \<le> j mod 2 ^ d \<Longrightarrow>
   \<exists>m. merge kc (path_tree kc d (upto_index d j xs) j) (path_tree kc d xs i) = Some m \<and>
       proves_leaf kc d (upto_index d j xs) i m"
proof (induction d arbitrary: xs)
  case 0
  have "mroot kc 0 (upto_index 0 j xs) = mroot kc 0 xs" by (cases xs) (simp_all add: upto_index_def)
  then show ?case using proves_leaf_path_tree [of kc 0 "upto_index 0 j xs" i] by simp
next
  case (Suc d)
  let ?ys = "upto_index (Suc d) j xs"
  note halves = upto_index_halves [where xs = xs and j = j and d = d]
  from mod_pow_le_cases [OF Suc.prems] show ?case
  proof
    assume same: "(bit i d \<longleftrightarrow> bit j d) \<and> i mod 2 ^ d \<le> j mod 2 ^ d"
    let ?zs = "if bit j d then drop (2 ^ d) xs else take (2 ^ d) xs"
    obtain m where m: "merge kc (path_tree kc d (upto_index d j ?zs) j) (path_tree kc d ?zs i) = Some m"
      and p: "proves_leaf kc d (upto_index d j ?zs) i m"
      using Suc.IH [of ?zs] same by blast
    let ?s = "Leaf (mroot kc d (if bit j d then take (2 ^ d) ?ys else drop (2 ^ d) ?ys))"
    have h: "mt_hash m = Some (mroot kc d (upto_index d j ?zs))"
      using p by (simp add: proves_leaf_def)
    show ?thesis
      using proves_leaf_Node [of kc d i ?ys m ?s] same m p h
      by (cases "bit j d") (auto simp: halves simp del: power_Suc merge.simps(2))
  next
    assume diff: "\<not> bit i d \<and> bit j d"
    then show ?thesis
      using proves_leaf_Node [of kc d i ?ys "path_tree kc d (take (2 ^ d) xs) i" 
          "path_tree kc d (upto_index d j (drop (2 ^ d) xs)) j"]
        proves_leaf_path_tree [of kc d "take (2 ^ d) xs" i]
      by (simp add: halves merge_path_tree_Leaf del: power_Suc)
  qed
qed

section \<open>Proving against a previous root\<close>

lemma prove_against_current_spec:
  assumes "zero_table kc" and "unat i mod 2 ^ TREE_DEPTH < length xs"
  shows "prove_against_current (spec_tree kc TREE_DEPTH xs) i =
    Some \<lparr>proof_leaf = walk_leaf TREE_DEPTH xs (unat i), proof_index = i,
          proof_path = mpath kc TREE_DEPTH xs (unat i)\<rparr>"
  using assms(2) generate_proof_spec [OF assms(1), of TREE_DEPTH xs "unat i"]
  by (simp add: prove_against_current_def TREE_DEPTH_def)

lemma prove_against_current_proves:
  assumes "proves_leaf kc TREE_DEPTH ys (unat i) m"
  shows "prove_against_current m i =
    Some \<lparr>proof_leaf = walk_leaf TREE_DEPTH ys (unat i), proof_index = i,
          proof_path = mpath kc TREE_DEPTH ys (unat i)\<rparr>"
proof -
  obtain t where "generate_proof_loop (unat i) m TREE_DEPTH [] =
      Some (t, [] @ rev (mpath kc TREE_DEPTH ys (unat i)))"
    "mt_hash t = Some (walk_leaf TREE_DEPTH ys (unat i))" "is_leaf t"
    using assms unfolding proves_leaf_def by blast
  then show ?thesis
    by (simp add: prove_against_current_def generate_proof_def TREE_DEPTH_def)
qed

lemma as_latest_spec:
  assumes "zero_table kc"
  shows "as_latest \<lparr>proof_leaf = walk_leaf TREE_DEPTH xs (unat j), proof_index = j,
                    proof_path = mpath kc TREE_DEPTH xs (unat j)\<rparr> =
    \<lparr>proof_leaf = walk_leaf TREE_DEPTH (upto_index TREE_DEPTH (unat j) xs) (unat j), proof_index = j,
     proof_path = mpath kc TREE_DEPTH (upto_index TREE_DEPTH (unat j) xs) (unat j)\<rparr>"
  using latest_path_mpath [OF assms, of TREE_DEPTH "unat j" xs]
  by (simp add: as_latest_def walk_leaf_upto index_bit_iff latest_path_def cong: if_cong)

lemma prove_against_previous_spec:
  assumes zt: "zero_table kc" and le: "i \<le> j" and j: "unat j < 2 ^ TREE_DEPTH"
    and len: "unat j < length xs"
  shows "prove_against_previous kc (spec_tree kc TREE_DEPTH xs) i j =
    Some \<lparr>proof_leaf = walk_leaf TREE_DEPTH (take (Suc (unat j)) xs) (unat i), proof_index = i,
          proof_path = mpath kc TREE_DEPTH (take (Suc (unat j)) xs) (unat i)\<rparr>"
proof -
  let ?ys = "upto_index TREE_DEPTH (unat j) xs"
  have "unat i \<le> unat j" using le by (simp add: word_le_nat_alt)
  with j have "unat i mod 2 ^ TREE_DEPTH \<le> unat j mod 2 ^ TREE_DEPTH" by simp
  from merge_path_trees [OF this]
  obtain m where "merge kc (path_tree kc TREE_DEPTH ?ys (unat j)) (path_tree kc TREE_DEPTH xs (unat i)) = Some m"
    and "proves_leaf kc TREE_DEPTH ?ys (unat i) m" by blast
  moreover have "unat j mod 2 ^ TREE_DEPTH < length xs" "unat i mod 2 ^ TREE_DEPTH < length xs"
    using \<open>unat i \<le> unat j\<close> len j by simp_all
  ultimately show ?thesis
    using le j prove_against_current_proves [of kc ?ys i m]
    by (simp add: prove_against_previous_def prove_against_current_spec [OF zt] as_latest_spec [OF zt]
        sparse_from_proof_def sparse_from_mpath upto_index_def)
qed

section \<open>Properties\<close>

text \<open>
  C26. \<^verbatim>\<open>prove_against_previous\<close> is correct: for a leaf \<open>i\<close> and a root index \<open>j\<close> with \<open>i \<le> j\<close> within the
  tree it does not panic, and gives a proof of leaf \<open>i\<close> whose root is the root the tree had when leaf
  \<open>j\<close> was the last one.
\<close>

theorem prove_against_previous_root:
  assumes "zero_table kc" and "length xs \<le> 2 ^ TREE_DEPTH"
    and "create kc xs TREE_DEPTH = Some t"
    and "i \<le> j" and "unat j < length xs"
  shows "\<exists>p. prove_against_previous kc t i j = Some p \<and> proof_leaf p = xs ! unat i \<and>
    proof_index p = i \<and> proof_valid p \<and>
    proof_root kc p = Some (mroot kc TREE_DEPTH (take (Suc (unat j)) xs))"
proof -
  let ?ys = "take (Suc (unat j)) xs"
  have t: "t = spec_tree kc TREE_DEPTH xs" using assms(3) create_spec_tree [OF assms(1)] by simp
  have ij: "unat i \<le> unat j" using assms(4) by (simp add: word_le_nat_alt)
  have j: "unat j < 2 ^ TREE_DEPTH" using assms(2,5) by simp
  then have i: "unat i < 2 ^ TREE_DEPTH" using ij by simp
  have "walk_leaf TREE_DEPTH ?ys (unat i) = xs ! unat i"
    using walk_leaf_eq [of ?ys TREE_DEPTH "unat i"] assms(2,5) ij i by (simp add: leaf_at_def)
  then show ?thesis
    using prove_against_previous_spec [OF assms(1,4) j assms(5)]
      branch_loop_mpath [of kc "unat i" TREE_DEPTH ?ys]
    by (simp add: t proof_valid_def proof_root_def merkle_root_from_branch_def)
qed

theorem prove_against_previous_root_witness:
  "\<exists>t p. create table_keccak [7, 8, 9] TREE_DEPTH = Some t \<and>
     prove_against_previous table_keccak t 0 1 = Some p \<and> proof_leaf p = 7 \<and>
     proof_root table_keccak p = Some (mroot table_keccak TREE_DEPTH [7, 8])"
proof -
  obtain t where t: "create table_keccak [7, 8, 9] TREE_DEPTH = Some t"
    using create_spec_tree [OF zero_table_table_keccak] by blast
  have "length [7 :: h256, 8, 9] \<le> 2 ^ TREE_DEPTH" by (simp add: TREE_DEPTH_def)
  then show ?thesis
    using t prove_against_previous_root [OF zero_table_table_keccak _ t, of 0 1] by auto
qed

end
