(* ===== verification/Prover.thy ===== *)
theory Prover
  imports Sparse
begin

text \<open>
  The relayer's Merkle tree: \<^verbatim>\<open>Prover\<close> (\<^verbatim>\<open>agents/relayer/src/prover.rs\<close>), \<^verbatim>\<open>MerkleTreeBuilder\<close>
  (\<^verbatim>\<open>merkle_tree/builder.rs\<close>), which feeds every message id to a prover and to an incremental tree and
  compares their roots, and \<^verbatim>\<open>MerkleTreeProcessor\<close> (\<^verbatim>\<open>merkle_tree/processor.rs\<close>), which reads the
  insertions from the database one leaf index after the other.

  Operations that change state before they fail return the state next to the result. The prover
  is an \<open>accumulator\<close>, the builder a client of the two accumulators (\<open>accumulator_pair\<close>): its
  mismatch error never occurs.
\<close>

section \<open>Model\<close>

subsection \<open>Prover\<close>

record prover =
  pr_count :: u64
  pr_tree :: merkle_tree

datatype prover_error =
    IndexTooHigh u64
  | ZeroProof u64 u64
  | MerkleTreeError merkle_tree_error
  | VerificationFailed h256 h256

definition prover_default :: "keccak \<Rightarrow> prover option" where
  "prover_default kc =
     (case create kc [] TREE_DEPTH of
        None \<Rightarrow> None | Some full \<Rightarrow> Some \<lparr>pr_count = 0, pr_tree = full\<rparr>)"

text \<open>\<^verbatim>\<open>self.count += 1\<close> comes before the push that may fail.\<close>

definition prover_ingest ::
  "keccak \<Rightarrow> h256 \<Rightarrow> prover \<Rightarrow> (prover_error failure + h256) \<times> prover" where
  "prover_ingest kc element p =
     (let p = p\<lparr>pr_count := pr_count p + 1\<rparr>
      in case push_leaf kc element TREE_DEPTH (pr_tree p) of
           Inl (Err e) \<Rightarrow> (Inl (Err (MerkleTreeError e)), p)
         | Inl Panic \<Rightarrow> (Inl Panic, p)
         | Inr t \<Rightarrow> (unwrap (mt_hash t), p\<lparr>pr_tree := t\<rparr>))"

definition prover_root :: "prover \<Rightarrow> h256 option" where
  "prover_root p = mt_hash (pr_tree p)"

definition prover_prove_against_previous ::
  "keccak \<Rightarrow> prover \<Rightarrow> u64 \<Rightarrow> u64 \<Rightarrow> prover_error failure + mproof" where
  "prover_prove_against_previous kc p leaf_index root_index =
     require (\<not> root_index > 0xffffffff) (Err (IndexTooHigh root_index)) (
     let count = pr_count p in
     require (\<not> root_index \<ge> count) (Err (ZeroProof root_index count)) (
     unwrap (prove_against_previous kc (pr_tree p) leaf_index root_index)))"

definition prover_verify :: "keccak \<Rightarrow> prover \<Rightarrow> mproof \<Rightarrow> prover_error failure + unit" where
  "prover_verify kc p proof =
     rbind (unwrap (merkle_root_from_branch kc (proof_leaf proof) (proof_path proof) TREE_DEPTH
                      (unat (proof_index proof)))) (\<lambda>actual.
     rbind (unwrap (prover_root p)) (\<lambda>expected.
     if expected = actual then Inr () else Inl (Err (VerificationFailed expected actual))))"

definition prover_from :: "keccak \<Rightarrow> h256 list \<Rightarrow> prover option" where
  "prover_from kc leaves =
     (case create kc leaves TREE_DEPTH of
        None \<Rightarrow> None | Some t \<Rightarrow> Some \<lparr>pr_count = word_of_nat (length leaves), pr_tree = t\<rparr>)"

text \<open>\<^verbatim>\<open>Extend\<close> and \<^verbatim>\<open>FromIterator\<close>: the \<^verbatim>\<open>expect\<close> turns every error into a panic.\<close>

fun prover_extend :: "keccak \<Rightarrow> h256 list \<Rightarrow> prover \<Rightarrow> prover option" where
  "prover_extend kc [] p = Some p"
| "prover_extend kc (i # iter) p =
     (case prover_ingest kc i p of
        (Inr _, p) \<Rightarrow> prover_extend kc iter p
      | (Inl _, _) \<Rightarrow> None)"

definition prover_from_iter :: "keccak \<Rightarrow> h256 list \<Rightarrow> prover option" where
  "prover_from_iter kc iter = Option.bind (prover_default kc) (prover_extend kc iter)"

subsection \<open>MerkleTreeBuilder\<close>

record merkle_tree_builder =
  mtb_prover :: prover
  mtb_incremental :: incremental_merkle

datatype merkle_tree_builder_error =
    MismatchedRoots h256 h256
  | ProverError prover_error

definition mtb_new :: "keccak \<Rightarrow> merkle_tree_builder option" where
  "mtb_new kc =
     (case prover_default kc of
        None \<Rightarrow> None
      | Some p \<Rightarrow> Some \<lparr>mtb_prover = p, mtb_incremental = im_default\<rparr>)"

definition mtb_get_proof ::
  "keccak \<Rightarrow> merkle_tree_builder \<Rightarrow> u32 \<Rightarrow> u32 \<Rightarrow> merkle_tree_builder_error failure + mproof" where
  "mtb_get_proof kc b leaf_index root_index =
     map_err (\<lambda>f. case f of Err e \<Rightarrow> Err (ProverError e) | Panic \<Rightarrow> Panic)
       (prover_prove_against_previous kc (mtb_prover b) (ucast leaf_index) (ucast root_index))"

definition mtb_count :: "merkle_tree_builder \<Rightarrow> u32" where
  "mtb_count b = ucast (pr_count (mtb_prover b))"

definition mtb_ingest_message_id ::
  "keccak \<Rightarrow> h256 \<Rightarrow> merkle_tree_builder \<Rightarrow>
     (merkle_tree_builder_error failure + unit) \<times> merkle_tree_builder" where
  "mtb_ingest_message_id kc message_id b =
     (case prover_ingest kc message_id (mtb_prover b) of
        (Inl _, p) \<Rightarrow> (Inl Panic, b\<lparr>mtb_prover := p\<rparr>)
      | (Inr _, p) \<Rightarrow>
          (let b = b\<lparr>mtb_prover := p\<rparr>
           in case ingest kc message_id (mtb_incremental b) of
                None \<Rightarrow> (Inl Panic, b)
              | Some t \<Rightarrow>
                  (let b = b\<lparr>mtb_incremental := t\<rparr>
                   in (rbind (unwrap (prover_root (mtb_prover b))) (\<lambda>prover_root.
                       let incremental_root = im_root kc (mtb_incremental b)
                       in if prover_root = incremental_root then Inr ()
                          else Inl (Err (MismatchedRoots prover_root incremental_root))), b))))"

subsection \<open>MerkleTreeProcessor\<close>

record merkle_tree_insertion =
  mti_leaf_index :: u32
  mti_message_id :: h256

definition mti_write_to :: "merkle_tree_insertion \<Rightarrow> written" where
  "mti_write_to i =
     (let (b1, w1) = u32_write_to (mti_leaf_index i);
          (b2, w2) = h256_write_to (mti_message_id i)
      in (b1 @ b2, w1 + w2))"

definition mti_read_from :: "bytes \<Rightarrow> io_error + merkle_tree_insertion \<times> bytes" where
  "mti_read_from r =
     rbind (u32_read_from r) (\<lambda>(leaf_index, r).
     rbind (h256_read_from r) (\<lambda>(message_id, r).
     Inr (\<lparr>mti_leaf_index = leaf_index, mti_message_id = message_id\<rparr>, r)))"

text \<open>
  The processor and the builder it shares; the gauge is \<^verbatim>\<open>max_leaf_index_gauge\<close>. The database is
  the function \<open>retrieve\<close> behind \<^verbatim>\<open>retrieve_merkle_tree_insertion_by_leaf_index\<close>.
\<close>

record merkle_tree_processor =
  mtp_leaf_index :: u32
  mtp_prover_sync :: merkle_tree_builder
  mtp_max_leaf_index_gauge :: int

datatype 'd merkle_tree_processor_error = MtpDbError 'd | MtpBuilderError merkle_tree_builder_error

type_synonym 'd retrieve_insertion = "u32 \<Rightarrow> 'd + merkle_tree_insertion option"

definition next_unprocessed_leaf ::
  "'d retrieve_insertion \<Rightarrow> merkle_tree_processor \<Rightarrow>
     ('d + merkle_tree_insertion option) \<times> merkle_tree_processor" where
  "next_unprocessed_leaf retrieve s =
     (case retrieve (mtp_leaf_index s) of
        Inl e \<Rightarrow> (Inl e, s)
      | Inr None \<Rightarrow> (Inr None, s)
      | Inr (Some insertion) \<Rightarrow>
          (Inr (Some insertion),
           s\<lparr>mtp_max_leaf_index_gauge := int (unat (mti_leaf_index insertion))\<rparr>))"

definition mtp_tick ::
  "keccak \<Rightarrow> 'd retrieve_insertion \<Rightarrow> merkle_tree_processor \<Rightarrow>
     ('d merkle_tree_processor_error failure + unit) \<times> merkle_tree_processor" where
  "mtp_tick kc retrieve s =
     (case next_unprocessed_leaf retrieve s of
        (Inl e, s) \<Rightarrow> (Inl (Err (MtpDbError e)), s)
      | (Inr None, s) \<Rightarrow> (Inr (), s)
      | (Inr (Some insertion), s) \<Rightarrow>
          (case mtb_ingest_message_id kc (mti_message_id insertion) (mtp_prover_sync s) of
             (Inl (Err e), b) \<Rightarrow> (Inl (Err (MtpBuilderError e)), s\<lparr>mtp_prover_sync := b\<rparr>)
           | (Inl Panic, b) \<Rightarrow> (Inl Panic, s\<lparr>mtp_prover_sync := b\<rparr>)
           | (Inr _, b) \<Rightarrow>
               (Inr (), s\<lparr>mtp_prover_sync := b, mtp_leaf_index := mtp_leaf_index s + 1\<rparr>)))"

text \<open>The first \<open>n\<close> rounds of \<^verbatim>\<open>Processor::main_loop\<close>, which stops at the first error.\<close>

fun mtp_ticks ::
  "keccak \<Rightarrow> 'd retrieve_insertion \<Rightarrow> nat \<Rightarrow> merkle_tree_processor \<Rightarrow>
     ('d merkle_tree_processor_error failure + unit) \<times> merkle_tree_processor" where
  "mtp_ticks kc retrieve 0 s = (Inr (), s)"
| "mtp_ticks kc retrieve (Suc n) s =
     (case mtp_tick kc retrieve s of
        (Inl e, s) \<Rightarrow> (Inl e, s)
      | (Inr _, s) \<Rightarrow> mtp_ticks kc retrieve n s)"

section \<open>The prover is an accumulator\<close>

definition prover_repr :: "keccak \<Rightarrow> prover \<Rightarrow> h256 list \<Rightarrow> bool" where
  "prover_repr kc p xs \<longleftrightarrow>
     unat (pr_count p) = length xs \<and> length xs \<le> 2 ^ TREE_DEPTH \<and>
     pr_tree p = spec_tree kc TREE_DEPTH xs"

text \<open>The prover's push with every error as a panic, as its callers use it.\<close>

definition prover_push :: "keccak \<Rightarrow> h256 \<Rightarrow> prover \<Rightarrow> prover option" where
  "prover_push kc x p = (case prover_ingest kc x p of (Inr _, p) \<Rightarrow> Some p | (Inl _, _) \<Rightarrow> None)"

lemma prover_repr_default:
  assumes "zero_table kc"
  shows "\<exists>p. prover_default kc = Some p \<and> prover_repr kc p []"
  using create_spec_tree [OF assms, of TREE_DEPTH "[]"]
  by (simp add: prover_default_def prover_repr_def)

lemma prover_ingest_repr:
  assumes zt: "zero_table kc" and rep: "prover_repr kc p xs" and len: "length xs < 2 ^ TREE_DEPTH"
  shows "\<exists>p'. prover_ingest kc x p = (Inr (mroot kc TREE_DEPTH (xs @ [x])), p') \<and>
    prover_repr kc p' (xs @ [x])"
proof -
  have "push_leaf kc x TREE_DEPTH (pr_tree p) = Inr (spec_tree kc TREE_DEPTH (xs @ [x]))"
    using push_leaf_spec_tree [OF zt, of TREE_DEPTH xs x] rep len
    by (simp add: prover_repr_def TREE_DEPTH_def)
  moreover have "unat (pr_count p + 1) = Suc (length xs)"
    using rep len by (simp add: prover_repr_def unat_word_ariths TREE_DEPTH_def)
  ultimately show ?thesis
    using mt_hash_spec_tree [OF zt, of TREE_DEPTH "xs @ [x]"] len
    by (simp add: prover_ingest_def prover_repr_def)
qed

lemma prover_ingest_full:
  assumes "prover_repr kc p xs" and "length xs = 2 ^ TREE_DEPTH"
  shows "fst (prover_ingest kc x p) = Inl (Err (MerkleTreeError MerkleTreeFull))"
  using push_leaf_full_spec [of TREE_DEPTH xs kc x] assms
  by (simp add: prover_ingest_def prover_repr_def TREE_DEPTH_def)

interpretation pr: accumulator "zero_table kc" "2 ^ TREE_DEPTH" "prover_default kc" "prover_push kc"
  prover_root "prover_repr kc" "mroot kc TREE_DEPTH" for kc
proof
  fix s xs x
  assume "zero_table kc" "prover_repr kc s xs" "length xs < 2 ^ TREE_DEPTH"
  then show "\<exists>s'. prover_push kc x s = Some s' \<and> prover_repr kc s' (xs @ [x])"
    using prover_ingest_repr [of kc s xs x] by (auto simp: prover_push_def)
next
  fix s xs
  assume "zero_table kc" "prover_repr kc s xs"
  then show "prover_root s = Some (mroot kc TREE_DEPTH xs)"
    using mt_hash_spec_tree [of kc TREE_DEPTH xs] by (simp add: prover_root_def prover_repr_def)
qed (rule prover_repr_default)

interpretation mtb: accumulator_pair "zero_table kc"
  "2 ^ TREE_DEPTH" "prover_default kc" "prover_push kc" prover_root "prover_repr kc"
  "mroot kc TREE_DEPTH"
  "2 ^ TREE_DEPTH - 1" "Some im_default" "ingest kc" "\<lambda>t. Some (im_root kc t)" "represents kc" for kc
  by unfold_locales

section \<open>The builder\<close>

text \<open>The builder's abstraction: both trees hold the message ids ingested so far.\<close>

definition mtb_repr :: "keccak \<Rightarrow> merkle_tree_builder \<Rightarrow> h256 list \<Rightarrow> bool" where
  "mtb_repr kc b xs \<longleftrightarrow> prover_repr kc (mtb_prover b) xs \<and> represents kc (mtb_incremental b) xs"

lemma mtb_repr_both:
  "mtb_repr kc b xs \<longleftrightarrow> mtb.both kc (mtb_prover b) (mtb_incremental b) xs"
  by (simp add: mtb_repr_def mtb.both_def)

lemma mtb_repr_new:
  assumes "zero_table kc"
  shows "\<exists>b. mtb_new kc = Some b \<and> mtb_repr kc b []"
  using prover_repr_default [OF assms] represents_default
  by (auto simp: mtb_new_def mtb_repr_def)

lemma mtb_ingest_repr:
  assumes zt: "zero_table kc" and rep: "mtb_repr kc b xs" and len: "Suc (length xs) < 2 ^ TREE_DEPTH"
  shows "\<exists>b'. mtb_ingest_message_id kc x b = (Inr (), b') \<and> mtb_repr kc b' (xs @ [x])"
proof -
  have cap: "length xs < 2 ^ TREE_DEPTH" "length xs < 2 ^ TREE_DEPTH - 1" using len by auto
  obtain p t where push: "prover_push kc x (mtb_prover b) = Some p" "ingest kc x (mtb_incremental b) = Some t"
    and both: "mtb.both kc p t (xs @ [x])"
    using mtb.both_push [OF zt _ cap] rep unfolding mtb_repr_both by blast
  obtain h where "prover_ingest kc x (mtb_prover b) = (Inr h, p)"
    using push(1) by (auto simp: prover_push_def split: prod.splits sum.splits)
  moreover have "prover_root p = Some (im_root kc t)"
    using mtb.both_roots [OF zt both] by simp
  ultimately show ?thesis
    using push(2) both by (simp add: mtb_ingest_message_id_def mtb_repr_def mtb.both_def Let_def)
qed

lemma ucast_u32_u64 [simp]:
  "unat (ucast (w :: u32) :: u64) = unat w"
  "(ucast (v :: u32) :: u64) \<le> ucast w \<longleftrightarrow> v \<le> w"
  "\<not> (ucast (w :: u32) :: u64) > 0xffffffff"
proof -
  show u: "unat (ucast (w :: u32) :: u64) = unat w" for w
    by (simp add: unsigned_ucast_eq unsigned_take_bit_eq take_bit_nat_eq_self_iff)
       (use unsigned_less [of w, where 'a = nat] in simp)
  then show "(ucast (v :: u32) :: u64) \<le> ucast w \<longleftrightarrow> v \<le> w"
    by (simp add: word_le_nat_alt)
  show "\<not> (ucast (w :: u32) :: u64) > 0xffffffff"
    using unsigned_less [of w, where 'a = nat] by (simp add: word_less_nat_alt u)
qed

lemma mtb_get_proof_repr:
  assumes zt: "zero_table kc" and rep: "mtb_repr kc b xs" and le: "i \<le> j" and j: "unat j < length xs"
  shows "mtb_get_proof kc b i j =
    Inr \<lparr>proof_leaf = xs ! unat i, proof_index = ucast i,
         proof_path = mpath kc TREE_DEPTH (take (Suc (unat j)) xs) (unat i)\<rparr>"
proof -
  let ?ys = "take (Suc (unat j)) xs"
  have len: "length xs < 2 ^ TREE_DEPTH" and tree: "pr_tree (mtb_prover b) = spec_tree kc TREE_DEPTH xs"
    and cnt: "unat (pr_count (mtb_prover b)) = length xs"
    using rep by (simp_all add: mtb_repr_def prover_repr_def represents_def)
  have ij: "unat i \<le> unat j" using le by (simp add: word_le_nat_alt)
  have "walk_leaf TREE_DEPTH ?ys (unat i) = xs ! unat i"
    using walk_leaf_eq [of ?ys TREE_DEPTH "unat i"] ij j len by (simp add: leaf_at_def)
  moreover have "\<not> ucast j \<ge> pr_count (mtb_prover b)"
    using j cnt by (simp add: word_le_nat_alt)
  ultimately show ?thesis
    using prove_against_previous_spec [OF zt, of "ucast i" "ucast j" xs] le j len
    by (simp add: mtb_get_proof_def prover_prove_against_previous_def tree)
qed

section \<open>The processor and the indexer\<close>

text \<open>
  The processor runs next to the indexer that stores insertions in the database, in any order and at
  any time. \<open>ids k\<close> is the message id of leaf \<open>k\<close> of the merkle tree hook; the indexer stores only
  insertions of that tree. One step is an insertion stored or a successful tick.
\<close>

type_synonym insertion_db = "u32 \<rightharpoonup> merkle_tree_insertion"

definition db_retrieve :: "insertion_db \<Rightarrow> unit retrieve_insertion" where
  "db_retrieve db k = Inr (db k)"

definition mtp_new :: "merkle_tree_builder \<Rightarrow> merkle_tree_processor" where
  "mtp_new b = \<lparr>mtp_leaf_index = 0, mtp_prover_sync = b, mtp_max_leaf_index_gauge = 0\<rparr>"

inductive mtp_step ::
  "keccak \<Rightarrow> (nat \<Rightarrow> h256) \<Rightarrow> insertion_db \<times> merkle_tree_processor \<Rightarrow>
     insertion_db \<times> merkle_tree_processor \<Rightarrow> bool"
  for kc :: keccak and ids :: "nat \<Rightarrow> h256" where
  store: "mti_leaf_index ins = k \<Longrightarrow> mti_message_id ins = ids (unat k) \<Longrightarrow>
    mtp_step kc ids (db, s) (db(k \<mapsto> ins), s)"
| tick: "mtp_tick kc (db_retrieve db) s = (Inr (), s') \<Longrightarrow> mtp_step kc ids (db, s) (db, s')"

inductive_cases mtp_stepE [elim!]: "mtp_step kc ids (db, s) (db', s')"

inductive mtp_reachable ::
  "keccak \<Rightarrow> (nat \<Rightarrow> h256) \<Rightarrow> insertion_db \<times> merkle_tree_processor \<Rightarrow> bool"
  for kc :: keccak and ids :: "nat \<Rightarrow> h256" where
  start: "mtb_new kc = Some b \<Longrightarrow> mtp_reachable kc ids (Map.empty, mtp_new b)"
| step: "mtp_reachable kc ids c \<Longrightarrow> mtp_step kc ids c c' \<Longrightarrow> mtp_reachable kc ids c'"

text \<open>The invariant: the builder holds the first \<open>leaf_index\<close> message ids of the tree.\<close>

definition mtp_inv ::
  "keccak \<Rightarrow> (nat \<Rightarrow> h256) \<Rightarrow> insertion_db \<Rightarrow> merkle_tree_processor \<Rightarrow> bool" where
  "mtp_inv kc ids db s \<longleftrightarrow>
     (\<forall>k ins. db k = Some ins \<longrightarrow> mti_message_id ins = ids (unat k)) \<and>
     mtb_repr kc (mtp_prover_sync s) (map ids [0..<unat (mtp_leaf_index s)])"

lemma mtp_inv_start:
  assumes "zero_table kc" and "mtb_new kc = Some b"
  shows "mtp_inv kc ids Map.empty (mtp_new b)"
  using mtb_repr_new [OF assms(1)] assms(2) by (auto simp: mtp_inv_def mtp_new_def)

lemma mtb_ingest_full:
  assumes "zero_table kc" and "mtb_repr kc b xs" and "Suc (length xs) = 2 ^ TREE_DEPTH"
  shows "fst (mtb_ingest_message_id kc x b) = Inl Panic"
proof -
  have "prover_repr kc (mtb_prover b) xs" "length xs < 2 ^ TREE_DEPTH"
    using assms(2,3) by (simp_all add: mtb_repr_def)
  then obtain h p where "prover_ingest kc x (mtb_prover b) = (Inr h, p)"
    using prover_ingest_repr [OF assms(1)] by metis
  moreover have "ingest kc x (mtb_incremental b) = None"
    using ingest_full [of kc _ xs] assms(2,3) by (simp add: mtb_repr_def)
  ultimately show ?thesis by (simp add: mtb_ingest_message_id_def Let_def)
qed

lemma mtp_tick_inv:
  assumes zt: "zero_table kc" and inv: "mtp_inv kc ids db s"
    and len: "Suc (unat (mtp_leaf_index s)) < 2 ^ TREE_DEPTH"
  shows "\<exists>s'. mtp_tick kc (db_retrieve db) s = (Inr (), s') \<and> mtp_inv kc ids db s' \<and>
    mtp_leaf_index s' =
      (if db (mtp_leaf_index s) = None then mtp_leaf_index s else mtp_leaf_index s + 1)"
proof (cases "db (mtp_leaf_index s)")
  case None
  then show ?thesis
    using inv by (simp add: mtp_tick_def next_unprocessed_leaf_def db_retrieve_def)
next
  case (Some ins)
  let ?n = "unat (mtp_leaf_index s)"
  have id: "mti_message_id ins = ids ?n" using inv Some by (simp add: mtp_inv_def)
  have n: "unat (mtp_leaf_index s + 1) = Suc ?n"
    using len by (simp add: unat_word_ariths TREE_DEPTH_def)
  obtain b where "mtb_ingest_message_id kc (mti_message_id ins) (mtp_prover_sync s) = (Inr (), b)"
    and "mtb_repr kc b (map ids [0..<?n] @ [ids ?n])"
    using mtb_ingest_repr [OF zt, of "mtp_prover_sync s" "map ids [0..<?n]" "ids ?n"] inv len
    unfolding id by (auto simp: mtp_inv_def)
  then show ?thesis
    using inv n
    by (simp add: mtp_tick_def next_unprocessed_leaf_def db_retrieve_def Some mtp_inv_def)
qed

lemma mtp_tick_full:
  assumes zt: "zero_table kc" and inv: "mtp_inv kc ids db s"
    and len: "Suc (unat (mtp_leaf_index s)) = 2 ^ TREE_DEPTH" and some: "db (mtp_leaf_index s) \<noteq> None"
  shows "fst (mtp_tick kc (db_retrieve db) s) = Inl Panic"
proof -
  obtain ins where ins: "db (mtp_leaf_index s) = Some ins" using some by auto
  have "fst (mtb_ingest_message_id kc (mti_message_id ins) (mtp_prover_sync s)) = Inl Panic"
    using inv len
    by (intro mtb_ingest_full [OF zt, of _ "map ids [0..<unat (mtp_leaf_index s)]"])
       (simp_all add: mtp_inv_def)
  then show ?thesis
    by (cases "mtb_ingest_message_id kc (mti_message_id ins) (mtp_prover_sync s)")
       (simp add: mtp_tick_def next_unprocessed_leaf_def db_retrieve_def ins)
qed

lemma mtp_inv_step:
  assumes zt: "zero_table kc" and inv: "mtp_inv kc ids db s" and step: "mtp_step kc ids (db, s) (db', s')"
  shows "mtp_inv kc ids db' s'"
  using step
proof cases
  case (store ins k)
  then show ?thesis using inv by (simp add: mtp_inv_def)
next
  case tick
  have "unat (mtp_leaf_index s) < 2 ^ TREE_DEPTH"
    using inv by (simp add: mtp_inv_def mtb_repr_def represents_def)
  then consider (room) "Suc (unat (mtp_leaf_index s)) < 2 ^ TREE_DEPTH"
    | (wait) "db (mtp_leaf_index s) = None"
    | (full) "Suc (unat (mtp_leaf_index s)) = 2 ^ TREE_DEPTH" "db (mtp_leaf_index s) \<noteq> None"
    by linarith
  then show ?thesis
  proof cases
    case room
    then show ?thesis using mtp_tick_inv [OF zt inv] tick by auto
  next
    case wait
    then show ?thesis
      using tick inv by (simp add: mtp_tick_def next_unprocessed_leaf_def db_retrieve_def)
  next
    case full
    then show ?thesis using mtp_tick_full [OF zt inv] tick by simp
  qed
qed

lemma mtp_inv_reachable:
  assumes "zero_table kc" and "mtp_reachable kc ids c"
  shows "mtp_inv kc ids (fst c) (snd c)"
  using assms(2)
proof induction
  case (start b)
  then show ?case using mtp_inv_start [OF assms(1)] by simp
next
  case (step c c')
  then show ?case using mtp_inv_step [OF assms(1), of ids "fst c" "snd c"] by (cases c; cases c') simp
qed

section \<open>The encoding of an insertion\<close>

interpretation mti_seq:
  seq_encoding u32_write_to u32_read_from always h256_write_to h256_read_from always
  by unfold_locales

lemma mti_write_seq: "mti_write_to i = mti_seq.seq_write (mti_leaf_index i, mti_message_id i)"
  by (simp add: mti_write_to_def mti_seq.seq_write_def split_def Let_def)

lemma mti_read_seq:
  "mti_read_from r = Inr (i, rest) \<longleftrightarrow>
   mti_seq.seq_read r = Inr ((mti_leaf_index i, mti_message_id i), rest)"
  by (cases i) (auto simp: mti_read_from_def mti_seq.seq_read_def result_simps)

interpretation mti_enc: prefix_encoding mti_write_to mti_read_from always
  by unfold_locales
     (simp_all add: mti_write_seq mti_read_seq mti_seq.seq_valid_def mti_seq.pair.read_prefix
        mti_seq.pair.read_back mti_seq.pair.canonical mti_seq.pair.count)

section \<open>Properties\<close>

text \<open>
  C15. The relayer's merkle tree processor is correct under every interleaving with the indexer: in
  every reachable state the builder holds exactly the first \<open>leaf_index\<close> message ids of the tree, so
  the roots of its prover and of its incremental tree are the root over them.
\<close>

theorem merkle_tree_processor_sync:
  assumes "zero_table kc" and "mtp_reachable kc ids (db, s)"
  shows "let ys = map ids [0..<unat (mtp_leaf_index s)]; b = mtp_prover_sync s in
    unat (mtb_count b) = length ys \<and>
    prover_root (mtb_prover b) = Some (mroot kc TREE_DEPTH ys) \<and>
    im_root kc (mtb_incremental b) = mroot kc TREE_DEPTH ys"
proof -
  let ?ys = "map ids [0..<unat (mtp_leaf_index s)]"
  have rep: "mtb_repr kc (mtp_prover_sync s) ?ys"
    using mtp_inv_reachable [OF assms] by (simp add: mtp_inv_def)
  then have "unat (pr_count (mtb_prover (mtp_prover_sync s))) = unat (mtp_leaf_index s)"
    by (simp add: mtb_repr_def prover_repr_def)
  then have "mtb_count (mtp_prover_sync s) = mtp_leaf_index s"
    by (metis mtb_count_def of_nat_unat ucast_id)
  then show ?thesis
    using rep pr.root [OF assms(1)] im_root_represents [OF assms(1)]
    by (simp add: mtb_repr_def Let_def)
qed

theorem merkle_tree_processor_sync_witness:
  "\<exists>b. mtb_new table_keccak = Some b \<and>
    mtp_reachable table_keccak (\<lambda>_. 5)
      (Map.empty(0 \<mapsto> \<lparr>mti_leaf_index = 0, mti_message_id = 5\<rparr>), mtp_new b) \<and>
    prover_root (mtb_prover b) = Some (mroot table_keccak TREE_DEPTH [])"
proof -
  obtain b where b: "mtb_new table_keccak = Some b"
    using mtb_repr_new [OF zero_table_table_keccak] by blast
  let ?db = "Map.empty(0 \<mapsto> \<lparr>mti_leaf_index = 0, mti_message_id = 5\<rparr>)"
  have r: "mtp_reachable table_keccak (\<lambda>_. 5) (?db, mtp_new b)"
    by (rule mtp_reachable.step [OF mtp_reachable.start [OF b]]) (rule mtp_step.store, simp_all)
  show ?thesis
    using b r merkle_tree_processor_sync [OF zero_table_table_keccak r]
    by (simp add: Let_def mtp_new_def)
qed

text \<open>
  C33. Progress of the merkle tree processor: in a reachable state a tick never fails while the tree
  has room, and it moves on by one leaf exactly when the insertion of the next leaf is indexed.
\<close>

theorem merkle_tree_processor_progress:
  assumes "zero_table kc" and "mtp_reachable kc ids (db, s)"
    and "Suc (unat (mtp_leaf_index s)) < 2 ^ TREE_DEPTH"
  shows "\<exists>s'. mtp_tick kc (db_retrieve db) s = (Inr (), s') \<and>
    mtp_leaf_index s' =
      (if db (mtp_leaf_index s) = None then mtp_leaf_index s else mtp_leaf_index s + 1)"
  using mtp_tick_inv [OF assms(1) _ assms(3), of ids db] mtp_inv_reachable [OF assms(1,2)] by auto

theorem merkle_tree_processor_progress_witness:
  "\<exists>b s'. mtb_new table_keccak = Some b \<and>
    mtp_tick table_keccak (db_retrieve Map.empty) (mtp_new b) = (Inr (), s') \<and> mtp_leaf_index s' = 0"
proof -
  obtain b where b: "mtb_new table_keccak = Some b"
    using mtb_repr_new [OF zero_table_table_keccak] by blast
  show ?thesis
    using b merkle_tree_processor_progress
      [OF zero_table_table_keccak mtp_reachable.start [OF b, of "\<lambda>_. 0"]]
    by (simp add: mtp_new_def TREE_DEPTH_def)
qed

text \<open>
  C19. The proofs the relayer submits verify: in a reachable state, \<^verbatim>\<open>get_proof\<close> for a leaf up to a root
  index the builder has reached returns the proof of that message id whose root is the root of the
  tree when the leaf at the root index was the last one.
\<close>

theorem get_proof_verifies:
  assumes "zero_table kc" and "mtp_reachable kc ids (db, s)"
    and "i \<le> j" and "j < mtp_leaf_index s"
  shows "\<exists>p. mtb_get_proof kc (mtp_prover_sync s) i j = Inr p \<and> proof_leaf p = ids (unat i) \<and>
    proof_index p = ucast i \<and>
    proof_root kc p = Some (mroot kc TREE_DEPTH (map ids [0..<Suc (unat j)]))"
proof -
  let ?ys = "map ids [0..<unat (mtp_leaf_index s)]"
  have rep: "mtb_repr kc (mtp_prover_sync s) ?ys"
    using mtp_inv_reachable [OF assms(1,2)] by (simp add: mtp_inv_def)
  have j: "unat j < unat (mtp_leaf_index s)" and ij: "unat i \<le> unat j"
    using assms(3,4) by (simp_all add: word_less_nat_alt word_le_nat_alt)
  then have len: "unat (mtp_leaf_index s) < 2 ^ TREE_DEPTH" and take: "take (Suc (unat j)) ?ys = map ids [0..<Suc (unat j)]"
    using rep by (simp_all add: mtb_repr_def represents_def take_map del: upt_Suc)
  have "walk_leaf TREE_DEPTH (map ids [0..<Suc (unat j)]) (unat i) = ids (unat i)"
    using walk_leaf_eq [of "map ids [0..<Suc (unat j)]" TREE_DEPTH "unat i"] ij j len
    by (simp add: leaf_at_def del: upt_Suc)
  then show ?thesis
    using mtb_get_proof_repr [OF assms(1) rep assms(3)] ij j
      branch_loop_mpath [of kc "unat i" TREE_DEPTH "map ids [0..<Suc (unat j)]"]
    by (simp add: take proof_root_def merkle_root_from_branch_def del: upt_Suc)
qed

theorem get_proof_verifies_witness:
  "\<exists>b p. mtb_get_proof table_keccak b 0 0 = Inr p \<and> proof_leaf p = 5 \<and>
    proof_root table_keccak p = Some (mroot table_keccak TREE_DEPTH [5])"
proof -
  obtain b where b: "mtb_new table_keccak = Some b"
    using mtb_repr_new [OF zero_table_table_keccak] by blast
  let ?db = "Map.empty(0 \<mapsto> \<lparr>mti_leaf_index = 0, mti_message_id = 5\<rparr>)"
  have r: "mtp_reachable table_keccak (\<lambda>_. 5) (?db, mtp_new b)"
    by (rule mtp_reachable.step [OF mtp_reachable.start [OF b]]) (rule mtp_step.store, simp_all)
  obtain s where t: "mtp_tick table_keccak (db_retrieve ?db) (mtp_new b) = (Inr (), s)"
    and s: "mtp_leaf_index s = 1"
    using mtp_tick_inv [OF zero_table_table_keccak, of "\<lambda>_. 5" ?db "mtp_new b"]
      mtp_inv_reachable [OF zero_table_table_keccak r]
    by (auto simp: mtp_new_def TREE_DEPTH_def)
  have "mtp_reachable table_keccak (\<lambda>_. 5) (?db, s)"
    by (rule mtp_reachable.step [OF r]) (rule mtp_step.tick [OF t])
  from get_proof_verifies [OF zero_table_table_keccak this, of 0 0] show ?thesis
    using s by auto
qed

end
