(* ===== verification/Message.thy ===== *)
theory Message
  imports Merkle
begin

text \<open>
  The messages of the protocol (\<^verbatim>\<open>hyperlane-core/src/types/message.rs\<close>) with their encoding and
  identifiers, and the gas payment types of \<^verbatim>\<open>types/mod.rs\<close>. The body of a message runs to the end of
  its encoding, so messages are an \<open>encoding\<close> but not a \<open>prefix_encoding\<close>.
\<close>

section \<open>Messages\<close>

definition HYPERLANE_MESSAGE_PREFIX_LEN :: nat where
  "HYPERLANE_MESSAGE_PREFIX_LEN = 77"

record hyperlane_message =
  msg_version :: u8
  msg_nonce :: u32
  msg_origin :: u32
  msg_sender :: h256
  msg_destination :: u32
  msg_recipient :: h256
  msg_body :: bytes

definition message_default :: hyperlane_message where
  "message_default =
     \<lparr>msg_version = 3, msg_nonce = 0, msg_origin = 0, msg_sender = 0, msg_destination = 0,
      msg_recipient = 0, msg_body = [1, 2, 3]\<rparr>"

definition message_write_to :: "hyperlane_message \<Rightarrow> written" where
  "message_write_to m =
     (to_be_bytes 1 (msg_version m) @ to_be_bytes 4 (msg_nonce m) @ to_be_bytes 4 (msg_origin m) @
      h256_bytes (msg_sender m) @ to_be_bytes 4 (msg_destination m) @
      h256_bytes (msg_recipient m) @ msg_body m,
      HYPERLANE_MESSAGE_PREFIX_LEN + length (msg_body m))"

text \<open>\<^verbatim>\<open>read_to_end\<close> takes the whole rest as the body.\<close>

definition message_read_from :: "bytes \<Rightarrow> io_error + hyperlane_message \<times> bytes" where
  "message_read_from r =
     rbind (read_exact 1 r) (\<lambda>(version, r).
     rbind (read_exact 4 r) (\<lambda>(nonce, r).
     rbind (read_exact 4 r) (\<lambda>(origin, r).
     rbind (read_exact 32 r) (\<lambda>(sender, r).
     rbind (read_exact 4 r) (\<lambda>(destination, r).
     rbind (read_exact 32 r) (\<lambda>(recipient, r).
     let body = r in
     Inr (\<lparr>msg_version = from_be_bytes version, msg_nonce = from_be_bytes nonce,
           msg_origin = from_be_bytes origin, msg_sender = h256_from_slice sender,
           msg_destination = from_be_bytes destination, msg_recipient = h256_from_slice recipient,
           msg_body = body\<rparr>, [])))))))"

text \<open>
  \<^verbatim>\<open>m[a..b]\<close> and \<^verbatim>\<open>m[a..]\<close>: slicing, with \<open>None\<close> for the panic out of range.
\<close>

definition slice_range :: "bytes \<Rightarrow> nat \<Rightarrow> nat \<Rightarrow> bytes option" where
  "slice_range bs a b = (if a \<le> b \<and> b \<le> length bs then Some (take (b - a) (drop a bs)) else None)"

definition slice_from :: "bytes \<Rightarrow> nat \<Rightarrow> bytes option" where
  "slice_from bs a = (if a \<le> length bs then Some (drop a bs) else None)"

definition message_from_raw :: "bytes \<Rightarrow> hyperlane_message option" where
  "message_from_raw m = do {
     version \<leftarrow> (if 0 < length m then Some (m ! 0) else None);
     nonce \<leftarrow> slice_range m 1 5;
     origin \<leftarrow> slice_range m 5 9;
     sender \<leftarrow> slice_range m 9 41;
     destination \<leftarrow> slice_range m 41 45;
     recipient \<leftarrow> slice_range m 45 77;
     body \<leftarrow> slice_from m 77;
     Some \<lparr>msg_version = version, msg_nonce = from_be_bytes nonce,
           msg_origin = from_be_bytes origin, msg_sender = h256_from_slice sender,
           msg_destination = from_be_bytes destination, msg_recipient = h256_from_slice recipient,
           msg_body = body\<rparr>
   }"

definition hyperlane_message_id :: "keccak \<Rightarrow> hyperlane_message \<Rightarrow> h256" where
  "hyperlane_message_id kc m = kc (to_vec message_write_to m)"

section \<open>Gas payments\<close>

record interchain_gas_payment =
  igp_message_id :: h256
  igp_destination :: u32
  igp_payment :: u256
  igp_gas_amount :: u256

record interchain_gas_expenditure =
  ige_message_id :: h256
  ige_tokens_used :: u256
  ige_gas_used :: u256

text \<open>
  The sums of payments and expenditures. \<open>None\<close> is a panic: of the assertions on the keys, or of
  the overflow check of \<^verbatim>\<open>U256\<close> addition.
\<close>

definition u256_add :: "u256 \<Rightarrow> u256 \<Rightarrow> u256 option" where
  "u256_add a b = (if uint a + uint b < 2 ^ 256 then Some (a + b) else None)"

definition gas_payment_add ::
  "interchain_gas_payment \<Rightarrow> interchain_gas_payment \<Rightarrow> interchain_gas_payment option" where
  "gas_payment_add p q =
     (if igp_message_id p \<noteq> igp_message_id q then None
      else if igp_destination p \<noteq> igp_destination q then None
      else do {
        payment \<leftarrow> u256_add (igp_payment p) (igp_payment q);
        gas_amount \<leftarrow> u256_add (igp_gas_amount p) (igp_gas_amount q);
        Some \<lparr>igp_message_id = igp_message_id p, igp_destination = igp_destination p,
              igp_payment = payment, igp_gas_amount = gas_amount\<rparr>
      })"

definition gas_expenditure_add ::
  "interchain_gas_expenditure \<Rightarrow> interchain_gas_expenditure \<Rightarrow> interchain_gas_expenditure option" where
  "gas_expenditure_add p q =
     (if ige_message_id p \<noteq> ige_message_id q then None
      else do {
        tokens_used \<leftarrow> u256_add (ige_tokens_used p) (ige_tokens_used q);
        gas_used \<leftarrow> u256_add (ige_gas_used p) (ige_gas_used q);
        Some \<lparr>ige_message_id = ige_message_id p, ige_tokens_used = tokens_used,
              ige_gas_used = gas_used\<rparr>
      })"

record gas_payment_meta =
  gpm_transaction_id :: h512
  gpm_log_index :: u64

definition gas_payment_meta_write_to :: "gas_payment_meta \<Rightarrow> written" where
  "gas_payment_meta_write_to m =
     (let (b1, w1) = h512_write_to (gpm_transaction_id m);
          (b2, w2) = u64_write_to (gpm_log_index m)
      in (b1 @ b2, w1 + w2))"

definition gas_payment_meta_read_from :: "bytes \<Rightarrow> io_error + gas_payment_meta \<times> bytes" where
  "gas_payment_meta_read_from r =
     rbind (h512_read_from r) (\<lambda>(transaction_id, r).
     rbind (u64_read_from r) (\<lambda>(log_index, r).
     Inr (\<lparr>gpm_transaction_id = transaction_id, gpm_log_index = log_index\<rparr>, r)))"

section \<open>The encodings\<close>

lemma singleton_bytes [simp]:
  "to_be_bytes (Suc 0) (w :: u8) = [w]" "from_be_bytes [w] = (w :: u8)"
proof -
  have "unat w mod 256 = unat w" using unsigned_less [of w, where 'a = nat] by simp
  then show "to_be_bytes (Suc 0) (w :: u8) = [w]"
    by (simp add: to_be_bytes_def to_le_bytes_def)
  show "from_be_bytes [w] = (w :: u8)"
    by (simp add: from_be_bytes_def from_le_bytes_def)
qed

interpretation message_enc: encoding message_write_to message_read_from always
proof
  fix x
  show "message_read_from (fst (message_write_to x)) = Inr (x, [])"
    by (cases x) (simp add: message_write_to_def message_read_from_def Let_def read_exact_def)
  show "snd (message_write_to x) = length (fst (message_write_to x))"
    by (simp add: message_write_to_def HYPERLANE_MESSAGE_PREFIX_LEN_def)
next
  fix bs x rest
  assume "message_read_from bs = Inr (x, rest)"
  then show "bs = fst (message_write_to x) @ rest \<and> always x"
    by (auto simp: message_read_from_def message_write_to_def Let_def result_simps
        length_Suc_conv)
qed

text \<open>Reading fails exactly on inputs shorter than the fixed part, where slicing panics.\<close>

lemma message_read_from_total:
  "77 \<le> length bs \<longleftrightarrow> (\<exists>m. message_read_from bs = Inr (m, []))"
proof
  assume len: "77 \<le> length bs"
  then show "\<exists>m. message_read_from bs = Inr (m, [])"
    by (auto simp: message_read_from_def read_exact_def Let_def)
next
  assume "\<exists>m. message_read_from bs = Inr (m, [])"
  then obtain m where "bs = to_vec message_write_to m"
    by (auto simp: message_enc.read_complete)
  then show "77 \<le> length bs"
    by (simp add: to_vec_def message_write_to_def)
qed

lemma message_from_raw_write: "message_from_raw (fst (message_write_to m)) = Some m"
  by (cases m)
     (simp add: message_from_raw_def message_write_to_def slice_range_def slice_from_def
        take_Cons' drop_Cons' nth_append)

lemma message_from_raw_short: "length bs < 77 \<Longrightarrow> message_from_raw bs = None"
  by (auto simp: message_from_raw_def slice_range_def slice_from_def bind_eq_None_conv)

interpretation gpm_seq:
  seq_encoding h512_write_to h512_read_from always u64_write_to u64_read_from always
  by unfold_locales

lemma gpm_write_seq:
  "gas_payment_meta_write_to m = gpm_seq.seq_write (gpm_transaction_id m, gpm_log_index m)"
  by (simp add: gas_payment_meta_write_to_def gpm_seq.seq_write_def split_def Let_def)

lemma gpm_read_seq:
  "gas_payment_meta_read_from r = Inr (m, rest) \<longleftrightarrow>
   gpm_seq.seq_read r = Inr ((gpm_transaction_id m, gpm_log_index m), rest)"
  by (cases m) (auto simp: gas_payment_meta_read_from_def gpm_seq.seq_read_def result_simps)

interpretation gpm_enc: prefix_encoding gas_payment_meta_write_to gas_payment_meta_read_from always
  by unfold_locales
     (simp_all add: gpm_write_seq gpm_read_seq gpm_seq.seq_valid_def gpm_seq.pair.read_prefix
        gpm_seq.pair.read_back gpm_seq.pair.canonical gpm_seq.pair.count)

section \<open>Properties\<close>

text \<open>
  C34. Messages round-trip through their byte encoding, and the two decoders agree: \<^verbatim>\<open>read_from\<close> and
  the conversion from a raw message both give exactly the message whose encoding the bytes are; on
  bytes shorter than the 77 byte prefix the conversion panics and \<^verbatim>\<open>read_from\<close> fails.
\<close>

theorem message_roundtrip:
  "(message_read_from bs = Inr (m, []) \<longleftrightarrow> bs = to_vec message_write_to m) \<and>
   (message_from_raw bs = Some m \<longleftrightarrow> bs = to_vec message_write_to m) \<and>
   (message_from_raw bs = None \<longleftrightarrow> length bs < 77)"
proof -
  have read: "message_read_from bs = Inr (k, []) \<longleftrightarrow> bs = to_vec message_write_to k" for k
    by (simp add: message_enc.read_complete)
  show ?thesis
  proof (cases "77 \<le> length bs")
    case True
    then obtain k where k: "bs = to_vec message_write_to k"
      using message_read_from_total [of bs] read by blast
    then have raw: "message_from_raw bs = Some k"
      using message_from_raw_write by (simp add: to_vec_def)
    have "bs = to_vec message_write_to m \<longleftrightarrow> k = m"
      using k message_enc.write_inj [of k m] by (auto simp: to_vec_def)
    with True raw read [of m] show ?thesis by simp
  next
    case False
    then have "bs \<noteq> to_vec message_write_to m"
      using message_read_from_total [of bs] read by blast
    with False read [of m] message_from_raw_short [of bs] show ?thesis by simp
  qed
qed

end
