(* ===== verification/Hyperlane_Db.thy ===== *)
theory Hyperlane_Db
  imports Prover Message
begin

text \<open>
  The agents' database: \<^verbatim>\<open>hyperlane-base/src/db/rocks\<close>. \<^verbatim>\<open>DB\<close> (mod.rs) wraps the RocksDB library,
  \<^verbatim>\<open>TypedDB\<close> (typed_db.rs) encodes keys and values and prefixes the keys, \<^verbatim>\<open>HyperlaneRocksDB\<close>
  (hyperlane_db.rs) keeps the messages, gas payments and merkle tree insertions of one domain, with
  the value types of storage_types.rs.

  RocksDB is not code of the repository: its \<^verbatim>\<open>put\<close> and \<^verbatim>\<open>get\<close> are the fields of a record
  \<open>rocks\<close> over an arbitrary type \<open>'db\<close> of database states, with errors of an arbitrary type
  \<open>'e\<close>. An operation maps the state before to the state after and its result, which is a value, an
  error or a panic. The log output (debug!, trace!) is left out.
\<close>

section \<open>Operations on a database\<close>

record ('db, 'e) rocks =
  rocks_put :: "bytes \<Rightarrow> bytes \<Rightarrow> 'db \<Rightarrow> 'db \<times> ('e + unit)"
  rocks_get :: "bytes \<Rightarrow> 'db \<Rightarrow> 'e + bytes option"

text \<open>\<^verbatim>\<open>DbError\<close>, without the errors of opening a database.\<close>

datatype 'e db_error = RockError 'e | HyperlaneError io_error

type_synonym ('db, 'e, 'a) db_op = "'db \<Rightarrow> 'db \<times> ('e db_error failure + 'a)"

definition dret :: "'a \<Rightarrow> ('db, 'e, 'a) db_op" where
  "dret a s = (s, Inr a)"

definition dpanic :: "('db, 'e, 'a) db_op" where
  "dpanic s = (s, Inl Panic)"

definition dbind ::
  "('db, 'e, 'a) db_op \<Rightarrow> ('a \<Rightarrow> ('db, 'e, 'b) db_op) \<Rightarrow> ('db, 'e, 'b) db_op" where
  "dbind m f s = (case m s of (s', Inl e) \<Rightarrow> (s', Inl e) | (s', Inr a) \<Rightarrow> f a s')"

definition dread :: "('db \<Rightarrow> 'e db_error + 'a) \<Rightarrow> ('db, 'e, 'a) db_op" where
  "dread r s = (s, map_err Err (r s))"

definition dthe :: "'a option \<Rightarrow> ('db, 'e, 'a) db_op" where
  "dthe o' = (case o' of None \<Rightarrow> dpanic | Some a \<Rightarrow> dret a)"

text \<open>\<^verbatim>\<open>DB::store\<close> and \<^verbatim>\<open>DB::retrieve\<close>.\<close>

definition kv_store :: "('db, 'e) rocks \<Rightarrow> bytes \<Rightarrow> bytes \<Rightarrow> ('db, 'e, unit) db_op" where
  "kv_store R key val s =
     (let (s', r) = rocks_put R key val s in (s', map_err (\<lambda>e. Err (RockError e)) r))"

definition kv_retrieve :: "('db, 'e) rocks \<Rightarrow> bytes \<Rightarrow> 'db \<Rightarrow> 'e db_error + bytes option" where
  "kv_retrieve R key s = map_err RockError (rocks_get R key s)"

section \<open>The typed database\<close>

record ('db, 'e) typed_db =
  domain_prefix :: bytes
  tdb_db :: "('db, 'e) rocks"

definition typed_db_new :: "bytes \<Rightarrow> ('db, 'e) rocks \<Rightarrow> ('db, 'e) typed_db" where
  "typed_db_new name db = \<lparr>domain_prefix = name @ str_bytes ''_'', tdb_db = db\<rparr>"

definition prefixed_key :: "('db, 'e) typed_db \<Rightarrow> bytes \<Rightarrow> bytes \<Rightarrow> bytes" where
  "prefixed_key t prefix key = domain_prefix t @ prefix @ key"

definition store_encodable ::
  "('db, 'e) typed_db \<Rightarrow> bytes \<Rightarrow> bytes \<Rightarrow> ('v \<Rightarrow> written) \<Rightarrow> 'v \<Rightarrow> ('db, 'e, unit) db_op" where
  "store_encodable t prefix key wv val =
     kv_store (tdb_db t) (prefixed_key t prefix key) (to_vec wv val)"

definition retrieve_decodable ::
  "('db, 'e) typed_db \<Rightarrow> bytes \<Rightarrow> bytes \<Rightarrow> (bytes \<Rightarrow> io_error + 'v \<times> bytes) \<Rightarrow> 'db \<Rightarrow>
     'e db_error + 'v option" where
  "retrieve_decodable t prefix key rv s =
     rbind (kv_retrieve (tdb_db t) (prefixed_key t prefix key) s) (\<lambda>o'.
     case o' of
       None \<Rightarrow> Inr None
     | Some bs \<Rightarrow> rbind (map_err HyperlaneError (rv bs)) (\<lambda>(v, rest). Inr (Some v)))"

definition store_keyed_encodable ::
  "('db, 'e) typed_db \<Rightarrow> bytes \<Rightarrow> ('k \<Rightarrow> written) \<Rightarrow> 'k \<Rightarrow> ('v \<Rightarrow> written) \<Rightarrow> 'v \<Rightarrow>
     ('db, 'e, unit) db_op" where
  "store_keyed_encodable t prefix wk key wv val = store_encodable t prefix (to_vec wk key) wv val"

definition retrieve_keyed_decodable ::
  "('db, 'e) typed_db \<Rightarrow> bytes \<Rightarrow> ('k \<Rightarrow> written) \<Rightarrow> 'k \<Rightarrow> (bytes \<Rightarrow> io_error + 'v \<times> bytes) \<Rightarrow>
     'db \<Rightarrow> 'e db_error + 'v option" where
  "retrieve_keyed_decodable t prefix wk key rv s = retrieve_decodable t prefix (to_vec wk key) rv s"

section \<open>The stored values\<close>

record interchain_gas_payment_data =
  gpd_payment :: u256
  gpd_gas_amount :: u256

record interchain_gas_expenditure_data =
  ged_tokens_used :: u256
  ged_gas_used :: u256

definition gas_payment_data_default :: interchain_gas_payment_data where
  "gas_payment_data_default = \<lparr>gpd_payment = 0, gpd_gas_amount = 0\<rparr>"

definition gas_payment_data_complete ::
  "interchain_gas_payment_data \<Rightarrow> h256 \<Rightarrow> u32 \<Rightarrow> interchain_gas_payment" where
  "gas_payment_data_complete d message_id destination =
     \<lparr>igp_message_id = message_id, igp_destination = destination,
      igp_payment = gpd_payment d, igp_gas_amount = gpd_gas_amount d\<rparr>"

definition gas_payment_data_from :: "interchain_gas_payment \<Rightarrow> interchain_gas_payment_data" where
  "gas_payment_data_from p = \<lparr>gpd_payment = igp_payment p, gpd_gas_amount = igp_gas_amount p\<rparr>"

definition gas_payment_data_write_to :: "interchain_gas_payment_data \<Rightarrow> written" where
  "gas_payment_data_write_to d =
     (let (b1, w1) = u256_write_to (gpd_payment d); (b2, w2) = u256_write_to (gpd_gas_amount d)
      in (b1 @ b2, w1 + w2))"

definition gas_payment_data_read_from ::
  "bytes \<Rightarrow> io_error + interchain_gas_payment_data \<times> bytes" where
  "gas_payment_data_read_from r =
     rbind (u256_read_from r) (\<lambda>(payment, r).
     rbind (u256_read_from r) (\<lambda>(gas_amount, r).
     Inr (\<lparr>gpd_payment = payment, gpd_gas_amount = gas_amount\<rparr>, r)))"

definition gas_expenditure_data_default :: interchain_gas_expenditure_data where
  "gas_expenditure_data_default = \<lparr>ged_tokens_used = 0, ged_gas_used = 0\<rparr>"

definition gas_expenditure_data_complete ::
  "interchain_gas_expenditure_data \<Rightarrow> h256 \<Rightarrow> interchain_gas_expenditure" where
  "gas_expenditure_data_complete d message_id =
     \<lparr>ige_message_id = message_id, ige_tokens_used = ged_tokens_used d,
      ige_gas_used = ged_gas_used d\<rparr>"

definition gas_expenditure_data_from ::
  "interchain_gas_expenditure \<Rightarrow> interchain_gas_expenditure_data" where
  "gas_expenditure_data_from p =
     \<lparr>ged_tokens_used = ige_tokens_used p, ged_gas_used = ige_gas_used p\<rparr>"

definition gas_expenditure_data_write_to :: "interchain_gas_expenditure_data \<Rightarrow> written" where
  "gas_expenditure_data_write_to d =
     (let (b1, w1) = u256_write_to (ged_tokens_used d); (b2, w2) = u256_write_to (ged_gas_used d)
      in (b1 @ b2, w1 + w2))"

definition gas_expenditure_data_read_from ::
  "bytes \<Rightarrow> io_error + interchain_gas_expenditure_data \<times> bytes" where
  "gas_expenditure_data_read_from r =
     rbind (u256_read_from r) (\<lambda>(tokens_used, r).
     rbind (u256_read_from r) (\<lambda>(gas_used, r).
     Inr (\<lparr>ged_tokens_used = tokens_used, ged_gas_used = gas_used\<rparr>, r)))"

text \<open>\<^verbatim>\<open>LogMeta\<close> of \<^verbatim>\<open>types/log_metadata.rs\<close>; \<^verbatim>\<open>as_u64\<close> panics on an index above 64 bits.\<close>

record log_meta =
  lm_address :: h256
  lm_block_number :: u64
  lm_block_hash :: h256
  lm_transaction_id :: h512
  lm_transaction_index :: u64
  lm_log_index :: u256

definition gas_payment_meta_from :: "log_meta \<Rightarrow> gas_payment_meta option" where
  "gas_payment_meta_from m =
     (if unat (lm_log_index m) < 2 ^ 64
      then Some \<lparr>gpm_transaction_id = lm_transaction_id m, gpm_log_index = ucast (lm_log_index m)\<rparr>
      else None)"

section \<open>The database of a domain\<close>

definition MESSAGE_ID :: bytes where "MESSAGE_ID = str_bytes ''message_id_''"
definition MESSAGE_DISPATCHED_BLOCK_NUMBER :: bytes where
  "MESSAGE_DISPATCHED_BLOCK_NUMBER = str_bytes ''message_dispatched_block_number_''"
definition MESSAGE :: bytes where "MESSAGE = str_bytes ''message_''"
definition NONCE_PROCESSED :: bytes where "NONCE_PROCESSED = str_bytes ''nonce_processed_''"
definition GAS_PAYMENT_FOR_MESSAGE_ID :: bytes where
  "GAS_PAYMENT_FOR_MESSAGE_ID = str_bytes ''gas_payment_for_message_id_v2_''"
definition GAS_PAYMENT_META_PROCESSED :: bytes where
  "GAS_PAYMENT_META_PROCESSED = str_bytes ''gas_payment_meta_processed_v3_''"
definition GAS_EXPENDITURE_FOR_MESSAGE_ID :: bytes where
  "GAS_EXPENDITURE_FOR_MESSAGE_ID = str_bytes ''gas_expenditure_for_message_id_v2_''"
definition PENDING_MESSAGE_RETRY_COUNT_FOR_MESSAGE_ID :: bytes where
  "PENDING_MESSAGE_RETRY_COUNT_FOR_MESSAGE_ID =
     str_bytes ''pending_message_retry_count_for_message_id_''"
definition MERKLE_TREE_INSERTION :: bytes where
  "MERKLE_TREE_INSERTION = str_bytes ''merkle_tree_insertion_''"
definition MERKLE_LEAF_INDEX_BY_MESSAGE_ID :: bytes where
  "MERKLE_LEAF_INDEX_BY_MESSAGE_ID = str_bytes ''merkle_leaf_index_by_message_id_''"
definition MERKLE_TREE_INSERTION_BLOCK_NUMBER_BY_LEAF_INDEX :: bytes where
  "MERKLE_TREE_INSERTION_BLOCK_NUMBER_BY_LEAF_INDEX =
     str_bytes ''merkle_tree_insertion_block_number_by_leaf_index_''"
definition LATEST_INDEXED_GAS_PAYMENT_BLOCK :: bytes where
  "LATEST_INDEXED_GAS_PAYMENT_BLOCK = str_bytes ''latest_indexed_gas_payment_block''"

text \<open>
  \<^verbatim>\<open>HyperlaneRocksDB\<close>: the domain, of which the database uses the name and its readers the id, and
  the typed database.
\<close>

record ('db, 'e) hyperlane_rocks_db =
  hrd_domain_id :: u32
  hrd_tdb :: "('db, 'e) typed_db"

definition hyperlane_rocks_db_new ::
  "u32 \<Rightarrow> bytes \<Rightarrow> ('db, 'e) rocks \<Rightarrow> ('db, 'e) hyperlane_rocks_db" where
  "hyperlane_rocks_db_new domain_id name db =
     \<lparr>hrd_domain_id = domain_id, hrd_tdb = typed_db_new name db\<rparr>"

text \<open>The store and retrieve functions \<^verbatim>\<open>make_store_and_retrieve!\<close> generates.\<close>

definition store_message_id_by_nonce where
  "store_message_id_by_nonce h (key :: u32) val =
     store_keyed_encodable (hrd_tdb h) MESSAGE_ID u32_write_to key h256_write_to val"
definition retrieve_message_id_by_nonce where
  "retrieve_message_id_by_nonce h (key :: u32) =
     retrieve_keyed_decodable (hrd_tdb h) MESSAGE_ID u32_write_to key h256_read_from"

definition store_message_by_id where
  "store_message_by_id h (key :: h256) val =
     store_keyed_encodable (hrd_tdb h) MESSAGE h256_write_to key message_write_to val"
definition retrieve_message_by_id where
  "retrieve_message_by_id h (key :: h256) =
     retrieve_keyed_decodable (hrd_tdb h) MESSAGE h256_write_to key message_read_from"

definition store_dispatched_block_number_by_nonce where
  "store_dispatched_block_number_by_nonce h (key :: u32) val =
     store_keyed_encodable (hrd_tdb h) MESSAGE_DISPATCHED_BLOCK_NUMBER u32_write_to key
       u64_write_to val"
definition retrieve_dispatched_block_number_by_nonce where
  "retrieve_dispatched_block_number_by_nonce h (key :: u32) =
     retrieve_keyed_decodable (hrd_tdb h) MESSAGE_DISPATCHED_BLOCK_NUMBER u32_write_to key
       u64_read_from"

definition store_processed_by_nonce where
  "store_processed_by_nonce h (key :: u32) val =
     store_keyed_encodable (hrd_tdb h) NONCE_PROCESSED u32_write_to key bool_write_to val"
definition retrieve_processed_by_nonce where
  "retrieve_processed_by_nonce h (key :: u32) =
     retrieve_keyed_decodable (hrd_tdb h) NONCE_PROCESSED u32_write_to key bool_read_from"

definition store_processed_by_gas_payment_meta where
  "store_processed_by_gas_payment_meta h key val =
     store_keyed_encodable (hrd_tdb h) GAS_PAYMENT_META_PROCESSED gas_payment_meta_write_to key
       bool_write_to val"
definition retrieve_processed_by_gas_payment_meta where
  "retrieve_processed_by_gas_payment_meta h key =
     retrieve_keyed_decodable (hrd_tdb h) GAS_PAYMENT_META_PROCESSED gas_payment_meta_write_to key
       bool_read_from"

definition store_interchain_gas_expenditure_data_by_message_id where
  "store_interchain_gas_expenditure_data_by_message_id h (key :: h256) val =
     store_keyed_encodable (hrd_tdb h) GAS_EXPENDITURE_FOR_MESSAGE_ID h256_write_to key
       gas_expenditure_data_write_to val"
definition retrieve_interchain_gas_expenditure_data_by_message_id where
  "retrieve_interchain_gas_expenditure_data_by_message_id h (key :: h256) =
     retrieve_keyed_decodable (hrd_tdb h) GAS_EXPENDITURE_FOR_MESSAGE_ID h256_write_to key
       gas_expenditure_data_read_from"

definition store_interchain_gas_payment_data_by_gas_payment_key where
  "store_interchain_gas_payment_data_by_gas_payment_key h key val =
     store_keyed_encodable (hrd_tdb h) GAS_PAYMENT_FOR_MESSAGE_ID gas_payment_key_write_to key
       gas_payment_data_write_to val"
definition retrieve_interchain_gas_payment_data_by_gas_payment_key where
  "retrieve_interchain_gas_payment_data_by_gas_payment_key h key =
     retrieve_keyed_decodable (hrd_tdb h) GAS_PAYMENT_FOR_MESSAGE_ID gas_payment_key_write_to key
       gas_payment_data_read_from"

definition store_pending_message_retry_count_by_message_id where
  "store_pending_message_retry_count_by_message_id h (key :: h256) val =
     store_keyed_encodable (hrd_tdb h) PENDING_MESSAGE_RETRY_COUNT_FOR_MESSAGE_ID h256_write_to key
       u32_write_to val"
definition retrieve_pending_message_retry_count_by_message_id where
  "retrieve_pending_message_retry_count_by_message_id h (key :: h256) =
     retrieve_keyed_decodable (hrd_tdb h) PENDING_MESSAGE_RETRY_COUNT_FOR_MESSAGE_ID h256_write_to
       key u32_read_from"

definition store_merkle_tree_insertion_by_leaf_index where
  "store_merkle_tree_insertion_by_leaf_index h (key :: u32) val =
     store_keyed_encodable (hrd_tdb h) MERKLE_TREE_INSERTION u32_write_to key mti_write_to val"
definition retrieve_merkle_tree_insertion_by_leaf_index where
  "retrieve_merkle_tree_insertion_by_leaf_index h (key :: u32) =
     retrieve_keyed_decodable (hrd_tdb h) MERKLE_TREE_INSERTION u32_write_to key mti_read_from"

definition store_merkle_leaf_index_by_message_id where
  "store_merkle_leaf_index_by_message_id h (key :: h256) val =
     store_keyed_encodable (hrd_tdb h) MERKLE_LEAF_INDEX_BY_MESSAGE_ID h256_write_to key
       u32_write_to val"
definition retrieve_merkle_leaf_index_by_message_id where
  "retrieve_merkle_leaf_index_by_message_id h (key :: h256) =
     retrieve_keyed_decodable (hrd_tdb h) MERKLE_LEAF_INDEX_BY_MESSAGE_ID h256_write_to key
       u32_read_from"

definition store_merkle_tree_insertion_block_number_by_leaf_index where
  "store_merkle_tree_insertion_block_number_by_leaf_index h (key :: u32) val =
     store_keyed_encodable (hrd_tdb h) MERKLE_TREE_INSERTION_BLOCK_NUMBER_BY_LEAF_INDEX
       u32_write_to key u64_write_to val"
definition retrieve_merkle_tree_insertion_block_number_by_leaf_index where
  "retrieve_merkle_tree_insertion_block_number_by_leaf_index h (key :: u32) =
     retrieve_keyed_decodable (hrd_tdb h) MERKLE_TREE_INSERTION_BLOCK_NUMBER_BY_LEAF_INDEX
       u32_write_to key u64_read_from"

definition store_high_watermark where
  "store_high_watermark h block_number =
     store_encodable (hrd_tdb h) [] LATEST_INDEXED_GAS_PAYMENT_BLOCK u32_write_to block_number"
definition retrieve_high_watermark where
  "retrieve_high_watermark h =
     retrieve_decodable (hrd_tdb h) [] LATEST_INDEXED_GAS_PAYMENT_BLOCK u32_read_from"

subsection \<open>Messages\<close>

text \<open>\<^verbatim>\<open>if let Ok(Some(_))\<close>: a failing lookup counts as absent.\<close>

definition store_message ::
  "keccak \<Rightarrow> ('db, 'e) hyperlane_rocks_db \<Rightarrow> hyperlane_message \<Rightarrow> u64 \<Rightarrow> ('db, 'e, bool) db_op" where
  "store_message kc h message dispatched_block_number s =
     (case retrieve_message_id_by_nonce h (msg_nonce message) s of
        Inr (Some _) \<Rightarrow> dret False s
      | _ \<Rightarrow>
        let id = hyperlane_message_id kc message in
        (dbind (store_message_by_id h id message) (\<lambda>_.
         dbind (store_message_id_by_nonce h (msg_nonce message) id) (\<lambda>_.
         dbind (store_dispatched_block_number_by_nonce h (msg_nonce message)
           dispatched_block_number) (\<lambda>_.
         dret True)))) s)"

definition retrieve_message_by_nonce ::
  "('db, 'e) hyperlane_rocks_db \<Rightarrow> u32 \<Rightarrow> 'db \<Rightarrow> 'e db_error + hyperlane_message option" where
  "retrieve_message_by_nonce h nonce s =
     rbind (retrieve_message_id_by_nonce h nonce s) (\<lambda>id.
     case id of
       None \<Rightarrow> Inr None
     | Some msg_id \<Rightarrow> retrieve_message_by_id h msg_id s)"

subsection \<open>Gas payments and expenditures\<close>

definition retrieve_gas_payment_by_gas_payment_key ::
  "('db, 'e) hyperlane_rocks_db \<Rightarrow> gas_payment_key \<Rightarrow> 'db \<Rightarrow> 'e db_error + interchain_gas_payment"
  where
  "retrieve_gas_payment_by_gas_payment_key h k s =
     rbind (retrieve_interchain_gas_payment_data_by_gas_payment_key h k s) (\<lambda>d.
     Inr (gas_payment_data_complete
       (case d of None \<Rightarrow> gas_payment_data_default | Some d \<Rightarrow> d)
       (gpk_message_id k) (gpk_destination k)))"

definition retrieve_gas_expenditure_by_message_id ::
  "('db, 'e) hyperlane_rocks_db \<Rightarrow> h256 \<Rightarrow> 'db \<Rightarrow> 'e db_error + interchain_gas_expenditure" where
  "retrieve_gas_expenditure_by_message_id h message_id s =
     rbind (retrieve_interchain_gas_expenditure_data_by_message_id h message_id s) (\<lambda>d.
     Inr (gas_expenditure_data_complete
       (case d of None \<Rightarrow> gas_expenditure_data_default | Some d \<Rightarrow> d) message_id))"

definition update_gas_payment_by_gas_payment_key ::
  "('db, 'e) hyperlane_rocks_db \<Rightarrow> interchain_gas_payment \<Rightarrow> ('db, 'e, unit) db_op" where
  "update_gas_payment_by_gas_payment_key h event =
     (let k = \<lparr>gpk_message_id = igp_message_id event, gpk_destination = igp_destination event\<rparr> in
      dbind (dread (retrieve_gas_payment_by_gas_payment_key h k)) (\<lambda>existing_payment.
      dbind (dthe (gas_payment_add existing_payment event)) (\<lambda>total.
      store_interchain_gas_payment_data_by_gas_payment_key h k (gas_payment_data_from total))))"

definition update_gas_expenditure_by_message_id ::
  "('db, 'e) hyperlane_rocks_db \<Rightarrow> interchain_gas_expenditure \<Rightarrow> ('db, 'e, unit) db_op" where
  "update_gas_expenditure_by_message_id h event =
     dbind (dread (retrieve_gas_expenditure_by_message_id h (ige_message_id event)))
       (\<lambda>existing_payment.
     dbind (dthe (gas_expenditure_add existing_payment event)) (\<lambda>total.
     store_interchain_gas_expenditure_data_by_message_id h (ige_message_id total)
       \<lparr>ged_tokens_used = ige_tokens_used total, ged_gas_used = ige_gas_used total\<rparr>))"

definition process_gas_payment ::
  "('db, 'e) hyperlane_rocks_db \<Rightarrow> interchain_gas_payment \<Rightarrow> log_meta \<Rightarrow> ('db, 'e, bool) db_op"
  where
  "process_gas_payment h payment meta =
     dbind (dthe (gas_payment_meta_from meta)) (\<lambda>payment_meta.
     dbind (dread (retrieve_processed_by_gas_payment_meta h payment_meta)) (\<lambda>processed.
     if (case processed of None \<Rightarrow> False | Some b \<Rightarrow> b) then dret False
     else
       dbind (store_processed_by_gas_payment_meta h payment_meta True) (\<lambda>_.
       dbind (update_gas_payment_by_gas_payment_key h payment) (\<lambda>_.
       dret True))))"

definition process_gas_expenditure ::
  "('db, 'e) hyperlane_rocks_db \<Rightarrow> interchain_gas_expenditure \<Rightarrow> ('db, 'e, unit) db_op" where
  "process_gas_expenditure h expenditure = update_gas_expenditure_by_message_id h expenditure"

subsection \<open>Merkle tree insertions\<close>

definition process_tree_insertion ::
  "('db, 'e) hyperlane_rocks_db \<Rightarrow> merkle_tree_insertion \<Rightarrow> u64 \<Rightarrow> ('db, 'e, bool) db_op" where
  "process_tree_insertion h insertion insertion_block_number s =
     (case retrieve_merkle_tree_insertion_by_leaf_index h (mti_leaf_index insertion) s of
        Inr (Some _) \<Rightarrow> dret False s
      | _ \<Rightarrow>
        (dbind (store_merkle_tree_insertion_by_leaf_index h (mti_leaf_index insertion) insertion) (\<lambda>_.
         dbind (store_merkle_leaf_index_by_message_id h (mti_message_id insertion)
           (mti_leaf_index insertion)) (\<lambda>_.
         dbind (store_merkle_tree_insertion_block_number_by_leaf_index h (mti_leaf_index insertion)
           insertion_block_number) (\<lambda>_.
         dret True)))) s)"

subsection \<open>Storing logs\<close>

text \<open>
  \<^verbatim>\<open>HyperlaneLogStore::store_logs\<close> for the three kinds of logs, with the number of new ones in a
  \<^verbatim>\<open>u32\<close>.
\<close>

fun store_messages_loop ::
  "keccak \<Rightarrow> ('db, 'e) hyperlane_rocks_db \<Rightarrow> (hyperlane_message \<times> log_meta) list \<Rightarrow> u32 \<Rightarrow>
     ('db, 'e, u32) db_op" where
  "store_messages_loop kc h [] stored = dret stored"
| "store_messages_loop kc h ((message, meta) # ms) stored =
     dbind (store_message kc h message (lm_block_number meta)) (\<lambda>stored_message.
     store_messages_loop kc h ms (if stored_message then stored + 1 else stored))"

definition store_logs_message where
  "store_logs_message kc h messages = store_messages_loop kc h messages 0"

fun store_payments_loop ::
  "('db, 'e) hyperlane_rocks_db \<Rightarrow> (interchain_gas_payment \<times> log_meta) list \<Rightarrow> u32 \<Rightarrow>
     ('db, 'e, u32) db_op" where
  "store_payments_loop h [] new = dret new"
| "store_payments_loop h ((payment, meta) # ps) new =
     dbind (process_gas_payment h payment meta) (\<lambda>processed.
     store_payments_loop h ps (if processed then new + 1 else new))"

definition store_logs_payment where
  "store_logs_payment h payments = store_payments_loop h payments 0"

fun store_insertions_loop ::
  "('db, 'e) hyperlane_rocks_db \<Rightarrow> (merkle_tree_insertion \<times> log_meta) list \<Rightarrow> u32 \<Rightarrow>
     ('db, 'e, u32) db_op" where
  "store_insertions_loop h [] insertions = dret insertions"
| "store_insertions_loop h ((insertion, meta) # ls) insertions =
     dbind (process_tree_insertion h insertion (lm_block_number meta)) (\<lambda>inserted.
     store_insertions_loop h ls (if inserted then insertions + 1 else insertions))"

definition store_logs_insertion where
  "store_logs_insertion h leaves = store_insertions_loop h leaves 0"

text \<open>\<^verbatim>\<open>HyperlaneSequenceIndexerStore\<close>.\<close>

definition retrieve_by_sequence_message where
  "retrieve_by_sequence_message h sequence = retrieve_message_by_nonce h sequence"
definition retrieve_log_block_number_message where
  "retrieve_log_block_number_message h sequence =
     retrieve_dispatched_block_number_by_nonce h sequence"
definition retrieve_by_sequence_insertion where
  "retrieve_by_sequence_insertion h sequence =
     retrieve_merkle_tree_insertion_by_leaf_index h sequence"
definition retrieve_log_block_number_insertion where
  "retrieve_log_block_number_insertion h sequence =
     retrieve_merkle_tree_insertion_block_number_by_leaf_index h sequence"

end
