(* ===== verification/Hyperlane_Db_Correct.thy ===== *)
theory Hyperlane_Db_Correct
  imports Hyperlane_Db
begin

text \<open>
  What the database of a domain holds after any interleaving of the writes of the indexers, the
  processors and the submitters. The behaviour of RocksDB the code relies on is \<open>rocks_ok\<close>. Every
  key of the database is a value of the datatype \<open>hdb_key\<close>, distinct values give distinct bytes,
  and each operation writes keys of its own kinds (\<open>touches\<close>). The interface \<open>log_store\<close> is what the
  three kinds of logs share: a log is new exactly when its key was not seen before, and a view of the
  database follows the logs stored. The interpretations are on the three \<^verbatim>\<open>store_logs\<close>.
\<close>

section \<open>RocksDB\<close>

text \<open>A successful put is read back, and leaves the other keys alone.\<close>

definition rocks_ok :: "('db, 'e) rocks \<Rightarrow> bool" where
  "rocks_ok R \<longleftrightarrow> (\<forall>k v s s'. rocks_put R k v s = (s', Inr ()) \<longrightarrow>
     (\<forall>k'. rocks_get R k' s' = (if k' = k then Inr (Some v) else rocks_get R k' s)))"

text \<open>No put fails.\<close>

definition rocks_total :: "('db, 'e) rocks \<Rightarrow> bool" where
  "rocks_total R \<longleftrightarrow> (\<forall>k v s. \<exists>s'. rocks_put R k v s = (s', Inr ()))"

definition map_rocks :: "(bytes \<rightharpoonup> bytes, unit) rocks" where
  "map_rocks = \<lparr>rocks_put = (\<lambda>k v s. (s(k \<mapsto> v), Inr ())), rocks_get = (\<lambda>k s. Inr (s k))\<rparr>"

lemma map_rocks_ok: "rocks_ok map_rocks" "rocks_total map_rocks"
  by (simp_all add: rocks_ok_def rocks_total_def map_rocks_def)

section \<open>Sequencing\<close>

named_theorems db_simps \<open>sequencing of database operations\<close>

lemma dbind_eq_Inr [db_simps]:
  "dbind m f s = (s', Inr b) \<longleftrightarrow> (\<exists>s1 a. m s = (s1, Inr a) \<and> f a s1 = (s', Inr b))"
  by (auto simp: dbind_def split: prod.splits sum.splits)

lemma dret_eq [db_simps]: "dret a s = (s', Inr b) \<longleftrightarrow> s' = s \<and> b = a"
  by (auto simp: dret_def)

lemma dread_eq [db_simps]: "dread r s = (s', Inr b) \<longleftrightarrow> s' = s \<and> r s = Inr b"
  by (cases "r s") (auto simp: dread_def)

lemma dthe_eq [db_simps]: "dthe o' s = (s', Inr b) \<longleftrightarrow> s' = s \<and> o' = Some b"
  by (auto simp: dthe_def dpanic_def dret_def split: option.splits)

section \<open>Keys\<close>

datatype hdb_key =
    K_message_id u32 | K_dispatched u32 | K_message h256 | K_processed u32
  | K_gas_meta gas_payment_meta | K_gas_payment gas_payment_key | K_gas_expenditure h256
  | K_retries h256 | K_insertion u32 | K_leaf_index h256 | K_insertion_block u32 | K_watermark

fun hdb_key_bytes :: "hdb_key \<Rightarrow> bytes" where
  "hdb_key_bytes (K_message_id n) = MESSAGE_ID @ to_vec u32_write_to n"
| "hdb_key_bytes (K_dispatched n) = MESSAGE_DISPATCHED_BLOCK_NUMBER @ to_vec u32_write_to n"
| "hdb_key_bytes (K_message i) = MESSAGE @ to_vec h256_write_to i"
| "hdb_key_bytes (K_processed n) = NONCE_PROCESSED @ to_vec u32_write_to n"
| "hdb_key_bytes (K_gas_meta m) = GAS_PAYMENT_META_PROCESSED @ to_vec gas_payment_meta_write_to m"
| "hdb_key_bytes (K_gas_payment k) = GAS_PAYMENT_FOR_MESSAGE_ID @ to_vec gas_payment_key_write_to k"
| "hdb_key_bytes (K_gas_expenditure i) = GAS_EXPENDITURE_FOR_MESSAGE_ID @ to_vec h256_write_to i"
| "hdb_key_bytes (K_retries i) =
     PENDING_MESSAGE_RETRY_COUNT_FOR_MESSAGE_ID @ to_vec h256_write_to i"
| "hdb_key_bytes (K_insertion n) = MERKLE_TREE_INSERTION @ to_vec u32_write_to n"
| "hdb_key_bytes (K_leaf_index i) = MERKLE_LEAF_INDEX_BY_MESSAGE_ID @ to_vec h256_write_to i"
| "hdb_key_bytes (K_insertion_block n) =
     MERKLE_TREE_INSERTION_BLOCK_NUMBER_BY_LEAF_INDEX @ to_vec u32_write_to n"
| "hdb_key_bytes K_watermark = LATEST_INDEXED_GAS_PAYMENT_BLOCK"

lemmas db_prefix_defs =
  MESSAGE_ID_def MESSAGE_DISPATCHED_BLOCK_NUMBER_def MESSAGE_def NONCE_PROCESSED_def
  GAS_PAYMENT_META_PROCESSED_def GAS_PAYMENT_FOR_MESSAGE_ID_def GAS_EXPENDITURE_FOR_MESSAGE_ID_def
  PENDING_MESSAGE_RETRY_COUNT_FOR_MESSAGE_ID_def MERKLE_TREE_INSERTION_def
  MERKLE_LEAF_INDEX_BY_MESSAGE_ID_def MERKLE_TREE_INSERTION_BLOCK_NUMBER_BY_LEAF_INDEX_def
  LATEST_INDEXED_GAS_PAYMENT_BLOCK_def

lemma to_vec_inj [simp]:
  "to_vec u32_write_to n = to_vec u32_write_to n' \<longleftrightarrow> n = n'"
  "to_vec h256_write_to i = to_vec h256_write_to i' \<longleftrightarrow> i = i'"
  "to_vec gas_payment_meta_write_to m = to_vec gas_payment_meta_write_to m' \<longleftrightarrow> m = m'"
  "to_vec gas_payment_key_write_to k = to_vec gas_payment_key_write_to k' \<longleftrightarrow> k = k'"
  using u32_enc.write_inj [of n n'] h256_enc.write_inj [of i i'] gpm_enc.write_inj [of m m']
    gas_payment_key_enc.write_inj [of k k']
  by (auto simp: to_vec_def)

lemma to_vec_length [simp]:
  "length (to_vec u32_write_to n) = 4" "length (to_vec h256_write_to i) = 32"
  "length (to_vec gas_payment_meta_write_to m) = 72"
  "length (to_vec gas_payment_key_write_to k) = 36"
  by (simp_all add: to_vec_def enc_write_defs gas_payment_meta_write_to_def
      gas_payment_key_write_to_def Let_def)

text \<open>The length of a key tells its kind, up to the two kinds about gas of a message.\<close>

fun hdb_key_length :: "hdb_key \<Rightarrow> nat" where
  "hdb_key_length (K_message_id n) = 15"
| "hdb_key_length (K_dispatched n) = 36"
| "hdb_key_length (K_message i) = 40"
| "hdb_key_length (K_processed n) = 20"
| "hdb_key_length (K_gas_meta m) = 102"
| "hdb_key_length (K_gas_payment k) = 66"
| "hdb_key_length (K_gas_expenditure i) = 66"
| "hdb_key_length (K_retries i) = 75"
| "hdb_key_length (K_insertion n) = 26"
| "hdb_key_length (K_leaf_index i) = 64"
| "hdb_key_length (K_insertion_block n) = 53"
| "hdb_key_length K_watermark = 32"

lemma length_hdb_key_bytes: "length (hdb_key_bytes k) = hdb_key_length k"
  by (cases k) (simp_all add: db_prefix_defs)

lemma gas_keys_differ: "hdb_key_bytes (K_gas_payment k) \<noteq> hdb_key_bytes (K_gas_expenditure i)"
  by (simp add: db_prefix_defs str_bytes_def)

lemma hdb_key_bytes_inject [simp]: "hdb_key_bytes k = hdb_key_bytes k' \<longleftrightarrow> k = k'"
proof
  assume eq: "hdb_key_bytes k = hdb_key_bytes k'"
  then have len: "hdb_key_length k = hdb_key_length k'"
    by (metis length_hdb_key_bytes)
  show "k = k'"
    using len eq gas_keys_differ gas_keys_differ [symmetric]
    by (cases k; cases k') (simp_all del: hdb_key_bytes.simps(6,7), (simp | metis)+)
qed simp


section \<open>Reads and writes of keys\<close>

definition db_at :: "('db, 'e) hyperlane_rocks_db \<Rightarrow> hdb_key \<Rightarrow> 'db \<Rightarrow> 'e + bytes option" where
  "db_at h k s = rocks_get (tdb_db (hrd_tdb h)) (domain_prefix (hrd_tdb h) @ hdb_key_bytes k) s"

definition db_put :: "('db, 'e) hyperlane_rocks_db \<Rightarrow> hdb_key \<Rightarrow> bytes \<Rightarrow> ('db, 'e, unit) db_op" where
  "db_put h k bs = kv_store (tdb_db (hrd_tdb h)) (domain_prefix (hrd_tdb h) @ hdb_key_bytes k) bs"

definition decoded ::
  "(bytes \<Rightarrow> io_error + 'v \<times> bytes) \<Rightarrow> 'e + bytes option \<Rightarrow> 'e db_error + 'v option" where
  "decoded rv r = rbind (map_err RockError r) (\<lambda>o'.
     case o' of
       None \<Rightarrow> Inr None
     | Some bs \<Rightarrow> rbind (map_err HyperlaneError (rv bs)) (\<lambda>(v, rest). Inr (Some v)))"

abbreviation db_ok :: "('db, 'e) hyperlane_rocks_db \<Rightarrow> bool" where
  "db_ok h \<equiv> rocks_ok (tdb_db (hrd_tdb h))"

abbreviation db_total :: "('db, 'e) hyperlane_rocks_db \<Rightarrow> bool" where
  "db_total h \<equiv> rocks_total (tdb_db (hrd_tdb h))"

lemma db_put_at:
  assumes "db_ok h" and "db_put h k bs s = (s', Inr ())"
  shows "db_at h k' s' = (if k' = k then Inr (Some bs) else db_at h k' s)"
  using assms by (auto simp: db_put_def db_at_def kv_store_def rocks_ok_def split: prod.splits)

lemma db_put_total: "db_total h \<Longrightarrow> \<exists>s'. db_put h k bs s = (s', Inr ())"
  unfolding db_put_def kv_store_def rocks_total_def
  by (metis (no_types, lifting) case_prod_conv map_err.simps(2))

lemma decoded_None [simp]: "decoded rv (Inr None) = Inr None"
  by (simp add: decoded_def)

lemma decoded_values [simp]:
  "decoded h256_read_from (Inr (Some (to_vec h256_write_to i))) = Inr (Some i)"
  "decoded u64_read_from (Inr (Some (to_vec u64_write_to b))) = Inr (Some b)"
  "decoded u32_read_from (Inr (Some (to_vec u32_write_to n))) = Inr (Some n)"
  "decoded bool_read_from (Inr (Some (to_vec bool_write_to p))) = Inr (Some p)"
  "decoded message_read_from (Inr (Some (to_vec message_write_to m))) = Inr (Some m)"
  "decoded mti_read_from (Inr (Some (to_vec mti_write_to ins))) = Inr (Some ins)"
  by (simp_all add: decoded_def to_vec_def h256_enc.read_back u64_enc.read_back u32_enc.read_back
      bool_enc.read_back message_enc.read_back mti_enc.read_back)

lemma gpd_read_back:
  "gas_payment_data_read_from (fst (gas_payment_data_write_to d)) = Inr (d, [])"
  "gas_expenditure_data_read_from (fst (gas_expenditure_data_write_to x)) = Inr (x, [])"
  by (simp_all add: gas_payment_data_read_from_def gas_payment_data_write_to_def
      gas_expenditure_data_read_from_def gas_expenditure_data_write_to_def
      u256_enc.read_prefix u256_enc.read_back split_def Let_def)

lemma decoded_gas_values [simp]:
  "decoded gas_payment_data_read_from (Inr (Some (to_vec gas_payment_data_write_to d))) = Inr (Some d)"
  "decoded gas_expenditure_data_read_from
     (Inr (Some (to_vec gas_expenditure_data_write_to x))) = Inr (Some x)"
  by (simp_all add: decoded_def to_vec_def gpd_read_back)

lemmas keyed_defs =
  store_keyed_encodable_def retrieve_keyed_decodable_def store_encodable_def retrieve_decodable_def
  prefixed_key_def kv_retrieve_def db_put_def db_at_def decoded_def

text \<open>The generated functions are reads and writes of their keys.\<close>

lemma stores [db_simps]:
  "store_message_id_by_nonce h n i = db_put h (K_message_id n) (to_vec h256_write_to i)"
  "store_message_by_id h i m = db_put h (K_message i) (to_vec message_write_to m)"
  "store_dispatched_block_number_by_nonce h n b = db_put h (K_dispatched n) (to_vec u64_write_to b)"
  "store_processed_by_nonce h n p = db_put h (K_processed n) (to_vec bool_write_to p)"
  "store_processed_by_gas_payment_meta h g p = db_put h (K_gas_meta g) (to_vec bool_write_to p)"
  "store_interchain_gas_expenditure_data_by_message_id h i x =
     db_put h (K_gas_expenditure i) (to_vec gas_expenditure_data_write_to x)"
  "store_interchain_gas_payment_data_by_gas_payment_key h k d =
     db_put h (K_gas_payment k) (to_vec gas_payment_data_write_to d)"
  "store_pending_message_retry_count_by_message_id h i n =
     db_put h (K_retries i) (to_vec u32_write_to n)"
  "store_merkle_tree_insertion_by_leaf_index h n ins =
     db_put h (K_insertion n) (to_vec mti_write_to ins)"
  "store_merkle_leaf_index_by_message_id h i n =
     db_put h (K_leaf_index i) (to_vec u32_write_to n)"
  "store_merkle_tree_insertion_block_number_by_leaf_index h n b =
     db_put h (K_insertion_block n) (to_vec u64_write_to b)"
  "store_high_watermark h n = db_put h K_watermark (to_vec u32_write_to n)"
  by (rule ext, simp add: keyed_defs store_message_id_by_nonce_def store_message_by_id_def
      store_dispatched_block_number_by_nonce_def store_processed_by_nonce_def
      store_processed_by_gas_payment_meta_def
      store_interchain_gas_expenditure_data_by_message_id_def
      store_interchain_gas_payment_data_by_gas_payment_key_def
      store_pending_message_retry_count_by_message_id_def
      store_merkle_tree_insertion_by_leaf_index_def store_merkle_leaf_index_by_message_id_def
      store_merkle_tree_insertion_block_number_by_leaf_index_def store_high_watermark_def)+

lemma retrieves [db_simps]:
  "retrieve_message_id_by_nonce h n s = decoded h256_read_from (db_at h (K_message_id n) s)"
  "retrieve_message_by_id h i s = decoded message_read_from (db_at h (K_message i) s)"
  "retrieve_dispatched_block_number_by_nonce h n s =
     decoded u64_read_from (db_at h (K_dispatched n) s)"
  "retrieve_processed_by_nonce h n s = decoded bool_read_from (db_at h (K_processed n) s)"
  "retrieve_processed_by_gas_payment_meta h g s =
     decoded bool_read_from (db_at h (K_gas_meta g) s)"
  "retrieve_interchain_gas_expenditure_data_by_message_id h i s =
     decoded gas_expenditure_data_read_from (db_at h (K_gas_expenditure i) s)"
  "retrieve_interchain_gas_payment_data_by_gas_payment_key h k s =
     decoded gas_payment_data_read_from (db_at h (K_gas_payment k) s)"
  "retrieve_pending_message_retry_count_by_message_id h i s =
     decoded u32_read_from (db_at h (K_retries i) s)"
  "retrieve_merkle_tree_insertion_by_leaf_index h n s =
     decoded mti_read_from (db_at h (K_insertion n) s)"
  "retrieve_merkle_leaf_index_by_message_id h i s =
     decoded u32_read_from (db_at h (K_leaf_index i) s)"
  "retrieve_merkle_tree_insertion_block_number_by_leaf_index h n s =
     decoded u64_read_from (db_at h (K_insertion_block n) s)"
  "retrieve_high_watermark h s = decoded u32_read_from (db_at h K_watermark s)"
  by (simp_all add: keyed_defs retrieve_message_id_by_nonce_def retrieve_message_by_id_def
      retrieve_dispatched_block_number_by_nonce_def retrieve_processed_by_nonce_def
      retrieve_processed_by_gas_payment_meta_def
      retrieve_interchain_gas_expenditure_data_by_message_id_def
      retrieve_interchain_gas_payment_data_by_gas_payment_key_def
      retrieve_pending_message_retry_count_by_message_id_def
      retrieve_merkle_tree_insertion_by_leaf_index_def retrieve_merkle_leaf_index_by_message_id_def
      retrieve_merkle_tree_insertion_block_number_by_leaf_index_def retrieve_high_watermark_def)

subsection \<open>The keys an operation writes\<close>

definition touches ::
  "('db, 'e) hyperlane_rocks_db \<Rightarrow> (hdb_key \<Rightarrow> bool) \<Rightarrow> ('db, 'e, 'a) db_op \<Rightarrow> bool" where
  "touches h C m \<longleftrightarrow> (\<forall>s s' a. m s = (s', Inr a) \<longrightarrow> (\<forall>k. \<not> C k \<longrightarrow> db_at h k s' = db_at h k s))"

lemma touchesD: "touches h C m \<Longrightarrow> m s = (s', Inr a) \<Longrightarrow> \<not> C k \<Longrightarrow> db_at h k s' = db_at h k s"
  by (simp add: touches_def)

named_theorems touchesI \<open>rules for the keys an operation writes\<close>

lemma touches_bind [touchesI]:
  "touches h C m \<Longrightarrow> (\<And>a. touches h C (f a)) \<Longrightarrow> touches h C (dbind m f)"
  unfolding touches_def dbind_eq_Inr by metis

lemma touches_reads [touchesI]:
  "touches h C (dret a)" "touches h C (dread r)" "touches h C (dthe o')"
  by (simp_all add: touches_def db_simps)

lemma touches_put [touchesI]: "db_ok h \<Longrightarrow> C k \<Longrightarrow> touches h C (db_put h k bs)"
  by (auto simp: touches_def db_put_at)

lemma touches_if [touchesI]:
  "touches h C m \<Longrightarrow> touches h C m' \<Longrightarrow> touches h C (if b then m else m')"
  by simp


section \<open>Stores of logs\<close>

text \<open>The first log of every key, in order.\<close>

fun first_by :: "('a \<Rightarrow> 'k) \<Rightarrow> 'k set \<Rightarrow> 'a list \<Rightarrow> 'a list" where
  "first_by f S [] = []"
| "first_by f S (x # xs) =
     (if f x \<in> S then first_by f S xs else x # first_by f (insert (f x) S) xs)"

lemma first_by_snoc:
  "first_by f S (xs @ [x]) =
     first_by f S xs @ (if f x \<in> S \<or> f x \<in> f ` set xs then [] else [x])"
  by (induction xs arbitrary: S) auto

lemma find_snoc:
  "find P (xs @ [x]) =
     (case find P xs of None \<Rightarrow> if P x then Some x else None | Some y \<Rightarrow> Some y)"
  by (induction xs) auto

lemma find_None_iff_image: "find (\<lambda>l. f l = k) ls = None \<longleftrightarrow> k \<notin> f ` set ls"
  by (auto simp: find_None_iff)

text \<open>The common loop of \<^verbatim>\<open>store_logs\<close>, and successive calls of it.\<close>

fun log_loop ::
  "('l \<Rightarrow> ('db, 'e, bool) db_op) \<Rightarrow> 'l list \<Rightarrow> u32 \<Rightarrow> ('db, 'e, u32) db_op" where
  "log_loop store [] n = dret n"
| "log_loop store (l # ls) n = dbind (store l) (\<lambda>b. log_loop store ls (if b then n + 1 else n))"

lemma touches_loop [touchesI]: "(\<And>l. touches h C (store l)) \<Longrightarrow> touches h C (log_loop store ls n)"
  by (induction ls arbitrary: n) (simp_all add: touchesI)

text \<open>
  \<open>view ls s\<close> says what state \<open>s\<close> holds after the logs \<open>ls\<close>, \<open>fits ls\<close> that no number in the
  database overflows, and \<open>owned\<close> which keys the view depends on.
\<close>

locale log_store =
  fixes h :: "('db, 'e) hyperlane_rocks_db"
    and store :: "'l \<Rightarrow> ('db, 'e, bool) db_op"
    and key :: "'l \<Rightarrow> 'k"
    and view :: "'l list \<Rightarrow> 'db \<Rightarrow> bool"
    and fits :: "'l list \<Rightarrow> bool"
    and owned :: "hdb_key \<Rightarrow> bool"
  assumes start: "(\<And>k. db_at h k s = Inr None) \<Longrightarrow> view [] s"
    and frame: "view ls s \<Longrightarrow> (\<And>k. owned k \<Longrightarrow> db_at h k s' = db_at h k s) \<Longrightarrow> view ls s'"
    and step: "db_ok h \<Longrightarrow> view ls s \<Longrightarrow> store l s = (s', Inr b) \<Longrightarrow>
      view (ls @ [l]) s' \<and> b = (key l \<notin> key ` set ls)"
    and total: "db_ok h \<Longrightarrow> db_total h \<Longrightarrow> view ls s \<Longrightarrow> fits (ls @ [l]) \<Longrightarrow>
      \<exists>s' b. store l s = (s', Inr b)"
    and fits_prefix: "fits (ls @ ls') \<Longrightarrow> fits ls"
begin

lemma view_loop:
  assumes ok: "db_ok h"
  shows "view ls s \<Longrightarrow> log_loop store bs n s = (s', Inr n') \<Longrightarrow>
    view (ls @ bs) s' \<and> n' = n + of_nat (length (first_by key (key ` set ls) bs))"
proof (induction bs arbitrary: ls s n)
  case Nil
  then show ?case by (simp add: db_simps)
next
  case (Cons l bs)
  then obtain s1 b where l: "store l s = (s1, Inr b)"
    and bs: "log_loop store bs (if b then n + 1 else n) s1 = (s', Inr n')"
    by (auto simp: db_simps)
  from step [OF ok Cons.prems(1) l] have v: "view (ls @ [l]) s1" and b: "b = (key l \<notin> key ` set ls)"
    by auto
  from Cons.IH [OF v bs] b show ?case by (auto simp: insert_absorb)
qed

lemma loop_total:
  assumes ok: "db_ok h" "db_total h"
  shows "view ls s \<Longrightarrow> fits (ls @ bs) \<Longrightarrow> \<exists>s' n'. log_loop store bs n s = (s', Inr n')"
proof (induction bs arbitrary: ls s n)
  case Nil
  then show ?case by (simp add: dret_def)
next
  case (Cons l bs)
  then have "fits (ls @ [l])" using fits_prefix [of "ls @ [l]" bs] by simp
  with total [OF ok Cons.prems(1)] obtain s1 b where l: "store l s = (s1, Inr b)" by blast
  with step [OF ok(1) Cons.prems(1)] have "view (ls @ [l]) s1" by blast
  with Cons.IH [of "ls @ [l]" s1 "if b then n + 1 else n"] Cons.prems(2)
  obtain s' n' where "log_loop store bs (if b then n + 1 else n) s1 = (s', Inr n')" by auto
  with l show ?case by (auto simp: dbind_eq_Inr)
qed

end

lemma store_loops:
  "store_messages_loop kc h ms n =
     log_loop (\<lambda>(m, meta). store_message kc h m (lm_block_number meta)) ms n"
  "store_payments_loop h ps n = log_loop (\<lambda>(p, meta). process_gas_payment h p meta) ps n"
  "store_insertions_loop h is n =
     log_loop (\<lambda>(i, meta). process_tree_insertion h i (lm_block_number meta)) is n"
proof -
  show "store_messages_loop kc h ms n =
      log_loop (\<lambda>(m, meta). store_message kc h m (lm_block_number meta)) ms n"
    by (induction ms arbitrary: n) (auto simp: dbind_def fun_eq_iff split: prod.splits sum.splits)
  show "store_payments_loop h ps n = log_loop (\<lambda>(p, meta). process_gas_payment h p meta) ps n"
    by (induction ps arbitrary: n) (auto simp: dbind_def fun_eq_iff split: prod.splits sum.splits)
  show "store_insertions_loop h is n =
      log_loop (\<lambda>(i, meta). process_tree_insertion h i (lm_block_number meta)) is n"
    by (induction "is" arbitrary: n) (auto simp: dbind_def fun_eq_iff split: prod.splits sum.splits)
qed

subsection \<open>Messages\<close>

fun message_key :: "hdb_key \<Rightarrow> bool" where
  "message_key (K_message_id n) = True"
| "message_key (K_dispatched n) = True"
| "message_key (K_message i) = True"
| "message_key k = False"

abbreviation nonce_is :: "u32 \<Rightarrow> hyperlane_message \<times> log_meta \<Rightarrow> bool" where
  "nonce_is n l \<equiv> msg_nonce (fst l) = n"

abbreviation new_messages :: "(hyperlane_message \<times> log_meta) list \<Rightarrow> (hyperlane_message \<times> log_meta) list"
  where "new_messages ls \<equiv> first_by (\<lambda>l. msg_nonce (fst l)) {} ls"

definition msg_view ::
  "keccak \<Rightarrow> ('db, 'e) hyperlane_rocks_db \<Rightarrow> (hyperlane_message \<times> log_meta) list \<Rightarrow> 'db \<Rightarrow> bool" where
  "msg_view kc h ls s \<longleftrightarrow>
     (\<forall>n. retrieve_message_id_by_nonce h n s =
        Inr (map_option (\<lambda>l. hyperlane_message_id kc (fst l)) (find (nonce_is n) ls))) \<and>
     (\<forall>n. retrieve_dispatched_block_number_by_nonce h n s =
        Inr (map_option (\<lambda>l. lm_block_number (snd l)) (find (nonce_is n) ls))) \<and>
     (\<forall>i. retrieve_message_by_id h i s =
        Inr (map_option fst (find (\<lambda>l. hyperlane_message_id kc (fst l) = i)
          (rev (new_messages ls)))))"

lemma msg_view_start: "(\<And>k. db_at h k s = Inr None) \<Longrightarrow> msg_view kc h [] s"
  by (simp add: msg_view_def db_simps)

lemma msg_view_frame:
  "msg_view kc h ls s \<Longrightarrow> (\<And>k. message_key k \<Longrightarrow> db_at h k s' = db_at h k s) \<Longrightarrow> msg_view kc h ls s'"
  by (simp add: msg_view_def db_simps)

lemma store_message_known:
  assumes "msg_view kc h ls s" and "find (nonce_is (msg_nonce m)) ls = Some l"
  shows "store_message kc h m b s = (s, Inr False)"
  using assms by (simp add: msg_view_def store_message_def dret_def)

lemma store_message_new:
  assumes "msg_view kc h ls s" and "find (nonce_is (msg_nonce m)) ls = None"
  shows "store_message kc h m b s =
    dbind (db_put h (K_message (hyperlane_message_id kc m)) (to_vec message_write_to m)) (\<lambda>_.
    dbind (db_put h (K_message_id (msg_nonce m)) (to_vec h256_write_to (hyperlane_message_id kc m))) (\<lambda>_.
    dbind (db_put h (K_dispatched (msg_nonce m)) (to_vec u64_write_to b)) (\<lambda>_.
    dret True))) s"
  using assms by (simp add: msg_view_def store_message_def stores Let_def)

lemma msg_view_step:
  assumes ok: "db_ok h" and view: "msg_view kc h ls s"
    and run: "store_message kc h m (lm_block_number meta) s = (s', Inr b)"
  shows "msg_view kc h (ls @ [(m, meta)]) s' \<and> b = (msg_nonce m \<notin> (\<lambda>l. msg_nonce (fst l)) ` set ls)"
proof (cases "find (nonce_is (msg_nonce m)) ls")
  case (Some l)
  then have mem: "msg_nonce m \<in> (\<lambda>l. msg_nonce (fst l)) ` set ls"
    using find_None_iff_image [of "\<lambda>l. msg_nonce (fst l)" "msg_nonce m" ls] by auto
  from Some have "find (nonce_is n) (ls @ [(m, meta)]) = find (nonce_is n) ls" for n
    by (auto simp: find_snoc split: option.splits)
  moreover have "s' = s" "b = False" using run store_message_known [OF view Some] by auto
  ultimately show ?thesis using view mem by (simp add: msg_view_def first_by_snoc)
next
  case None
  then have mem: "msg_nonce m \<notin> (\<lambda>l. msg_nonce (fst l)) ` set ls"
    using find_None_iff_image [of "\<lambda>l. msg_nonce (fst l)" "msg_nonce m" ls] by auto
  have "b" and at: "\<And>k. db_at h k s' =
      (if k = K_dispatched (msg_nonce m) then Inr (Some (to_vec u64_write_to (lm_block_number meta)))
       else if k = K_message_id (msg_nonce m)
         then Inr (Some (to_vec h256_write_to (hyperlane_message_id kc m)))
       else if k = K_message (hyperlane_message_id kc m) then Inr (Some (to_vec message_write_to m))
       else db_at h k s)"
    using run unfolding store_message_new [OF view None] by (auto simp: db_simps db_put_at [OF ok])
  have find: "find (nonce_is n) (ls @ [(m, meta)]) =
      (if n = msg_nonce m then Some (m, meta) else find (nonce_is n) ls)" for n
    using None by (auto simp: find_snoc split: option.splits)
  have "msg_view kc h (ls @ [(m, meta)]) s'"
    using view mem find by (simp add: msg_view_def db_simps at first_by_snoc)
  with \<open>b\<close> mem show ?thesis by simp
qed

lemma dbind_total:
  assumes "\<exists>s' a. m s = (s', Inr a)" and "\<And>s' a. m s = (s', Inr a) \<Longrightarrow> \<exists>s'' b. f a s' = (s'', Inr b)"
  shows "\<exists>s' b. dbind m f s = (s', Inr b)"
  using assms by (metis dbind_eq_Inr)

lemma db_put_returns: "db_total h \<Longrightarrow> \<exists>s' u. db_put h k bs s = (s', Inr u)"
  by (metis db_put_total)

lemma dret_total: "\<exists>s' b. dret a s = (s', Inr b)"
  by (simp add: dret_def)

lemma store_message_total:
  assumes "db_total h" and "msg_view kc h ls s"
  shows "\<exists>s' b. store_message kc h m n s = (s', Inr b)"
proof (cases "find (nonce_is (msg_nonce m)) ls")
  case (Some l)
  then show ?thesis using store_message_known [OF assms(2)] by blast
next
  case None
  show ?thesis unfolding store_message_new [OF assms(2) None]
    by (intro dbind_total db_put_returns dret_total assms(1))
qed

interpretation msg_logs: log_store h "\<lambda>(m, meta). store_message kc h m (lm_block_number meta)"
  "\<lambda>l. msg_nonce (fst l)" "msg_view kc h" always message_key
  for kc and h :: "('db, 'e) hyperlane_rocks_db"
proof
  fix s assume "\<And>k. db_at h k s = Inr None"
  then show "msg_view kc h [] s" by (rule msg_view_start)
next
  fix ls s s' assume "msg_view kc h ls s" "\<And>k. message_key k \<Longrightarrow> db_at h k s' = db_at h k s"
  then show "msg_view kc h ls s'" by (rule msg_view_frame)
qed (auto dest: msg_view_step intro: store_message_total split: prod.splits)


subsection \<open>Gas payments\<close>

fun payment_key :: "hdb_key \<Rightarrow> bool" where
  "payment_key (K_gas_meta g) = True"
| "payment_key (K_gas_payment k) = True"
| "payment_key k = False"

definition gas_key :: "interchain_gas_payment \<Rightarrow> gas_payment_key" where
  "gas_key p = \<lparr>gpk_message_id = igp_message_id p, gpk_destination = igp_destination p\<rparr>"

abbreviation pay_meta :: "interchain_gas_payment \<times> log_meta \<Rightarrow> gas_payment_meta option" where
  "pay_meta l \<equiv> gas_payment_meta_from (snd l)"

text \<open>The payments with a meta not seen before, and their exact sums for a key.\<close>

definition new_payments ::
  "(interchain_gas_payment \<times> log_meta) list \<Rightarrow> (interchain_gas_payment \<times> log_meta) list" where
  "new_payments ls = first_by pay_meta {} ls"

definition sum_for ::
  "(interchain_gas_payment \<Rightarrow> u256) \<Rightarrow> (interchain_gas_payment \<times> log_meta) list \<Rightarrow>
     gas_payment_key \<Rightarrow> int" where
  "sum_for field ls k =
     (\<Sum>l\<leftarrow>filter (\<lambda>l. gas_key (fst l) = k) (new_payments ls). uint (field (fst l)))"

lemma sum_for_Nil [simp]: "sum_for field [] k = 0"
  by (simp add: sum_for_def new_payments_def)

lemma sum_for_snoc:
  "sum_for field (ls @ [l]) k = sum_for field ls k +
     (if pay_meta l \<notin> pay_meta ` set ls \<and> gas_key (fst l) = k then uint (field (fst l)) else 0)"
  by (simp add: sum_for_def new_payments_def first_by_snoc)

lemma sum_for_mono: "sum_for field ls k \<le> sum_for field (ls @ ls') k"
proof (induction ls' rule: rev_induct)
  case (snoc l ls')
  moreover have "sum_for field (ls @ ls') k \<le> sum_for field ((ls @ ls') @ [l]) k"
    unfolding sum_for_snoc [of field "ls @ ls'"] by simp
  ultimately show ?case by simp
qed simp

definition gas_fits :: "(interchain_gas_payment \<times> log_meta) list \<Rightarrow> bool" where
  "gas_fits ls \<longleftrightarrow> (\<forall>l\<in>set ls. unat (lm_log_index (snd l)) < 2 ^ 64) \<and>
     (\<forall>k. sum_for igp_payment ls k < 2 ^ 256 \<and> sum_for igp_gas_amount ls k < 2 ^ 256)"

lemma gas_fits_prefix: "gas_fits (ls @ ls') \<Longrightarrow> gas_fits ls"
  unfolding gas_fits_def by (auto intro: order.strict_trans1 [OF sum_for_mono])

definition gas_view ::
  "('db, 'e) hyperlane_rocks_db \<Rightarrow> (interchain_gas_payment \<times> log_meta) list \<Rightarrow> 'db \<Rightarrow> bool" where
  "gas_view h ls s \<longleftrightarrow>
     (\<forall>g. retrieve_processed_by_gas_payment_meta h g s =
        Inr (if Some g \<in> pay_meta ` set ls then Some True else None)) \<and>
     (\<forall>k. \<exists>p. retrieve_gas_payment_by_gas_payment_key h k s = Inr p \<and> gas_key p = k \<and>
        uint (igp_payment p) = sum_for igp_payment ls k \<and>
        uint (igp_gas_amount p) = sum_for igp_gas_amount ls k)"

lemma gas_view_start: "(\<And>k. db_at h k s = Inr None) \<Longrightarrow> gas_view h [] s"
  by (simp add: gas_view_def db_simps retrieve_gas_payment_by_gas_payment_key_def
      gas_payment_data_complete_def gas_payment_data_default_def gas_key_def)

lemma gas_view_frame:
  "gas_view h ls s \<Longrightarrow> (\<And>k. payment_key k \<Longrightarrow> db_at h k s' = db_at h k s) \<Longrightarrow> gas_view h ls s'"
  by (simp add: gas_view_def db_simps retrieve_gas_payment_by_gas_payment_key_def)

lemma u256_add_Some: "u256_add a b = Some c \<longleftrightarrow> uint c = uint a + uint b"
proof
  assume "u256_add a b = Some c"
  then show "uint c = uint a + uint b"
    by (auto simp: u256_add_def uint_word_ariths split: if_splits)
next
  assume c: "uint c = uint a + uint b"
  then have lt: "uint a + uint b < 2 ^ 256" using uint_lt2p [of c] by simp
  have "c = word_of_int (uint c)" by simp
  also have "\<dots> = a + b" unfolding c by simp
  finally have "c = a + b" .
  then show "u256_add a b = Some c" unfolding u256_add_def using lt by (simp only: if_True)
qed

lemma gas_payment_add_Some:
  "gas_payment_add p q = Some r \<longleftrightarrow>
     gas_key p = gas_key q \<and> gas_key r = gas_key p \<and>
     uint (igp_payment r) = uint (igp_payment p) + uint (igp_payment q) \<and>
     uint (igp_gas_amount r) = uint (igp_gas_amount p) + uint (igp_gas_amount q)"
  by (cases r) (auto simp: gas_payment_add_def gas_key_def u256_add_Some bind_eq_Some_conv)

lemma retrieve_gas_payment_put:
  assumes ok: "db_ok h"
    and put: "db_put h (K_gas_payment k)
      (to_vec gas_payment_data_write_to (gas_payment_data_from p)) s = (s', Inr ())"
    and p: "gas_key p = k"
  shows "retrieve_gas_payment_by_gas_payment_key h k' s' =
    (if k' = k then Inr p else retrieve_gas_payment_by_gas_payment_key h k' s)"
  using p by (cases p) (auto simp: retrieve_gas_payment_by_gas_payment_key_def db_simps
      db_put_at [OF ok put] gas_payment_data_complete_def gas_payment_data_from_def gas_key_def)

lemma process_gas_payment_known:
  assumes "gas_view h ls s" and "gas_payment_meta_from meta = Some g" and "Some g \<in> pay_meta ` set ls"
  shows "process_gas_payment h p meta s = (s, Inr False)"
  using assms
  by (simp add: gas_view_def process_gas_payment_def dbind_def dthe_def dret_def dread_def)

lemma process_gas_payment_new:
  assumes "gas_view h ls s" and "gas_payment_meta_from meta = Some g" and "Some g \<notin> pay_meta ` set ls"
  shows "process_gas_payment h p meta s =
    dbind (db_put h (K_gas_meta g) (to_vec bool_write_to True)) (\<lambda>_.
    dbind (dread (retrieve_gas_payment_by_gas_payment_key h (gas_key p))) (\<lambda>q.
    dbind (dthe (gas_payment_add q p)) (\<lambda>r.
    dbind (db_put h (K_gas_payment (gas_key p))
      (to_vec gas_payment_data_write_to (gas_payment_data_from r))) (\<lambda>_.
    dret True)))) s"
  using assms
  by (simp add: gas_view_def process_gas_payment_def dbind_def dthe_def dret_def dread_def stores
      update_gas_payment_by_gas_payment_key_def gas_key_def Let_def
      split: prod.splits sum.splits option.splits)

lemma retrieve_gas_payment_meta_put:
  assumes "db_ok h" and "db_put h (K_gas_meta g) bs s = (s', Inr ())"
  shows "retrieve_gas_payment_by_gas_payment_key h k s' =
    retrieve_gas_payment_by_gas_payment_key h k s"
  by (simp add: retrieve_gas_payment_by_gas_payment_key_def db_simps db_put_at [OF assms])

lemma gas_view_step:
  assumes ok: "db_ok h" and view: "gas_view h ls s"
    and run: "process_gas_payment h p meta s = (s', Inr b)"
  shows "gas_view h (ls @ [(p, meta)]) s' \<and> b = (gas_payment_meta_from meta \<notin> pay_meta ` set ls)"
proof -
  obtain g where g: "gas_payment_meta_from meta = Some g"
    using run by (auto simp: process_gas_payment_def db_simps)
  show ?thesis
  proof (cases "Some g \<in> pay_meta ` set ls")
    case True
    then have "s' = s" "b = False" using run process_gas_payment_known [OF view g] by auto
    then show ?thesis using view g True by (auto simp: gas_view_def sum_for_snoc)
  next
    case False
    from run obtain s1 q r where
      s1: "db_put h (K_gas_meta g) (to_vec bool_write_to True) s = (s1, Inr ())"
      and q: "retrieve_gas_payment_by_gas_payment_key h (gas_key p) s1 = Inr q"
      and r: "gas_payment_add q p = Some r"
      and s': "db_put h (K_gas_payment (gas_key p))
        (to_vec gas_payment_data_write_to (gas_payment_data_from r)) s1 = (s', Inr ())"
      and b: "b"
      unfolding process_gas_payment_new [OF view g False] by (auto simp: dbind_eq_Inr dread_eq dthe_eq dret_eq)
    have rk: "gas_key r = gas_key p" using r by (auto simp: gas_payment_add_Some)
    note pay = retrieve_gas_payment_put [OF ok s' rk] retrieve_gas_payment_meta_put [OF ok s1]
    have meta: "retrieve_processed_by_gas_payment_meta h g' s' =
        (if g' = g then Inr (Some True) else retrieve_processed_by_gas_payment_meta h g' s)" for g'
      by (simp add: db_simps db_put_at [OF ok s'] db_put_at [OF ok s1])
    have "\<exists>x. retrieve_gas_payment_by_gas_payment_key h k s' = Inr x \<and> gas_key x = k \<and>
        uint (igp_payment x) = sum_for igp_payment (ls @ [(p, meta)]) k \<and>
        uint (igp_gas_amount x) = sum_for igp_gas_amount (ls @ [(p, meta)]) k" for k
    proof -
      obtain x where x: "retrieve_gas_payment_by_gas_payment_key h k s = Inr x" "gas_key x = k"
        "uint (igp_payment x) = sum_for igp_payment ls k"
        "uint (igp_gas_amount x) = sum_for igp_gas_amount ls k"
        using view unfolding gas_view_def by blast
      show ?thesis
      proof (cases "k = gas_key p")
        case True
        with x q pay have "q = x" by simp
        with r True x show ?thesis
          by (simp add: pay sum_for_snoc g False gas_payment_add_Some)
      qed (use x g in \<open>simp add: pay sum_for_snoc\<close>)
    qed
    moreover have "retrieve_processed_by_gas_payment_meta h g' s' =
        Inr (if Some g' \<in> pay_meta ` set (ls @ [(p, meta)]) then Some True else None)" for g'
      using view g by (auto simp: meta gas_view_def)
    ultimately show ?thesis using b g False unfolding gas_view_def by simp
  qed
qed

lemma gas_payment_total:
  assumes ok: "db_ok h" "db_total h" and view: "gas_view h ls s" and fits: "gas_fits (ls @ [(p, meta)])"
  shows "\<exists>s' b. process_gas_payment h p meta s = (s', Inr b)"
proof -
  obtain g where g: "gas_payment_meta_from meta = Some g"
    using fits by (auto simp: gas_fits_def gas_payment_meta_from_def)
  show ?thesis
  proof (cases "Some g \<in> pay_meta ` set ls")
    case True
    then show ?thesis using process_gas_payment_known [OF view g] by blast
  next
    case False
    obtain q where q: "retrieve_gas_payment_by_gas_payment_key h (gas_key p) s = Inr q"
      "gas_key q = gas_key p"
      "uint (igp_payment q) = sum_for igp_payment ls (gas_key p)"
      "uint (igp_gas_amount q) = sum_for igp_gas_amount ls (gas_key p)"
      using view unfolding gas_view_def by blast
    have "sum_for igp_payment (ls @ [(p, meta)]) (gas_key p) < 2 ^ 256"
      "sum_for igp_gas_amount (ls @ [(p, meta)]) (gas_key p) < 2 ^ 256"
      using fits unfolding gas_fits_def by blast+
    then have "uint (igp_payment q) + uint (igp_payment p) < 2 ^ 256"
      "uint (igp_gas_amount q) + uint (igp_gas_amount p) < 2 ^ 256"
      using False g q(3,4) by (simp_all add: sum_for_snoc)
    then obtain r where r: "gas_payment_add q p = Some r"
      using q(2) by (auto simp: gas_payment_add_def gas_key_def u256_add_def)
    obtain s1 where s1: "db_put h (K_gas_meta g) (to_vec bool_write_to True) s = (s1, Inr ())"
      using db_put_total [OF ok(2)] by blast
    obtain s' where "db_put h (K_gas_payment (gas_key p))
        (to_vec gas_payment_data_write_to (gas_payment_data_from r)) s1 = (s', Inr ())"
      using db_put_total [OF ok(2)] by blast
    with s1 q(1) r show ?thesis
      unfolding process_gas_payment_new [OF view g False]
      by (auto simp: dbind_eq_Inr dread_eq dthe_eq dret_eq retrieve_gas_payment_meta_put [OF ok(1) s1])
  qed
qed

interpretation gas_logs: log_store h "\<lambda>(p, meta). process_gas_payment h p meta" pay_meta
  "gas_view h" gas_fits payment_key
  for h :: "('db, 'e) hyperlane_rocks_db"
proof
  fix s assume "\<And>k. db_at h k s = Inr None"
  then show "gas_view h [] s" by (rule gas_view_start)
next
  fix ls s s' assume "gas_view h ls s" "\<And>k. payment_key k \<Longrightarrow> db_at h k s' = db_at h k s"
  then show "gas_view h ls s'" by (rule gas_view_frame)
qed (auto dest: gas_view_step intro: gas_payment_total gas_fits_prefix split: prod.splits)


subsection \<open>Merkle tree insertions\<close>

fun insertion_key :: "hdb_key \<Rightarrow> bool" where
  "insertion_key (K_insertion n) = True"
| "insertion_key (K_leaf_index i) = True"
| "insertion_key (K_insertion_block n) = True"
| "insertion_key k = False"

abbreviation leaf_is :: "u32 \<Rightarrow> merkle_tree_insertion \<times> log_meta \<Rightarrow> bool" where
  "leaf_is n l \<equiv> mti_leaf_index (fst l) = n"

definition ins_view ::
  "('db, 'e) hyperlane_rocks_db \<Rightarrow> (merkle_tree_insertion \<times> log_meta) list \<Rightarrow> 'db \<Rightarrow> bool" where
  "ins_view h ls s \<longleftrightarrow>
     (\<forall>n. retrieve_merkle_tree_insertion_by_leaf_index h n s =
        Inr (map_option fst (find (leaf_is n) ls))) \<and>
     (\<forall>n. retrieve_merkle_tree_insertion_block_number_by_leaf_index h n s =
        Inr (map_option (\<lambda>l. lm_block_number (snd l)) (find (leaf_is n) ls))) \<and>
     (\<forall>i. retrieve_merkle_leaf_index_by_message_id h i s =
        Inr (map_option (\<lambda>l. mti_leaf_index (fst l))
          (find (\<lambda>l. mti_message_id (fst l) = i)
            (rev (first_by (\<lambda>l. mti_leaf_index (fst l)) {} ls)))))"

lemma ins_view_start: "(\<And>k. db_at h k s = Inr None) \<Longrightarrow> ins_view h [] s"
  by (simp add: ins_view_def db_simps)

lemma ins_view_frame:
  "ins_view h ls s \<Longrightarrow> (\<And>k. insertion_key k \<Longrightarrow> db_at h k s' = db_at h k s) \<Longrightarrow> ins_view h ls s'"
  by (simp add: ins_view_def db_simps)

lemma process_insertion_known:
  assumes "ins_view h ls s" and "find (leaf_is (mti_leaf_index i)) ls = Some l"
  shows "process_tree_insertion h i b s = (s, Inr False)"
  using assms by (simp add: ins_view_def process_tree_insertion_def dret_def)

lemma process_insertion_new:
  assumes "ins_view h ls s" and "find (leaf_is (mti_leaf_index i)) ls = None"
  shows "process_tree_insertion h i b s =
    dbind (db_put h (K_insertion (mti_leaf_index i)) (to_vec mti_write_to i)) (\<lambda>_.
    dbind (db_put h (K_leaf_index (mti_message_id i)) (to_vec u32_write_to (mti_leaf_index i))) (\<lambda>_.
    dbind (db_put h (K_insertion_block (mti_leaf_index i)) (to_vec u64_write_to b)) (\<lambda>_.
    dret True))) s"
  using assms by (simp add: ins_view_def process_tree_insertion_def stores)

lemma ins_view_step:
  assumes ok: "db_ok h" and view: "ins_view h ls s"
    and run: "process_tree_insertion h i (lm_block_number meta) s = (s', Inr b)"
  shows "ins_view h (ls @ [(i, meta)]) s' \<and>
    b = (mti_leaf_index i \<notin> (\<lambda>l. mti_leaf_index (fst l)) ` set ls)"
proof (cases "find (leaf_is (mti_leaf_index i)) ls")
  case (Some l)
  then have mem: "mti_leaf_index i \<in> (\<lambda>l. mti_leaf_index (fst l)) ` set ls"
    using find_None_iff_image [of "\<lambda>l. mti_leaf_index (fst l)" "mti_leaf_index i" ls] by auto
  from Some have "find (leaf_is n) (ls @ [(i, meta)]) = find (leaf_is n) ls" for n
    by (auto simp: find_snoc split: option.splits)
  moreover have "s' = s" "b = False" using run process_insertion_known [OF view Some] by auto
  ultimately show ?thesis using view mem by (simp add: ins_view_def first_by_snoc)
next
  case None
  then have mem: "mti_leaf_index i \<notin> (\<lambda>l. mti_leaf_index (fst l)) ` set ls"
    using find_None_iff_image [of "\<lambda>l. mti_leaf_index (fst l)" "mti_leaf_index i" ls] by auto
  have "b" and at: "\<And>k. db_at h k s' =
      (if k = K_insertion_block (mti_leaf_index i)
         then Inr (Some (to_vec u64_write_to (lm_block_number meta)))
       else if k = K_leaf_index (mti_message_id i)
         then Inr (Some (to_vec u32_write_to (mti_leaf_index i)))
       else if k = K_insertion (mti_leaf_index i) then Inr (Some (to_vec mti_write_to i))
       else db_at h k s)"
    using run unfolding process_insertion_new [OF view None] by (auto simp: db_simps db_put_at [OF ok])
  have find: "find (leaf_is n) (ls @ [(i, meta)]) =
      (if n = mti_leaf_index i then Some (i, meta) else find (leaf_is n) ls)" for n
    using None by (auto simp: find_snoc split: option.splits)
  have "ins_view h (ls @ [(i, meta)]) s'"
    using view mem find by (simp add: ins_view_def db_simps at first_by_snoc)
  with \<open>b\<close> mem show ?thesis by simp
qed

lemma process_insertion_total:
  assumes "db_total h" and "ins_view h ls s"
  shows "\<exists>s' b. process_tree_insertion h i n s = (s', Inr b)"
proof (cases "find (leaf_is (mti_leaf_index i)) ls")
  case (Some l)
  then show ?thesis using process_insertion_known [OF assms(2)] by blast
next
  case None
  show ?thesis unfolding process_insertion_new [OF assms(2) None]
    by (intro dbind_total db_put_returns dret_total assms(1))
qed

interpretation ins_logs: log_store h "\<lambda>(i, meta). process_tree_insertion h i (lm_block_number meta)"
  "\<lambda>l. mti_leaf_index (fst l)" "ins_view h" always insertion_key
  for h :: "('db, 'e) hyperlane_rocks_db"
proof
  fix s assume "\<And>k. db_at h k s = Inr None"
  then show "ins_view h [] s" by (rule ins_view_start)
next
  fix ls s s' assume "ins_view h ls s" "\<And>k. insertion_key k \<Longrightarrow> db_at h k s' = db_at h k s"
  then show "ins_view h ls s'" by (rule ins_view_frame)
qed (auto dest: ins_view_step intro: process_insertion_total split: prod.splits)

subsection \<open>Gas expenditures\<close>

definition spent :: "(interchain_gas_expenditure \<Rightarrow> u256) \<Rightarrow> interchain_gas_expenditure list \<Rightarrow> h256 \<Rightarrow> int" where
  "spent field es i = (\<Sum>e\<leftarrow>filter (\<lambda>e. ige_message_id e = i) es. uint (field e))"

lemma spent_snoc [simp]:
  "spent field [] i = 0"
  "spent field (es @ [e]) i = spent field es i + (if ige_message_id e = i then uint (field e) else 0)"
  by (simp_all add: spent_def)

lemma spent_mono: "spent field es i \<le> spent field (es @ es') i"
  by (auto simp: spent_def intro!: sum_list_nonneg)

definition exp_fits :: "interchain_gas_expenditure list \<Rightarrow> bool" where
  "exp_fits es \<longleftrightarrow> (\<forall>i. spent ige_tokens_used es i < 2 ^ 256 \<and> spent ige_gas_used es i < 2 ^ 256)"

lemma exp_fits_prefix: "exp_fits (es @ es') \<Longrightarrow> exp_fits es"
  unfolding exp_fits_def by (auto intro: order.strict_trans1 [OF spent_mono])

definition exp_view ::
  "('db, 'e) hyperlane_rocks_db \<Rightarrow> interchain_gas_expenditure list \<Rightarrow> 'db \<Rightarrow> bool" where
  "exp_view h es s \<longleftrightarrow>
     (\<forall>i. \<exists>x. retrieve_gas_expenditure_by_message_id h i s = Inr x \<and> ige_message_id x = i \<and>
        uint (ige_tokens_used x) = spent ige_tokens_used es i \<and>
        uint (ige_gas_used x) = spent ige_gas_used es i)"

lemma exp_view_start: "(\<And>k. db_at h k s = Inr None) \<Longrightarrow> exp_view h [] s"
  by (simp add: exp_view_def db_simps retrieve_gas_expenditure_by_message_id_def
      gas_expenditure_data_complete_def gas_expenditure_data_default_def)

lemma exp_view_frame:
  "exp_view h es s \<Longrightarrow> (\<And>i. db_at h (K_gas_expenditure i) s' = db_at h (K_gas_expenditure i) s) \<Longrightarrow>
   exp_view h es s'"
  by (simp add: exp_view_def db_simps retrieve_gas_expenditure_by_message_id_def)

lemma gas_expenditure_add_Some:
  "gas_expenditure_add x e = Some r \<longleftrightarrow>
     ige_message_id x = ige_message_id e \<and> ige_message_id r = ige_message_id x \<and>
     uint (ige_tokens_used r) = uint (ige_tokens_used x) + uint (ige_tokens_used e) \<and>
     uint (ige_gas_used r) = uint (ige_gas_used x) + uint (ige_gas_used e)"
  by (cases r) (auto simp: gas_expenditure_add_def u256_add_Some bind_eq_Some_conv)

lemma exp_view_step:
  assumes ok: "db_ok h" and view: "exp_view h es s"
    and run: "process_gas_expenditure h e s = (s', Inr ())"
  shows "exp_view h (es @ [e]) s'"
proof -
  obtain x r where x: "retrieve_gas_expenditure_by_message_id h (ige_message_id e) s = Inr x"
    and r: "gas_expenditure_add x e = Some r"
    and s': "db_put h (K_gas_expenditure (ige_message_id r)) (to_vec gas_expenditure_data_write_to
        \<lparr>ged_tokens_used = ige_tokens_used r, ged_gas_used = ige_gas_used r\<rparr>) s = (s', Inr ())"
    using run unfolding process_gas_expenditure_def update_gas_expenditure_by_message_id_def
    by (auto simp: dbind_eq_Inr dread_eq dthe_eq stores)
  have rid: "ige_message_id r = ige_message_id e" using r by (simp add: gas_expenditure_add_Some)
  have put: "retrieve_gas_expenditure_by_message_id h i s' =
      (if i = ige_message_id e then Inr r else retrieve_gas_expenditure_by_message_id h i s)" for i
    using rid by (cases r) (simp add: retrieve_gas_expenditure_by_message_id_def db_simps
        db_put_at [OF ok s'] gas_expenditure_data_complete_def)
  show ?thesis
    unfolding exp_view_def
  proof
    fix i
    obtain y where y: "retrieve_gas_expenditure_by_message_id h i s = Inr y" "ige_message_id y = i"
      "uint (ige_tokens_used y) = spent ige_tokens_used es i"
      "uint (ige_gas_used y) = spent ige_gas_used es i"
      using view unfolding exp_view_def by blast
    show "\<exists>x. retrieve_gas_expenditure_by_message_id h i s' = Inr x \<and> ige_message_id x = i \<and>
        uint (ige_tokens_used x) = spent ige_tokens_used (es @ [e]) i \<and>
        uint (ige_gas_used x) = spent ige_gas_used (es @ [e]) i"
    proof (cases "i = ige_message_id e")
      case True
      with x y have "x = y" by simp
      with True r y show ?thesis by (simp add: put gas_expenditure_add_Some)
    qed (use y in \<open>simp add: put\<close>)
  qed
qed

lemma expenditure_total:
  assumes ok: "db_total h" and view: "exp_view h es s" and fits: "exp_fits (es @ [e])"
  shows "\<exists>s'. process_gas_expenditure h e s = (s', Inr ())"
proof -
  let ?i = "ige_message_id e"
  obtain x where x: "retrieve_gas_expenditure_by_message_id h ?i s = Inr x" "ige_message_id x = ?i"
    "uint (ige_tokens_used x) = spent ige_tokens_used es ?i"
    "uint (ige_gas_used x) = spent ige_gas_used es ?i"
    using view unfolding exp_view_def by blast
  have "spent ige_tokens_used (es @ [e]) ?i < 2 ^ 256" "spent ige_gas_used (es @ [e]) ?i < 2 ^ 256"
    using fits unfolding exp_fits_def by blast+
  then obtain r where r: "gas_expenditure_add x e = Some r"
    using x(2-4) by (auto simp: gas_expenditure_add_def u256_add_def)
  obtain s' where "db_put h (K_gas_expenditure (ige_message_id r))
      (to_vec gas_expenditure_data_write_to
        \<lparr>ged_tokens_used = ige_tokens_used r, ged_gas_used = ige_gas_used r\<rparr>) s = (s', Inr ())"
    using db_put_total [OF ok] by blast
  with x(1) r show ?thesis
    unfolding process_gas_expenditure_def update_gas_expenditure_by_message_id_def
    by (auto simp: dbind_eq_Inr dread_eq dthe_eq stores)
qed

end
