(* ===== verification/Hyperlane_Db_Props.thy ===== *)
theory Hyperlane_Db_Props
  imports Hyperlane_Db_Correct
begin

text \<open>
  The writes of all the tasks of an agent in one sequence, in any interleaving: \<open>run_db kc h es\<close>. The
  state after a run is determined by the logs of each kind the run stored (\<open>db_view\<close>), whatever was
  interleaved with them.
\<close>

datatype db_event =
    Messages "(hyperlane_message \<times> log_meta) list"
  | Payments "(interchain_gas_payment \<times> log_meta) list"
  | Insertions "(merkle_tree_insertion \<times> log_meta) list"
  | Expenditure interchain_gas_expenditure
  | Processed u32 bool
  | Retries h256 u32
  | Watermark u32

definition discard :: "('db, 'e, 'a) db_op \<Rightarrow> ('db, 'e, unit) db_op" where
  "discard m = dbind m (\<lambda>_. dret ())"

fun exec_db :: "keccak \<Rightarrow> ('db, 'e) hyperlane_rocks_db \<Rightarrow> db_event \<Rightarrow> ('db, 'e, unit) db_op" where
  "exec_db kc h (Messages ls) = discard (store_logs_message kc h ls)"
| "exec_db kc h (Payments ls) = discard (store_logs_payment h ls)"
| "exec_db kc h (Insertions ls) = discard (store_logs_insertion h ls)"
| "exec_db kc h (Expenditure e) = process_gas_expenditure h e"
| "exec_db kc h (Processed n p) = store_processed_by_nonce h n p"
| "exec_db kc h (Retries i n) = store_pending_message_retry_count_by_message_id h i n"
| "exec_db kc h (Watermark n) = store_high_watermark h n"

fun run_db :: "keccak \<Rightarrow> ('db, 'e) hyperlane_rocks_db \<Rightarrow> db_event list \<Rightarrow> ('db, 'e, unit) db_op" where
  "run_db kc h [] = dret ()"
| "run_db kc h (e # es) = dbind (exec_db kc h e) (\<lambda>_. run_db kc h es)"

text \<open>What a run stored, by kind.\<close>

definition messages_of :: "db_event list \<Rightarrow> (hyperlane_message \<times> log_meta) list" where
  "messages_of es = concat (map (\<lambda>e. case e of Messages ls \<Rightarrow> ls | _ \<Rightarrow> []) es)"

definition payments_of :: "db_event list \<Rightarrow> (interchain_gas_payment \<times> log_meta) list" where
  "payments_of es = concat (map (\<lambda>e. case e of Payments ls \<Rightarrow> ls | _ \<Rightarrow> []) es)"

definition insertions_of :: "db_event list \<Rightarrow> (merkle_tree_insertion \<times> log_meta) list" where
  "insertions_of es = concat (map (\<lambda>e. case e of Insertions ls \<Rightarrow> ls | _ \<Rightarrow> []) es)"

definition expenditures_of :: "db_event list \<Rightarrow> interchain_gas_expenditure list" where
  "expenditures_of es = concat (map (\<lambda>e. case e of Expenditure x \<Rightarrow> [x] | _ \<Rightarrow> []) es)"

definition processed_of :: "db_event list \<Rightarrow> u32 \<rightharpoonup> bool" where
  "processed_of es = map_of (rev (concat (map (\<lambda>e. case e of Processed n p \<Rightarrow> [(n, p)] | _ \<Rightarrow> []) es)))"

definition retries_of :: "db_event list \<Rightarrow> h256 \<rightharpoonup> u32" where
  "retries_of es = map_of (rev (concat (map (\<lambda>e. case e of Retries i n \<Rightarrow> [(i, n)] | _ \<Rightarrow> []) es)))"

lemmas events_of_defs = messages_of_def payments_of_def insertions_of_def expenditures_of_def
  processed_of_def retries_of_def

definition flags_view :: "('db, 'e) hyperlane_rocks_db \<Rightarrow> db_event list \<Rightarrow> 'db \<Rightarrow> bool" where
  "flags_view h es s \<longleftrightarrow>
     (\<forall>n. retrieve_processed_by_nonce h n s = Inr (processed_of es n)) \<and>
     (\<forall>i. retrieve_pending_message_retry_count_by_message_id h i s = Inr (retries_of es i))"

definition db_view :: "keccak \<Rightarrow> ('db, 'e) hyperlane_rocks_db \<Rightarrow> db_event list \<Rightarrow> 'db \<Rightarrow> bool" where
  "db_view kc h es s \<longleftrightarrow>
     msg_view kc h (messages_of es) s \<and> gas_view h (payments_of es) s \<and>
     ins_view h (insertions_of es) s \<and> exp_view h (expenditures_of es) s \<and> flags_view h es s"

definition db_fits :: "db_event list \<Rightarrow> bool" where
  "db_fits es \<longleftrightarrow> gas_fits (payments_of es) \<and> exp_fits (expenditures_of es)"

section \<open>The keys each operation writes\<close>

lemma touches_cong: "(\<And>s. m s = m' s) \<Longrightarrow> touches h C m' \<Longrightarrow> touches h C m"
  by (simp add: touches_def)

lemma touches_store_message: "db_ok h \<Longrightarrow> touches h message_key (store_message kc h m b)"
proof -
  assume ok: "db_ok h"
  let ?new = "let id = hyperlane_message_id kc m in
        dbind (store_message_by_id h id m) (\<lambda>_.
         dbind (store_message_id_by_nonce h (msg_nonce m) id) (\<lambda>_.
         dbind (store_dispatched_block_number_by_nonce h (msg_nonce m) b) (\<lambda>_.
         dret True)))"
  have new: "touches h message_key ?new"
    by (simp add: stores touchesI ok Let_def)
  have old: "touches h message_key (dret False)" by (rule touches_reads)
  show ?thesis
    unfolding touches_def store_message_def Let_def
    using new old unfolding touches_def Let_def
    by (auto split: sum.splits option.splits)
qed

lemma touches_insertion: "db_ok h \<Longrightarrow> touches h insertion_key (process_tree_insertion h i b)"
proof -
  assume ok: "db_ok h"
  let ?new = "dbind (store_merkle_tree_insertion_by_leaf_index h (mti_leaf_index i) i) (\<lambda>_.
         dbind (store_merkle_leaf_index_by_message_id h (mti_message_id i) (mti_leaf_index i)) (\<lambda>_.
         dbind (store_merkle_tree_insertion_block_number_by_leaf_index h (mti_leaf_index i) b) (\<lambda>_.
         dret True)))"
  have new: "touches h insertion_key ?new"
    by (simp add: stores touchesI ok)
  have old: "touches h insertion_key (dret False)" by (rule touches_reads)
  show ?thesis
    unfolding touches_def process_tree_insertion_def
    using new old unfolding touches_def
    by (auto split: sum.splits option.splits)
qed

lemma touches_payment: "db_ok h \<Longrightarrow> touches h payment_key (process_gas_payment h p meta)"
  unfolding process_gas_payment_def update_gas_payment_by_gas_payment_key_def
  by (simp add: stores Let_def touchesI)

fun expenditure_key :: "hdb_key \<Rightarrow> bool" where
  "expenditure_key (K_gas_expenditure i) = True"
| "expenditure_key k = False"

lemma touches_expenditure: "db_ok h \<Longrightarrow> touches h expenditure_key (process_gas_expenditure h e)"
  unfolding process_gas_expenditure_def update_gas_expenditure_by_message_id_def
  by (simp add: stores touchesI)

fun event_key :: "db_event \<Rightarrow> hdb_key \<Rightarrow> bool" where
  "event_key (Messages ls) k = message_key k"
| "event_key (Payments ls) k = payment_key k"
| "event_key (Insertions ls) k = insertion_key k"
| "event_key (Expenditure e) k = expenditure_key k"
| "event_key (Processed n p) k = (k = K_processed n)"
| "event_key (Retries i n) k = (k = K_retries i)"
| "event_key (Watermark n) k = (k = K_watermark)"

lemma event_key_ext:
  "event_key (Messages ls) = message_key" "event_key (Payments ps) = payment_key"
  "event_key (Insertions is) = insertion_key" "event_key (Expenditure e) = expenditure_key"
  by (rule ext, simp)+

lemma touches_event:
  assumes ok: "db_ok h"
  shows "touches h (event_key e) (exec_db kc h e)"
  by (cases e)
     (simp_all add: event_key_ext discard_def store_logs_message_def store_logs_payment_def
        store_logs_insertion_def store_loops split_def stores touchesI ok
        touches_store_message touches_payment touches_insertion touches_expenditure)


section \<open>The view follows a run\<close>

lemma events_of_snoc:
  "messages_of (es @ [e]) = messages_of es @ (case e of Messages ls \<Rightarrow> ls | _ \<Rightarrow> [])"
  "payments_of (es @ [e]) = payments_of es @ (case e of Payments ls \<Rightarrow> ls | _ \<Rightarrow> [])"
  "insertions_of (es @ [e]) = insertions_of es @ (case e of Insertions ls \<Rightarrow> ls | _ \<Rightarrow> [])"
  "expenditures_of (es @ [e]) = expenditures_of es @ (case e of Expenditure x \<Rightarrow> [x] | _ \<Rightarrow> [])"
  "processed_of (es @ [e]) = (case e of Processed n p \<Rightarrow> (processed_of es)(n \<mapsto> p) | _ \<Rightarrow> processed_of es)"
  "retries_of (es @ [e]) = (case e of Retries i n \<Rightarrow> (retries_of es)(i \<mapsto> n) | _ \<Rightarrow> retries_of es)"
  by (simp_all add: events_of_defs split: db_event.splits)

lemma discard_eq: "discard m s = (s', Inr ()) \<longleftrightarrow> (\<exists>a. m s = (s', Inr a))"
  by (auto simp: discard_def dbind_eq_Inr dret_eq)

lemma flags_view_step:
  assumes ok: "db_ok h" and view: "flags_view h es s" and run: "exec_db kc h e s = (s', Inr ())"
  shows "flags_view h (es @ [e]) s'"
proof -
  have at: "db_at h k s' = db_at h k s" if "\<not> event_key e k" for k
    using touchesD [OF touches_event [OF ok] run that] .
  have p: "retrieve_processed_by_nonce h n s' =
      (case e of Processed n' p \<Rightarrow> if n = n' then Inr (Some p) else retrieve_processed_by_nonce h n s
       | _ \<Rightarrow> retrieve_processed_by_nonce h n s)" for n
    using run at [of "K_processed n"] by (cases e) (auto simp: db_simps db_put_at [OF ok])
  have r: "retrieve_pending_message_retry_count_by_message_id h i s' =
      (case e of Retries i' n \<Rightarrow> if i = i' then Inr (Some n)
         else retrieve_pending_message_retry_count_by_message_id h i s
       | _ \<Rightarrow> retrieve_pending_message_retry_count_by_message_id h i s)" for i
    using run at [of "K_retries i"] by (cases e) (auto simp: db_simps db_put_at [OF ok])
  show ?thesis
    using view by (cases e) (simp_all add: flags_view_def p r events_of_snoc)
qed

lemma db_view_step:
  assumes ok: "db_ok h" and view: "db_view kc h es s" and run: "exec_db kc h e s = (s', Inr ())"
  shows "db_view kc h (es @ [e]) s'"
proof -
  have at: "db_at h k s' = db_at h k s" if "\<not> event_key e k" for k
    using touchesD [OF touches_event [OF ok] run that] .
  have v: "msg_view kc h (messages_of es) s" "gas_view h (payments_of es) s"
    "ins_view h (insertions_of es) s" "exp_view h (expenditures_of es) s" "flags_view h es s"
    using view by (simp_all add: db_view_def)
  have msg: "msg_view kc h (messages_of (es @ [e])) s'"
  proof (cases "\<exists>ls. e = Messages ls")
    case True
    then obtain ls n where e: "e = Messages ls"
      and "log_loop (\<lambda>(m, meta). store_message kc h m (lm_block_number meta)) ls 0 s = (s', Inr n)"
      using run by (auto simp: discard_eq store_logs_message_def store_loops)
    with msg_logs.view_loop [OF ok v(1)] show ?thesis by (simp add: events_of_snoc)
  next
    case False
    then have "\<not> event_key e k" if "message_key k" for k
      using that by (cases e; cases k) auto
    then have "msg_view kc h (messages_of es) s'" using msg_view_frame [OF v(1)] at by blast
    with False show ?thesis by (cases e) (simp_all add: events_of_snoc)
  qed
  have gas: "gas_view h (payments_of (es @ [e])) s'"
  proof (cases "\<exists>ls. e = Payments ls")
    case True
    then obtain ls n where e: "e = Payments ls"
      and "log_loop (\<lambda>(p, meta). process_gas_payment h p meta) ls 0 s = (s', Inr n)"
      using run by (auto simp: discard_eq store_logs_payment_def store_loops)
    with gas_logs.view_loop [OF ok v(2)] show ?thesis by (simp add: events_of_snoc)
  next
    case False
    then have "\<not> event_key e k" if "payment_key k" for k
      using that by (cases e; cases k) auto
    then have "gas_view h (payments_of es) s'" using gas_view_frame [OF v(2)] at by blast
    with False show ?thesis by (cases e) (simp_all add: events_of_snoc)
  qed
  have ins: "ins_view h (insertions_of (es @ [e])) s'"
  proof (cases "\<exists>ls. e = Insertions ls")
    case True
    then obtain ls n where e: "e = Insertions ls"
      and "log_loop (\<lambda>(i, meta). process_tree_insertion h i (lm_block_number meta)) ls 0 s = (s', Inr n)"
      using run by (auto simp: discard_eq store_logs_insertion_def store_loops)
    with ins_logs.view_loop [OF ok v(3)] show ?thesis by (simp add: events_of_snoc)
  next
    case False
    then have "\<not> event_key e k" if "insertion_key k" for k
      using that by (cases e; cases k) auto
    then have "ins_view h (insertions_of es) s'" using ins_view_frame [OF v(3)] at by blast
    with False show ?thesis by (cases e) (simp_all add: events_of_snoc)
  qed
  have exp: "exp_view h (expenditures_of (es @ [e])) s'"
  proof (cases "\<exists>x. e = Expenditure x")
    case True
    then obtain x where "e = Expenditure x" "process_gas_expenditure h x s = (s', Inr ())"
      using run by auto
    with exp_view_step [OF ok v(4)] show ?thesis by (simp add: events_of_snoc)
  next
    case False
    then have "\<not> event_key e (K_gas_expenditure i)" for i by (cases e) auto
    then have "exp_view h (expenditures_of es) s'" using exp_view_frame [OF v(4)] at by blast
    with False show ?thesis by (cases e) (simp_all add: events_of_snoc)
  qed
  show ?thesis
    using msg gas ins exp flags_view_step [OF ok v(5) run] by (simp add: db_view_def)
qed

lemma db_view_run:
  assumes ok: "db_ok h"
  shows "db_view kc h es s \<Longrightarrow> run_db kc h es' s = (s', Inr ()) \<Longrightarrow> db_view kc h (es @ es') s'"
proof (induction es' arbitrary: es s)
  case Nil
  then show ?case by (simp add: dret_eq)
next
  case (Cons e es')
  then obtain s1 where "exec_db kc h e s = (s1, Inr ())" "run_db kc h es' s1 = (s', Inr ())"
    by (auto simp: dbind_eq_Inr)
  with Cons.IH [of "es @ [e]" s1] db_view_step [OF ok Cons.prems(1)] show ?case by simp
qed

definition fresh :: "('db, 'e) hyperlane_rocks_db \<Rightarrow> 'db \<Rightarrow> bool" where
  "fresh h s \<longleftrightarrow> (\<forall>k. db_at h k s = Inr None)"

lemma db_view_start: "fresh h s \<Longrightarrow> db_view kc h [] s"
  by (simp add: fresh_def db_view_def events_of_defs flags_view_def msg_view_start gas_view_start
      ins_view_start exp_view_start retrieves)

lemma db_view_fresh:
  assumes "db_ok h" and "fresh h s" and "run_db kc h es s = (s', Inr ())"
  shows "db_view kc h es s'"
  using db_view_run [OF assms(1) db_view_start [OF assms(2)] assms(3)] by simp

lemma db_fits_prefix: "db_fits (es @ es') \<Longrightarrow> db_fits es"
  by (simp add: db_fits_def payments_of_def expenditures_of_def)
     (blast intro: gas_fits_prefix exp_fits_prefix)

lemma discard_total: "\<exists>s' a. m s = (s', Inr a) \<Longrightarrow> \<exists>s'. discard m s = (s', Inr ())"
  by (auto simp: discard_eq)

lemma db_step_total:
  assumes ok: "db_ok h" "db_total h" and view: "db_view kc h es s" and fits: "db_fits (es @ [e])"
  shows "\<exists>s'. exec_db kc h e s = (s', Inr ())"
proof -
  have v: "msg_view kc h (messages_of es) s" "gas_view h (payments_of es) s"
    "ins_view h (insertions_of es) s" "exp_view h (expenditures_of es) s"
    using view by (simp_all add: db_view_def)
  have f: "gas_fits (payments_of (es @ [e]))" "exp_fits (expenditures_of (es @ [e]))"
    using fits by (simp_all add: db_fits_def)
  show ?thesis
    using msg_logs.loop_total [OF ok v(1)] gas_logs.loop_total [OF ok v(2)]
      ins_logs.loop_total [OF ok v(3)] expenditure_total [OF ok(2) v(4)] db_put_total [OF ok(2)] f
    by (cases e) (auto intro!: discard_total simp: store_logs_message_def store_logs_payment_def
      store_logs_insertion_def store_loops events_of_snoc stores)
qed

lemma db_run_total:
  assumes ok: "db_ok h" "db_total h"
  shows "db_view kc h es s \<Longrightarrow> db_fits (es @ es') \<Longrightarrow> \<exists>s'. run_db kc h es' s = (s', Inr ())"
proof (induction es' arbitrary: es s)
  case Nil
  then show ?case by (simp add: dret_def)
next
  case (Cons e es')
  have "db_fits (es @ [e])" using Cons.prems(2) db_fits_prefix [of "es @ [e]" es'] by simp
  then obtain s1 where s1: "exec_db kc h e s = (s1, Inr ())"
    using db_step_total [OF ok Cons.prems(1)] by blast
  then obtain s' where "run_db kc h es' s1 = (s', Inr ())"
    using Cons.IH [of "es @ [e]" s1] db_view_step [OF ok(1) Cons.prems(1) s1] Cons.prems(2) by auto
  with s1 show ?case by (auto simp: dbind_eq_Inr)
qed


section \<open>Properties\<close>

lemma find_first_by:
  "find (\<lambda>l. f l = k) ls = Some l \<Longrightarrow> k \<notin> S \<Longrightarrow> l \<in> set (first_by f S ls)"
  by (induction ls arbitrary: S) (auto split: if_splits)

lemma first_by_subset: "set (first_by f S ls) \<subseteq> set ls"
  by (induction ls arbitrary: S) (auto dest: subsetD split: if_splits)

lemma find_rev_Some: "find P (rev xs) = Some x \<Longrightarrow> x \<in> set xs \<and> P x"
  by (metis find_Some_iff nth_mem set_rev)

lemma msg_view_retrieve:
  assumes view: "msg_view kc h ls s"
    and inj: "inj_on (hyperlane_message_id kc) (fst ` set ls)"
  shows "retrieve_message_by_nonce h n s = Inr (map_option fst (find (nonce_is n) ls))"
proof (cases "find (nonce_is n) ls")
  case None
  then show ?thesis using view by (simp add: msg_view_def retrieve_message_by_nonce_def)
next
  case (Some l)
  let ?new = "new_messages ls" and ?id = "\<lambda>l. hyperlane_message_id kc (fst l)"
  have l: "l \<in> set ?new" using find_first_by [of "\<lambda>l. msg_nonce (fst l)" n ls l "{}"] Some by simp
  then have "find (\<lambda>x. ?id x = ?id l) (rev ?new) \<noteq> None" unfolding find_None_iff by fastforce
  then obtain x where x: "find (\<lambda>x. ?id x = ?id l) (rev ?new) = Some x" by blast
  have "x \<in> set ?new" "?id x = ?id l"
    using find_rev_Some [OF x] by auto
  then have "fst x = fst l"
    using inj l first_by_subset [of "\<lambda>l. msg_nonce (fst l)" "{}" ls] by (auto simp: inj_on_def)
  with x Some view show ?thesis by (simp add: msg_view_def retrieve_message_by_nonce_def)
qed

text \<open>
  C18. In every interleaving of the writes of an agent, starting from an empty database, the message
  retrieved for a nonce is the first one stored with that nonce, with the block it was dispatched
  in, and nothing is retrieved for other nonces: neither later messages with the same nonce nor the
  writes of other tasks change it. The hypotheses are that RocksDB reads back what was written and
  that Keccak-256 has no collision among the messages.
\<close>

theorem messages_stored_first:
  assumes "rocks_ok R" and "h = hyperlane_rocks_db_new domain_id name R" and "fresh h s"
    and "run_db kc h es s = (s', Inr ())"
    and "inj_on (hyperlane_message_id kc) (fst ` set (messages_of es))"
  shows "retrieve_message_by_nonce h n s' = Inr (map_option fst (find (nonce_is n) (messages_of es))) \<and>
    retrieve_dispatched_block_number_by_nonce h n s' =
      Inr (map_option (\<lambda>l. lm_block_number (snd l)) (find (nonce_is n) (messages_of es)))"
proof -
  have "db_ok h" using assms(1,2) by (simp add: hyperlane_rocks_db_new_def typed_db_new_def)
  then have view: "msg_view kc h (messages_of es) s'"
    using db_view_fresh [OF _ assms(3,4)] by (simp add: db_view_def)
  show ?thesis
    using msg_view_retrieve [OF view assms(5)] view by (simp add: msg_view_def)
qed

definition sample_meta :: "u64 \<Rightarrow> u256 \<Rightarrow> log_meta" where
  "sample_meta b i = \<lparr>lm_address = 0, lm_block_number = b, lm_block_hash = 0, lm_transaction_id = 5,
     lm_transaction_index = 0, lm_log_index = i\<rparr>"

definition sample_msg :: "u32 \<Rightarrow> bytes \<Rightarrow> hyperlane_message" where
  "sample_msg n body = message_default\<lparr>msg_nonce := n, msg_body := body\<rparr>"

definition sample_gas_payment :: "u256 \<Rightarrow> interchain_gas_payment" where
  "sample_gas_payment v = \<lparr>igp_message_id = 9, igp_destination = 2, igp_payment = v, igp_gas_amount = 1\<rparr>"

definition sample_events :: "db_event list" where
  "sample_events =
     [Messages [(sample_msg 0 [1], sample_meta 7 0)],
      Payments [(sample_gas_payment 30, sample_meta 7 1), (sample_gas_payment 12, sample_meta 7 2)],
      Messages [(sample_msg 0 [2], sample_meta 8 0)],
      Payments [(sample_gas_payment 30, sample_meta 7 1)], Processed 0 True]"

definition sample_db :: "(bytes \<rightharpoonup> bytes, unit) hyperlane_rocks_db" where
  "sample_db = hyperlane_rocks_db_new 1 (str_bytes ''ethereum'') map_rocks"

lemma sample_db_ok: "db_ok sample_db" "db_total sample_db" "fresh sample_db Map.empty"
  using map_rocks_ok
  by (simp_all add: sample_db_def hyperlane_rocks_db_new_def typed_db_new_def fresh_def db_at_def
      map_rocks_def)

lemma sample_events_of:
  "messages_of sample_events = [(sample_msg 0 [1], sample_meta 7 0), (sample_msg 0 [2], sample_meta 8 0)]"
  "payments_of sample_events = [(sample_gas_payment 30, sample_meta 7 1), (sample_gas_payment 12, sample_meta 7 2),
    (sample_gas_payment 30, sample_meta 7 1)]"
  "expenditures_of sample_events = []"
  by (simp_all add: sample_events_def events_of_defs)

lemma sample_sums:
  "sum_for igp_payment (payments_of sample_events) \<lparr>gpk_message_id = 9, gpk_destination = 2\<rparr> = 42"
  "sum_for igp_payment (payments_of sample_events) k \<le> 42"
  "sum_for igp_gas_amount (payments_of sample_events) k \<le> 2"
  by (simp_all add: sample_events_of sum_for_def new_payments_def gas_payment_meta_from_def
      sample_meta_def sample_gas_payment_def gas_key_def)

lemma sample_fits: "db_fits sample_events"
proof -
  have "sum_for igp_payment (payments_of sample_events) k < 2 ^ 256"
    "sum_for igp_gas_amount (payments_of sample_events) k < 2 ^ 256" for k
    using sample_sums(2,3) [of k] by simp_all
  then show ?thesis
    unfolding db_fits_def gas_fits_def exp_fits_def sample_events_of(3)
    by (simp add: sample_events_of(2) sample_meta_def)
qed

lemma sample_db_run: "\<exists>s'. run_db kc sample_db sample_events Map.empty = (s', Inr ())"
  using db_run_total [OF sample_db_ok(1,2) db_view_start [OF sample_db_ok(3)], of sample_events kc]
    sample_fits
  by simp

text \<open>A hash that tells the two messages apart: the last byte.\<close>

definition last_keccak :: keccak where
  "last_keccak bs = ucast (last bs)"

theorem messages_stored_first_witness:
  "\<exists>s'. run_db last_keccak sample_db sample_events Map.empty = (s', Inr ()) \<and>
     retrieve_message_by_nonce sample_db 0 s' = Inr (Some (sample_msg 0 [1])) \<and>
     retrieve_dispatched_block_number_by_nonce sample_db 0 s' = Inr (Some 7)"
proof -
  obtain s' where run: "run_db last_keccak sample_db sample_events Map.empty = (s', Inr ())"
    using sample_db_run by blast
  have "inj_on (hyperlane_message_id last_keccak) (fst ` set (messages_of sample_events))"
    by (simp add: sample_events_of inj_on_def hyperlane_message_id_def last_keccak_def to_vec_def
        message_write_to_def sample_msg_def)
  from messages_stored_first [OF map_rocks_ok(1) sample_db_def sample_db_ok(3) run this, of 0] run
  show ?thesis by (auto simp: sample_events_of sample_msg_def sample_meta_def)
qed

text \<open>
  C17. In every interleaving of the writes of an agent, the total recorded for a message and
  destination is the exact sum of the gas payments for them whose log (transaction and log index) was
  not stored before: a payment indexed twice counts once, and no overflow goes unnoticed.
\<close>

theorem gas_payments_counted_once:
  assumes "rocks_ok R" and "h = hyperlane_rocks_db_new domain_id name R" and "fresh h s"
    and "run_db kc h es s = (s', Inr ())"
  shows "\<exists>p. retrieve_gas_payment_by_gas_payment_key h k s' = Inr p \<and>
    uint (igp_payment p) =
      (\<Sum>l\<leftarrow>filter (\<lambda>l. gas_key (fst l) = k) (first_by (\<lambda>l. gas_payment_meta_from (snd l)) {} (payments_of es)).
         uint (igp_payment (fst l))) \<and>
    uint (igp_gas_amount p) =
      (\<Sum>l\<leftarrow>filter (\<lambda>l. gas_key (fst l) = k) (first_by (\<lambda>l. gas_payment_meta_from (snd l)) {} (payments_of es)).
         uint (igp_gas_amount (fst l)))"
proof -
  have "db_ok h" using assms(1,2) by (simp add: hyperlane_rocks_db_new_def typed_db_new_def)
  then have "gas_view h (payments_of es) s'"
    using db_view_fresh [OF _ assms(3,4)] by (simp add: db_view_def)
  then show ?thesis unfolding gas_view_def sum_for_def new_payments_def by blast
qed

theorem gas_payments_counted_once_witness:
  "\<exists>s' p. run_db last_keccak sample_db sample_events Map.empty = (s', Inr ()) \<and>
     retrieve_gas_payment_by_gas_payment_key sample_db \<lparr>gpk_message_id = 9, gpk_destination = 2\<rparr> s' = Inr p \<and>
     uint (igp_payment p) = 42"
proof -
  obtain s' where run: "run_db last_keccak sample_db sample_events Map.empty = (s', Inr ())"
    using sample_db_run by blast
  from gas_payments_counted_once [OF map_rocks_ok(1) sample_db_def sample_db_ok(3) run,
      of "\<lparr>gpk_message_id = 9, gpk_destination = 2\<rparr>"] run sample_sums(1)
  show ?thesis unfolding sum_for_def new_payments_def by auto
qed

text \<open>
  When no write to RocksDB fails, every sequence of writes of an agent succeeds whose log indices
  fit in 64 bits and whose totals, counting repeated logs once, fit in 256 bits: no stored record
  fails to decode and no sum panics.
\<close>

theorem database_run_succeeds:
  assumes "rocks_ok R" and "rocks_total R" and "h = hyperlane_rocks_db_new domain_id name R"
    and "fresh h s" and "db_fits es"
  shows "\<exists>s'. run_db kc h es s = (s', Inr ())"
proof -
  have "db_ok h" "db_total h"
    using assms(1-3) by (simp_all add: hyperlane_rocks_db_new_def typed_db_new_def)
  from db_run_total [OF this db_view_start [OF assms(4)], of es kc] assms(5) show ?thesis by simp
qed

theorem database_run_succeeds_witness:
  "db_fits sample_events \<and> (\<exists>s'. run_db last_keccak sample_db sample_events Map.empty = (s', Inr ()))"
  using database_run_succeeds [OF map_rocks_ok sample_db_def sample_db_ok(3) sample_fits] sample_fits
  by blast

text \<open>
  C35. The two writes of a gas payment are not atomic: when the log is recorded as processed and the
  write of the new total then fails, the payment is lost. The call returns the error, the total is as
  before, and every retry reports the payment as already processed.
\<close>

theorem gas_payment_lost_after_failure:
  assumes "rocks_ok R" and "h = hyperlane_rocks_db_new domain_id name R"
    and "gas_payment_meta_from meta = Some g"
    and "retrieve_processed_by_gas_payment_meta h g s = Inr None"
    and "retrieve_gas_payment_by_gas_payment_key h (gas_key p) s = Inr q"
    and "gas_payment_add q p = Some r"
    and "store_processed_by_gas_payment_meta h g True s = (s1, Inr ())"
    and "store_interchain_gas_payment_data_by_gas_payment_key h (gas_key p)
           (gas_payment_data_from r) s1 = (s1, Inl e)"
  shows "process_gas_payment h p meta s = (s1, Inl e) \<and>
    retrieve_gas_payment_by_gas_payment_key h (gas_key p) s1 = Inr q \<and>
    process_gas_payment h p meta s1 = (s1, Inr False)"
proof -
  have ok: "db_ok h" using assms(1,2) by (simp add: hyperlane_rocks_db_new_def typed_db_new_def)
  note put = assms(7) [unfolded stores]
  have q: "retrieve_gas_payment_by_gas_payment_key h (gas_key p) s1 = Inr q"
    using retrieve_gas_payment_meta_put [OF ok put] assms(5) by simp
  have "retrieve_processed_by_gas_payment_meta h g s1 = Inr (Some True)"
    using db_put_at [OF ok put] by (simp add: retrieves)
  then have "process_gas_payment h p meta s1 = (s1, Inr False)"
    by (simp add: process_gas_payment_def assms(3) dbind_def dthe_def dret_def dread_def)
  moreover have "process_gas_payment h p meta s = (s1, Inl e)"
    using assms(4,6,7,8) q
    by (simp add: process_gas_payment_def assms(3) dbind_def dthe_def dret_def dread_def Let_def
        update_gas_payment_by_gas_payment_key_def gas_key_def)
  ultimately show ?thesis using q by simp
qed

text \<open>A RocksDB whose disk is full after a number of writes.\<close>

definition full_disk_rocks :: "((bytes \<rightharpoonup> bytes) \<times> nat, unit) rocks" where
  "full_disk_rocks =
     \<lparr>rocks_put = (\<lambda>k v (m, n). case n of 0 \<Rightarrow> ((m, 0), Inl ()) | Suc n \<Rightarrow> ((m(k \<mapsto> v), n), Inr ())),
      rocks_get = (\<lambda>k (m, n). Inr (m k))\<rparr>"

lemma full_disk_ok: "rocks_ok full_disk_rocks"
  by (auto simp: rocks_ok_def full_disk_rocks_def split: nat.splits)

theorem gas_payment_lost_after_failure_witness:
  "\<exists>s1. process_gas_payment (hyperlane_rocks_db_new 1 [] full_disk_rocks) (sample_gas_payment 30)
       (sample_meta 7 1) (Map.empty, 1) = (s1, Inl (Err (RockError ()))) \<and>
     process_gas_payment (hyperlane_rocks_db_new 1 [] full_disk_rocks) (sample_gas_payment 30)
       (sample_meta 7 1) s1 = (s1, Inr False)"
proof -
  let ?h = "hyperlane_rocks_db_new 1 [] full_disk_rocks" and ?s = "(Map.empty, 1)"
  let ?p = "sample_gas_payment 30" and ?g = "\<lparr>gpm_transaction_id = 5, gpm_log_index = 1\<rparr>"
  have at: "db_at ?h k ?s = Inr None" for k
    by (simp add: db_at_def hyperlane_rocks_db_new_def typed_db_new_def full_disk_rocks_def)
  obtain s1 where "fst ?s = Map.empty" and
    s1: "store_processed_by_gas_payment_meta ?h ?g True ?s = (s1, Inr ())" and z: "snd s1 = 0"
    by (auto simp: stores db_put_def kv_store_def hyperlane_rocks_db_new_def typed_db_new_def
        full_disk_rocks_def)
  have fail: "store_interchain_gas_payment_data_by_gas_payment_key ?h k d s1 = (s1, Inl (Err (RockError ())))"
    for k d
    using z by (cases s1) (simp add: stores db_put_def kv_store_def hyperlane_rocks_db_new_def
        typed_db_new_def full_disk_rocks_def)
  have q: "retrieve_gas_payment_by_gas_payment_key ?h (gas_key ?p) ?s = Inr (?p\<lparr>igp_payment := 0, igp_gas_amount := 0\<rparr>)"
    using at by (simp add: retrieve_gas_payment_by_gas_payment_key_def retrieves
        gas_payment_data_complete_def gas_payment_data_default_def sample_gas_payment_def gas_key_def)
  have add: "gas_payment_add (?p\<lparr>igp_payment := 0, igp_gas_amount := 0\<rparr>) ?p = Some ?p"
    by (simp add: gas_payment_add_def u256_add_def sample_gas_payment_def)
  have "gas_payment_meta_from (sample_meta 7 1) = Some ?g"
    by (simp add: gas_payment_meta_from_def sample_meta_def)
  moreover have "retrieve_processed_by_gas_payment_meta ?h ?g ?s = Inr None"
    using at by (simp add: retrieves)
  ultimately show ?thesis
    using gas_payment_lost_after_failure [OF full_disk_ok refl _ _ q add s1 fail] by blast
qed

end
