(* ===== verification/Contract_Sync.thy ===== *)
theory Contract_Sync
  imports Hyperlane_Db_Props
begin

text \<open>
  The indexing of a chain's logs into the database: \<^verbatim>\<open>hyperlane-base/src/contract_sync\<close>. A cursor
  chooses the next range of blocks or sequence numbers (cursor.rs), the loop of \<^verbatim>\<open>ContractSync::sync\<close>
  (mod.rs) fetches the logs of the range, stores them and hands them to the cursor.

  The indexer of a chain is a trait object: its calls are the fields of a record over an arbitrary state
  of the chain and its nodes, \<open>'ix\<close>. So are the stores behind the traits of traits/db.rs, of which
  \<^verbatim>\<open>HyperlaneRocksDB\<close> is the one implementation here. The arithmetic on \<^verbatim>\<open>u32\<close> wraps as in the agents'
  build. The estimate of the remaining time is only logged and left out with its calculator
  (eta_calculator.rs, floating point), as is the log output.
\<close>

section \<open>The interfaces\<close>

datatype index_mode = Block | Sequence

datatype 'c chain_error = Provider_Error 'c | From_Other_Str string

text \<open>A \<^verbatim>\<open>RangeInclusive\<close> of \<^verbatim>\<open>u32\<close>.\<close>

type_synonym u32_range = "u32 \<times> u32"

definition range_is_empty :: "u32_range \<Rightarrow> bool" where
  "range_is_empty r \<longleftrightarrow> \<not> fst r \<le> snd r"

record ('ix, 'c, 't) sequence_indexer =
  ix_fetch_logs :: "u32_range \<Rightarrow> 'ix \<Rightarrow> 'ix \<times> ('c chain_error + ('t \<times> log_meta) list)"
  ix_finalized_block_number :: "'ix \<Rightarrow> 'ix \<times> ('c chain_error + u32)"
  ix_sequence_and_tip :: "'ix \<Rightarrow> 'ix \<times> ('c chain_error + u32 option \<times> u32)"

record ('db, 'e, 't) sequence_store =
  ls_store_logs :: "('t \<times> log_meta) list \<Rightarrow> ('db, 'e, u32) db_op"
  ls_retrieve_by_sequence :: "u32 \<Rightarrow> 'db \<Rightarrow> 'e db_error + 't option"
  ls_retrieve_log_block_number :: "u32 \<Rightarrow> 'db \<Rightarrow> 'e db_error + u64 option"

record ('db, 'e, 't) watermark_store =
  wm_store_logs :: "('t \<times> log_meta) list \<Rightarrow> ('db, 'e, u32) db_op"
  wm_retrieve_high_watermark :: "'db \<Rightarrow> 'e db_error + u32 option"
  wm_store_high_watermark :: "u32 \<Rightarrow> ('db, 'e, unit) db_op"

definition message_store ::
  "keccak \<Rightarrow> ('db, 'e) hyperlane_rocks_db \<Rightarrow> ('db, 'e, hyperlane_message) sequence_store" where
  "message_store kc h =
     \<lparr>ls_store_logs = store_logs_message kc h,
      ls_retrieve_by_sequence = retrieve_by_sequence_message h,
      ls_retrieve_log_block_number = retrieve_log_block_number_message h\<rparr>"

definition insertion_store ::
  "('db, 'e) hyperlane_rocks_db \<Rightarrow> ('db, 'e, merkle_tree_insertion) sequence_store" where
  "insertion_store h =
     \<lparr>ls_store_logs = store_logs_insertion h,
      ls_retrieve_by_sequence = retrieve_by_sequence_insertion h,
      ls_retrieve_log_block_number = retrieve_log_block_number_insertion h\<rparr>"

definition gas_payment_store ::
  "('db, 'e) hyperlane_rocks_db \<Rightarrow> ('db, 'e, interchain_gas_payment) watermark_store" where
  "gas_payment_store h =
     \<lparr>wm_store_logs = store_logs_payment h,
      wm_retrieve_high_watermark = retrieve_high_watermark h,
      wm_store_high_watermark = store_high_watermark h\<rparr>"

text \<open>\<^verbatim>\<open>CursorAction\<close>; durations are in nanoseconds.\<close>

datatype cursor_action = Query u32_range | Sleep nat

record ('cur, 'ix, 'db, 'c, 'e, 't) sync_cursor =
  sc_next_action :: "nat \<Rightarrow> 'cur \<Rightarrow> 'ix \<Rightarrow> 'db \<Rightarrow>
     ('cur \<times> 'ix \<times> ('c chain_error failure + cursor_action)) option"
  sc_latest_block :: "'cur \<Rightarrow> u32"
  sc_update :: "('t \<times> log_meta) list \<Rightarrow> 'cur \<Rightarrow> ('db, 'e, 'cur) db_op"

section \<open>The state of a cursor\<close>

definition MAX_SEQUENCE_RANGE :: u32 where "MAX_SEQUENCE_RANGE = 100"

datatype sync_direction = Forward | Backward

record sync_state =
  ss_chunk_size :: u32
  ss_start_block :: u32
  ss_next_block :: u32
  ss_mode :: index_mode
  ss_next_sequence :: u32
  ss_direction :: sync_direction

definition sync_state_new ::
  "u32 \<Rightarrow> u32 \<Rightarrow> u32 \<Rightarrow> index_mode \<Rightarrow> u32 \<Rightarrow> sync_direction \<Rightarrow> sync_state" where
  "sync_state_new chunk_size start_block next_block mode next_sequence direction =
     \<lparr>ss_chunk_size = chunk_size, ss_start_block = start_block, ss_next_block = next_block,
      ss_mode = mode, ss_next_sequence = next_sequence, ss_direction = direction\<rparr>"

definition block_range :: "u32 \<Rightarrow> sync_state \<Rightarrow> sync_state \<times> u32_range" where
  "block_range tip st =
     (case ss_direction st of
        Forward \<Rightarrow>
          let frm = ss_next_block st;
              to = frm + ss_chunk_size st;
              to = min to tip
          in (st\<lparr>ss_next_block := to + 1\<rparr>, (frm, to))
      | Backward \<Rightarrow>
          let to = ss_next_block st;
              frm = saturating_sub to (ss_chunk_size st)
          in (st\<lparr>ss_next_block := saturating_sub frm 1\<rparr>, (frm, to)))"

definition sequence_range :: "u32 \<Rightarrow> sync_state \<Rightarrow> sync_state \<times> u32_range option" where
  "sequence_range max_sequence st =
     (case ss_direction st of
        Forward \<Rightarrow>
          let sequence_start = ss_next_sequence st;
              sequence_end = sequence_start + MAX_SEQUENCE_RANGE
          in
          if ss_next_sequence st \<ge> max_sequence then (st, None)
          else
            let sequence_end = min sequence_end (saturating_sub max_sequence 1)
            in (st\<lparr>ss_next_sequence := sequence_end + 1\<rparr>, Some (sequence_start, sequence_end))
      | Backward \<Rightarrow>
          let sequence_end = ss_next_sequence st;
              sequence_start = saturating_sub sequence_end MAX_SEQUENCE_RANGE
          in (st\<lparr>ss_next_sequence := saturating_sub sequence_start 1\<rparr>,
              Some (sequence_start, sequence_end)))"

definition get_next_range ::
  "u32 option \<Rightarrow> u32 \<Rightarrow> sync_state \<Rightarrow> sync_state \<times> ('c chain_error + u32_range option)" where
  "get_next_range max_sequence tip st =
     (let nonempty = (\<lambda>r. Inr (if range_is_empty r then None else Some r)) in
      case ss_mode st of
        Block \<Rightarrow> (let (st, r) = block_range tip st in (st, nonempty r))
      | Sequence \<Rightarrow>
          (case max_sequence of
             None \<Rightarrow> (st, Inl (From_Other_Str ''Sequence indexing requires a max sequence''))
           | Some max_sequence \<Rightarrow>
               (case sequence_range max_sequence st of
                  (st, None) \<Rightarrow> (st, Inr None)
                | (st, Some r) \<Rightarrow> (st, nonempty r))))"

section \<open>Cursors over sequences\<close>

definition cursor_retrieve_by_sequence ::
  "('db, 'e, 't) sequence_store \<Rightarrow> u32 \<Rightarrow> 'db \<Rightarrow> 't option" where
  "cursor_retrieve_by_sequence D sequence s =
     (case ls_retrieve_by_sequence D sequence s of Inl _ \<Rightarrow> None | Inr o' \<Rightarrow> o')"

definition cursor_retrieve_log_block_number ::
  "('db, 'e, 't) sequence_store \<Rightarrow> u32 \<Rightarrow> 'db \<Rightarrow> 'x failure + u32 option" where
  "cursor_retrieve_log_block_number D sequence s =
     (case ls_retrieve_log_block_number D sequence s of
        Inr (Some num) \<Rightarrow> if unat num < 2 ^ 32 then Inr (Some (ucast num)) else Inl Panic
      | _ \<Rightarrow> Inr None)"

definition sequence_cursor_update ::
  "('db, 'e, 't) sequence_store \<Rightarrow> ('t \<Rightarrow> u32) \<Rightarrow> ('t \<times> log_meta) list \<Rightarrow> u32 \<Rightarrow> sync_state \<Rightarrow>
     'db \<Rightarrow> 'e db_error failure + sync_state" where
  "sequence_cursor_update D seqn logs prev_sequence st s =
     (if logs \<noteq> [] \<and> \<not> list_ex (\<lambda>m. seqn (fst m) = ss_next_sequence st) logs then
        rbind (cursor_retrieve_log_block_number D prev_sequence s) (\<lambda>o'.
        case o' of
          Some block_number \<Rightarrow> Inr (st\<lparr>ss_next_block := block_number\<rparr>)
        | None \<Rightarrow> Inr (st\<lparr>ss_next_block := ss_start_block st\<rparr>))
      else Inr st)"

subsection \<open>Forwards\<close>

definition forward_cursor_new ::
  "u32 \<Rightarrow> u32 \<Rightarrow> u32 \<Rightarrow> index_mode \<Rightarrow> u32 \<Rightarrow> sync_state" where
  "forward_cursor_new chunk_size start_block next_block mode next_sequence =
     sync_state_new chunk_size start_block next_block mode next_sequence Forward"

text \<open>The loop at the head of \<^verbatim>\<open>get_next_range\<close>: \<open>None\<close> is a loop that does not end.\<close>

partial_function (option) forward_catch_up ::
  "('db, 'e, 't) sequence_store \<Rightarrow> sync_state \<Rightarrow> 'db \<Rightarrow> ('x failure + sync_state) option" where
  "forward_catch_up D st s =
     (case cursor_retrieve_by_sequence D (ss_next_sequence st) s of
        None \<Rightarrow> Some (Inr st)
      | Some _ \<Rightarrow>
          (case cursor_retrieve_log_block_number D (ss_next_sequence st) s of
             Inl f \<Rightarrow> Some (Inl f)
           | Inr o' \<Rightarrow>
               let st = (case o' of None \<Rightarrow> st | Some b \<Rightarrow> st\<lparr>ss_next_block := b\<rparr>)
               in forward_catch_up D (st\<lparr>ss_next_sequence := ss_next_sequence st + 1\<rparr>) s))"

definition forward_get_next_range ::
  "('ix, 'c, 't) sequence_indexer \<Rightarrow> ('db, 'e, 't) sequence_store \<Rightarrow> sync_state \<Rightarrow> 'ix \<Rightarrow> 'db \<Rightarrow>
     (sync_state \<times> 'ix \<times> ('c chain_error failure + u32_range option)) option" where
  "forward_get_next_range I D st ix s =
     (case forward_catch_up D st s of
        None \<Rightarrow> None
      | Some (Inl f) \<Rightarrow> Some (st, ix, Inl f)
      | Some (Inr st) \<Rightarrow>
          (case ix_sequence_and_tip I ix of
             (ix, Inl e) \<Rightarrow> Some (st, ix, Inl (Err e))
           | (ix, Inr (None, tip)) \<Rightarrow> Some (st, ix, Inr None)
           | (ix, Inr (Some mailbox_count, tip)) \<Rightarrow>
               let cursor_count = ss_next_sequence st in
               if cursor_count = mailbox_count then Some (st\<lparr>ss_next_block := tip\<rparr>, ix, Inr None)
               else if cursor_count < mailbox_count then
                 (let (st, r) = get_next_range (Some mailbox_count) tip st
                  in Some (st, ix, map_err Err r))
               else Some (st, ix, Inr None)))"

text \<open>Five seconds.\<close>

definition IDLE_SLEEP :: nat where "IDLE_SLEEP = 5 * 10 ^ 9"

definition forward_next_action where
  "forward_next_action I D st ix s =
     (case forward_get_next_range I D st ix s of
        None \<Rightarrow> None
      | Some (st, ix, Inl f) \<Rightarrow> Some (st, ix, Inl f)
      | Some (st, ix, Inr (Some r)) \<Rightarrow> Some (st, ix, Inr (Query r))
      | Some (st, ix, Inr None) \<Rightarrow> Some (st, ix, Inr (Sleep IDLE_SLEEP)))"

definition forward_latest_block :: "sync_state \<Rightarrow> u32" where
  "forward_latest_block st = saturating_sub (ss_next_block st) 1"

definition forward_update ::
  "('db, 'e, 't) sequence_store \<Rightarrow> ('t \<Rightarrow> u32) \<Rightarrow> ('t \<times> log_meta) list \<Rightarrow> sync_state \<Rightarrow> 'db \<Rightarrow>
     'e db_error failure + sync_state" where
  "forward_update D seqn logs st s =
     (let prev_sequence = saturating_sub (ss_next_sequence st) 1;
          filtered_logs = filter (\<lambda>m. seqn (fst m) \<ge> ss_next_sequence st) logs
      in sequence_cursor_update D seqn filtered_logs prev_sequence st s)"

definition forward_cursor_impl ::
  "('ix, 'c, 't) sequence_indexer \<Rightarrow> ('db, 'e, 't) sequence_store \<Rightarrow> ('t \<Rightarrow> u32) \<Rightarrow>
     (sync_state, 'ix, 'db, 'c, 'e, 't) sync_cursor" where
  "forward_cursor_impl I D seqn =
     \<lparr>sc_next_action = (\<lambda>now. forward_next_action I D),
      sc_latest_block = forward_latest_block,
      sc_update = (\<lambda>logs st s. (s, forward_update D seqn logs st s))\<rparr>"

subsection \<open>Backwards\<close>

record backward_cursor =
  bw_state :: sync_state
  bw_synced :: bool

definition backward_cursor_new ::
  "u32 \<Rightarrow> u32 \<Rightarrow> u32 \<Rightarrow> index_mode \<Rightarrow> u32 \<Rightarrow> bool \<Rightarrow> backward_cursor" where
  "backward_cursor_new chunk_size start_block next_block mode next_sequence synced =
     \<lparr>bw_state = sync_state_new chunk_size start_block next_block mode next_sequence Backward,
      bw_synced = synced\<rparr>"

function backward_catch_up ::
  "('db, 'e, 't) sequence_store \<Rightarrow> backward_cursor \<Rightarrow> 'db \<Rightarrow> 'x failure + backward_cursor" where
  "backward_catch_up D c s =
     (let st = bw_state c in
      if bw_synced c then Inr c
      else if cursor_retrieve_by_sequence D (ss_next_sequence st) s = None then Inr c
      else if ss_next_sequence st = 0 \<or> ss_next_block st = 0 then Inr (c\<lparr>bw_synced := True\<rparr>)
      else
        (case cursor_retrieve_log_block_number D (ss_next_sequence st) s of
           Inl f \<Rightarrow> Inl f
         | Inr o' \<Rightarrow>
             let st = (case o' of None \<Rightarrow> st | Some b \<Rightarrow> st\<lparr>ss_next_block := b\<rparr>) in
             backward_catch_up D
               (c\<lparr>bw_state := st\<lparr>ss_next_sequence := saturating_sub (ss_next_sequence st) 1\<rparr>\<rparr>) s))"
  by pat_completeness auto

termination
proof (relation "measure (\<lambda>(D, c, s). unat (ss_next_sequence (bw_state c)))", goal_cases)
  case 1
  show ?case by simp
next
  case (2 D c s st o' st')
  have "unat (saturating_sub (ss_next_sequence st') 1) < unat (ss_next_sequence (bw_state c))"
    using 2 by (auto simp: unat_saturating_sub split: option.splits simp: unat_eq_0 word_neq_0_conv unat_gt_0)
  then show ?case by simp
qed

declare backward_catch_up.simps [simp del]

definition backward_get_next_range ::
  "('ix, 'c, 't) sequence_indexer \<Rightarrow> ('db, 'e, 't) sequence_store \<Rightarrow> backward_cursor \<Rightarrow> 'ix \<Rightarrow> 'db \<Rightarrow>
     backward_cursor \<times> 'ix \<times> ('c chain_error failure + u32_range option)" where
  "backward_get_next_range I D c ix s =
     (case backward_catch_up D c s of
        Inl f \<Rightarrow> (c, ix, Inl f)
      | Inr c \<Rightarrow>
          if bw_synced c then (c, ix, Inr None)
          else
            (case ix_sequence_and_tip I ix of
               (ix, Inl e) \<Rightarrow> (c, ix, Inl (Err e))
             | (ix, Inr (count, tip)) \<Rightarrow>
                 let (st, r) = get_next_range count tip (bw_state c)
                 in (c\<lparr>bw_state := st\<rparr>, ix, map_err Err r)))"

text \<open>\<^verbatim>\<open>saturating_add\<close> of one.\<close>

definition saturating_inc :: "'a::len word \<Rightarrow> 'a word" where
  "saturating_inc x = (if x = - 1 then - 1 else x + 1)"

definition backward_update ::
  "('db, 'e, 't) sequence_store \<Rightarrow> ('t \<Rightarrow> u32) \<Rightarrow> ('t \<times> log_meta) list \<Rightarrow> backward_cursor \<Rightarrow> 'db \<Rightarrow>
     'e db_error failure + backward_cursor" where
  "backward_update D seqn logs c s =
     (let st = bw_state c;
          prev_sequence = saturating_inc (ss_next_sequence st);
          filtered_logs = filter (\<lambda>m. seqn (fst m) \<le> ss_next_sequence st) logs
      in rbind (sequence_cursor_update D seqn filtered_logs prev_sequence st s) (\<lambda>st.
         Inr (c\<lparr>bw_state := st\<rparr>)))"

subsection \<open>Forwards and backwards\<close>

record forward_backward_cursor =
  fb_forward :: sync_state
  fb_backward :: backward_cursor
  fb_direction :: sync_direction

definition forward_backward_cursor_new ::
  "('ix, 'c, 't) sequence_indexer \<Rightarrow> u32 \<Rightarrow> index_mode \<Rightarrow> 'ix \<Rightarrow>
     'ix \<times> ('c chain_error + forward_backward_cursor)" where
  "forward_backward_cursor_new I chunk_size mode ix =
     (case ix_sequence_and_tip I ix of
        (ix, Inl e) \<Rightarrow> (ix, Inl e)
      | (ix, Inr (None, tip)) \<Rightarrow> (ix, Inl (From_Other_Str ''Failed to query sequence''))
      | (ix, Inr (Some sequence, tip)) \<Rightarrow>
          (ix, Inr \<lparr>fb_forward = forward_cursor_new chunk_size tip tip mode sequence,
                    fb_backward = backward_cursor_new chunk_size tip tip mode
                      (saturating_sub sequence 1) (sequence = 0),
                    fb_direction = Forward\<rparr>))"

definition forward_backward_next_action ::
  "('ix, 'c, 't) sequence_indexer \<Rightarrow> ('db, 'e, 't) sequence_store \<Rightarrow> forward_backward_cursor \<Rightarrow> 'ix \<Rightarrow>
     'db \<Rightarrow> (forward_backward_cursor \<times> 'ix \<times> ('c chain_error failure + cursor_action)) option" where
  "forward_backward_next_action I D c ix s =
     (case forward_get_next_range I D (fb_forward c) ix s of
        None \<Rightarrow> None
      | Some (st, ix, Inl f) \<Rightarrow> Some (c\<lparr>fb_forward := st\<rparr>, ix, Inl f)
      | Some (st, ix, Inr (Some forward_range)) \<Rightarrow>
          Some (c\<lparr>fb_forward := st, fb_direction := Forward\<rparr>, ix, Inr (Query forward_range))
      | Some (st, ix, Inr None) \<Rightarrow>
          let c = c\<lparr>fb_forward := st\<rparr> in
          (case backward_get_next_range I D (fb_backward c) ix s of
             (b, ix, Inl f) \<Rightarrow> Some (c\<lparr>fb_backward := b\<rparr>, ix, Inl f)
           | (b, ix, Inr (Some backward_range)) \<Rightarrow>
               Some (c\<lparr>fb_backward := b, fb_direction := Backward\<rparr>, ix, Inr (Query backward_range))
           | (b, ix, Inr None) \<Rightarrow> Some (c\<lparr>fb_backward := b\<rparr>, ix, Inr (Sleep IDLE_SLEEP))))"

definition forward_backward_latest_block :: "forward_backward_cursor \<Rightarrow> u32" where
  "forward_backward_latest_block c = saturating_sub (ss_next_block (fb_forward c)) 1"

definition forward_backward_update ::
  "('db, 'e, 't) sequence_store \<Rightarrow> ('t \<Rightarrow> u32) \<Rightarrow> ('t \<times> log_meta) list \<Rightarrow>
     forward_backward_cursor \<Rightarrow> 'db \<Rightarrow> 'e db_error failure + forward_backward_cursor" where
  "forward_backward_update D seqn logs c s =
     (case fb_direction c of
        Forward \<Rightarrow>
          rbind (forward_update D seqn logs (fb_forward c) s) (\<lambda>st. Inr (c\<lparr>fb_forward := st\<rparr>))
      | Backward \<Rightarrow>
          rbind (backward_update D seqn logs (fb_backward c) s) (\<lambda>b. Inr (c\<lparr>fb_backward := b\<rparr>)))"

definition forward_backward_cursor_impl ::
  "('ix, 'c, 't) sequence_indexer \<Rightarrow> ('db, 'e, 't) sequence_store \<Rightarrow> ('t \<Rightarrow> u32) \<Rightarrow>
     (forward_backward_cursor, 'ix, 'db, 'c, 'e, 't) sync_cursor" where
  "forward_backward_cursor_impl I D seqn =
     \<lparr>sc_next_action = (\<lambda>now. forward_backward_next_action I D),
      sc_latest_block = forward_backward_latest_block,
      sc_update = (\<lambda>logs c s. (s, forward_backward_update D seqn logs c s))\<rparr>"

section \<open>The rate limited cursor\<close>

record rate_limited_cursor =
  rl_tip :: u32
  rl_max_sequence :: "u32 option"
  rl_last_tip_update :: nat
  rl_state :: sync_state

definition rate_limited_cursor_new ::
  "('ix, 'c, 't) sequence_indexer \<Rightarrow> u32 \<Rightarrow> u32 \<Rightarrow> index_mode \<Rightarrow> nat \<Rightarrow> 'ix \<Rightarrow>
     'ix \<times> ('c chain_error + rate_limited_cursor)" where
  "rate_limited_cursor_new I chunk_size initial_height mode now ix =
     (case ix_sequence_and_tip I ix of
        (ix, Inl e) \<Rightarrow> (ix, Inl e)
      | (ix, Inr (max_sequence, tip)) \<Rightarrow>
          (ix, Inr \<lparr>rl_tip = tip, rl_max_sequence = max_sequence, rl_last_tip_update = now,
                    rl_state = sync_state_new chunk_size initial_height initial_height mode 0 Forward\<rparr>))"

text \<open>
  The result is the time to wait, if any. \<open>now\<close> is read once: the clock between the two readings of the
  source is that of one call of the node.
\<close>

definition get_rate_limit ::
  "('ix, 'c, 't) sequence_indexer \<Rightarrow> nat \<Rightarrow> rate_limited_cursor \<Rightarrow> 'ix \<Rightarrow>
     rate_limited_cursor \<times> 'ix \<times> ('c chain_error + nat option)" where
  "get_rate_limit I now c ix =
     (if ss_next_block (rl_state c) + ss_chunk_size (rl_state c) < rl_tip c then (c, ix, Inr None)
      else
        let elapsed = now - rl_last_tip_update c in
        if elapsed \<le> 30 * 10 ^ 9 then (c, ix, Inr (Some (30 * 10 ^ 9 - elapsed)))
        else
          (case ix_finalized_block_number I ix of
             (ix, Inr tip) \<Rightarrow> (c\<lparr>rl_last_tip_update := now, rl_tip := tip\<rparr>, ix, Inr None)
           | (ix, Inl e) \<Rightarrow> (c, ix, Inl e)))"

definition sync_end :: "rate_limited_cursor \<Rightarrow> 'c chain_error + u32" where
  "sync_end c =
     (case ss_mode (rl_state c) of
        Block \<Rightarrow> Inr (rl_tip c)
      | Sequence \<Rightarrow>
          ok_or (rl_max_sequence c) (From_Other_Str ''Sequence indexing requires a max sequence''))"

definition rate_limited_next_action ::
  "('ix, 'c, 't) sequence_indexer \<Rightarrow> nat \<Rightarrow> rate_limited_cursor \<Rightarrow> 'ix \<Rightarrow>
     rate_limited_cursor \<times> 'ix \<times> ('c chain_error failure + cursor_action)" where
  "rate_limited_next_action I now c ix =
     (case sync_end c of
        Inl e \<Rightarrow> (c, ix, Inl (Err e))
      | Inr _ \<Rightarrow>
          (case get_rate_limit I now c ix of
             (c, ix, Inl e) \<Rightarrow> (c, ix, Inl (Err e))
           | (c, ix, Inr (Some rate_limit)) \<Rightarrow> (c, ix, Inr (Sleep rate_limit))
           | (c, ix, Inr None) \<Rightarrow>
               (case ix_sequence_and_tip I ix of
                  (ix, Inl e) \<Rightarrow> (c, ix, Inl (Err e))
                | (ix, Inr (max_sequence, tip)) \<Rightarrow>
                    let c = c\<lparr>rl_tip := tip, rl_max_sequence := max_sequence\<rparr>;
                        (st, r) = get_next_range max_sequence tip (rl_state c);
                        c = c\<lparr>rl_state := st\<rparr>
                    in (case r of
                          Inl e \<Rightarrow> (c, ix, Inl (Err e))
                        | Inr (Some rng) \<Rightarrow> (c, ix, Inr (Query rng))
                        | Inr None \<Rightarrow> (c, ix, Inr (Sleep IDLE_SLEEP))))))"

definition rate_limited_latest_block :: "rate_limited_cursor \<Rightarrow> u32" where
  "rate_limited_latest_block c = saturating_sub (ss_next_block (rl_state c)) 1"

definition rate_limited_update ::
  "('db, 'e, 't) watermark_store \<Rightarrow> ('t \<times> log_meta) list \<Rightarrow> rate_limited_cursor \<Rightarrow>
     ('db, 'e, rate_limited_cursor) db_op" where
  "rate_limited_update D logs c =
     dbind (wm_store_high_watermark D
       (max (ss_start_block (rl_state c))
         (saturating_sub (ss_next_block (rl_state c)) (ss_chunk_size (rl_state c))))) (\<lambda>_.
     dret c)"

definition rate_limited_cursor_impl ::
  "('ix, 'c, 't) sequence_indexer \<Rightarrow> ('db, 'e, 't) watermark_store \<Rightarrow>
     (rate_limited_cursor, 'ix, 'db, 'c, 'e, 't) sync_cursor" where
  "rate_limited_cursor_impl I D =
     \<lparr>sc_next_action = (\<lambda>now c ix s. Some (rate_limited_next_action I now c ix)),
      sc_latest_block = rate_limited_latest_block,
      sc_update = rate_limited_update D\<rparr>"

section \<open>The loop\<close>

text \<open>\<open>sy_indexed_height\<close> and \<open>sy_stored_logs\<close> are the two metrics.\<close>

record ('cur, 'ix, 'db) sync_task =
  sy_cursor :: 'cur
  sy_indexer :: 'ix
  sy_db :: 'db
  sy_indexed_height :: int
  sy_stored_logs :: u64

datatype ('c, 'e) sync_error = Sync_Chain_Error "'c chain_error" | Sync_Db_Error "'e db_error"

text \<open>
  One pass of the loop of \<^verbatim>\<open>sync\<close>. An error of \<^verbatim>\<open>next_action\<close> is ignored, the others end the loop.
  \<open>hash_order\<close> is the order in which the \<^verbatim>\<open>HashSet\<close> of the logs is iterated.
\<close>

definition sync_pass ::
  "('ix, 'c, 't) sequence_indexer \<Rightarrow> (('t \<times> log_meta) list \<Rightarrow> ('db, 'e, u32) db_op) \<Rightarrow>
     (('t \<times> log_meta) set \<Rightarrow> ('t \<times> log_meta) list) \<Rightarrow> ('cur, 'ix, 'db, 'c, 'e, 't) sync_cursor \<Rightarrow>
     nat \<Rightarrow> ('cur, 'ix, 'db) sync_task \<Rightarrow>
     (('cur, 'ix, 'db) sync_task \<times> (('c, 'e) sync_error failure + unit)) option" where
  "sync_pass I store hash_order C now y =
     (let y = y\<lparr>sy_indexed_height := uint (sc_latest_block C (sy_cursor y))\<rparr> in
      case sc_next_action C now (sy_cursor y) (sy_indexer y) (sy_db y) of
        None \<Rightarrow> None
      | Some (cur, ix, r) \<Rightarrow>
          let y = y\<lparr>sy_cursor := cur, sy_indexer := ix\<rparr> in
          (case r of
             Inl Panic \<Rightarrow> Some (y, Inl Panic)
           | Inl (Err e) \<Rightarrow> Some (y, Inr ())
           | Inr (Sleep d) \<Rightarrow> Some (y, Inr ())
           | Inr (Query rng) \<Rightarrow>
               (case ix_fetch_logs I rng (sy_indexer y) of
                  (ix, Inl e) \<Rightarrow> Some (y\<lparr>sy_indexer := ix\<rparr>, Inl (Err (Sync_Chain_Error e)))
                | (ix, Inr logs) \<Rightarrow>
                    let y = y\<lparr>sy_indexer := ix\<rparr>; logs = hash_order (set logs) in
                    (case store logs (sy_db y) of
                       (s, Inl Panic) \<Rightarrow> Some (y\<lparr>sy_db := s\<rparr>, Inl Panic)
                     | (s, Inl (Err e)) \<Rightarrow> Some (y\<lparr>sy_db := s\<rparr>, Inl (Err (Sync_Db_Error e)))
                     | (s, Inr stored) \<Rightarrow>
                         let y = y\<lparr>sy_db := s, sy_stored_logs := sy_stored_logs y + ucast stored\<rparr> in
                         (case sc_update C logs (sy_cursor y) (sy_db y) of
                            (s, Inl Panic) \<Rightarrow> Some (y\<lparr>sy_db := s\<rparr>, Inl Panic)
                          | (s, Inl (Err e)) \<Rightarrow> Some (y\<lparr>sy_db := s\<rparr>, Inl (Err (Sync_Db_Error e)))
                          | (s, Inr cur) \<Rightarrow> Some (y\<lparr>sy_db := s, sy_cursor := cur\<rparr>, Inr ()))))))"

section \<open>Starting a cursor\<close>

record index_settings =
  is_from :: u32
  is_chunk_size :: u32
  is_mode :: index_mode

text \<open>\<^verbatim>\<open>forward_message_sync_cursor\<close>, \<^verbatim>\<open>forward_backward_message_sync_cursor\<close>, \<^verbatim>\<open>rate_limited_cursor\<close>.\<close>

definition forward_message_sync_cursor :: "index_settings \<Rightarrow> u32 \<Rightarrow> sync_state" where
  "forward_message_sync_cursor settings next_nonce =
     forward_cursor_new (is_chunk_size settings) (is_from settings) (is_from settings)
       (is_mode settings) next_nonce"

definition forward_backward_message_sync_cursor ::
  "('ix, 'c, 't) sequence_indexer \<Rightarrow> index_settings \<Rightarrow> 'ix \<Rightarrow>
     'ix \<times> ('x failure + forward_backward_cursor)" where
  "forward_backward_message_sync_cursor I settings ix =
     (case forward_backward_cursor_new I (is_chunk_size settings) (is_mode settings) ix of
        (ix, Inl e) \<Rightarrow> (ix, Inl Panic)
      | (ix, Inr c) \<Rightarrow> (ix, Inr c))"

definition watermark_sync_cursor ::
  "('ix, 'c, 't) sequence_indexer \<Rightarrow> ('db, 'e, 't) watermark_store \<Rightarrow> index_settings \<Rightarrow> nat \<Rightarrow> 'ix \<Rightarrow>
     'db \<Rightarrow> 'ix \<times> ('x failure + rate_limited_cursor)" where
  "watermark_sync_cursor I D settings now ix s =
     (case wm_retrieve_high_watermark D s of
        Inl e \<Rightarrow> (ix, Inl Panic)
      | Inr watermark \<Rightarrow>
          let frm = (case watermark of None \<Rightarrow> is_from settings | Some w \<Rightarrow> w) in
          (case rate_limited_cursor_new I (is_chunk_size settings) frm (is_mode settings) now ix of
             (ix, Inl e) \<Rightarrow> (ix, Inl Panic)
           | (ix, Inr c) \<Rightarrow> (ix, Inr c)))"

end
