(* ===== verification/Contract_Sync_Correct.thy ===== *)
theory Contract_Sync_Correct
  imports Contract_Sync
begin

text \<open>
  What the cursors of a contract sync guarantee. The logs of a chain are a set \<open>chain\<close>, those of blocks
  not yet produced included, and \<open>indexer_ok\<close> says what the trait of traits/indexer.rs documents: the
  tip is final, and a query of blocks returns the logs of the final ones. The interfaces \<open>sequence_logs\<close> and
  \<open>watermark_logs\<close> are what the cursors need from the database, interpreted on the stores of
  \<^verbatim>\<open>HyperlaneRocksDB\<close>; the invariants of the cursors are proved inside them, for block mode.
\<close>

section \<open>The logs of a chain\<close>

abbreviation log_block :: "'t \<times> log_meta \<Rightarrow> nat" where
  "log_block l \<equiv> unat (lm_block_number (snd l))"

definition in_range :: "u32_range \<Rightarrow> 't \<times> log_meta \<Rightarrow> bool" where
  "in_range r l \<longleftrightarrow> unat (fst r) \<le> log_block l \<and> log_block l \<le> unat (snd r)"

text \<open>Sequence numbers are unique and follow the blocks.\<close>

definition ordered_chain :: "('t \<Rightarrow> u32) \<Rightarrow> ('t \<times> log_meta) set \<Rightarrow> bool" where
  "ordered_chain seqn chain \<longleftrightarrow> (\<forall>l\<in>chain. \<forall>l'\<in>chain.
     (seqn (fst l) = seqn (fst l') \<longrightarrow> l = l') \<and>
     (seqn (fst l) < seqn (fst l') \<longrightarrow> log_block l \<le> log_block l'))"

text \<open>
  \<open>fin\<close> is the highest final block in a state of the chain and its nodes. A count that comes with a
  tip is the number of sequences up to the tip.
\<close>

definition fetches_ok ::
  "('ix, 'c, 't) sequence_indexer \<Rightarrow> ('t \<times> log_meta) set \<Rightarrow> ('ix \<Rightarrow> u32) \<Rightarrow> bool" where
  "fetches_ok I chain fin \<longleftrightarrow>
     (\<forall>r ix ix' res. ix_fetch_logs I r ix = (ix', res) \<longrightarrow> fin ix \<le> fin ix' \<and>
        (\<forall>logs. res = Inr logs \<longrightarrow> set logs \<subseteq> chain \<and>
           {l \<in> chain. in_range r l \<and> log_block l \<le> unat (fin ix)} \<subseteq> set logs)) \<and>
     (\<forall>ix ix' res. ix_finalized_block_number I ix = (ix', res) \<longrightarrow> fin ix \<le> fin ix') \<and>
     (\<forall>ix ix' res. ix_sequence_and_tip I ix = (ix', res) \<longrightarrow> fin ix \<le> fin ix' \<and>
        (\<forall>c tip. res = Inr (c, tip) \<longrightarrow> tip \<le> fin ix'))"

definition indexer_ok ::
  "('ix, 'c, 't) sequence_indexer \<Rightarrow> ('t \<Rightarrow> u32) \<Rightarrow> ('t \<times> log_meta) set \<Rightarrow> ('ix \<Rightarrow> u32) \<Rightarrow> bool" where
  "indexer_ok I seqn chain fin \<longleftrightarrow> fetches_ok I chain fin \<and>
     (\<forall>ix ix' n tip. ix_sequence_and_tip I ix = (ix', Inr (Some n, tip)) \<longrightarrow>
        (\<forall>l\<in>chain. seqn (fst l) < n \<longleftrightarrow> log_block l \<le> unat tip))"

definition order_ok :: "(('t \<times> log_meta) set \<Rightarrow> ('t \<times> log_meta) list) \<Rightarrow> bool" where
  "order_ok hash_order \<longleftrightarrow> (\<forall>S. finite S \<longrightarrow> set (hash_order S) = S \<and> distinct (hash_order S))"

section \<open>Runs of the loop\<close>

text \<open>Passes of the loop, interleaved with changes \<open>other\<close> of the database by other tasks.\<close>

inductive sync_run ::
  "('ix, 'c, 't) sequence_indexer \<Rightarrow> (('t \<times> log_meta) list \<Rightarrow> ('db, 'e, u32) db_op) \<Rightarrow>
     (('t \<times> log_meta) set \<Rightarrow> ('t \<times> log_meta) list) \<Rightarrow> ('cur, 'ix, 'db, 'c, 'e, 't) sync_cursor \<Rightarrow>
     ('db \<Rightarrow> 'db \<Rightarrow> bool) \<Rightarrow> ('cur, 'ix, 'db) sync_task \<Rightarrow> ('cur, 'ix, 'db) sync_task \<Rightarrow> bool"
  for I store hash_order C other y0 where
  start: "sync_run I store hash_order C other y0 y0"
| pass: "sync_run I store hash_order C other y0 y \<Longrightarrow>
    sync_pass I store hash_order C now y = Some (y', Inr ()) \<Longrightarrow>
    sync_run I store hash_order C other y0 y'"
| other: "sync_run I store hash_order C other y0 y \<Longrightarrow> other (sy_db y) s \<Longrightarrow>
    sync_run I store hash_order C other y0 (y\<lparr>sy_db := s\<rparr>)"

definition sync_task_start :: "'cur \<Rightarrow> 'ix \<Rightarrow> 'db \<Rightarrow> ('cur, 'ix, 'db) sync_task" where
  "sync_task_start c ix s =
     \<lparr>sy_cursor = c, sy_indexer = ix, sy_db = s, sy_indexed_height = 0, sy_stored_logs = 0\<rparr>"

text \<open>A successful pass is idle or a query whose logs are stored and handed to the cursor.\<close>

lemma sync_pass_cases:
  assumes "sync_pass I store hash_order C now y = Some (y', Inr ())"
  obtains (idle) cur ix r where "sc_next_action C now (sy_cursor y) (sy_indexer y) (sy_db y) = Some (cur, ix, r)"
      "\<forall>rng. r \<noteq> Inr (Query rng)" "sy_cursor y' = cur" "sy_indexer y' = ix" "sy_db y' = sy_db y"
  | (query) cur ix rng ix' logs s n
    where "sc_next_action C now (sy_cursor y) (sy_indexer y) (sy_db y) = Some (cur, ix, Inr (Query rng))"
      "ix_fetch_logs I rng ix = (ix', Inr logs)" "store (hash_order (set logs)) (sy_db y) = (s, Inr n)"
      "sc_update C (hash_order (set logs)) cur s = (sy_db y', Inr (sy_cursor y'))" "sy_indexer y' = ix'"
  using assms unfolding sync_pass_def
  by (auto simp: Let_def split: option.splits prod.splits sum.splits failure.splits cursor_action.splits)

section \<open>Cursors over sequences\<close>

locale sequence_logs =
  fixes D :: "('db, 'e, 't) sequence_store" and seqn :: "'t \<Rightarrow> u32"
    and view :: "('t \<times> log_meta) list \<Rightarrow> 'db \<Rightarrow> bool"
  assumes stored: "view ls s \<Longrightarrow> ls_store_logs D bs s = (s', Inr n) \<Longrightarrow> view (ls @ bs) s'"
    and by_sequence: "view ls s \<Longrightarrow>
      cursor_retrieve_by_sequence D n s \<noteq> None \<longleftrightarrow> n \<in> (\<lambda>l. seqn (fst l)) ` set ls"
    and block_number: "view ls s \<Longrightarrow> ls_retrieve_log_block_number D n s =
      Inr (map_option (\<lambda>l. lm_block_number (snd l)) (find (\<lambda>l. seqn (fst l) = n) ls))"

text \<open>
  The invariants. \<open>S\<close> are the logs stored so far, \<open>n0\<close> is the sequence the cursors start from.
\<close>

definition forward_inv ::
  "('t \<Rightarrow> u32) \<Rightarrow> ('t \<times> log_meta) set \<Rightarrow> u32 \<Rightarrow> ('t \<times> log_meta) set \<Rightarrow> sync_state \<Rightarrow> bool" where
  "forward_inv seqn chain n0 S st \<longleftrightarrow> ss_mode st = Block \<and> ss_direction st = Forward \<and>
     (\<forall>l\<in>chain. n0 \<le> seqn (fst l) \<longrightarrow>
        seqn (fst l) < ss_next_sequence st \<or> log_block l < unat (ss_next_block st) \<or>
        log_block l < unat (ss_start_block st) \<longrightarrow> l \<in> S)"

definition backward_inv ::
  "('t \<Rightarrow> u32) \<Rightarrow> ('t \<times> log_meta) set \<Rightarrow> u32 \<Rightarrow> ('t \<times> log_meta) set \<Rightarrow> backward_cursor \<Rightarrow> bool" where
  "backward_inv seqn chain n0 S c \<longleftrightarrow> ss_mode (bw_state c) = Block \<and>
     ss_direction (bw_state c) = Backward \<and>
     (\<forall>l\<in>chain. seqn (fst l) < n0 \<longrightarrow>
        ss_next_sequence (bw_state c) < seqn (fst l) \<or> unat (ss_next_block (bw_state c)) < log_block l \<or>
        unat (ss_start_block (bw_state c)) < log_block l \<or> bw_synced c \<longrightarrow> l \<in> S)"

lemma forward_inv_mono: "forward_inv seqn chain n0 S st \<Longrightarrow> S \<subseteq> S' \<Longrightarrow> forward_inv seqn chain n0 S' st"
  by (auto simp: forward_inv_def)

lemma backward_inv_mono: "backward_inv seqn chain n0 S c \<Longrightarrow> S \<subseteq> S' \<Longrightarrow> backward_inv seqn chain n0 S' c"
  unfolding backward_inv_def by blast

lemma ordered_chainD:
  assumes "ordered_chain seqn chain" and "l \<in> chain" and "l' \<in> chain"
  shows "seqn (fst l) = seqn (fst l') \<Longrightarrow> l = l'"
    and "log_block l < log_block l' \<Longrightarrow> seqn (fst l) < seqn (fst l')"
proof -
  show "seqn (fst l) = seqn (fst l') \<Longrightarrow> l = l'" using assms by (auto simp: ordered_chain_def)
  assume lt: "log_block l < log_block l'"
  show "seqn (fst l) < seqn (fst l')"
  proof (rule ccontr)
    assume "\<not> ?thesis"
    then have "seqn (fst l') < seqn (fst l) \<or> seqn (fst l') = seqn (fst l)" by auto
    with assms lt show False unfolding ordered_chain_def by (metis leD less_irrefl)
  qed
qed

lemma unat_inc_le: "unat (x + 1) \<le> Suc (unat x)" for x :: "'a::len word"
  using mod_less_eq_dividend [of "Suc (unat x)"] by (simp add: unat_word_ariths mod_simps)

lemma less_incD: "x < n + 1 \<Longrightarrow> x \<noteq> n \<Longrightarrow> x < n" for x n :: "'a::len word"
  using unat_inc_le [of n] by (auto simp: word_less_nat_alt word_unat_eq_iff)

lemma saturating_incD: "saturating_inc n < x \<Longrightarrow> n < x" for n x :: u32
proof (cases "n = - 1")
  case False
  then have "n < n + 1" using inc_less_eq_triv_imp [of n] by (meson linorder_not_less)
  then show "saturating_inc n < x \<Longrightarrow> n < x" using False by (auto simp: saturating_inc_def)
qed (simp add: saturating_inc_def)

text \<open>The loop at the head of the forward cursor keeps what one round of it keeps.\<close>

lemma forward_catch_up_rule:
  fixes r :: "'x failure + sync_state"
  assumes run: "forward_catch_up D st s = Some r" and r: "r = Inr st'" and start: "P st"
    and round: "\<And>st o'. P st \<Longrightarrow> cursor_retrieve_by_sequence D (ss_next_sequence st) s \<noteq> None \<Longrightarrow>
      cursor_retrieve_log_block_number D (ss_next_sequence st) s = (Inr o' :: 'x failure + u32 option) \<Longrightarrow>
      P ((case o' of None \<Rightarrow> st | Some b \<Rightarrow> st\<lparr>ss_next_block := b\<rparr>)
          \<lparr>ss_next_sequence := ss_next_sequence st + 1\<rparr>)"
  shows "P st' \<and> cursor_retrieve_by_sequence D (ss_next_sequence st') s = None"
  using run r start round
proof (induction D st s r rule: forward_catch_up.raw_induct [rotated, consumes 1, case_names 1])
  case (1 f D st s r)
  show ?case
  proof (cases "cursor_retrieve_by_sequence D (ss_next_sequence st) s")
    case None
    with 1(2-4) show ?thesis by simp
  next
    case (Some t)
    then obtain o' where
      o': "cursor_retrieve_log_block_number D (ss_next_sequence st) s = (Inr o' :: 'x failure + u32 option)"
      using 1(2,3) by (auto split: sum.splits)
    with Some 1(2) have f: "f D ((case o' of None \<Rightarrow> st | Some b \<Rightarrow> st\<lparr>ss_next_block := b\<rparr>)
        \<lparr>ss_next_sequence := ss_next_sequence st + 1\<rparr>) s = Some r"
      by (cases o') (simp_all add: Let_def)
    show ?thesis by (rule 1(1) [OF f 1(3)]) (use 1(4,5) Some o' in auto)
  qed
qed

lemma backward_catch_up_rule:
  fixes r :: "'x failure + backward_cursor"
  assumes run: "backward_catch_up D c s = r" and r: "r = Inr c'" and start: "P c"
    and synced: "\<And>c. P c \<Longrightarrow> cursor_retrieve_by_sequence D (ss_next_sequence (bw_state c)) s \<noteq> None \<Longrightarrow>
      ss_next_sequence (bw_state c) = 0 \<or> ss_next_block (bw_state c) = 0 \<Longrightarrow> P (c\<lparr>bw_synced := True\<rparr>)"
    and round: "\<And>c o'. P c \<Longrightarrow> cursor_retrieve_by_sequence D (ss_next_sequence (bw_state c)) s \<noteq> None \<Longrightarrow>
      cursor_retrieve_log_block_number D (ss_next_sequence (bw_state c)) s = (Inr o' :: 'x failure + u32 option) \<Longrightarrow>
      \<not> bw_synced c \<Longrightarrow> ss_next_sequence (bw_state c) \<noteq> 0 \<Longrightarrow>
      P (c\<lparr>bw_state := (case o' of None \<Rightarrow> bw_state c | Some b \<Rightarrow> (bw_state c)\<lparr>ss_next_block := b\<rparr>)
            \<lparr>ss_next_sequence := saturating_sub (ss_next_sequence (bw_state c)) 1\<rparr>\<rparr>)"
  shows "P c'"
  using run r start synced round
proof (induction "unat (ss_next_sequence (bw_state c))" arbitrary: c r rule: less_induct)
  case (less c r)
  note 1 = less
  let ?n = "ss_next_sequence (bw_state c)"
  show ?case
  proof (cases "bw_synced c \<or> cursor_retrieve_by_sequence D ?n s = None \<or> ?n = 0 \<or> ss_next_block (bw_state c) = 0")
    case True
    with 1(2-5) show ?thesis
      by (subst (asm) backward_catch_up.simps) (auto simp: Let_def split: if_splits)
  next
    case False
    then have run: "(case cursor_retrieve_log_block_number D ?n s of
           Inl f \<Rightarrow> Inl f
         | Inr o' \<Rightarrow> backward_catch_up D
               (c\<lparr>bw_state := (case o' of None \<Rightarrow> bw_state c | Some b \<Rightarrow> (bw_state c)\<lparr>ss_next_block := b\<rparr>)
            \<lparr>ss_next_sequence := saturating_sub ?n 1\<rparr>\<rparr>) s) = (Inr c' :: 'x failure + backward_cursor)"
      using 1(2,3) by (subst (asm) backward_catch_up.simps) (auto simp: Let_def split: sum.splits option.splits)
    then obtain o' where
      o': "cursor_retrieve_log_block_number D ?n s = (Inr o' :: 'x failure + u32 option)"
      by (auto split: sum.splits)
    let ?c = "c\<lparr>bw_state := (case o' of None \<Rightarrow> bw_state c | Some b \<Rightarrow> (bw_state c)\<lparr>ss_next_block := b\<rparr>)
            \<lparr>ss_next_sequence := saturating_sub ?n 1\<rparr>\<rparr>"
    from run o' have "backward_catch_up D ?c s = (Inr c' :: 'x failure + backward_cursor)" by simp
    moreover have "P ?c" using 1(4,6) False o' by blast
    moreover have "unat (ss_next_sequence (bw_state ?c)) < unat ?n"
      using False by (simp add: unat_saturating_sub unat_gt_0)
    ultimately show ?thesis using 1(1) [of ?c] 1(5,6) by blast
  qed
qed

text \<open>A range of blocks covers what lies between the old and the new next block.\<close>

lemma forward_block_range:
  assumes "forward_inv seqn chain n0 S st" and "get_next_range m tip st = (st', Inr res)"
  shows "(case res of
      None \<Rightarrow> forward_inv seqn chain n0 S st'
    | Some r \<Rightarrow> snd r \<le> tip \<and> forward_inv seqn chain n0 (S \<union> {l \<in> chain. in_range r l}) st')"
proof -
  let ?from = "ss_next_block st" and ?to = "min (ss_next_block st + ss_chunk_size st) tip"
  have st': "st' = st\<lparr>ss_next_block := ?to + 1\<rparr>"
    and res: "res = (if ?from \<le> ?to then Some (?from, ?to) else None)"
    using assms by (auto simp: forward_inv_def get_next_range_def block_range_def Let_def
        range_is_empty_def split: if_splits)
  have up: "unat (?to + 1) \<le> Suc (unat ?to)" by (rule unat_inc_le)
  show ?thesis
  proof (cases "?from \<le> ?to")
    case True
    have "forward_inv seqn chain n0 (S \<union> {l \<in> chain. in_range (?from, ?to) l}) st'"
      using assms(1) up unfolding forward_inv_def st' in_range_def by force
    with True show ?thesis by (simp add: res)
  next
    case False
    then have "unat (?to + 1) \<le> unat ?from"
      using up by (simp add: word_le_nat_alt) 
    then have "forward_inv seqn chain n0 S st'"
      using assms(1) unfolding forward_inv_def st' by force
    with False show ?thesis by (auto simp: res)
  qed
qed

lemma backward_block_range:
  assumes "backward_inv seqn chain n0 S c" and "get_next_range m tip (bw_state c) = (st', Inr res)"
    and "\<not> bw_synced c"
  shows "(case res of
      None \<Rightarrow> backward_inv seqn chain n0 S (c\<lparr>bw_state := st'\<rparr>)
    | Some r \<Rightarrow>
        backward_inv seqn chain n0 (S \<union> {l \<in> chain. in_range r l}) (c\<lparr>bw_state := st'\<rparr>))"
proof -
  let ?st = "bw_state c"
  let ?to = "ss_next_block ?st" and ?from = "saturating_sub (ss_next_block ?st) (ss_chunk_size ?st)"
  have le: "?from \<le> ?to" by (simp add: word_le_nat_alt unat_saturating_sub)
  have st': "st' = ?st\<lparr>ss_next_block := saturating_sub ?from 1\<rparr>" and res: "res = Some (?from, ?to)"
    using assms le by (auto simp: backward_inv_def get_next_range_def block_range_def Let_def
        range_is_empty_def)
  have "unat ?from \<le> Suc (unat (saturating_sub ?from 1))" by (simp add: unat_saturating_sub)
  then have "backward_inv seqn chain n0 (S \<union> {l \<in> chain. in_range (?from, ?to) l}) (c\<lparr>bw_state := st'\<rparr>)"
    using assms(1,3) unfolding backward_inv_def st' in_range_def by force
  then show ?thesis by (simp add: res)
qed


lemma fetches_okD:
  assumes "fetches_ok I chain fin"
  shows "ix_fetch_logs I r ix = (ix', Inr logs) \<Longrightarrow> fin ix \<le> fin ix' \<and> set logs \<subseteq> chain \<and>
      {l \<in> chain. in_range r l \<and> log_block l \<le> unat (fin ix)} \<subseteq> set logs"
    and "ix_sequence_and_tip I ix = (ix', res) \<Longrightarrow> fin ix \<le> fin ix'"
    and "ix_sequence_and_tip I ix = (ix', Inr (c, tip)) \<Longrightarrow> tip \<le> fin ix'"
    and "ix_finalized_block_number I ix = (ix', res') \<Longrightarrow> fin ix \<le> fin ix'"
proof -
  note f = assms [unfolded fetches_ok_def]
  show "fin ix \<le> fin ix' \<and> set logs \<subseteq> chain \<and>
      {l \<in> chain. in_range r l \<and> log_block l \<le> unat (fin ix)} \<subseteq> set logs"
    if q: "ix_fetch_logs I r ix = (ix', Inr logs)"
    using f [THEN conjunct1, THEN spec, THEN spec, THEN spec, THEN spec, THEN mp, OF q] by simp
  show "fin ix \<le> fin ix'" if q: "ix_sequence_and_tip I ix = (ix', res)"
    using f [THEN conjunct2, THEN conjunct2, THEN spec, THEN spec, THEN spec, THEN mp, OF q] by simp
  show "tip \<le> fin ix'" if q: "ix_sequence_and_tip I ix = (ix', Inr (c, tip))"
    using f [THEN conjunct2, THEN conjunct2, THEN spec, THEN spec, THEN spec, THEN mp, OF q] by simp
  show "fin ix \<le> fin ix'" if q: "ix_finalized_block_number I ix = (ix', res')"
    using f [THEN conjunct2, THEN conjunct1, THEN spec, THEN spec, THEN spec, THEN mp, OF q] by simp
qed

lemma indexer_fetch:
  assumes "indexer_ok I seqn chain fin" and "ix_fetch_logs I r ix = (ix', Inr logs)"
  shows "fin ix \<le> fin ix' \<and> set logs \<subseteq> chain \<and>
    {l \<in> chain. in_range r l \<and> log_block l \<le> unat (fin ix)} \<subseteq> set logs"
  by (rule fetches_okD(1) [OF _ assms(2)]) (use assms(1) in \<open>simp add: indexer_ok_def\<close>)

lemma indexer_tip:
  assumes I: "indexer_ok I seqn chain fin" and t: "ix_sequence_and_tip I ix = (ix', res)"
  shows "fin ix \<le> fin ix'" and "res = Inr (c, tip) \<Longrightarrow> tip \<le> fin ix'"
    and "res = Inr (Some n, tip) \<Longrightarrow> l \<in> chain \<Longrightarrow> seqn (fst l) < n \<longleftrightarrow> log_block l \<le> unat tip"
proof -
  have f: "fetches_ok I chain fin" using I by (simp add: indexer_ok_def)
  show "fin ix \<le> fin ix'" by (rule fetches_okD(2) [OF f t])
  show "tip \<le> fin ix'" if "res = Inr (c, tip)" using fetches_okD(3) [OF f] t that by blast
  show "seqn (fst l) < n \<longleftrightarrow> log_block l \<le> unat tip" if "res = Inr (Some n, tip)" "l \<in> chain"
    using I t that unfolding indexer_ok_def by blast
qed

lemma get_next_range_block:
  assumes "ss_mode st = Block"
  shows "\<exists>st' res. get_next_range m tip st = (st', Inr res)"
  using assms by (auto simp: get_next_range_def Let_def split: prod.splits)

context sequence_logs begin

text \<open>The block of a stored sequence is that of its log.\<close>

lemma log_block_number:
  assumes view: "view ls s" and b: "cursor_retrieve_log_block_number D n s = Inr (Some b)"
  shows "\<exists>l\<in>set ls. seqn (fst l) = n \<and> log_block l = unat b"
proof -
  obtain l where l: "find (\<lambda>l. seqn (fst l) = n) ls = Some l"
    and lt: "log_block l < 2 ^ 32" and b': "b = ucast (lm_block_number (snd l))"
    using b unfolding cursor_retrieve_log_block_number_def block_number [OF view]
    by (auto split: option.splits if_splits)
  have "unat b = log_block l" using lt unfolding b' by (simp add: unsigned_ucast_eq take_bit_eq_mod)
  moreover have "l \<in> set ls" "seqn (fst l) = n" using l by (auto simp: find_Some_iff)
  ultimately show ?thesis by auto
qed

lemma stored_before:
  assumes "ordered_chain seqn chain" and "set ls \<subseteq> chain" and "view ls s"
    and "cursor_retrieve_log_block_number D n s = Inr (Some b)" and "l \<in> chain"
  shows "log_block l < unat b \<Longrightarrow> seqn (fst l) < n" and "unat b < log_block l \<Longrightarrow> n < seqn (fst l)"
  using log_block_number [OF assms(3,4)] ordered_chainD(2) [OF assms(1)] assms(2,5)
  by (metis subsetD)+

lemma stored_sequence:
  assumes "ordered_chain seqn chain" and "set ls \<subseteq> chain" and "view ls s"
    and "cursor_retrieve_by_sequence D (seqn (fst l)) s \<noteq> None" and "l \<in> chain"
  shows "l \<in> set ls"
  using by_sequence [OF assms(3)] ordered_chainD(1) [OF assms(1)] assms(2,4,5) by (auto, blast)

lemma forward_inv_stored:
  assumes chain: "ordered_chain seqn chain" "set ls \<subseteq> chain" and view: "view ls s"
    and inv: "forward_inv seqn chain n0 (set ls) st"
    and n: "cursor_retrieve_by_sequence D (ss_next_sequence st) s \<noteq> None"
    and b: "cursor_retrieve_log_block_number D (ss_next_sequence st) s = Inr o'"
  shows "forward_inv seqn chain n0 (set ls)
    ((case o' of None \<Rightarrow> st | Some b \<Rightarrow> st\<lparr>ss_next_block := b\<rparr>)\<lparr>ss_next_sequence := ss_next_sequence st + 1\<rparr>)"
proof -
  have "l \<in> set ls" if "l \<in> chain" "n0 \<le> seqn (fst l)" "seqn (fst l) < ss_next_sequence st + 1" for l
  proof (cases "seqn (fst l) = ss_next_sequence st")
    case True
    with stored_sequence [OF chain view] n that(1) show ?thesis by metis
  next
    case False
    with that(3) have "seqn (fst l) < ss_next_sequence st" by (rule less_incD)
    with inv that(1,2) show ?thesis by (simp add: forward_inv_def)
  qed
  moreover have "l \<in> set ls"
    if "l \<in> chain" "n0 \<le> seqn (fst l)" "o' = Some b" "log_block l < unat b" for l b
    using stored_before(1) [OF chain view _ that(1)] b that inv unfolding forward_inv_def by metis
  ultimately show ?thesis
    using inv by (auto simp: forward_inv_def split: option.splits)
qed

lemma forward_get_next_range_inv:
  fixes I :: "('ix, 'c, 't) sequence_indexer"
  assumes chain: "ordered_chain seqn chain" "set ls \<subseteq> chain" and view: "view ls s"
    and I: "indexer_ok I seqn chain fin" and inv: "forward_inv seqn chain n0 (set ls) st"
    and run: "forward_get_next_range I D st ix s = Some (st', ix', res)"
  shows "fin ix \<le> fin ix' \<and>
    (case res of
      Inr (Some r) \<Rightarrow> forward_inv seqn chain n0 (set ls \<union> {l \<in> chain. in_range r l \<and> log_block l \<le> unat (fin ix')}) st'
    | _ \<Rightarrow> forward_inv seqn chain n0 (set ls) st')"
proof -
  obtain r :: "'c chain_error failure + sync_state" where r: "forward_catch_up D st s = Some r"
    using run by (auto simp: forward_get_next_range_def split: option.splits)
  show ?thesis
  proof (cases r)
    case (Inl f)
    with run r inv show ?thesis by (auto simp: forward_get_next_range_def)
  next
    case (Inr st1)
    have inv1: "forward_inv seqn chain n0 (set ls) st1"
      using forward_catch_up_rule [where P = "forward_inv seqn chain n0 (set ls)", OF r Inr inv]
        forward_inv_stored [OF chain view] by blast
    obtain ix1 t where t: "ix_sequence_and_tip I ix = (ix1, t)" by fastforce
    note tip = indexer_tip [OF I t]
    show ?thesis
    proof (cases "\<exists>n tip. t = Inr (Some n, tip)")
      case False
      then show ?thesis
        using run r Inr t inv1 tip(1)
        by (auto simp: forward_get_next_range_def split: sum.splits option.splits)
    next
      case True
      then obtain n tp where n: "t = Inr (Some n, tp)" by blast
      have run': "Some (st', ix', res) =
          (if ss_next_sequence st1 = n then Some (st1\<lparr>ss_next_block := tp\<rparr>, ix1, Inr None)
           else if ss_next_sequence st1 < n then
             (let (st, r) = get_next_range (Some n) tp st1 in Some (st, ix1, map_err Err r))
           else Some (st1, ix1, Inr None))"
        using run r Inr t n by (simp add: forward_get_next_range_def Let_def)
      consider "ss_next_sequence st1 = n" | "ss_next_sequence st1 < n" | "n < ss_next_sequence st1"
        by fastforce
      then show ?thesis
      proof cases
        case 1
        then have "forward_inv seqn chain n0 (set ls) (st1\<lparr>ss_next_block := tp\<rparr>)"
          using inv1 tip(3) [OF n] unfolding forward_inv_def by (auto dest: less_imp_le)
        with 1 run' tip(1) show ?thesis by simp
      next
        case 2
        obtain st2 res2 where g: "get_next_range (Some n) tp st1 = (st2, Inr res2 :: 'c chain_error + u32_range option)"
          using get_next_range_block [of st1 "Some n" tp] inv1 unfolding forward_inv_def by blast
        have eq: "st' = st2 \<and> ix' = ix1 \<and> res = Inr res2"
          using 2 run' unfolding g by (auto split: if_splits)
        have "tp \<le> fin ix1" by (rule tip(2) [OF n])
        then have "{l \<in> chain. in_range r l} \<subseteq> {l \<in> chain. in_range r l \<and> log_block l \<le> unat (fin ix1)}"
          if "snd r \<le> tp" for r using that by (auto simp: in_range_def word_le_nat_alt)
        then show ?thesis
          using forward_block_range [OF inv1 g] tip(1) eq
          by (auto split: option.splits elim!: forward_inv_mono intro!: Un_mono)
      next
        case 3
        then have "\<not> ss_next_sequence st1 < n" "ss_next_sequence st1 \<noteq> n" by auto
        with run' tip(1) inv1 show ?thesis by simp
      qed
    qed
  qed
qed

lemma forward_update_inv:
  assumes chain: "ordered_chain seqn chain" "set ls \<subseteq> chain" and view: "view ls s"
    and inv: "forward_inv seqn chain n0 (set ls) st"
    and run: "forward_update D seqn logs st s = Inr st'"
  shows "forward_inv seqn chain n0 (set ls) st'"
proof -
  let ?prev = "saturating_sub (ss_next_sequence st) 1"
  have prev: "x < ?prev \<Longrightarrow> x < ss_next_sequence st" for x
    by (simp add: word_less_nat_alt unat_saturating_sub)
  have "forward_inv seqn chain n0 (set ls) (st\<lparr>ss_next_block := b\<rparr>)"
    if "cursor_retrieve_log_block_number D ?prev s = (Inr (Some b) :: 'e db_error failure + u32 option)" for b
    using inv stored_before(1) [OF chain view that] prev unfolding forward_inv_def by auto
  moreover have "forward_inv seqn chain n0 (set ls) (st\<lparr>ss_next_block := ss_start_block st\<rparr>)"
    using inv unfolding forward_inv_def by auto
  ultimately show ?thesis
    using run inv
    by (auto simp: forward_update_def sequence_cursor_update_def Let_def result_simps
        split: if_splits option.splits)
qed

lemma backward_update_inv:
  assumes chain: "ordered_chain seqn chain" "set ls \<subseteq> chain" and view: "view ls s"
    and inv: "backward_inv seqn chain n0 (set ls) c"
    and run: "backward_update D seqn logs c s = Inr c'"
  shows "backward_inv seqn chain n0 (set ls) c'"
proof -
  let ?st = "bw_state c"
  let ?prev = "saturating_inc (ss_next_sequence ?st)"
  have prev: "?prev < x \<Longrightarrow> ss_next_sequence ?st < x" for x
    by (rule saturating_incD)
  have "backward_inv seqn chain n0 (set ls) (c\<lparr>bw_state := ?st\<lparr>ss_next_block := b\<rparr>\<rparr>)"
    if "cursor_retrieve_log_block_number D ?prev s = (Inr (Some b) :: 'e db_error failure + u32 option)" for b
    using inv stored_before(2) [OF chain view that] prev unfolding backward_inv_def by auto
  moreover have "backward_inv seqn chain n0 (set ls) (c\<lparr>bw_state := ?st\<lparr>ss_next_block := ss_start_block ?st\<rparr>\<rparr>)"
    using inv unfolding backward_inv_def by auto
  ultimately show ?thesis
    using run inv
    by (auto simp: backward_update_def sequence_cursor_update_def Let_def result_simps
        split: if_splits option.splits)
qed

lemma backward_inv_stored:
  assumes chain: "ordered_chain seqn chain" "set ls \<subseteq> chain" and view: "view ls s"
    and inv: "backward_inv seqn chain n0 (set ls) c"
    and n: "cursor_retrieve_by_sequence D (ss_next_sequence (bw_state c)) s \<noteq> None"
  shows "\<forall>l\<in>chain. 0 < log_block l \<Longrightarrow>
      ss_next_sequence (bw_state c) = 0 \<or> ss_next_block (bw_state c) = 0 \<Longrightarrow>
      backward_inv seqn chain n0 (set ls) (c\<lparr>bw_synced := True\<rparr>)"
    and "cursor_retrieve_log_block_number D (ss_next_sequence (bw_state c)) s = Inr o' \<Longrightarrow>
      \<not> bw_synced c \<Longrightarrow> ss_next_sequence (bw_state c) \<noteq> 0 \<Longrightarrow>
      backward_inv seqn chain n0 (set ls)
        (c\<lparr>bw_state := (case o' of None \<Rightarrow> bw_state c | Some b \<Rightarrow> (bw_state c)\<lparr>ss_next_block := b\<rparr>)
            \<lparr>ss_next_sequence := saturating_sub (ss_next_sequence (bw_state c)) 1\<rparr>\<rparr>)"
proof -
  let ?n = "ss_next_sequence (bw_state c)"
  have at: "l \<in> set ls" if "l \<in> chain" "seqn (fst l) = ?n" for l
    using stored_sequence [OF chain view _ that(1)] n that(2) by metis
  show "backward_inv seqn chain n0 (set ls) (c\<lparr>bw_synced := True\<rparr>)"
    if "\<forall>l\<in>chain. 0 < log_block l" "?n = 0 \<or> ss_next_block (bw_state c) = 0"
  proof -
    have "l \<in> set ls" if l: "l \<in> chain" "seqn (fst l) < n0" for l
    proof (cases "?n = 0")
      case True
      then show ?thesis using inv at [OF l(1)] l unfolding backward_inv_def by (metis word_neq_0_conv)
    next
      case False
      with that have "unat (ss_next_block (bw_state c)) < log_block l"
        using \<open>\<forall>l\<in>chain. 0 < log_block l\<close> \<open>?n = 0 \<or> ss_next_block (bw_state c) = 0\<close> l(1) by simp
      with inv l show ?thesis unfolding backward_inv_def by blast
    qed
    with inv show ?thesis unfolding backward_inv_def by simp
  qed
  show "backward_inv seqn chain n0 (set ls)
        (c\<lparr>bw_state := (case o' of None \<Rightarrow> bw_state c | Some b \<Rightarrow> (bw_state c)\<lparr>ss_next_block := b\<rparr>)
            \<lparr>ss_next_sequence := saturating_sub ?n 1\<rparr>\<rparr>)"
    if b: "cursor_retrieve_log_block_number D ?n s = Inr o'" "\<not> bw_synced c" "?n \<noteq> 0"
  proof -
    have below: "x = ?n \<or> ?n < x" if "saturating_sub ?n 1 < x" for x
      using that by (auto simp: word_less_nat_alt unat_saturating_sub word_unat_eq_iff)
    then have "l \<in> set ls" if "l \<in> chain" "seqn (fst l) < n0" "saturating_sub ?n 1 < seqn (fst l)" for l
      using at that inv unfolding backward_inv_def by metis
    moreover have "l \<in> set ls" if "l \<in> chain" "seqn (fst l) < n0" "o' = Some b" "unat b < log_block l" for l b
      using stored_before(2) [OF chain view _ that(1)] that inv \<open>cursor_retrieve_log_block_number D ?n s = Inr o'\<close>
      unfolding backward_inv_def by metis
    ultimately show ?thesis
      using inv that(2) unfolding backward_inv_def by (simp split: option.splits)
  qed
qed

lemma backward_get_next_range_inv:
  fixes I :: "('ix, 'c, 't) sequence_indexer"
  assumes chain: "ordered_chain seqn chain" "set ls \<subseteq> chain" and view: "view ls s"
    and pos: "\<forall>l\<in>chain. 0 < log_block l" and past: "\<forall>l\<in>chain. seqn (fst l) < n0 \<longrightarrow> log_block l \<le> unat (fin ix)"
    and I: "indexer_ok I seqn chain fin" and inv: "backward_inv seqn chain n0 (set ls) c"
    and run: "backward_get_next_range I D c ix s = (c', ix', res)"
  shows "fin ix \<le> fin ix' \<and>
    (case res of
      Inr (Some r) \<Rightarrow> backward_inv seqn chain n0 (set ls \<union> {l \<in> chain. in_range r l \<and> log_block l \<le> unat (fin ix')}) c'
    | _ \<Rightarrow> backward_inv seqn chain n0 (set ls) c')"
proof (cases "backward_catch_up D c s :: 'c chain_error failure + backward_cursor")
  case (Inl f)
  with run inv show ?thesis by (auto simp: backward_get_next_range_def)
next
  case (Inr c1)
  have inv1: "backward_inv seqn chain n0 (set ls) c1"
    using backward_catch_up_rule [where P = "backward_inv seqn chain n0 (set ls)", OF Inr refl inv]
      backward_inv_stored [OF chain view] pos by blast
  obtain ix1 t where t: "ix_sequence_and_tip I ix = (ix1, t)" by fastforce
  note tip = indexer_tip(1) [OF I t]
  show ?thesis
  proof (cases "bw_synced c1 \<or> (\<exists>e. t = Inl e)")
    case True
    with run Inr t inv1 tip show ?thesis by (auto simp: backward_get_next_range_def split: if_splits)
  next
    case False
    then obtain n tp where n: "t = Inr (n, tp)" by (cases t) auto
    obtain st2 res2 where g: "get_next_range n tp (bw_state c1) = (st2, Inr res2 :: 'c chain_error + u32_range option)"
      using get_next_range_block [of "bw_state c1" n tp] inv1 unfolding backward_inv_def by blast
    have eq: "c' = c1\<lparr>bw_state := st2\<rparr> \<and> ix' = ix1 \<and> res = Inr res2"
      using run Inr t n False g by (auto simp: backward_get_next_range_def)
    have sub: "backward_inv seqn chain n0 (set ls \<union> {l \<in> chain. in_range r l \<and> log_block l \<le> unat (fin ix1)}) c"
      if "backward_inv seqn chain n0 (set ls \<union> {l \<in> chain. in_range r l}) c" for r c
    proof -
      have "log_block l \<le> unat (fin ix1)" if "l \<in> chain" "seqn (fst l) < n0" for l
        using past that tip by (meson order.trans word_le_nat_alt)
      with that show ?thesis unfolding backward_inv_def by blast
    qed
    show ?thesis
      using backward_block_range [OF inv1 g] False tip eq sub by (auto split: option.splits)
  qed
qed

end

text \<open>The invariant of the cursor in both directions.\<close>

definition fb_inv ::
  "(('t \<times> log_meta) list \<Rightarrow> 'db \<Rightarrow> bool) \<Rightarrow> ('t \<Rightarrow> u32) \<Rightarrow> ('t \<times> log_meta) set \<Rightarrow> ('ix \<Rightarrow> u32) \<Rightarrow> u32 \<Rightarrow>
     ('t \<times> log_meta) list \<Rightarrow> (forward_backward_cursor, 'ix, 'db) sync_task \<Rightarrow> bool" where
  "fb_inv view seqn chain fin n0 ls y \<longleftrightarrow> view ls (sy_db y) \<and> set ls \<subseteq> chain \<and>
     forward_inv seqn chain n0 (set ls) (fb_forward (sy_cursor y)) \<and>
     backward_inv seqn chain n0 (set ls) (fb_backward (sy_cursor y)) \<and>
     (\<forall>l\<in>chain. seqn (fst l) < n0 \<longrightarrow> log_block l \<le> unat (fin (sy_indexer y)))"

context sequence_logs begin

lemma forward_backward_next_action_inv:
  fixes I :: "('ix, 'c, 't) sequence_indexer" and y :: "(forward_backward_cursor, 'ix, 'db) sync_task"
  assumes chain: "ordered_chain seqn chain" and pos: "\<forall>l\<in>chain. 0 < log_block l"
    and I: "indexer_ok I seqn chain fin" and inv: "fb_inv view seqn chain fin n0 ls y"
    and run: "forward_backward_next_action I D (sy_cursor y) (sy_indexer y) (sy_db y) = Some (c', ix', res)"
  shows "fin (sy_indexer y) \<le> fin ix' \<and>
    (let S = (case res of
       Inr (Query r) \<Rightarrow> set ls \<union> {l \<in> chain. in_range r l \<and> log_block l \<le> unat (fin ix')}
     | _ \<Rightarrow> set ls)
     in forward_inv seqn chain n0 S (fb_forward c') \<and> backward_inv seqn chain n0 S (fb_backward c'))"
proof -
  let ?c = "sy_cursor y"
  have ls: "set ls \<subseteq> chain" and view: "view ls (sy_db y)"
    and f: "forward_inv seqn chain n0 (set ls) (fb_forward ?c)"
    and b: "backward_inv seqn chain n0 (set ls) (fb_backward ?c)"
    and past: "\<forall>l\<in>chain. seqn (fst l) < n0 \<longrightarrow> log_block l \<le> unat (fin (sy_indexer y))"
    using inv by (auto simp: fb_inv_def)
  obtain st1 ix1 r1 where g: "forward_get_next_range I D (fb_forward ?c) (sy_indexer y) (sy_db y) = Some (st1, ix1, r1)"
    using run by (auto simp: forward_backward_next_action_def split: option.splits)
  note f1 = forward_get_next_range_inv [OF chain ls view I f g]
  show ?thesis
  proof (cases "r1 = Inr None")
    case False
    with run g have "c' = ?c\<lparr>fb_forward := st1\<rparr> \<or> c' = ?c\<lparr>fb_forward := st1, fb_direction := Forward\<rparr>"
      and "ix' = ix1" and "res = (case r1 of Inl e \<Rightarrow> Inl e | Inr (Some r) \<Rightarrow> Inr (Query r))"
      by (auto simp: forward_backward_next_action_def split: sum.splits option.splits)
    with f1 b False show ?thesis
      by (auto simp: Let_def split: sum.splits option.splits elim!: backward_inv_mono)
  next
    case True
    obtain b2 ix2 r2 where g2: "backward_get_next_range I D (fb_backward ?c) ix1 (sy_db y) = (b2, ix2, r2)"
      by (metis prod_cases3)
    have past1: "\<forall>l\<in>chain. seqn (fst l) < n0 \<longrightarrow> log_block l \<le> unat (fin ix1)"
      using past f1 by (meson order.trans word_le_nat_alt)
    note b2 = backward_get_next_range_inv [OF chain ls view pos past1 I b g2]
    have "c' = ?c\<lparr>fb_forward := st1, fb_backward := b2\<rparr> \<or>
        c' = ?c\<lparr>fb_forward := st1, fb_backward := b2, fb_direction := Backward\<rparr>"
      and "ix' = ix2"
      and "res = (case r2 of Inl e \<Rightarrow> Inl e | Inr (Some r) \<Rightarrow> Inr (Query r) | Inr None \<Rightarrow> Inr (Sleep IDLE_SLEEP))"
      using run g g2 True
      by (auto simp: forward_backward_next_action_def Let_def split: sum.splits option.splits)
    with f1 b2 True show ?thesis
      by (auto simp: Let_def split: sum.splits option.splits elim!: forward_inv_mono)
  qed
qed

lemma forward_backward_pass_inv:
  fixes I :: "('ix, 'c, 't) sequence_indexer" and y :: "(forward_backward_cursor, 'ix, 'db) sync_task"
  assumes chain: "ordered_chain seqn chain" and pos: "\<forall>l\<in>chain. 0 < log_block l"
    and I: "indexer_ok I seqn chain fin" and order: "order_ok hash_order"
    and inv: "fb_inv view seqn chain fin n0 ls y"
    and pass: "sync_pass I (ls_store_logs D) hash_order (forward_backward_cursor_impl I D seqn) now y = Some (y', Inr ())"
  shows "\<exists>ls'. fb_inv view seqn chain fin n0 (ls @ ls') y'"
  using pass
proof (cases rule: sync_pass_cases)
  case (idle cur ix r)
  have "forward_backward_next_action I D (sy_cursor y) (sy_indexer y) (sy_db y) = Some (cur, ix, r)"
    using idle(1) by (simp add: forward_backward_cursor_impl_def)
  note nxt = forward_backward_next_action_inv [OF chain pos I inv this]
  moreover have "\<forall>l\<in>chain. seqn (fst l) < n0 \<longrightarrow> log_block l \<le> unat (fin ix)"
    using inv nxt unfolding fb_inv_def by (meson order.trans word_le_nat_alt)
  ultimately have "fb_inv view seqn chain fin n0 (ls @ []) y'"
    using idle inv unfolding fb_inv_def Let_def
    by (auto split: sum.splits cursor_action.splits)
  then show ?thesis ..
next
  case (query cur ix rng ix' logs s n)
  let ?logs = "hash_order (set logs)"
  have nxt: "forward_backward_next_action I D (sy_cursor y) (sy_indexer y) (sy_db y) = Some (cur, ix, Inr (Query rng))"
    using query(1) by (simp add: forward_backward_cursor_impl_def)
  have set: "set ?logs = set logs" using order by (simp add: order_ok_def)
  have fetched: "set logs \<subseteq> chain" "{l \<in> chain. in_range rng l \<and> log_block l \<le> unat (fin ix)} \<subseteq> set logs"
    "fin ix \<le> fin ix'"
    using indexer_fetch [OF I query(2)] by auto
  have next_inv: "fin (sy_indexer y) \<le> fin ix"
    "forward_inv seqn chain n0 (set (ls @ ?logs)) (fb_forward cur)"
    "backward_inv seqn chain n0 (set (ls @ ?logs)) (fb_backward cur)"
    using forward_backward_next_action_inv [OF chain pos I inv nxt] fetched(2) set
    by (auto simp: Let_def elim!: forward_inv_mono backward_inv_mono)
  have view: "view (ls @ ?logs) s" and sub: "set (ls @ ?logs) \<subseteq> chain"
    using stored [OF _ query(3)] inv fetched(1) set by (auto simp: fb_inv_def)
  have upd: "forward_backward_update D seqn ?logs cur s = Inr (sy_cursor y')" and s: "sy_db y' = s"
    using query(4) by (auto simp: forward_backward_cursor_impl_def)
  have "forward_inv seqn chain n0 (set (ls @ ?logs)) (fb_forward c') \<and>
      backward_inv seqn chain n0 (set (ls @ ?logs)) (fb_backward c')"
    if "forward_backward_update D seqn ?logs cur s = Inr c'" for c'
    using that next_inv forward_update_inv [OF chain sub view next_inv(2)]
      backward_update_inv [OF chain sub view next_inv(3)]
    by (auto simp: forward_backward_update_def result_simps split: sync_direction.splits)
  from this [OF upd] have "forward_inv seqn chain n0 (set (ls @ ?logs)) (fb_forward (sy_cursor y')) \<and>
      backward_inv seqn chain n0 (set (ls @ ?logs)) (fb_backward (sy_cursor y'))" .
  moreover have "\<forall>l\<in>chain. seqn (fst l) < n0 \<longrightarrow> log_block l \<le> unat (fin ix')"
    using inv next_inv(1) fetched(3) unfolding fb_inv_def by (meson order.trans word_le_nat_alt)
  ultimately show ?thesis
    using view sub s query(5) unfolding fb_inv_def by blast
qed

lemma forward_backward_run_inv:
  fixes I :: "('ix, 'c, 't) sequence_indexer"
  assumes run: "sync_run I (ls_store_logs D) hash_order (forward_backward_cursor_impl I D seqn) other y0 y"
    and chain: "ordered_chain seqn chain" and pos: "\<forall>l\<in>chain. 0 < log_block l"
    and I: "indexer_ok I seqn chain fin" and order: "order_ok hash_order"
    and inv: "fb_inv view seqn chain fin n0 ls y0"
    and frame: "\<And>ls s s'. other s s' \<Longrightarrow> view ls s \<Longrightarrow> view ls s'"
  shows "\<exists>ls'. fb_inv view seqn chain fin n0 (ls @ ls') y"
  using run
proof induction
  case start
  from inv have "fb_inv view seqn chain fin n0 (ls @ []) y0" by simp
  then show ?case ..
next
  case (pass y now y')
  then obtain ls1 where "fb_inv view seqn chain fin n0 (ls @ ls1) y" by blast
  from forward_backward_pass_inv [OF chain pos I order this pass(2)]
  show ?case by (metis append_assoc)
next
  case (other y s)
  then obtain ls1 where "fb_inv view seqn chain fin n0 (ls @ ls1) y" by blast
  moreover from this have "view (ls @ ls1) s" using frame [OF other(2)] by (simp add: fb_inv_def)
  ultimately have "fb_inv view seqn chain fin n0 (ls @ ls1) (y\<lparr>sy_db := s\<rparr>)" by (simp add: fb_inv_def)
  then show ?case ..
qed

end

section \<open>The rate limited cursor\<close>

locale watermark_logs =
  fixes D :: "('db, 'e, 't) watermark_store" and view :: "('t \<times> log_meta) list \<Rightarrow> 'db \<Rightarrow> bool"
  assumes stored: "view ls s \<Longrightarrow> wm_store_logs D bs s = (s', Inr n) \<Longrightarrow>
      view (ls @ bs) s' \<and> wm_retrieve_high_watermark D s' = wm_retrieve_high_watermark D s"
    and watermark: "view ls s \<Longrightarrow> wm_store_high_watermark D w s = (s', Inr ()) \<Longrightarrow>
      view ls s' \<and> wm_retrieve_high_watermark D s' = Inr (Some w)"

text \<open>
  Runs of an agent that may stop at any time and start again from the watermark, in particular after
  an error of \<^verbatim>\<open>fetch_logs\<close>, which leaves the database as it was.
\<close>

inductive watermark_run ::
  "('ix, 'c, 't) sequence_indexer \<Rightarrow> ('db, 'e, 't) watermark_store \<Rightarrow>
     (('t \<times> log_meta) set \<Rightarrow> ('t \<times> log_meta) list) \<Rightarrow> index_settings \<Rightarrow> ('db \<Rightarrow> 'db \<Rightarrow> bool) \<Rightarrow> 'db \<Rightarrow>
     (rate_limited_cursor, 'ix, 'db) sync_task \<Rightarrow> bool"
  for I D hash_order settings other s0 where
  start: "watermark_sync_cursor I D settings now ix s0 = (ix', Inr c :: unit failure + rate_limited_cursor) \<Longrightarrow>
    watermark_run I D hash_order settings other s0 (sync_task_start c ix' s0)"
| pass: "watermark_run I D hash_order settings other s0 y \<Longrightarrow>
    sync_pass I (wm_store_logs D) hash_order (rate_limited_cursor_impl I D) now y = Some (y', Inr ()) \<Longrightarrow>
    watermark_run I D hash_order settings other s0 y'"
| other: "watermark_run I D hash_order settings other s0 y \<Longrightarrow> other (sy_db y) s \<Longrightarrow>
    watermark_run I D hash_order settings other s0 (y\<lparr>sy_db := s\<rparr>)"
| restart: "watermark_run I D hash_order settings other s0 y \<Longrightarrow>
    watermark_sync_cursor I D settings now ix (sy_db y) = (ix', Inr c :: unit failure + rate_limited_cursor) \<Longrightarrow>
    watermark_run I D hash_order settings other s0 (sync_task_start c ix' (sy_db y))"

text \<open>The logs of blocks from \<open>b0\<close> up to \<open>b\<close> (exclusive).\<close>

definition logs_before :: "('t \<times> log_meta) set \<Rightarrow> u32 \<Rightarrow> u32 \<Rightarrow> ('t \<times> log_meta) set" where
  "logs_before chain b0 b = {l \<in> chain. unat b0 \<le> log_block l \<and> log_block l < unat b}"

definition watermark_inv ::
  "('db, 'e, 't) watermark_store \<Rightarrow> (('t \<times> log_meta) list \<Rightarrow> 'db \<Rightarrow> bool) \<Rightarrow> ('t \<times> log_meta) set \<Rightarrow> u32 \<Rightarrow>
     ('t \<times> log_meta) list \<Rightarrow> (rate_limited_cursor, 'ix, 'db) sync_task \<Rightarrow> bool" where
  "watermark_inv D view chain b0 ls y \<longleftrightarrow> view ls (sy_db y) \<and> set ls \<subseteq> chain \<and>
     ss_mode (rl_state (sy_cursor y)) = Block \<and> ss_direction (rl_state (sy_cursor y)) = Forward \<and>
     logs_before chain b0 (ss_next_block (rl_state (sy_cursor y))) \<subseteq> set ls \<and>
     logs_before chain b0 (ss_start_block (rl_state (sy_cursor y))) \<subseteq> set ls \<and>
     (\<exists>o'. wm_retrieve_high_watermark D (sy_db y) = Inr o' \<and>
        (\<forall>w. o' = Some w \<longrightarrow> logs_before chain b0 w \<subseteq> set ls))"

lemma rate_limit_frame:
  assumes "get_rate_limit I now c ix = (c', ix', res)" and "fetches_ok I chain fin"
  shows "rl_state c' = rl_state c" and "fin ix \<le> fin ix'"
proof -
  show "rl_state c' = rl_state c"
    using assms(1) by (auto simp: get_rate_limit_def Let_def split: if_splits prod.splits sum.splits)
  show "fin ix \<le> fin ix'"
    using assms(1) fetches_okD(4) [OF assms(2)]
    by (fastforce simp: get_rate_limit_def Let_def split: if_splits prod.splits sum.splits)
qed

text \<open>The next action steps back or asks for the blocks it passes.\<close>

lemma block_range_covers:
  fixes st' :: sync_state
  assumes "ss_mode st = Block" and "ss_direction st = Forward"
    and "get_next_range m tip st = (st', Inr res :: 'c chain_error + u32_range option)"
  shows "ss_mode st' = Block \<and> ss_direction st' = Forward \<and> ss_start_block st' = ss_start_block st \<and>
    logs_before chain b0 (ss_next_block st') \<subseteq> logs_before chain b0 (ss_next_block st) \<union>
      (case res of None \<Rightarrow> {} | Some r \<Rightarrow> {l \<in> chain. in_range r l \<and> log_block l \<le> unat tip})"
proof -
  let ?from = "ss_next_block st" and ?to = "min (ss_next_block st + ss_chunk_size st) tip"
  have st': "st' = st\<lparr>ss_next_block := ?to + 1\<rparr>"
    and res: "res = (if ?from \<le> ?to then Some (?from, ?to) else None)"
    using assms by (auto simp: get_next_range_def block_range_def Let_def range_is_empty_def
        split: if_splits)
  have "unat ?to \<le> unat tip" by (metis min.cobounded2 word_le_nat_alt)
  then have "log_block l < unat ?from \<or>
      (?from \<le> ?to \<and> unat ?from \<le> log_block l \<and> log_block l \<le> unat ?to \<and> log_block l \<le> unat tip)"
    if "log_block l < unat (?to + 1)" for l :: "'a \<times> log_meta"
    using that unat_inc_le [of ?to] unfolding word_le_nat_alt by linarith
  then show ?thesis
    using assms(1,2) by (auto simp: st' res logs_before_def in_range_def)
qed

lemma rate_limited_next_action_blocks:
  assumes I: "fetches_ok I chain fin"
    and mode: "ss_mode (rl_state c) = Block" "ss_direction (rl_state c) = Forward"
    and run: "rate_limited_next_action I now c ix = (c', ix', res)"
  shows "ss_mode (rl_state c') = Block \<and> ss_direction (rl_state c') = Forward \<and>
    ss_start_block (rl_state c') = ss_start_block (rl_state c) \<and>
    logs_before chain b0 (ss_next_block (rl_state c')) \<subseteq> logs_before chain b0 (ss_next_block (rl_state c)) \<union>
      (case res of Inr (Query r) \<Rightarrow> {l \<in> chain. in_range r l \<and> log_block l \<le> unat (fin ix')} | _ \<Rightarrow> {})"
proof -
  obtain c1 ix1 r1 where l: "get_rate_limit I now c ix = (c1, ix1, r1)" by (metis prod_cases3)
  obtain ix2 r2 where t: "ix_sequence_and_tip I ix1 = (ix2, r2)" by fastforce
  have c1: "rl_state c1 = rl_state c" by (rule rate_limit_frame(1) [OF l I])
  show ?thesis
  proof (cases "r1 = Inr None \<and> (\<exists>x. r2 = Inr x)")
    case False
    then have "rl_state c' = rl_state c" and "\<forall>r. res \<noteq> Inr (Query r)"
      using run l t c1 mode
      by (auto simp: rate_limited_next_action_def sync_end_def split: sum.splits option.splits)
    with mode show ?thesis by (auto split: sum.splits cursor_action.splits)
  next
    case True
    then obtain m tip where r2: "r2 = Inr (m, tip)" by auto
    obtain st rng where g: "get_next_range m tip (rl_state c) = (st, Inr rng :: 'b chain_error + u32_range option)"
      using get_next_range_block [OF mode(1)] by blast
    have "rl_state c' = st" "ix' = ix2"
      "res = (case rng of None \<Rightarrow> Inr (Sleep IDLE_SLEEP) | Some r \<Rightarrow> Inr (Query r))"
      using run l t c1 mode True r2 g
      by (auto simp: rate_limited_next_action_def sync_end_def Let_def split: option.splits)
    moreover have "tip \<le> fin ix2" using fetches_okD(3) [OF I] t r2 by blast
    ultimately show ?thesis
      using block_range_covers [OF mode g, of chain b0]
      by (auto simp: word_le_nat_alt split: option.splits)
  qed
qed

context watermark_logs begin

lemma watermark_inv_start:
  assumes c: "watermark_sync_cursor I D settings now ix s = (ix', Inr c :: unit failure + rate_limited_cursor)"
    and mode: "is_mode settings = Block" and view: "view ls s" "set ls \<subseteq> chain"
    and w: "wm_retrieve_high_watermark D s = Inr o'" "\<And>w. o' = Some w \<Longrightarrow> logs_before chain b0 w \<subseteq> set ls"
    and b0: "o' = None \<Longrightarrow> is_from settings = b0"
  shows "watermark_inv D view chain b0 ls (sync_task_start c ix' s)"
proof -
  let ?b = "case o' of None \<Rightarrow> is_from settings | Some w \<Rightarrow> w"
  have "ss_next_block (rl_state c) = ?b \<and> ss_start_block (rl_state c) = ?b \<and>
      ss_mode (rl_state c) = Block \<and> ss_direction (rl_state c) = Forward"
    using c w(1) mode
    by (auto simp: watermark_sync_cursor_def rate_limited_cursor_new_def sync_state_new_def Let_def
        split: prod.splits sum.splits option.splits)
  moreover have "logs_before chain b0 ?b \<subseteq> set ls"
    using w(2) b0 by (cases o') (auto simp: logs_before_def)
  ultimately show ?thesis
    using view w by (auto simp: watermark_inv_def sync_task_start_def)
qed

lemma watermark_pass_inv:
  assumes I: "fetches_ok I chain fin" and order: "order_ok hash_order"
    and inv: "watermark_inv D view chain b0 ls y"
    and pass: "sync_pass I (wm_store_logs D) hash_order (rate_limited_cursor_impl I D) now y = Some (y', Inr ())"
  shows "\<exists>ls'. watermark_inv D view chain b0 (ls @ ls') y'"
  using pass
proof (cases rule: sync_pass_cases)
  case (idle cur ix r)
  then have "rate_limited_next_action I now (sy_cursor y) (sy_indexer y) = (cur, ix, r)"
    by (simp add: rate_limited_cursor_impl_def)
  from rate_limited_next_action_blocks [OF I _ _ this, of b0] idle inv
  have "watermark_inv D view chain b0 (ls @ []) y'"
    unfolding watermark_inv_def by (auto split: sum.splits cursor_action.splits)
  then show ?thesis ..
next
  case (query cur ix rng ix' logs s n)
  let ?logs = "hash_order (set logs)"
  have set: "set ?logs = set logs" using order by (simp add: order_ok_def)
  have nxt: "rate_limited_next_action I now (sy_cursor y) (sy_indexer y) = (cur, ix, Inr (Query rng))"
    using query(1) by (simp add: rate_limited_cursor_impl_def)
  note fetched = fetches_okD(1) [OF I query(2)]
  let ?st = "rl_state cur" and ?ls = "ls @ ?logs"
  have cur: "ss_mode ?st = Block" "ss_direction ?st = Forward"
    "logs_before chain b0 (ss_next_block ?st) \<subseteq> set ?ls"
    "logs_before chain b0 (ss_start_block ?st) \<subseteq> set ?ls"
    using rate_limited_next_action_blocks [OF I _ _ nxt, of b0] inv fetched set
    unfolding watermark_inv_def by auto
  have view: "view ?ls s" "wm_retrieve_high_watermark D s = wm_retrieve_high_watermark D (sy_db y)"
    and sub: "set ?ls \<subseteq> chain"
    using stored [OF _ query(3)] inv fetched set unfolding watermark_inv_def by auto
  let ?w = "max (ss_start_block ?st) (saturating_sub (ss_next_block ?st) (ss_chunk_size ?st))"
  have upd: "wm_store_high_watermark D ?w s = (sy_db y', Inr ())" and y': "sy_cursor y' = cur"
    using query(4) by (auto simp: rate_limited_cursor_impl_def rate_limited_update_def dbind_eq_Inr dret_eq)
  have "?w = ss_start_block ?st \<or> ?w \<le> ss_next_block ?st"
    by (auto simp: max_def word_le_nat_alt unat_saturating_sub)
  then have "logs_before chain b0 ?w \<subseteq> set ?ls"
    using cur(3,4) by (auto simp: logs_before_def word_le_nat_alt)
  with watermark [OF view(1) upd] cur sub y' show ?thesis
    unfolding watermark_inv_def by auto
qed

lemma watermark_run_inv:
  assumes run: "watermark_run I D hash_order settings other s0 y"
    and I: "fetches_ok I chain fin" and order: "order_ok hash_order"
    and mode: "is_mode settings = Block" and view: "view ls s0" "set ls \<subseteq> chain"
    and w: "wm_retrieve_high_watermark D s0 = Inr None"
    and frame: "\<And>ls s s'. other s s' \<Longrightarrow> view ls s \<Longrightarrow>
      view ls s' \<and> wm_retrieve_high_watermark D s' = wm_retrieve_high_watermark D s"
  shows "\<exists>ls'. watermark_inv D view chain (is_from settings) (ls @ ls') y"
  using run
proof induction
  case (start now ix ix' c)
  from watermark_inv_start [OF start mode view w] show ?case by (metis append_Nil2 option.distinct(1))
next
  case (pass y now y')
  then obtain ls1 where "watermark_inv D view chain (is_from settings) (ls @ ls1) y" by blast
  from watermark_pass_inv [OF I order this pass(2)] show ?case by (metis append_assoc)
next
  case (other y s)
  then obtain ls1 where inv: "watermark_inv D view chain (is_from settings) (ls @ ls1) y" by blast
  with frame [OF other(2), of "ls @ ls1"]
  have "watermark_inv D view chain (is_from settings) (ls @ ls1) (y\<lparr>sy_db := s\<rparr>)"
    unfolding watermark_inv_def by auto
  then show ?case ..
next
  case (restart y now ix ix' c)
  then obtain ls1 where inv: "watermark_inv D view chain (is_from settings) (ls @ ls1) y" by blast
  then obtain o' where "view (ls @ ls1) (sy_db y)" "set (ls @ ls1) \<subseteq> chain"
    "wm_retrieve_high_watermark D (sy_db y) = Inr o'"
    "\<And>w. o' = Some w \<Longrightarrow> logs_before chain (is_from settings) w \<subseteq> set (ls @ ls1)"
    unfolding watermark_inv_def by blast
  from watermark_inv_start [OF restart(2) mode this] show ?case by blast
qed

end

end
