(* ===== verification/Contract_Sync_Props.thy ===== *)
theory Contract_Sync_Props
  imports Contract_Sync_Correct
begin

text \<open>
  The cursors on the stores of \<^verbatim>\<open>HyperlaneRocksDB\<close>, and the properties of the contract sync.
\<close>

section \<open>The stores of the database\<close>


interpretation insertion_logs: sequence_logs "insertion_store h" mti_leaf_index
  "\<lambda>ls s. db_ok h \<and> ins_view h ls s"
  for h :: "('db, 'e) hyperlane_rocks_db"
proof
  fix ls bs :: "(merkle_tree_insertion \<times> log_meta) list" and s s' n
  assume view: "db_ok h \<and> ins_view h ls s"
  show "db_ok h \<and> ins_view h (ls @ bs) s'"
    if "ls_store_logs (insertion_store h) bs s = (s', Inr n)"
    using ins_logs.view_loop [of h ls s bs 0 s' n] that view
    by (simp add: insertion_store_def store_logs_insertion_def store_loops)
  show "cursor_retrieve_by_sequence (insertion_store h) n s \<noteq> None \<longleftrightarrow>
      n \<in> (\<lambda>l. mti_leaf_index (fst l)) ` set ls"
    using view find_None_iff_image [of "\<lambda>l. mti_leaf_index (fst l)" n ls]
    by (auto simp: cursor_retrieve_by_sequence_def insertion_store_def
        retrieve_by_sequence_insertion_def ins_view_def)
  show "ls_retrieve_log_block_number (insertion_store h) n s =
      Inr (map_option (\<lambda>l. lm_block_number (snd l)) (find (leaf_is n) ls))"
    using view by (simp add: insertion_store_def retrieve_log_block_number_insertion_def ins_view_def)
qed

section \<open>The sync of messages\<close>

text \<open>The other tasks leave the keys of the messages alone.\<close>

definition other_keys :: "('db, 'e) hyperlane_rocks_db \<Rightarrow> (hdb_key \<Rightarrow> bool) \<Rightarrow> 'db \<Rightarrow> 'db \<Rightarrow> bool" where
  "other_keys h K s s' \<longleftrightarrow> (\<forall>k. K k \<longrightarrow> db_at h k s' = db_at h k s)"







definition sample_indexer ::
  "('t \<times> log_meta) list \<Rightarrow> u32 option \<Rightarrow> u32 \<Rightarrow> (unit, unit, 't) sequence_indexer" where
  "sample_indexer logs count tip =
     \<lparr>ix_fetch_logs = (\<lambda>r ix. (ix, Inr (filter (in_range r) logs))),
      ix_finalized_block_number = (\<lambda>ix. (ix, Inr tip)),
      ix_sequence_and_tip = (\<lambda>ix. (ix, Inr (count, tip)))\<rparr>"


definition sample_settings :: "u32 \<Rightarrow> index_settings" where
  "sample_settings csize = \<lparr>is_from = 0, is_chunk_size = csize, is_mode = Block\<rparr>"

lemma distinct_one: "set xs = {x} \<Longrightarrow> distinct xs \<Longrightarrow> xs = [x]"
  by (cases xs) (auto, metis in_mono list.set_intros(1) neq_Nil_conv singletonD)

lemma order_ok_one: "order_ok hash_order \<Longrightarrow> hash_order {l} = [l]"
  by (rule distinct_one) (simp_all add: order_ok_def)

lemma order_exists: "\<exists>hash_order. order_ok hash_order"
proof -
  have "\<forall>S. \<exists>xs. finite S \<longrightarrow> set xs = S \<and> distinct xs" using finite_distinct_list by auto
  then show ?thesis unfolding order_ok_def by (rule choice)
qed









section \<open>The sync of gas payments\<close>

interpretation payment_logs: watermark_logs "gas_payment_store h" "\<lambda>ls s. db_ok h \<and> gas_view h ls s"
  for h :: "('db, 'e) hyperlane_rocks_db"
proof
  fix ls bs :: "(interchain_gas_payment \<times> log_meta) list" and s s' n w
  assume view: "db_ok h \<and> gas_view h ls s"
  show "(db_ok h \<and> gas_view h (ls @ bs) s') \<and>
      wm_retrieve_high_watermark (gas_payment_store h) s' = wm_retrieve_high_watermark (gas_payment_store h) s"
    if "wm_store_logs (gas_payment_store h) bs s = (s', Inr n)"
  proof -
    have run: "log_loop (\<lambda>(p, meta). process_gas_payment h p meta) bs 0 s = (s', Inr n)"
      using that by (simp add: gas_payment_store_def store_logs_payment_def store_loops)
    have "touches h payment_key (log_loop (\<lambda>(p, meta). process_gas_payment h p meta) bs 0)"
      by (rule touches_loop) (use view in \<open>auto intro: touches_payment split: prod.splits\<close>)
    from touchesD [OF this run, of K_watermark]
    have "wm_retrieve_high_watermark (gas_payment_store h) s' = wm_retrieve_high_watermark (gas_payment_store h) s"
      by (simp add: gas_payment_store_def retrieves)
    moreover have "gas_view h (ls @ bs) s'" using gas_logs.view_loop [of h ls s bs 0 s' n] run view by blast
    ultimately show ?thesis using view by simp
  qed
  show "(db_ok h \<and> gas_view h ls s') \<and>
      wm_retrieve_high_watermark (gas_payment_store h) s' = Inr (Some w)"
    if "wm_store_high_watermark (gas_payment_store h) w s = (s', Inr ())"
  proof -
    have "db_put h K_watermark (to_vec u32_write_to w) s = (s', Inr ())"
      using that by (simp add: gas_payment_store_def stores)
    from db_put_at [OF _ this] view have at: "db_at h k s' =
        (if k = K_watermark then Inr (Some (to_vec u32_write_to w)) else db_at h k s)" for k
      by simp
    then have "db_at h k s' = db_at h k s" if "payment_key k" for k
      using that by (cases k) auto
    then have "gas_view h ls s'" using gas_view_frame [of h ls s s'] view by simp
    with view at show ?thesis by (simp add: gas_payment_store_def retrieves decoded_values)
  qed
qed

text \<open>
  C12. The high watermark never runs ahead of the gas payments. At every point of every run of an agent
  that indexes the payments with the rate limited cursor (in block mode, next to other tasks, stopped and
  started again from the watermark any number of times), every payment of the chain in a block from
  the configured one up to the stored watermark has been processed into the totals, and so has every
  one up to the cursor's next block. The tip may go back and the next block may wrap around.
\<close>

theorem watermark_behind_payments:
  assumes "rocks_ok R" and "h = hyperlane_rocks_db_new domain_id name R"
    and "fetches_ok I chain fin" and "order_ok hash_order"
    and "fresh h s0" and "is_mode settings = Block"
    and "watermark_run I (gas_payment_store h) hash_order settings
           (other_keys h (\<lambda>k. payment_key k \<or> k = K_watermark)) s0 y"
    and "retrieve_high_watermark h (sy_db y) = Inr (Some w)"
    and "l \<in> chain" and "gas_payment_meta_from (snd l) = Some g"
    and "unat (is_from settings) \<le> log_block l"
    and "log_block l < unat w \<or> log_block l < unat (ss_next_block (rl_state (sy_cursor y)))"
  shows "retrieve_processed_by_gas_payment_meta h g (sy_db y) = Inr (Some True)"
proof -
  let ?view = "\<lambda>ls s. db_ok h \<and> gas_view h ls s"
  have ok: "db_ok h" using assms(1,2) by (simp add: hyperlane_rocks_db_new_def typed_db_new_def)
  have view: "?view [] s0" using assms(5) ok by (simp add: fresh_def gas_view_start)
  have none: "wm_retrieve_high_watermark (gas_payment_store h) s0 = Inr None"
    using assms(5) by (simp add: gas_payment_store_def retrieves fresh_def)
  have frame: "?view ls s' \<and>
      wm_retrieve_high_watermark (gas_payment_store h) s' = wm_retrieve_high_watermark (gas_payment_store h) s"
    if "other_keys h (\<lambda>k. payment_key k \<or> k = K_watermark) s s'" "?view ls s" for ls s s'
    using that gas_view_frame [of h ls s s'] by (simp add: other_keys_def gas_payment_store_def retrieves)
  obtain ls where inv: "watermark_inv (gas_payment_store h) ?view chain (is_from settings) ls y"
    using payment_logs.watermark_run_inv [OF assms(7,3,4,6) view _ none] frame by (metis empty_set empty_subsetI)
  then have "l \<in> set ls"
    using assms(8-12) unfolding watermark_inv_def logs_before_def gas_payment_store_def by auto
  then have "Some g \<in> pay_meta ` set ls" using assms(10) by (metis imageI)
  with inv show ?thesis by (simp add: watermark_inv_def gas_view_def)
qed

definition sample_payment_logs :: "(interchain_gas_payment \<times> log_meta) list" where
  "sample_payment_logs = [(sample_gas_payment 30, sample_meta 0 1)]"

abbreviation sample_pay_ix where "sample_pay_ix \<equiv> sample_indexer sample_payment_logs None 2"

definition sample_rate_limited :: "u32 \<Rightarrow> rate_limited_cursor" where
  "sample_rate_limited next_block = \<lparr>rl_tip = 2, rl_max_sequence = None, rl_last_tip_update = 0,
     rl_state = sync_state_new 1 0 next_block Block 0 Forward\<rparr>"

lemma sample_watermark_start:
  "watermark_sync_cursor sample_pay_ix (gas_payment_store sample_db) (sample_settings 1) 0 () Map.empty =
     ((), Inr (sample_rate_limited 0))"
  using sample_db_ok(3)
  by (simp add: watermark_sync_cursor_def gas_payment_store_def retrieves fresh_def
      rate_limited_cursor_new_def sample_indexer_def sample_settings_def sample_rate_limited_def)

lemma sample_rate_limited_action:
  "rate_limited_next_action sample_pay_ix 0 (sample_rate_limited 0) () =
     (sample_rate_limited 2, (), Inr (Query (0, 1)))"
  by (simp add: rate_limited_next_action_def sync_end_def get_rate_limit_def sample_indexer_def
      sample_rate_limited_def sync_state_new_def get_next_range_def block_range_def range_is_empty_def
      Let_def)

lemma sample_payment_pass:
  assumes "order_ok hash_order"
  shows "\<exists>y. sync_pass sample_pay_ix (store_logs_payment sample_db) hash_order
      (rate_limited_cursor_impl sample_pay_ix (gas_payment_store sample_db)) 0
      (sync_task_start (sample_rate_limited 0) () Map.empty) = Some (y, Inr ()) \<and>
    retrieve_high_watermark sample_db (sy_db y) = Inr (Some 1)"
proof -
  let ?l = "(sample_gas_payment 30, sample_meta 0 1)"
  have one: "hash_order {?l} = [?l]" by (rule order_ok_one [OF assms])
  have fits: "gas_fits ([] @ [?l])"
    by (simp add: gas_fits_def sum_for_def new_payments_def gas_payment_meta_from_def sample_meta_def
        sample_gas_payment_def gas_key_def)
  obtain s n where s: "store_logs_payment sample_db [?l] Map.empty = (s, Inr n)"
    using gas_logs.loop_total [OF sample_db_ok(1,2) _ fits, of Map.empty 0] sample_db_ok(3)
    by (auto simp: gas_view_start fresh_def store_logs_payment_def store_loops)
  obtain s' where s': "db_put sample_db K_watermark (to_vec u32_write_to 1) s = (s', Inr ())"
    using db_put_total [OF sample_db_ok(2)] by blast
  have w: "retrieve_high_watermark sample_db s' = Inr (Some 1)"
    using db_put_at [OF sample_db_ok(1) s'] by (simp add: retrieves)
  have all: "ix_fetch_logs sample_pay_ix (0, 1) () = ((), Inr [?l])"
    by (simp add: sample_indexer_def sample_payment_logs_def in_range_def sample_meta_def)
  have upd: "rate_limited_update (gas_payment_store sample_db) [?l] (sample_rate_limited 2) s =
      (s', Inr (sample_rate_limited 2))"
    using s' by (simp add: rate_limited_update_def gas_payment_store_def stores sample_rate_limited_def
        sync_state_new_def saturating_sub_def dbind_def dret_def)
  show ?thesis
    using all w by (simp add: sync_pass_def sync_task_start_def rate_limited_cursor_impl_def
        sample_rate_limited_action one s upd Let_def)
qed

theorem watermark_behind_payments_witness:
  "\<exists>hash_order y. order_ok hash_order \<and>
     watermark_run sample_pay_ix (gas_payment_store sample_db) hash_order (sample_settings 1)
       (other_keys sample_db (\<lambda>k. payment_key k \<or> k = K_watermark)) Map.empty y \<and>
     retrieve_high_watermark sample_db (sy_db y) = Inr (Some 1) \<and>
     retrieve_processed_by_gas_payment_meta sample_db
       \<lparr>gpm_transaction_id = 5, gpm_log_index = 1\<rparr> (sy_db y) = Inr (Some True)"
proof -
  obtain ho :: "(interchain_gas_payment \<times> log_meta) set \<Rightarrow> _" where ho: "order_ok ho"
    using order_exists by blast
  let ?other = "other_keys sample_db (\<lambda>k. payment_key k \<or> k = K_watermark)"
  obtain y where pass: "sync_pass sample_pay_ix (wm_store_logs (gas_payment_store sample_db)) ho
      (rate_limited_cursor_impl sample_pay_ix (gas_payment_store sample_db)) 0
      (sync_task_start (sample_rate_limited 0) () Map.empty) = Some (y, Inr ())"
    and w: "retrieve_high_watermark sample_db (sy_db y) = Inr (Some 1)"
    using sample_payment_pass [OF ho] by (auto simp: gas_payment_store_def)
  have run: "watermark_run sample_pay_ix (gas_payment_store sample_db) ho (sample_settings 1) ?other Map.empty y"
    by (rule watermark_run.pass [OF watermark_run.start [OF sample_watermark_start] pass])
  have I: "fetches_ok sample_pay_ix (set sample_payment_logs) (\<lambda>_. 2)"
    by (auto simp: fetches_ok_def sample_indexer_def)
  have mode: "is_mode (sample_settings 1) = Block" by (simp add: sample_settings_def)
  have l: "(sample_gas_payment 30, sample_meta 0 1) \<in> set sample_payment_logs"
    by (simp add: sample_payment_logs_def)
  have "retrieve_processed_by_gas_payment_meta sample_db
       \<lparr>gpm_transaction_id = 5, gpm_log_index = 1\<rparr> (sy_db y) = Inr (Some True)"
    by (rule watermark_behind_payments [OF map_rocks_ok(1) sample_db_def I ho sample_db_ok(3) mode run w l])
       (simp_all add: gas_payment_meta_from_def sample_meta_def sample_settings_def)
  with run w ho show ?thesis by blast
qed

section \<open>A gap that is not closed\<close>





end
