(* ===== verification/Borsh.thy ===== *)
theory Borsh
  imports Encoding
begin

text \<open>
  The Borsh format of the Solana programs' account and instruction data, as the derive macros of the
  \<^verbatim>\<open>borsh\<close> crate produce it: little endian integers, one tag byte before an option, a 32 bit element
  count before a vector, fields in order. A type with its serializer and deserializer is an instance
  of the interface \<open>borsh\<close>, which gives it the laws of the prefix encodings.
\<close>

type_synonym 'a de = "bytes \<Rightarrow> io_error + 'a \<times> bytes"

named_theorems borsh_defs \<open>serializers and deserializers\<close>
named_theorems borsh_iffs \<open>what a successful deserialization says\<close>

section \<open>Primitive types\<close>

definition ser_u8 :: "u8 \<Rightarrow> bytes" where
  "ser_u8 w = [w]"

definition de_u8 :: "u8 de" where
  "de_u8 r = rbind (read_exact 1 r) (\<lambda>(b, r). Inr (b ! 0, r))"

definition ser_u32 :: "u32 \<Rightarrow> bytes" where
  "ser_u32 w = to_le_bytes 4 w"

definition de_u32 :: "u32 de" where
  "de_u32 r = rbind (read_exact 4 r) (\<lambda>(b, r). Inr (from_le_bytes b, r))"

definition ser_u64 :: "u64 \<Rightarrow> bytes" where
  "ser_u64 w = to_le_bytes 8 w"

definition de_u64 :: "u64 de" where
  "de_u64 r = rbind (read_exact 8 r) (\<lambda>(b, r). Inr (from_le_bytes b, r))"

definition ser_u128 :: "u128 \<Rightarrow> bytes" where
  "ser_u128 w = to_le_bytes 16 w"

definition de_u128 :: "u128 de" where
  "de_u128 r = rbind (read_exact 16 r) (\<lambda>(b, r). Inr (from_le_bytes b, r))"

definition ser_bool :: "bool \<Rightarrow> bytes" where
  "ser_bool b = [if b then 1 else 0]"

definition de_bool :: "bool de" where
  "de_bool r = rbind (read_exact 1 r) (\<lambda>(b, r).
     if b ! 0 = 0 then Inr (False, r) else if b ! 0 = 1 then Inr (True, r) else Inl InvalidData)"

text \<open>\<^verbatim>\<open>H256\<close> and \<^verbatim>\<open>Pubkey\<close> are arrays of 32 bytes, \<^verbatim>\<open>H160\<close> of 20.\<close>

definition ser_h256 :: "h256 \<Rightarrow> bytes" where
  "ser_h256 h = h256_bytes h"

definition de_h256 :: "h256 de" where
  "de_h256 r = rbind (read_exact 32 r) (\<lambda>(b, r). Inr (h256_from_slice b, r))"

definition ser_h160 :: "h160 \<Rightarrow> bytes" where
  "ser_h160 h = to_be_bytes 20 h"

definition de_h160 :: "h160 de" where
  "de_h160 r = rbind (read_exact 20 r) (\<lambda>(b, r). Inr (from_be_bytes b, r))"

section \<open>Options and vectors\<close>

definition ser_option :: "('a \<Rightarrow> bytes) \<Rightarrow> 'a option \<Rightarrow> bytes" where
  "ser_option ser x = (case x of None \<Rightarrow> [0] | Some a \<Rightarrow> 1 # ser a)"

definition de_option :: "'a de \<Rightarrow> 'a option de" where
  "de_option de r = rbind (read_exact 1 r) (\<lambda>(b, r).
     if b ! 0 = 0 then Inr (None, r)
     else if b ! 0 = 1 then rbind (de r) (\<lambda>(a, r). Inr (Some a, r))
     else Inl InvalidData)"

primrec de_list :: "'a de \<Rightarrow> nat \<Rightarrow> 'a list de" where
  "de_list de 0 r = Inr ([], r)"
| "de_list de (Suc n) r =
     rbind (de r) (\<lambda>(a, r). rbind (de_list de n r) (\<lambda>(xs, r). Inr (a # xs, r)))"

definition ser_vec :: "('a \<Rightarrow> bytes) \<Rightarrow> 'a list \<Rightarrow> bytes" where
  "ser_vec ser xs = ser_u32 (word_of_nat (length xs)) @ concat (map ser xs)"

definition de_vec :: "'a de \<Rightarrow> 'a list de" where
  "de_vec de r = rbind (de_u32 r) (\<lambda>(n, r). de_list de (unat n) r)"

text \<open>\<^verbatim>\<open>Vec<u8>\<close>.\<close>

definition ser_bytes :: "bytes \<Rightarrow> bytes" where
  "ser_bytes bs = ser_u32 (word_of_nat (length bs)) @ bs"

definition de_bytes :: "bytes de" where
  "de_bytes r = rbind (de_u32 r) (\<lambda>(n, r). read_exact (unat n) r)"

text \<open>\<^verbatim>\<open>try_from_slice\<close>: everything must be consumed.\<close>

definition try_from_slice :: "'a de \<Rightarrow> bytes \<Rightarrow> io_error + 'a" where
  "try_from_slice de bs = rbind (de bs) (\<lambda>(a, rest). if rest = [] then Inr a else Inl InvalidData)"

lemmas borsh_prim_defs [borsh_defs] =
  ser_u8_def de_u8_def ser_u32_def de_u32_def ser_u64_def de_u64_def ser_u128_def de_u128_def
  ser_bool_def de_bool_def ser_h256_def de_h256_def ser_h160_def de_h160_def

section \<open>The interface\<close>

locale borsh =
  fixes ser :: "'a \<Rightarrow> bytes" and de :: "'a de" and valid :: "'a \<Rightarrow> bool"
  assumes de_ser: "valid x \<Longrightarrow> de (ser x @ rest) = Inr (x, rest)"
    and ser_de: "de bs = Inr (x, rest) \<Longrightarrow> bs = ser x @ rest \<and> valid x"
begin

lemma de_iff: "de bs = Inr (x, rest) \<longleftrightarrow> bs = ser x @ rest \<and> valid x"
  using de_ser ser_de by blast

lemma try_from_slice_iff: "try_from_slice de bs = Inr x \<longleftrightarrow> bs = ser x \<and> valid x"
  by (auto simp: try_from_slice_def result_simps de_iff split: if_splits)

lemma de_Nil: "valid x \<Longrightarrow> de (ser x) = Inr (x, [])"
  using de_ser [of x "[]"] by simp

end

sublocale borsh \<subseteq> enc: prefix_encoding "\<lambda>x. (ser x, length (ser x))" de valid
  by unfold_locales (auto simp: de_ser de_Nil dest: ser_de)

text \<open>A fixed number of bytes, converted.\<close>

lemma borsh_fixed:
  assumes "\<And>x. ser x = conv x" and "\<And>x. length (conv x) = n"
    and "\<And>r. de r = rbind (read_exact n r) (\<lambda>(b, r). Inr (unconv b, r))"
    and "\<And>x. unconv (conv x) = x" and "\<And>bs. length bs = n \<Longrightarrow> conv (unconv bs) = bs"
  shows "borsh ser de always"
  using assms by unfold_locales (auto simp: result_simps)

interpretation borsh_u8: borsh ser_u8 de_u8 always
  by (rule borsh_fixed [where n = 1 and conv = "\<lambda>w. [w]" and unconv = "\<lambda>b. b ! 0"])
     (auto simp: borsh_defs length_Suc_conv)

interpretation borsh_u32: borsh ser_u32 de_u32 always
  by (rule borsh_fixed [where n = 4 and conv = "to_le_bytes 4" and unconv = from_le_bytes])
     (auto simp: borsh_defs)

interpretation borsh_u64: borsh ser_u64 de_u64 always
  by (rule borsh_fixed [where n = 8 and conv = "to_le_bytes 8" and unconv = from_le_bytes])
     (auto simp: borsh_defs)

interpretation borsh_u128: borsh ser_u128 de_u128 always
  by (rule borsh_fixed [where n = 16 and conv = "to_le_bytes 16" and unconv = from_le_bytes])
     (auto simp: borsh_defs)

interpretation borsh_h256: borsh ser_h256 de_h256 always
  by (rule borsh_fixed [where n = 32 and conv = "to_be_bytes 32" and unconv = from_be_bytes])
     (auto simp: borsh_defs)

interpretation borsh_h160: borsh ser_h160 de_h160 always
  by (rule borsh_fixed [where n = 20 and conv = "to_be_bytes 20" and unconv = from_be_bytes])
     (auto simp: borsh_defs)

interpretation borsh_bool: borsh ser_bool de_bool always
  by unfold_locales
     (auto simp: borsh_defs read_exact_def take_Suc_conv_app_nth length_Suc_conv neq_Nil_conv
        split: if_splits)

lemma borsh_option:
  assumes "borsh ser de valid"
  shows "borsh (ser_option ser) (de_option de) (pred_option valid)"
proof -
  from assms have iff: "de bs = Inr (x, rest) \<longleftrightarrow> bs = ser x @ rest \<and> valid x" for bs x rest
    by (rule borsh.de_iff)
  then have read: "valid x \<Longrightarrow> de (ser x @ rest) = Inr (x, rest)" for x rest by simp
  show ?thesis
    by unfold_locales
       (auto simp: ser_option_def de_option_def read_exact_def iff read result_simps neq_Nil_conv
          split: option.splits if_splits)
qed

lemma borsh_list:
  assumes "borsh ser de valid"
  shows "de_list de n bs = Inr (xs, rest) \<longleftrightarrow>
    bs = concat (map ser xs) @ rest \<and> length xs = n \<and> list_all valid xs"
proof (induction n arbitrary: bs xs)
  case 0
  then show ?case by auto
next
  case (Suc n)
  then show ?case
    by (cases xs) (auto simp: result_simps borsh.de_iff [OF assms])
qed

lemma eq_unat_iff: "m = unat (n :: u32) \<longleftrightarrow> n = word_of_nat m \<and> m < 2 ^ 32"
proof
  assume "m = unat n"
  then show "n = word_of_nat m \<and> m < 2 ^ 32" using unsigned_less [of n, where 'a = nat] by simp
qed (simp add: unat_of_nat)

lemma borsh_vec:
  assumes "borsh ser de valid"
  shows "borsh (ser_vec ser) (de_vec de) (\<lambda>xs. length xs < 2 ^ 32 \<and> list_all valid xs)"
proof -
  have iff: "de_vec de bs = Inr (xs, rest) \<longleftrightarrow>
      bs = ser_vec ser xs @ rest \<and> length xs < 2 ^ 32 \<and> list_all valid xs" for bs xs rest
    unfolding de_vec_def ser_vec_def
    by (auto simp: result_simps borsh_u32.de_iff borsh_list [OF assms] eq_unat_iff)
  show ?thesis by unfold_locales (simp_all add: iff)
qed

interpretation borsh_bytes: borsh ser_bytes de_bytes "\<lambda>bs. length bs < 2 ^ 32"
proof -
  have iff: "de_bytes bs = Inr (xs, rest) \<longleftrightarrow> bs = ser_bytes xs @ rest \<and> length xs < 2 ^ 32"
    for bs xs rest
    unfolding de_bytes_def ser_bytes_def
    by (auto simp: result_simps borsh_u32.de_iff eq_unat_iff)
  show "borsh ser_bytes de_bytes (\<lambda>bs. length bs < 2 ^ 32)"
    by unfold_locales (simp_all add: iff)
qed

interpretation borsh_pubkey_option:
  borsh "ser_option ser_h256" "de_option de_h256" "pred_option always"
  by (rule borsh_option) (rule borsh_h256.borsh_axioms)

lemmas borsh_prim_iffs [borsh_iffs] =
  borsh_u8.de_iff borsh_u32.de_iff borsh_u64.de_iff borsh_u128.de_iff borsh_h256.de_iff
  borsh_h160.de_iff borsh_bool.de_iff borsh_bytes.de_iff borsh_pubkey_option.de_iff

lemma pred_option_always [simp]: "pred_option always x"
  by (cases x) simp_all

lemma length_ser [simp, bytes_simps]:
  "length (ser_u8 a) = 1" "length (ser_u32 b) = 4" "length (ser_u64 c) = 8"
  "length (ser_u128 d) = 16" "length (ser_bool e) = 1" "length (ser_h256 f) = 32"
  "length (ser_h160 g) = 20" "length (ser_bytes h) = 4 + length h"
  by (simp_all add: borsh_defs ser_bytes_def)

lemma length_ser_option_h256:
  "length (ser_option ser_h256 x) = (case x of None \<Rightarrow> 1 | Some _ \<Rightarrow> 33)"
  by (simp add: ser_option_def split: option.splits)

end
