(* ===== verification/Sealevel.thy ===== *)
theory Sealevel
  imports Borsh
begin

text \<open>
  The environment of the Solana programs and the two libraries they share:
  \<^verbatim>\<open>sealevel/libraries/account-utils\<close> (account data, rent, program derived accounts) and
  \<^verbatim>\<open>sealevel/libraries/access-control\<close>.

  Programs run on a ledger of accounts. The Solana runtime is not part of the sources: program
  derived addresses, rent, the clock and cross program invocations (CPIs) are the fields of the
  record \<open>runtime\<close>, a parameter of every definition that uses them, and what the programs rely on is
  stated as named predicates (\<open>pda_canonical\<close>, \<open>cpi_frame\<close>, \<open>system_program_ok\<close>). An error or a panic
  aborts the transaction, so results carry a state only when they succeed. An \<^verbatim>\<open>AccountInfo\<close> refers to
  the ledger by its key; a mutable borrow that is held over CPIs is an entry of \<open>vm_borrowed\<close>.
\<close>

section \<open>Ledger and runtime\<close>

datatype program_error =
    Custom u32
  | InvalidArgument
  | InvalidInstructionData
  | InvalidAccountData
  | IncorrectProgramId
  | MissingRequiredSignature
  | AccountAlreadyInitialized
  | UninitializedAccount
  | NotEnoughAccountKeys
  | AccountBorrowFailed
  | InvalidSeeds
  | BorshIoError
  | AccountNotRentExempt
  | IllegalOwner
  | InvalidRealloc
  | IxError nat

type_synonym 'a exec = "program_error failure + 'a"

record account =
  acc_lamports :: u64
  acc_data :: bytes
  acc_owner :: pubkey

type_synonym ledger = "pubkey \<Rightarrow> account"

record account_info =
  ai_key :: pubkey
  ai_is_signer :: bool
  ai_is_writable :: bool
  ai_executable :: bool

record account_meta =
  am_pubkey :: pubkey
  am_is_signer :: bool
  am_is_writable :: bool

record instruction =
  ix_program_id :: pubkey
  ix_accounts :: "account_meta list"
  ix_data :: bytes

text \<open>The instructions of the system program the sources use.\<close>

datatype system_instruction =
    SysTransfer pubkey pubkey u64
  | SysAllocate pubkey u64
  | SysAssign pubkey pubkey
  | SysCreateAccount pubkey pubkey u64 u64 pubkey

primrec system_keys :: "system_instruction \<Rightarrow> pubkey list" where
  "system_keys (SysTransfer f t l) = [f, t]"
| "system_keys (SysAllocate k s) = [k]"
| "system_keys (SysAssign k w) = [k]"
| "system_keys (SysCreateAccount f t l s w) = [f, t]"

type_synonym signer_seeds = "bytes list list"

record runtime =
  rt_find_program_address :: "bytes list \<Rightarrow> pubkey \<Rightarrow> pubkey \<times> u8"
  rt_create_program_address :: "bytes list \<Rightarrow> pubkey \<Rightarrow> program_error + pubkey"
  rt_minimum_balance :: "nat \<Rightarrow> u64"
  rt_slot :: u64
  rt_spl_noop_id :: pubkey
  rt_system :: "system_instruction \<Rightarrow> account_info list \<Rightarrow> signer_seeds \<Rightarrow> ledger \<Rightarrow> ledger exec"
  rt_invoke :: "instruction \<Rightarrow> account_info list \<Rightarrow> signer_seeds \<Rightarrow> ledger \<Rightarrow>
                  (ledger \<times> (pubkey \<times> bytes) option) exec"

record vm =
  vm_ledger :: ledger
  vm_return_data :: "(pubkey \<times> bytes) option"
  vm_borrowed :: "pubkey list"
  vm_original_len :: "pubkey \<Rightarrow> nat"

text \<open>The id of the system program, the key of 32 zero bytes.\<close>

definition SYSTEM_PROGRAM_ID :: pubkey where
  "SYSTEM_PROGRAM_ID = 0"

definition next_account_info :: "account_info list \<Rightarrow> (account_info \<times> account_info list) exec" where
  "next_account_info accounts =
     (case accounts of [] \<Rightarrow> Inl (Err NotEnoughAccountKeys) | i # is \<Rightarrow> Inr (i, is))"

text \<open>\<^verbatim>\<open>info.data.borrow()\<close> panics, and \<^verbatim>\<open>try_borrow_mut_data\<close> fails, while a mutable borrow is held.\<close>

definition borrow_data :: "account_info \<Rightarrow> vm \<Rightarrow> bytes exec" where
  "borrow_data i vm =
     (if ai_key i \<in> set (vm_borrowed vm) then Inl Panic
      else Inr (acc_data (vm_ledger vm (ai_key i))))"

definition try_borrow_mut_data :: "account_info \<Rightarrow> vm \<Rightarrow> bytes exec" where
  "try_borrow_mut_data i vm =
     (if ai_key i \<in> set (vm_borrowed vm) then Inl (Err AccountBorrowFailed)
      else Inr (acc_data (vm_ledger vm (ai_key i))))"

definition write_data :: "pubkey \<Rightarrow> bytes \<Rightarrow> vm \<Rightarrow> vm" where
  "write_data k bs vm =
     vm\<lparr>vm_ledger := (vm_ledger vm)(k := (vm_ledger vm k)\<lparr>acc_data := bs\<rparr>)\<rparr>"

definition lamports :: "account_info \<Rightarrow> vm \<Rightarrow> u64" where
  "lamports i vm = acc_lamports (vm_ledger vm (ai_key i))"

definition owner_of :: "account_info \<Rightarrow> vm \<Rightarrow> pubkey" where
  "owner_of i vm = acc_owner (vm_ledger vm (ai_key i))"

text \<open>\<^verbatim>\<open>AccountInfo::realloc\<close>: at most 10240 bytes more than at the start of the instruction.\<close>

definition realloc :: "account_info \<Rightarrow> nat \<Rightarrow> vm \<Rightarrow> vm exec" where
  "realloc i new_len vm =
     rbind (try_borrow_mut_data i vm) (\<lambda>d.
     require (new_len \<le> vm_original_len vm (ai_key i) + 10240) (Err InvalidRealloc) (
     Inr (write_data (ai_key i) (take new_len d @ replicate (new_len - length d) 0) vm)))"

text \<open>
  \<^verbatim>\<open>invoke\<close> and \<^verbatim>\<open>invoke_signed\<close> check the borrows of the accounts the instruction names before they
  enter the runtime.
\<close>

definition invoke_signed ::
  "runtime \<Rightarrow> instruction \<Rightarrow> account_info list \<Rightarrow> signer_seeds \<Rightarrow> vm \<Rightarrow> vm exec" where
  "invoke_signed rt ix infos seeds vm =
     require (list_all (\<lambda>m. list_all (\<lambda>i. \<not> (ai_key i = am_pubkey m \<and> ai_key i \<in> set (vm_borrowed vm))) infos)
                (ix_accounts ix)) (Err AccountBorrowFailed) (
     rbind (rt_invoke rt ix infos seeds (vm_ledger vm)) (\<lambda>(l, rd).
     Inr (vm\<lparr>vm_ledger := l, vm_return_data := rd\<rparr>)))"

definition invoke :: "runtime \<Rightarrow> instruction \<Rightarrow> account_info list \<Rightarrow> vm \<Rightarrow> vm exec" where
  "invoke rt ix infos vm = invoke_signed rt ix infos [] vm"

definition invoke_system_signed ::
  "runtime \<Rightarrow> system_instruction \<Rightarrow> account_info list \<Rightarrow> signer_seeds \<Rightarrow> vm \<Rightarrow> vm exec" where
  "invoke_system_signed rt ix infos seeds vm =
     require (list_all (\<lambda>k. list_all (\<lambda>i. \<not> (ai_key i = k \<and> k \<in> set (vm_borrowed vm))) infos)
                (system_keys ix)) (Err AccountBorrowFailed) (
     rbind (rt_system rt ix infos seeds (vm_ledger vm)) (\<lambda>l.
     Inr (vm\<lparr>vm_ledger := l, vm_return_data := None\<rparr>)))"

definition invoke_system ::
  "runtime \<Rightarrow> system_instruction \<Rightarrow> account_info list \<Rightarrow> vm \<Rightarrow> vm exec" where
  "invoke_system rt ix infos vm = invoke_system_signed rt ix infos [] vm"

definition set_return_data :: "pubkey \<Rightarrow> bytes \<Rightarrow> vm \<Rightarrow> vm" where
  "set_return_data program_id bs vm = vm\<lparr>vm_return_data := Some (program_id, bs)\<rparr>"

text \<open>\<^verbatim>\<open>Pubkey::create_program_address\<close> as a program result.\<close>

definition create_program_address :: "runtime \<Rightarrow> bytes list \<Rightarrow> pubkey \<Rightarrow> pubkey exec" where
  "create_program_address rt seeds program_id =
     map_err Err (rt_create_program_address rt seeds program_id)"

section \<open>Account data\<close>

text \<open>A deserializer that may panic, and one that does not.\<close>

type_synonym 'a pde = "bytes \<Rightarrow> io_error failure + 'a \<times> bytes"

definition lift_de :: "'a de \<Rightarrow> 'a pde" where
  "lift_de de bs = map_err Err (de bs)"

text \<open>\<^verbatim>\<open>From<std::io::Error> for ProgramError\<close>.\<close>

definition borsh_err :: "io_error failure + 'a \<Rightarrow> 'a exec" where
  "borsh_err = map_err (\<lambda>f. case f of Err _ \<Rightarrow> Err BorshIoError | Panic \<Rightarrow> Panic)"

definition fetch_data :: "'a pde \<Rightarrow> bytes \<Rightarrow> 'a option exec" where
  "fetch_data de buf =
     (if buf = [] then Inr None
      else rbind (borsh_err (lift_de de_bool buf)) (\<lambda>(initialized, buf).
           if initialized then rbind (borsh_err (de buf)) (\<lambda>(data, _). Inr (Some data))
           else Inr None))"

definition fetch :: "'a pde \<Rightarrow> 'a \<Rightarrow> bytes \<Rightarrow> 'a exec" where
  "fetch de dflt buf =
     rbind (fetch_data de buf) (\<lambda>data. Inr (case data of None \<Rightarrow> dflt | Some d \<Rightarrow> d))"

text \<open>
  \<^verbatim>\<open>store_in_slice\<close> writes the initialized flag and the data; \<open>None\<close> is the error \<^verbatim>\<open>WriteZero\<close> of a
  slice that is too short. Bytes after the written ones stay.
\<close>

definition store_in_slice :: "('a \<Rightarrow> bytes) \<Rightarrow> 'a \<Rightarrow> bytes \<Rightarrow> bytes option" where
  "store_in_slice ser x target =
     (let out = ser_bool True @ ser x
      in if length out \<le> length target then Some (out @ drop (length out) target) else None)"

function store_loop :: "('a \<Rightarrow> bytes) \<Rightarrow> 'a \<Rightarrow> account_info \<Rightarrow> bool \<Rightarrow> vm \<Rightarrow> vm exec" where
  "store_loop ser x account allow_realloc vm =
     rbind (try_borrow_mut_data account vm) (\<lambda>data.
     case store_in_slice ser x data of
       Some data' \<Rightarrow> Inr (write_data (ai_key account) data' vm)
     | None \<Rightarrow>
         require allow_realloc (Err BorshIoError) (
         rbind (realloc account (length data + 1024) vm) (\<lambda>vm.
         store_loop ser x account allow_realloc vm)))"
  by auto

termination store_loop
  by (relation "measure (\<lambda>(ser, x, account, _, vm).
        Suc (length (ser x)) - length (acc_data (vm_ledger vm (ai_key account))))")
     (auto simp: try_borrow_mut_data_def realloc_def store_in_slice_def Let_def write_data_def
        ser_bool_def result_simps split: if_splits)

declare store_loop.simps [simp del]

definition store :: "('a \<Rightarrow> bytes) \<Rightarrow> 'a \<Rightarrow> account_info \<Rightarrow> bool \<Rightarrow> vm \<Rightarrow> vm exec" where
  "store ser x account allow_realloc vm =
     require (ai_is_writable account \<and> \<not> ai_executable account) (Err InvalidAccountData) (
     store_loop ser x account allow_realloc vm)"

text \<open>\<open>size'\<close> is \<^verbatim>\<open>SizedData::size\<close> of the data; the account adds the flag.\<close>

definition account_size :: "('a \<Rightarrow> nat) \<Rightarrow> 'a \<Rightarrow> nat" where
  "account_size size' x = 1 + size' x"

definition store_with_rent_exempt_realloc ::
  "runtime \<Rightarrow> ('a \<Rightarrow> bytes) \<Rightarrow> ('a \<Rightarrow> nat) \<Rightarrow> 'a \<Rightarrow> account_info \<Rightarrow> account_info \<Rightarrow> vm \<Rightarrow> vm exec" where
  "store_with_rent_exempt_realloc rt ser size' x account_info payer_info vm =
     (let required_size = account_size size' x in
      rbind (borrow_data account_info vm) (\<lambda>d.
      let account_data_len = length d;
          required_account_data_len = max required_size account_data_len;
          required_rent = rt_minimum_balance rt required_account_data_len;
          current = lamports account_info vm in
      rbind (if current < required_rent
             then invoke_system rt
                    (SysTransfer (ai_key payer_info) (ai_key account_info) (required_rent - current))
                    [payer_info, account_info] vm
             else Inr vm) (\<lambda>vm.
      rbind (if account_data_len < required_account_data_len
             then realloc account_info required_account_data_len vm
             else Inr vm) (\<lambda>vm.
      store ser x account_info False vm))))"

definition create_pda_account ::
  "runtime \<Rightarrow> account_info \<Rightarrow> nat \<Rightarrow> pubkey \<Rightarrow> account_info \<Rightarrow> account_info \<Rightarrow> bytes list \<Rightarrow> vm \<Rightarrow> vm exec" where
  "create_pda_account rt payer space owner system_program new_pda_account new_pda_signer_seeds vm =
     (if lamports new_pda_account vm > 0
      then let required_lamports =
                 saturating_sub (max (rt_minimum_balance rt space) 1) (lamports new_pda_account vm) in
           rbind (if required_lamports > 0
                  then invoke_system rt
                         (SysTransfer (ai_key payer) (ai_key new_pda_account) required_lamports)
                         [payer, new_pda_account, system_program] vm
                  else Inr vm) (\<lambda>vm.
           rbind (invoke_system_signed rt (SysAllocate (ai_key new_pda_account) (word_of_nat space))
                    [new_pda_account, system_program] [new_pda_signer_seeds] vm) (\<lambda>vm.
           invoke_system_signed rt (SysAssign (ai_key new_pda_account) owner)
             [new_pda_account, system_program] [new_pda_signer_seeds] vm))
      else invoke_system_signed rt
             (SysCreateAccount (ai_key payer) (ai_key new_pda_account)
                (max (rt_minimum_balance rt space) 1) (word_of_nat space) owner)
             [payer, new_pda_account, system_program] [new_pda_signer_seeds] vm)"

definition verify_rent_exempt :: "runtime \<Rightarrow> account_info \<Rightarrow> vm \<Rightarrow> unit exec" where
  "verify_rent_exempt rt account vm =
     rbind (borrow_data account vm) (\<lambda>d.
     require (rt_minimum_balance rt (length d) \<le> lamports account vm) (Err AccountNotRentExempt)
       (Inr ()))"

definition verify_account_uninitialized :: "account_info \<Rightarrow> vm \<Rightarrow> unit exec" where
  "verify_account_uninitialized account vm =
     rbind (borrow_data account vm) (\<lambda>d.
     if d = [] \<and> owner_of account vm = SYSTEM_PROGRAM_ID then Inr ()
     else Inl (Err AccountAlreadyInitialized))"

subsection \<open>Discriminators\<close>

definition DISCRIMINATOR_LENGTH :: nat where
  "DISCRIMINATOR_LENGTH = 8"

definition PROGRAM_INSTRUCTION_DISCRIMINATOR :: bytes where
  "PROGRAM_INSTRUCTION_DISCRIMINATOR = [1, 1, 1, 1, 1, 1, 1, 1]"

definition ser_discriminator :: "bytes \<Rightarrow> ('a \<Rightarrow> bytes) \<Rightarrow> 'a \<Rightarrow> bytes" where
  "ser_discriminator discriminator ser x = discriminator @ ser x"

text \<open>
  \<^verbatim>\<open>split_at\<close> panics on a short buffer; the data is read from a copy of the rest, so the reader itself
  does not advance.
\<close>

definition de_discriminator :: "bytes \<Rightarrow> 'a de \<Rightarrow> 'a pde" where
  "de_discriminator discriminator de buf =
     (if length buf < DISCRIMINATOR_LENGTH then Inl Panic
      else require (take DISCRIMINATOR_LENGTH buf = discriminator) (Err InvalidData) (
           rbind (lift_de de (drop DISCRIMINATOR_LENGTH buf)) (\<lambda>(x, _). Inr (x, buf))))"

definition discriminator_size :: "('a \<Rightarrow> nat) \<Rightarrow> 'a \<Rightarrow> nat" where
  "discriminator_size size' x = DISCRIMINATOR_LENGTH + size' x"

definition discriminator_encode :: "bytes \<Rightarrow> ('a \<Rightarrow> bytes) \<Rightarrow> 'a \<Rightarrow> bytes" where
  "discriminator_encode discriminator ser x = discriminator @ ser x"

definition discriminator_decode :: "bytes \<Rightarrow> 'a de \<Rightarrow> bytes \<Rightarrow> 'a exec" where
  "discriminator_decode discriminator de data =
     (if length data < DISCRIMINATOR_LENGTH then Inl Panic
      else require (take DISCRIMINATOR_LENGTH data = discriminator) (Err InvalidInstructionData) (
           map_err (\<lambda>_. Err InvalidInstructionData)
             (try_from_slice de (drop DISCRIMINATOR_LENGTH data))))"

section \<open>Access control\<close>

definition ensure_owner_signer :: "pubkey option \<Rightarrow> account_info \<Rightarrow> unit exec" where
  "ensure_owner_signer owner maybe_owner =
     rbind (ok_or owner (Err InvalidArgument)) (\<lambda>owner.
     require (ai_is_signer maybe_owner) (Err MissingRequiredSignature) (
     require (owner = ai_key maybe_owner) (Err InvalidArgument) (
     Inr ())))"

definition ac_transfer_ownership ::
  "('a \<Rightarrow> pubkey option) \<Rightarrow> (pubkey option \<Rightarrow> 'a \<Rightarrow> 'a exec) \<Rightarrow> account_info \<Rightarrow> pubkey option \<Rightarrow> 'a \<Rightarrow> 'a exec" where
  "ac_transfer_ownership owner set_owner maybe_existing_owner new_owner x =
     rbind (ensure_owner_signer (owner x) maybe_existing_owner) (\<lambda>_.
     set_owner new_owner x)"

section \<open>What the programs rely on\<close>

text \<open>A derived address is found with the bump seed that recreates it.\<close>

definition pda_canonical :: "runtime \<Rightarrow> bool" where
  "pda_canonical rt \<longleftrightarrow>
     (\<forall>seeds pid k b. rt_find_program_address rt seeds pid = (k, b) \<longrightarrow>
        rt_create_program_address rt (seeds @ [[b]]) pid = Inr k)"

text \<open>An account whose data and owner are the same in two ledgers.\<close>

definition same_data :: "ledger \<Rightarrow> ledger \<Rightarrow> pubkey \<Rightarrow> bool" where
  "same_data l l' k \<longleftrightarrow> acc_data (l' k) = acc_data (l k) \<and> acc_owner (l' k) = acc_owner (l k)"

text \<open>
  The runtime lets only the owner of an account change its data, and it does not let a program be
  entered again while it waits for a CPI: the accounts a program owns keep their data and owner over
  the CPIs it makes.
\<close>

definition cpi_frame :: "runtime \<Rightarrow> pubkey \<Rightarrow> bool" where
  "cpi_frame rt pid \<longleftrightarrow>
     (\<forall>ix infos seeds l l' rd. rt_invoke rt ix infos seeds l = Inr (l', rd) \<longrightarrow>
        (\<forall>k. acc_owner (l k) = pid \<longrightarrow> same_data l l' k))"

text \<open>
  The system program does what its instructions say, and allocates and creates only accounts it owns.
\<close>

definition system_transfer_ok :: "runtime \<Rightarrow> bool" where
  "system_transfer_ok rt \<longleftrightarrow>
     (\<forall>f t amount infos seeds l l'. rt_system rt (SysTransfer f t amount) infos seeds l = Inr l' \<longrightarrow>
        (\<forall>k. same_data l l' k) \<and>
        (f \<noteq> t \<longrightarrow> unat (acc_lamports (l f)) = unat amount + unat (acc_lamports (l' f)) \<and>
           unat (acc_lamports (l' t)) = unat (acc_lamports (l t)) + unat amount) \<and>
        (\<forall>k. k \<noteq> f \<and> k \<noteq> t \<longrightarrow> l' k = l k))"

definition system_create_ok :: "runtime \<Rightarrow> bool" where
  "system_create_ok rt \<longleftrightarrow>
     (\<forall>f t amount space w infos seeds l l'.
        rt_system rt (SysCreateAccount f t amount space w) infos seeds l = Inr l' \<longrightarrow>
        acc_owner (l t) = SYSTEM_PROGRAM_ID \<and>
        acc_data (l' t) = replicate (unat space) 0 \<and> acc_owner (l' t) = w \<and>
        (\<forall>k. k \<noteq> t \<longrightarrow> same_data l l' k) \<and> (\<forall>k. k \<noteq> f \<and> k \<noteq> t \<longrightarrow> l' k = l k))"

definition system_allocate_ok :: "runtime \<Rightarrow> bool" where
  "system_allocate_ok rt \<longleftrightarrow>
     (\<forall>k space infos seeds l l'. rt_system rt (SysAllocate k space) infos seeds l = Inr l' \<longrightarrow>
        acc_owner (l k) = SYSTEM_PROGRAM_ID \<and> acc_owner (l' k) = SYSTEM_PROGRAM_ID \<and>
        acc_data (l' k) = replicate (unat space) 0 \<and> (\<forall>j. j \<noteq> k \<longrightarrow> l' j = l j))"

definition system_assign_ok :: "runtime \<Rightarrow> bool" where
  "system_assign_ok rt \<longleftrightarrow>
     (\<forall>k w infos seeds l l'. rt_system rt (SysAssign k w) infos seeds l = Inr l' \<longrightarrow>
        acc_data (l' k) = acc_data (l k) \<and> acc_owner (l' k) = w \<and> (\<forall>j. j \<noteq> k \<longrightarrow> l' j = l j))"

definition system_program_ok :: "runtime \<Rightarrow> bool" where
  "system_program_ok rt \<longleftrightarrow>
     system_transfer_ok rt \<and> system_create_ok rt \<and> system_allocate_ok rt \<and> system_assign_ok rt"

section \<open>Lemmas on the ledger\<close>

lemma pda_canonicalD:
  "pda_canonical rt \<Longrightarrow> rt_find_program_address rt seeds pid = (k, b) \<Longrightarrow>
   rt_create_program_address rt (seeds @ [[b]]) pid = Inr k"
  by (simp add: pda_canonical_def)

lemma same_data_refl [simp]: "same_data l l k"
  by (simp add: same_data_def)

lemma same_data_trans: "same_data l l' k \<Longrightarrow> same_data l' l'' k \<Longrightarrow> same_data l l'' k"
  by (simp add: same_data_def)

lemma write_data_simps [simp]:
  "vm_borrowed (write_data k bs vm) = vm_borrowed vm"
  "vm_original_len (write_data k bs vm) = vm_original_len vm"
  "vm_return_data (write_data k bs vm) = vm_return_data vm"
  "acc_data (vm_ledger (write_data k bs vm) k) = bs"
  "acc_owner (vm_ledger (write_data k bs vm) j) = acc_owner (vm_ledger vm j)"
  "acc_lamports (vm_ledger (write_data k bs vm) j) = acc_lamports (vm_ledger vm j)"
  "j \<noteq> k \<Longrightarrow> vm_ledger (write_data k bs vm) j = vm_ledger vm j"
  "write_data k as (write_data k bs vm) = write_data k as vm"
  by (simp_all add: write_data_def)

lemma next_account_info_Inr [result_simps]:
  "next_account_info accounts = Inr (i, rest) \<longleftrightarrow> accounts = i # rest"
  by (auto simp: next_account_info_def split: list.splits)

lemma next_account_info_simps [simp]:
  "next_account_info [] = Inl (Err NotEnoughAccountKeys)"
  "next_account_info (i # is) = Inr (i, is)"
  by (simp_all add: next_account_info_def)

lemma borrow_data_Inr [result_simps]:
  "borrow_data i vm = Inr d \<longleftrightarrow>
   ai_key i \<notin> set (vm_borrowed vm) \<and> d = acc_data (vm_ledger vm (ai_key i))"
  by (auto simp: borrow_data_def)

lemma try_borrow_mut_data_Inr [result_simps]:
  "try_borrow_mut_data i vm = Inr d \<longleftrightarrow>
   ai_key i \<notin> set (vm_borrowed vm) \<and> d = acc_data (vm_ledger vm (ai_key i))"
  by (auto simp: try_borrow_mut_data_def)

lemma verify_account_uninitialized_Inr [result_simps]:
  "verify_account_uninitialized i vm = Inr u \<longleftrightarrow>
   ai_key i \<notin> set (vm_borrowed vm) \<and> acc_data (vm_ledger vm (ai_key i)) = [] \<and>
   owner_of i vm = SYSTEM_PROGRAM_ID"
  by (auto simp: verify_account_uninitialized_def result_simps)

lemma create_program_address_Inr [result_simps]:
  "create_program_address rt seeds pid = Inr k \<longleftrightarrow> rt_create_program_address rt seeds pid = Inr k"
  by (simp add: create_program_address_def)

section \<open>Storing and fetching account data\<close>

lemma store_loop_Inr:
  "store_loop ser x i b vm = Inr vm' \<Longrightarrow>
   ai_key i \<notin> set (vm_borrowed vm) \<and>
   (\<exists>tail. vm' = write_data (ai_key i) (ser_bool True @ ser x @ tail) vm)"
proof (induction ser x i b vm rule: store_loop.induct)
  case (1 ser x i b vm)
  show ?case
  proof (cases "store_in_slice ser x (acc_data (vm_ledger vm (ai_key i)))")
    case None
    with "1.prems" obtain vm1 where
      r: "realloc i (length (acc_data (vm_ledger vm (ai_key i))) + 1024) vm = Inr vm1"
      and s: "store_loop ser x i b vm1 = Inr vm'" and b: b and nb: "ai_key i \<notin> set (vm_borrowed vm)"
      by (subst (asm) store_loop.simps) (auto simp: result_simps)
    obtain bs where vm1: "vm1 = write_data (ai_key i) bs vm"
      using r by (auto simp: realloc_def result_simps)
    have "try_borrow_mut_data i vm = Inr (acc_data (vm_ledger vm (ai_key i)))"
      using nb by (simp add: try_borrow_mut_data_def)
    then have "\<exists>tail. vm' = write_data (ai_key i) (ser_bool True @ ser x @ tail) vm1"
      using "1.IH" [OF _ None r s] by blast
    then show ?thesis using nb by (auto simp: vm1)
  next
    case (Some d)
    then show ?thesis
      using "1.prems" by (subst (asm) store_loop.simps)
        (auto simp: result_simps store_in_slice_def Let_def split: if_splits)
  qed
qed

lemma store_Inr:
  assumes "store ser x i b vm = Inr vm'"
  shows "ai_is_writable i \<and> \<not> ai_executable i \<and> ai_key i \<notin> set (vm_borrowed vm) \<and>
    (\<exists>tail. vm' = write_data (ai_key i) (ser_bool True @ ser x @ tail) vm)"
  using assms store_loop_Inr [of ser x i b vm vm'] by (auto simp: store_def result_simps)

lemma store_ok:
  assumes "ai_is_writable i" "\<not> ai_executable i" "ai_key i \<notin> set (vm_borrowed vm)"
    and "Suc (length (ser x)) \<le> length (acc_data (vm_ledger vm (ai_key i)))"
  shows "store ser x i b vm =
    Inr (write_data (ai_key i)
      (ser_bool True @ ser x @ drop (Suc (length (ser x))) (acc_data (vm_ledger vm (ai_key i)))) vm)"
  using assms
  by (simp add: store_def store_loop.simps try_borrow_mut_data_def store_in_slice_def Let_def)

text \<open>What was stored is fetched, whatever bytes follow it.\<close>

lemma fetch_stored:
  assumes "de (ser x @ tail) = Inr (x, rest)"
  shows "fetch de dflt (ser_bool True @ ser x @ tail) = Inr x"
  using assms borsh_bool.de_ser [of True "ser x @ tail"]
  by (simp add: fetch_def fetch_data_def lift_de_def borsh_err_def ser_bool_def)

lemma lift_de_Inr [result_simps]: "lift_de de bs = Inr y \<longleftrightarrow> de bs = Inr y"
  by (simp add: lift_de_def)

lemma borsh_err_Inr [result_simps]: "borsh_err m = Inr y \<longleftrightarrow> m = Inr y"
  by (simp add: borsh_err_def)

lemma fetch_uninitialized [simp]: "fetch de dflt [] = Inr dflt"
  by (simp add: fetch_def fetch_data_def)

section \<open>Creating accounts\<close>

lemma invoke_system_signed_Inr:
  assumes "invoke_system_signed rt ix infos seeds vm = Inr vm'"
  shows "\<exists>l. rt_system rt ix infos seeds (vm_ledger vm) = Inr l \<and>
    vm' = vm\<lparr>vm_ledger := l, vm_return_data := None\<rparr>"
  using assms by (auto simp: invoke_system_signed_def result_simps)

lemma invoke_signed_Inr:
  assumes "invoke_signed rt ix infos seeds vm = Inr vm'"
  shows "\<exists>l rd. rt_invoke rt ix infos seeds (vm_ledger vm) = Inr (l, rd) \<and>
    vm' = vm\<lparr>vm_ledger := l, vm_return_data := rd\<rparr>"
  using assms by (auto simp: invoke_signed_def result_simps)

lemma invoke_signed_frame:
  assumes "cpi_frame rt pid" and "invoke_signed rt ix infos seeds vm = Inr vm'"
  shows "vm_borrowed vm' = vm_borrowed vm \<and>
    (\<forall>k. acc_owner (vm_ledger vm k) = pid \<longrightarrow> same_data (vm_ledger vm) (vm_ledger vm') k)"
proof -
  obtain l rd where "rt_invoke rt ix infos seeds (vm_ledger vm) = Inr (l, rd)"
    and "vm' = vm\<lparr>vm_ledger := l, vm_return_data := rd\<rparr>"
    using invoke_signed_Inr [OF assms(2)] by blast
  then show ?thesis using assms(1) unfolding cpi_frame_def by simp blast
qed

text \<open>The accounts of two states other than \<open>k\<close> hold the same data; the borrows are the same.\<close>

definition only_changes :: "pubkey \<Rightarrow> vm \<Rightarrow> vm \<Rightarrow> bool" where
  "only_changes k vm vm' \<longleftrightarrow>
     vm_borrowed vm' = vm_borrowed vm \<and> vm_original_len vm' = vm_original_len vm \<and>
     (\<forall>j. j \<noteq> k \<longrightarrow> same_data (vm_ledger vm) (vm_ledger vm') j)"

lemma only_changes_trans:
  "only_changes k vm vm' \<Longrightarrow> only_changes k vm' vm'' \<Longrightarrow> only_changes k vm vm''"
  by (auto simp: only_changes_def intro: same_data_trans)

lemma only_changes_refl [simp]: "only_changes k vm vm"
  by (simp add: only_changes_def)

lemma only_changes_write [simp]: "only_changes k vm (write_data k bs vm)"
  by (simp add: only_changes_def same_data_def)

lemma system_frame:
  assumes "system_program_ok rt" and "j \<noteq> k"
  shows "invoke_system_signed rt (SysTransfer f k a) infos seeds vm = Inr vm' \<Longrightarrow> j \<noteq> f \<Longrightarrow>
      vm_ledger vm' j = vm_ledger vm j"
    and "invoke_system_signed rt (SysAllocate k space) infos seeds vm = Inr vm' \<Longrightarrow>
      vm_ledger vm' j = vm_ledger vm j"
    and "invoke_system_signed rt (SysAssign k w) infos seeds vm = Inr vm' \<Longrightarrow>
      vm_ledger vm' j = vm_ledger vm j"
    and "invoke_system_signed rt (SysCreateAccount f k a space w) infos seeds vm = Inr vm' \<Longrightarrow> j \<noteq> f \<Longrightarrow>
      vm_ledger vm' j = vm_ledger vm j"
proof -
  have sys: "system_transfer_ok rt" "system_allocate_ok rt" "system_assign_ok rt" "system_create_ok rt"
    using assms(1) by (simp_all add: system_program_ok_def)
  show "invoke_system_signed rt (SysTransfer f k a) infos seeds vm = Inr vm' \<Longrightarrow> j \<noteq> f \<Longrightarrow>
      vm_ledger vm' j = vm_ledger vm j"
    using sys(1) assms(2) by (auto simp: system_transfer_ok_def dest!: invoke_system_signed_Inr)
  show "invoke_system_signed rt (SysAllocate k space) infos seeds vm = Inr vm' \<Longrightarrow>
      vm_ledger vm' j = vm_ledger vm j"
    using sys(2) assms(2) by (fastforce simp: system_allocate_ok_def dest!: invoke_system_signed_Inr)
  show "invoke_system_signed rt (SysAssign k w) infos seeds vm = Inr vm' \<Longrightarrow>
      vm_ledger vm' j = vm_ledger vm j"
    using sys(3) assms(2) by (fastforce simp: system_assign_ok_def dest!: invoke_system_signed_Inr)
  show "invoke_system_signed rt (SysCreateAccount f k a space w) infos seeds vm = Inr vm' \<Longrightarrow> j \<noteq> f \<Longrightarrow>
      vm_ledger vm' j = vm_ledger vm j"
    using sys(4) assms(2) by (fastforce simp: system_create_ok_def dest!: invoke_system_signed_Inr)
qed

lemma system_changes:
  assumes "system_program_ok rt"
  shows "invoke_system_signed rt (SysTransfer f t a) infos seeds vm = Inr vm' \<Longrightarrow>
      only_changes k vm vm' \<and> same_data (vm_ledger vm) (vm_ledger vm') k"
    and "invoke_system_signed rt (SysAllocate k space) infos seeds vm = Inr vm' \<Longrightarrow>
      only_changes k vm vm' \<and> acc_data (vm_ledger vm' k) = replicate (unat space) 0 \<and>
      acc_owner (vm_ledger vm k) = SYSTEM_PROGRAM_ID"
    and "invoke_system_signed rt (SysAssign k w) infos seeds vm = Inr vm' \<Longrightarrow>
      only_changes k vm vm' \<and> acc_data (vm_ledger vm' k) = acc_data (vm_ledger vm k) \<and>
      acc_owner (vm_ledger vm' k) = w"
    and "invoke_system_signed rt (SysCreateAccount f k a space w) infos seeds vm = Inr vm' \<Longrightarrow>
      only_changes k vm vm' \<and> acc_data (vm_ledger vm' k) = replicate (unat space) 0 \<and>
      acc_owner (vm_ledger vm' k) = w \<and> acc_owner (vm_ledger vm k) = SYSTEM_PROGRAM_ID"
proof -
  have sys: "system_transfer_ok rt" "system_allocate_ok rt" "system_assign_ok rt" "system_create_ok rt"
    using assms(1) by (simp_all add: system_program_ok_def)
  show "invoke_system_signed rt (SysTransfer f t a) infos seeds vm = Inr vm' \<Longrightarrow>
      only_changes k vm vm' \<and> same_data (vm_ledger vm) (vm_ledger vm') k"
    using sys(1) by (auto simp: system_transfer_ok_def only_changes_def dest!: invoke_system_signed_Inr)
  show "invoke_system_signed rt (SysAllocate k space) infos seeds vm = Inr vm' \<Longrightarrow>
      only_changes k vm vm' \<and> acc_data (vm_ledger vm' k) = replicate (unat space) 0 \<and>
      acc_owner (vm_ledger vm k) = SYSTEM_PROGRAM_ID"
    using sys(2) system_frame(2) [OF assms]
    by (auto simp: system_allocate_ok_def only_changes_def same_data_def dest!: invoke_system_signed_Inr)
  show "invoke_system_signed rt (SysAssign k w) infos seeds vm = Inr vm' \<Longrightarrow>
      only_changes k vm vm' \<and> acc_data (vm_ledger vm' k) = acc_data (vm_ledger vm k) \<and>
      acc_owner (vm_ledger vm' k) = w"
    using sys(3) system_frame(3) [OF assms]
    by (auto simp: system_assign_ok_def only_changes_def same_data_def dest!: invoke_system_signed_Inr)
  show "invoke_system_signed rt (SysCreateAccount f k a space w) infos seeds vm = Inr vm' \<Longrightarrow>
      only_changes k vm vm' \<and> acc_data (vm_ledger vm' k) = replicate (unat space) 0 \<and>
      acc_owner (vm_ledger vm' k) = w \<and> acc_owner (vm_ledger vm k) = SYSTEM_PROGRAM_ID"
    using sys(4) by (auto simp: system_create_ok_def only_changes_def dest!: invoke_system_signed_Inr)
qed

lemma create_pda_account_Inr:
  assumes sys: "system_program_ok rt"
    and c: "create_pda_account rt payer space owner sp new seeds vm = Inr vm'"
    and space: "space < 2 ^ 64"
  shows "only_changes (ai_key new) vm vm' \<and>
    acc_data (vm_ledger vm' (ai_key new)) = replicate space 0 \<and>
    acc_owner (vm_ledger vm' (ai_key new)) = owner \<and>
    acc_owner (vm_ledger vm (ai_key new)) = SYSTEM_PROGRAM_ID"
proof -
  have sp: "unat (word_of_nat space :: u64) = space" using space by (simp add: unat_of_nat)
  show ?thesis
  proof (cases "lamports new vm > 0")
    case False
    then show ?thesis
      using c system_changes(4) [OF sys] by (auto simp: create_pda_account_def sp)
  next
    case True
    let ?r = "saturating_sub (max (rt_minimum_balance rt space) 1) (lamports new vm)"
    from True c obtain vm1 vm2 where
      t: "(if ?r > 0 then invoke_system rt (SysTransfer (ai_key payer) (ai_key new) ?r) [payer, new, sp] vm
           else Inr vm) = Inr vm1"
      and 2: "invoke_system_signed rt (SysAllocate (ai_key new) (word_of_nat space)) [new, sp] [seeds] vm1 = Inr vm2"
      and 3: "invoke_system_signed rt (SysAssign (ai_key new) owner) [new, sp] [seeds] vm2 = Inr vm'"
      unfolding create_pda_account_def Let_def by (auto simp: rbind_eq_Inr)
    have 1: "only_changes (ai_key new) vm vm1 \<and> same_data (vm_ledger vm) (vm_ledger vm1) (ai_key new)"
      using t system_changes(1) [OF sys] by (auto simp: invoke_system_def split: if_splits)
    show ?thesis
      using 1 system_changes(2) [OF sys 2] system_changes(3) [OF sys 3] only_changes_trans sp
      by (metis same_data_def)
  qed
qed

lemma invoke_borrowed:
  "invoke_signed rt ix infos seeds vm = Inr vm' \<Longrightarrow> vm_borrowed vm' = vm_borrowed vm"
  "invoke rt ix infos vm = Inr vm' \<Longrightarrow> vm_borrowed vm' = vm_borrowed vm"
  "invoke_system_signed rt sx infos seeds vm = Inr vm' \<Longrightarrow> vm_borrowed vm' = vm_borrowed vm"
  "invoke_system rt sx infos vm = Inr vm' \<Longrightarrow> vm_borrowed vm' = vm_borrowed vm"
  by (auto simp: invoke_def invoke_system_def dest!: invoke_signed_Inr invoke_system_signed_Inr)

lemma create_pda_account_borrowed:
  "create_pda_account rt payer space owner sp new seeds vm = Inr vm' \<Longrightarrow>
   vm_borrowed vm' = vm_borrowed vm"
  by (auto simp: create_pda_account_def Let_def rbind_eq_Inr dest!: invoke_borrowed split: if_splits)

lemma store_borrowed: "store ser x i b vm = Inr vm' \<Longrightarrow> vm_borrowed vm' = vm_borrowed vm"
  by (auto dest!: store_Inr)

section \<open>Accounts of a program over its steps\<close>

text \<open>
  \<open>holds ser x k l\<close>: the account \<open>k\<close> stores \<open>x\<close>. \<open>keeps pid vm vm'\<close>: an account that the program owns
  and that has data stays so. Everything a program does keeps its accounts.
\<close>

definition holds :: "('a \<Rightarrow> bytes) \<Rightarrow> 'a \<Rightarrow> pubkey \<Rightarrow> ledger \<Rightarrow> bool" where
  "holds ser x k l \<longleftrightarrow> (\<exists>tail. acc_data (l k) = ser_bool True @ ser x @ tail)"

definition owned_data :: "pubkey \<Rightarrow> pubkey \<Rightarrow> ledger \<Rightarrow> bool" where
  "owned_data pid k l \<longleftrightarrow> acc_owner (l k) = pid \<and> acc_data (l k) \<noteq> []"

definition keeps :: "pubkey \<Rightarrow> vm \<Rightarrow> vm \<Rightarrow> bool" where
  "keeps pid vm vm' \<longleftrightarrow>
     (\<forall>k. owned_data pid k (vm_ledger vm) \<longrightarrow> owned_data pid k (vm_ledger vm'))"

lemma keeps_refl [simp]: "keeps pid vm vm"
  by (simp add: keeps_def)

lemma keeps_trans [trans]: "keeps pid vm vm' \<Longrightarrow> keeps pid vm' vm'' \<Longrightarrow> keeps pid vm vm''"
  by (simp add: keeps_def)

lemma keeps_ledger [simp]:
  "keeps pid vm (vm'\<lparr>vm_return_data := rd\<rparr>) \<longleftrightarrow> keeps pid vm vm'"
  "keeps pid vm (vm'\<lparr>vm_borrowed := bs\<rparr>) \<longleftrightarrow> keeps pid vm vm'"
  "keeps pid (vm\<lparr>vm_borrowed := bs\<rparr>) vm' \<longleftrightarrow> keeps pid vm vm'"
  by (simp_all add: keeps_def)

lemma holds_same_data: "holds ser x k l \<Longrightarrow> same_data l l' k \<Longrightarrow> holds ser x k l'"
  by (auto simp: holds_def same_data_def)

lemma holds_nonempty: "holds ser x k l \<Longrightarrow> acc_data (l k) \<noteq> []"
  by (auto simp: holds_def ser_bool_def)

lemma store_holds:
  assumes "store ser x i b vm = Inr vm'"
  shows "holds ser x (ai_key i) (vm_ledger vm') \<and> only_changes (ai_key i) vm vm' \<and>
    acc_owner (vm_ledger vm' (ai_key i)) = acc_owner (vm_ledger vm (ai_key i)) \<and>
    vm_return_data vm' = vm_return_data vm"
  using store_Inr [OF assms] by (auto simp: holds_def)

lemma store_keeps:
  assumes "store ser x i b vm = Inr vm'"
  shows "keeps pid vm vm'"
proof -
  obtain tail where "vm' = write_data (ai_key i) (ser_bool True @ ser x @ tail) vm"
    using store_Inr [OF assms] by blast
  then show ?thesis
    by (auto simp: keeps_def owned_data_def write_data_def ser_bool_def)
qed

lemma store_in_slice_keeps:
  assumes "store_in_slice ser x d = Some d'"
  shows "keeps pid vm (write_data k d' vm)"
  using assms
  by (auto simp: store_in_slice_def Let_def keeps_def owned_data_def write_data_def ser_bool_def
      split: if_splits)

lemma store_in_slice_keepsD:
  "store_in_slice ser x d = Some d' \<Longrightarrow> keeps pid (write_data k d' vm) vm' \<Longrightarrow> keeps pid vm vm'"
  by (rule keeps_trans [OF store_in_slice_keeps])

lemma only_changes_keeps:
  assumes "only_changes k vm vm'" and "acc_owner (vm_ledger vm k) \<noteq> pid"
  shows "keeps pid vm vm'"
  using assms by (auto simp: keeps_def owned_data_def only_changes_def same_data_def)

lemma create_pda_account_keeps:
  assumes "system_program_ok rt" and "pid \<noteq> SYSTEM_PROGRAM_ID" and "space < 2 ^ 64"
    and "create_pda_account rt payer space owner sp new seeds vm = Inr vm'"
  shows "keeps pid vm vm'"
  using create_pda_account_Inr [OF assms(1,4,3)] assms(2) by (intro only_changes_keeps) auto

text \<open>Creating an account touches only the payer's and the new account.\<close>

lemma create_pda_account_frame:
  assumes sys: "system_program_ok rt"
    and c: "create_pda_account rt payer space owner sp new seeds vm = Inr vm'"
    and j: "j \<noteq> ai_key payer" "j \<noteq> ai_key new"
  shows "vm_ledger vm' j = vm_ledger vm j"
  using c j unfolding create_pda_account_def Let_def invoke_system_def
  by (auto simp: rbind_eq_Inr dest!: system_frame [OF sys j(2)] split: if_splits)

text \<open>
  Other transactions cannot change the data of accounts a program owns, nor create an account at one
  of its derived addresses, which have no private key; an account that is handed to the program has
  only zeros as data.
\<close>

definition outside_step :: "(pubkey \<Rightarrow> bool) \<Rightarrow> pubkey \<Rightarrow> vm \<Rightarrow> vm \<Rightarrow> bool" where
  "outside_step derived pid vm vm' \<longleftrightarrow>
     (\<forall>k. (acc_owner (vm_ledger vm k) = pid \<longrightarrow> same_data (vm_ledger vm) (vm_ledger vm') k) \<and>
        (acc_owner (vm_ledger vm k) \<noteq> pid \<and> acc_owner (vm_ledger vm' k) = pid \<longrightarrow>
           \<not> derived k \<and> list_all (\<lambda>b. b = 0) (acc_data (vm_ledger vm' k))))"

lemma outside_step_owned:
  assumes "outside_step derived pid vm vm'" and "derived k" and "acc_owner (vm_ledger vm' k) = pid"
  shows "acc_owner (vm_ledger vm k) = pid \<and> same_data (vm_ledger vm) (vm_ledger vm') k"
  using assms by (auto simp: outside_step_def)

text \<open>An account created for a program and written by it.\<close>

lemma create_store_owned:
  assumes "system_program_ok rt" and "space < 2 ^ 64"
    and "create_pda_account rt payer space owner sp new seeds vm = Inr vm1"
    and "store ser x new b vm1 = Inr vm2"
  shows "owned_data owner (ai_key new) (vm_ledger vm2)"
  using create_pda_account_Inr [OF assms(1,3,2)] store_holds [OF assms(4)]
    holds_nonempty [of ser x "ai_key new" "vm_ledger vm2"]
  by (auto simp: owned_data_def)

lemma store_with_rent_exempt_realloc_Inr:
  assumes sys: "system_program_ok rt"
    and "store_with_rent_exempt_realloc rt ser size' x i payer vm = Inr vm'"
  shows "holds ser x (ai_key i) (vm_ledger vm') \<and> only_changes (ai_key i) vm vm' \<and>
    acc_owner (vm_ledger vm' (ai_key i)) = acc_owner (vm_ledger vm (ai_key i))"
proof -
  obtain vm1 vm2 where
    t: "vm1 = vm \<or> (\<exists>a. invoke_system_signed rt (SysTransfer (ai_key payer) (ai_key i) a) [payer, i] [] vm = Inr vm1)"
    and r: "vm2 = vm1 \<or> (\<exists>n. realloc i n vm1 = Inr vm2)" and s: "store ser x i False vm2 = Inr vm'"
    using assms(2)
    by (auto simp: store_with_rent_exempt_realloc_def Let_def result_simps invoke_system_def split: if_splits)
  have 1: "only_changes (ai_key i) vm vm1 \<and> same_data (vm_ledger vm) (vm_ledger vm1) (ai_key i)"
    using t system_changes(1) [OF sys] by auto
  have 2: "only_changes (ai_key i) vm1 vm2 \<and> acc_owner (vm_ledger vm2 (ai_key i)) = acc_owner (vm_ledger vm1 (ai_key i))"
    using r by (auto simp: realloc_def result_simps)
  show ?thesis
    using 1 2 store_holds [OF s] only_changes_trans by (metis same_data_def)
qed

lemma keepsD: "keeps pid vm vm' \<Longrightarrow> owned_data pid k (vm_ledger vm) \<Longrightarrow> owned_data pid k (vm_ledger vm')"
  by (simp add: keeps_def)

lemma invoke_signed_keeps:
  assumes "cpi_frame rt pid" and "invoke_signed rt ix infos seeds vm = Inr vm'"
  shows "keeps pid vm vm'"
  using invoke_signed_frame [OF assms] by (auto simp: keeps_def owned_data_def same_data_def)

lemmas invoke_keeps = invoke_signed_keeps [where seeds = "[]", folded invoke_def]

section \<open>Reading off what a successful run did\<close>

text \<open>
  \<open>on_success m Q\<close>: if \<open>m\<close> succeeds its value satisfies \<open>Q\<close>. The rules \<open>success_intros\<close> walk through a
  handler and collect the checks it passed and the calls it made as premises.
\<close>

definition on_success :: "'e + 'a \<Rightarrow> ('a \<Rightarrow> bool) \<Rightarrow> bool" where
  "on_success m Q \<longleftrightarrow> (\<forall>a. m = Inr a \<longrightarrow> Q a)"

named_theorems success_intros \<open>rules for the shapes of a handler\<close>

lemma on_successD: "on_success m Q \<Longrightarrow> m = Inr a \<Longrightarrow> Q a"
  by (simp add: on_success_def)

lemma on_success_rbind [success_intros]:
  "(\<And>a. m = Inr a \<Longrightarrow> on_success (f a) Q) \<Longrightarrow> on_success (rbind m f) Q"
  by (auto simp: on_success_def result_simps)

lemma on_success_require [success_intros]:
  "(c \<Longrightarrow> on_success k Q) \<Longrightarrow> on_success (require c e k) Q"
  by (auto simp: on_success_def result_simps)

lemma on_success_case_prod [success_intros]:
  "(\<And>a b. p = (a, b) \<Longrightarrow> on_success (f a b) Q) \<Longrightarrow> on_success (case p of (a, b) \<Rightarrow> f a b) Q"
  by (cases p) simp

lemma on_success_Let [success_intros]:
  "(\<And>v. x = v \<Longrightarrow> on_success (f v) Q) \<Longrightarrow> on_success (Let x f) Q"
  by simp

lemma on_success_if [success_intros]:
  "(c \<Longrightarrow> on_success a Q) \<Longrightarrow> (\<not> c \<Longrightarrow> on_success b Q) \<Longrightarrow> on_success (if c then a else b) Q"
  by simp

lemma on_success_option [success_intros]:
  "(x = None \<Longrightarrow> on_success a Q) \<Longrightarrow> (\<And>y. x = Some y \<Longrightarrow> on_success (f y) Q) \<Longrightarrow>
   on_success (case x of None \<Rightarrow> a | Some y \<Rightarrow> f y) Q"
  by (cases x) simp_all

lemma on_success_Inr [success_intros]: "Q a \<Longrightarrow> on_success (Inr a) Q"
  by (simp add: on_success_def)

lemma on_success_Inl [success_intros]: "on_success (Inl e) Q"
  by (simp add: on_success_def)

lemma on_successI: "(\<And>a. m = Inr a \<Longrightarrow> Q a) \<Longrightarrow> on_success m Q"
  by (simp add: on_success_def)

section \<open>The interface of access control\<close>

text \<open>
  The trait \<^verbatim>\<open>AccessControl\<close>: an implementation gives the owner and a setter that never fails and sets
  it. The provided methods are shown correct once.
\<close>

locale access_control =
  fixes owner :: "'a \<Rightarrow> pubkey option" and set_owner :: "pubkey option \<Rightarrow> 'a \<Rightarrow> 'a exec"
  assumes set_owner_owner: "\<exists>y. set_owner n x = Inr y \<and> owner y = n"
begin

lemma ensure_owner_signer_iff:
  "ensure_owner_signer (owner x) i = Inr u \<longleftrightarrow> owner x = Some (ai_key i) \<and> ai_is_signer i"
  by (auto simp: ensure_owner_signer_def result_simps)

lemma transfer_ownership_iff:
  "ac_transfer_ownership owner set_owner i n x = Inr y \<longleftrightarrow>
   owner x = Some (ai_key i) \<and> ai_is_signer i \<and> set_owner n x = Inr y"
  by (auto simp: ac_transfer_ownership_def result_simps ensure_owner_signer_iff)

lemma transfer_ownership_owner:
  "ac_transfer_ownership owner set_owner i n x = Inr y \<Longrightarrow> owner y = n"
  using set_owner_owner [of n x] by (auto simp: transfer_ownership_iff)

text \<open>Renouncing ownership is final.\<close>

lemma transfer_ownership_renounced:
  "owner x = None \<Longrightarrow> ac_transfer_ownership owner set_owner i n x = Inl (Err InvalidArgument)"
  by (simp add: ac_transfer_ownership_def ensure_owner_signer_def)

end

section \<open>A runtime for the witnesses\<close>

text \<open>
  A small runtime with a working system program: derived addresses read the seeds as a number, and
  every other CPI succeeds without an effect.
\<close>

definition sim_key :: "bytes list \<Rightarrow> pubkey \<Rightarrow> pubkey" where
  "sim_key seeds pid = from_be_bytes (concat seeds) + 1"

definition sim_create_address :: "bytes list \<Rightarrow> pubkey \<Rightarrow> program_error + pubkey" where
  "sim_create_address seeds pid =
     (if seeds \<noteq> [] \<and> last seeds = [255] then Inr (sim_key (butlast seeds) pid) else Inl InvalidSeeds)"

definition sim_move :: "pubkey \<Rightarrow> pubkey \<Rightarrow> u64 \<Rightarrow> ledger \<Rightarrow> ledger exec" where
  "sim_move f t a l =
     (if f = t then Inr l
      else rbind (checked_sub (Err (Custom 1)) (acc_lamports (l f)) a) (\<lambda>lf.
           rbind (checked_add (Err (Custom 1)) (acc_lamports (l t)) a) (\<lambda>lt.
           Inr (l(f := (l f)\<lparr>acc_lamports := lf\<rparr>, t := (l t)\<lparr>acc_lamports := lt\<rparr>)))))"

primrec sim_system ::
  "system_instruction \<Rightarrow> account_info list \<Rightarrow> signer_seeds \<Rightarrow> ledger \<Rightarrow> ledger exec" where
  "sim_system (SysTransfer f t a) infos seeds l = sim_move f t a l"
| "sim_system (SysAllocate k space) infos seeds l =
     require (acc_owner (l k) = SYSTEM_PROGRAM_ID) (Err (Custom 0)) (
     Inr (l(k := (l k)\<lparr>acc_data := replicate (unat space) 0\<rparr>)))"
| "sim_system (SysAssign k w) infos seeds l = Inr (l(k := (l k)\<lparr>acc_owner := w\<rparr>))"
| "sim_system (SysCreateAccount f t a space w) infos seeds l =
     require (acc_owner (l t) = SYSTEM_PROGRAM_ID) (Err (Custom 0)) (
     rbind (sim_move f t a l) (\<lambda>l.
     Inr (l(t := (l t)\<lparr>acc_data := replicate (unat space) 0, acc_owner := w\<rparr>))))"

definition sim_runtime :: runtime where
  "sim_runtime =
     \<lparr>rt_find_program_address = (\<lambda>seeds pid. (sim_key seeds pid, 255)),
      rt_create_program_address = sim_create_address,
      rt_minimum_balance = (\<lambda>n. word_of_nat n),
      rt_slot = 7,
      rt_spl_noop_id = 11,
      rt_system = sim_system,
      rt_invoke = (\<lambda>ix infos seeds l. Inr (l, None))\<rparr>"

lemma sim_move_ok:
  assumes "sim_move f t a l = Inr l'"
  shows "same_data l l' k"
  using assms by (auto simp: sim_move_def same_data_def result_simps split: if_splits)

lemma sim_move_frame:
  "sim_move f t a l = Inr l' \<Longrightarrow> k \<noteq> f \<Longrightarrow> k \<noteq> t \<Longrightarrow> l' k = l k"
  by (auto simp: sim_move_def result_simps split: if_splits)

lemma sim_system_ok: "system_program_ok sim_runtime"
proof -
  have "system_transfer_ok sim_runtime"
    by (auto simp: system_transfer_ok_def sim_runtime_def sim_move_ok)
       (auto simp: sim_move_def result_simps split: if_splits)
  moreover have "system_create_ok sim_runtime"
    unfolding system_create_ok_def sim_runtime_def
    by (auto simp: rbind_eq_Inr require_eq_Inr same_data_def sim_move_frame dest: sim_move_ok [unfolded same_data_def])
  ultimately show ?thesis
    by (auto simp: system_program_ok_def system_allocate_ok_def system_assign_ok_def sim_runtime_def
        same_data_def require_eq_Inr)
qed

lemma sim_pda_canonical: "pda_canonical sim_runtime"
  by (auto simp: pda_canonical_def sim_runtime_def sim_create_address_def)

lemma sim_cpi_frame: "cpi_frame sim_runtime pid"
  by (auto simp: cpi_frame_def sim_runtime_def)

text \<open>The derived address of seeds that end with a key or hash is the one after it.\<close>

lemma nat_of_le_append: "nat_of_le (xs @ ys) = nat_of_le xs + 256 ^ length xs * nat_of_le ys"
  by (induction xs) (simp_all add: algebra_simps)

lemma sim_key_last: "sim_key (seeds @ [h256_bytes k]) pid = k + 1"
proof -
  have "(word_of_nat (256 ^ 32 * n) :: pubkey) = 0" for n
    by (subst word_of_nat_eq_0_iff) simp
  then have "from_be_bytes (concat seeds @ h256_bytes k) = (from_be_bytes (h256_bytes k) :: pubkey)"
    by (simp add: from_be_bytes_def from_le_bytes_def nat_of_le_append)
  then show ?thesis by (simp add: sim_key_def)
qed

lemma word_of_nat_mod_byte:
  assumes "word_of_nat m = (word_of_nat n :: h256)"
  shows "m mod 256 = n mod 256"
proof -
  have "m mod 2 ^ 256 = n mod 2 ^ 256" using arg_cong [OF assms, of unat] by (simp add: unat_of_nat)
  then have "m mod 2 ^ 256 mod 256 = n mod 2 ^ 256 mod 256" by simp
  then show ?thesis by (simp add: mod_mod_cancel)
qed

lemma from_be_bytes_last:
  assumes "from_be_bytes (xs @ [x]) = (from_be_bytes (ys @ [y]) :: h256)"
  shows "x = y"
proof -
  have "(unat x + 256 * nat_of_le (rev xs)) mod 256 = (unat y + 256 * nat_of_le (rev ys)) mod 256"
    using assms by (intro word_of_nat_mod_byte) (simp add: from_be_bytes_def from_le_bytes_def)
  then have "unat x = unat y" using unsigned_less [of x, where 'a = nat] unsigned_less [of y, where 'a = nat] by simp
  then show ?thesis by (simp add: word_unat_eq_iff)
qed

lemma sim_key_neq:
  assumes "concat seeds = xs @ [x]" and "k = from_be_bytes (ys @ [y]) + 1" and "x \<noteq> y"
  shows "sim_key seeds pid \<noteq> k"
  using from_be_bytes_last [of xs x ys y] assms by (auto simp: sim_key_def)

text \<open>An account that signs and may be written, and a program account.\<close>

definition signer_account :: "pubkey \<Rightarrow> account_info" where
  "signer_account k = \<lparr>ai_key = k, ai_is_signer = True, ai_is_writable = True, ai_executable = False\<rparr>"

definition program_account :: "pubkey \<Rightarrow> account_info" where
  "program_account k = \<lparr>ai_key = k, ai_is_signer = False, ai_is_writable = False, ai_executable = True\<rparr>"

definition empty_account :: account where
  "empty_account = \<lparr>acc_lamports = 0, acc_data = [], acc_owner = SYSTEM_PROGRAM_ID\<rparr>"

definition funded_account :: "u64 \<Rightarrow> account" where
  "funded_account n = \<lparr>acc_lamports = n, acc_data = [], acc_owner = SYSTEM_PROGRAM_ID\<rparr>"

definition data_account :: "pubkey \<Rightarrow> bytes \<Rightarrow> account" where
  "data_account pid d = \<lparr>acc_lamports = 1, acc_data = d, acc_owner = pid\<rparr>"

definition initial_vm :: "ledger \<Rightarrow> vm" where
  "initial_vm l =
     \<lparr>vm_ledger = l, vm_return_data = None, vm_borrowed = [],
      vm_original_len = (\<lambda>k. length (acc_data (l k)))\<rparr>"

lemmas sim_simps =
  sim_runtime_def sim_create_address_def signer_account_def program_account_def empty_account_def
  funded_account_def data_account_def initial_vm_def SYSTEM_PROGRAM_ID_def

lemma sample_account_simps [simp]:
  "ai_key (signer_account k) = k" "ai_is_signer (signer_account k)"
  "ai_is_writable (signer_account k)" "\<not> ai_executable (signer_account k)"
  "ai_key (program_account k) = k" "\<not> ai_is_signer (program_account k)"
  "\<not> ai_is_writable (program_account k)" "ai_executable (program_account k)"
  by (simp_all add: signer_account_def program_account_def)

lemma sim_runtime_simps [simp]:
  "rt_find_program_address sim_runtime seeds pid = (sim_key seeds pid, 255)"
  "rt_spl_noop_id sim_runtime = 11" "rt_slot sim_runtime = 7"
  by (simp_all add: sim_runtime_def)

lemma sim_invoke [simp]:
  "vm_borrowed vm = [] \<or> ix_accounts ix = [] \<Longrightarrow>
   invoke_signed sim_runtime ix infos seeds vm = Inr (vm\<lparr>vm_return_data := None\<rparr>)"
  by (auto simp: invoke_signed_def sim_runtime_def list_all_iff)

text \<open>Creating an account for the first time, with a payer that can pay.\<close>

lemma sim_create_pda_eq:
  assumes "vm_ledger vm (ai_key new) = empty_account" and "ai_key payer \<noteq> ai_key new"
    and "acc_lamports (vm_ledger vm (ai_key payer)) = n" and "0 < space" and "space \<le> unat n"
    and "ai_key new \<notin> set (vm_borrowed vm)" "ai_key payer \<notin> set (vm_borrowed vm)"
  shows "create_pda_account sim_runtime payer space pid sp new seeds vm =
    Inr (vm\<lparr>vm_ledger := (vm_ledger vm)
         (ai_key payer := (vm_ledger vm (ai_key payer))\<lparr>acc_lamports := n - word_of_nat space\<rparr>,
          ai_key new := \<lparr>acc_lamports = word_of_nat space, acc_data = replicate space 0, acc_owner = pid\<rparr>),
        vm_return_data := None\<rparr>)"
proof -
  have lt: "space < 2 ^ 64" using assms(5) unsigned_less [of n, where 'a = nat] by (simp add: order_le_less_trans)
  then have sp: "unat (word_of_nat space :: u64) = space" by (simp add: unat_of_nat)
  then have mx: "max (word_of_nat space) 1 = (word_of_nat space :: u64)"
    using assms(4) by (auto simp: max_def word_le_nat_alt le_Suc_eq)
  show ?thesis
    using assms sp lt
    by (auto simp: create_pda_account_def lamports_def empty_account_def invoke_system_signed_def
        sim_runtime_def mx sim_move_def checked_sub_def checked_add_def SYSTEM_PROGRAM_ID_def
        list_all_iff fun_eq_iff word_le_nat_alt)
qed

lemma sim_create_pda:
  assumes "vm_ledger vm (ai_key new) = empty_account" and "ai_key payer \<noteq> ai_key new"
    and "acc_lamports (vm_ledger vm (ai_key payer)) = n" and "0 < space" and "space \<le> unat n"
    and "ai_key new \<notin> set (vm_borrowed vm)" "ai_key payer \<notin> set (vm_borrowed vm)"
  shows "\<exists>n'. create_pda_account sim_runtime payer space pid sp new seeds vm =
    Inr (vm\<lparr>vm_ledger := (vm_ledger vm)
         (ai_key payer := (vm_ledger vm (ai_key payer))\<lparr>acc_lamports := n - word_of_nat space\<rparr>,
          ai_key new := \<lparr>acc_lamports = n', acc_data = replicate space 0, acc_owner = pid\<rparr>),
        vm_return_data := None\<rparr>)"
  using sim_create_pda_eq [OF assms] by blast

end
