(* ===== verification/Interfaces.thy ===== *)
theory Interfaces
  imports Sealevel
begin

text \<open>
  The instruction formats the programs use to call each other:
  \<^verbatim>\<open>interchain-security-module-interface\<close>, \<^verbatim>\<open>message-recipient-interface\<close> and the return data wrapper of
  \<^verbatim>\<open>serializable-account-meta\<close>. An instruction format is an instance of the interface
  \<open>instruction_codec\<close>: what was encoded is decoded.
\<close>

section \<open>Encoding with errors\<close>

text \<open>\<^verbatim>\<open>try_to_vec\<close> fails on a vector longer than its 32 bit count can say.\<close>

definition try_to_vec :: "('a \<Rightarrow> bool) \<Rightarrow> ('a \<Rightarrow> bytes) \<Rightarrow> 'a \<Rightarrow> bytes exec" where
  "try_to_vec valid ser x = (if valid x then Inr (ser x) else Inl (Err BorshIoError))"

locale instruction_codec =
  fixes encode :: "'i \<Rightarrow> bytes exec" and decode :: "bytes \<Rightarrow> 'i exec"
  assumes decode_encode: "encode i = Inr bs \<Longrightarrow> decode bs = Inr i"
begin

lemma encode_inj: "encode i = Inr bs \<Longrightarrow> encode j = Inr bs \<Longrightarrow> i = j"
  by (metis decode_encode sum.inject(2))

end

section \<open>Interchain security modules\<close>

record verify_instruction =
  vi_metadata :: bytes
  vi_message :: bytes

definition ser_verify :: "verify_instruction \<Rightarrow> bytes" where
  "ser_verify i = ser_bytes (vi_metadata i) @ ser_bytes (vi_message i)"

definition de_verify :: "verify_instruction de" where
  "de_verify r =
     rbind (de_bytes r) (\<lambda>(metadata, r).
     rbind (de_bytes r) (\<lambda>(message, r).
     Inr (\<lparr>vi_metadata = metadata, vi_message = message\<rparr>, r)))"

definition verify_valid :: "verify_instruction \<Rightarrow> bool" where
  "verify_valid i \<longleftrightarrow> length (vi_metadata i) < 2 ^ 32 \<and> length (vi_message i) < 2 ^ 32"

datatype ism_instruction =
    IsmType
  | IsmVerify verify_instruction
  | IsmVerifyAccountMetas verify_instruction

definition TYPE_DISCRIMINATOR :: bytes where
  "TYPE_DISCRIMINATOR = [105, 97, 97, 88, 63, 124, 106, 18]"

definition VERIFY_DISCRIMINATOR :: bytes where
  "VERIFY_DISCRIMINATOR = [243, 53, 214, 0, 208, 18, 231, 67]"

definition VERIFY_ACCOUNT_METAS_DISCRIMINATOR :: bytes where
  "VERIFY_ACCOUNT_METAS_DISCRIMINATOR = [200, 65, 157, 12, 89, 255, 131, 216]"

primrec ism_encode :: "ism_instruction \<Rightarrow> bytes exec" where
  "ism_encode IsmType = Inr TYPE_DISCRIMINATOR"
| "ism_encode (IsmVerify i) =
     rbind (try_to_vec verify_valid ser_verify i) (\<lambda>bs. Inr (VERIFY_DISCRIMINATOR @ bs))"
| "ism_encode (IsmVerifyAccountMetas i) =
     rbind (try_to_vec verify_valid ser_verify i) (\<lambda>bs. Inr (VERIFY_ACCOUNT_METAS_DISCRIMINATOR @ bs))"

definition try_from_rest :: "'a de \<Rightarrow> bytes \<Rightarrow> 'a exec" where
  "try_from_rest de rest = map_err (\<lambda>_. Err BorshIoError) (try_from_slice de rest)"

definition ism_decode :: "bytes \<Rightarrow> ism_instruction exec" where
  "ism_decode buf =
     require (\<not> length buf < DISCRIMINATOR_LENGTH) (Err InvalidInstructionData) (
     let discriminator = take DISCRIMINATOR_LENGTH buf; rest = drop DISCRIMINATOR_LENGTH buf in
     if discriminator = TYPE_DISCRIMINATOR then Inr IsmType
     else if discriminator = VERIFY_DISCRIMINATOR
     then rbind (try_from_rest de_verify rest) (\<lambda>i. Inr (IsmVerify i))
     else if discriminator = VERIFY_ACCOUNT_METAS_DISCRIMINATOR
     then rbind (try_from_rest de_verify rest) (\<lambda>i. Inr (IsmVerifyAccountMetas i))
     else Inl (Err InvalidInstructionData))"

section \<open>Message recipients\<close>

record handle_instruction =
  hi_origin :: u32
  hi_sender :: h256
  hi_message :: bytes

definition ser_handle :: "handle_instruction \<Rightarrow> bytes" where
  "ser_handle i = ser_u32 (hi_origin i) @ ser_h256 (hi_sender i) @ ser_bytes (hi_message i)"

definition de_handle :: "handle_instruction de" where
  "de_handle r =
     rbind (de_u32 r) (\<lambda>(origin, r).
     rbind (de_h256 r) (\<lambda>(sender, r).
     rbind (de_bytes r) (\<lambda>(message, r).
     Inr (\<lparr>hi_origin = origin, hi_sender = sender, hi_message = message\<rparr>, r))))"

definition handle_valid :: "handle_instruction \<Rightarrow> bool" where
  "handle_valid i \<longleftrightarrow> length (hi_message i) < 2 ^ 32"

datatype message_recipient_instruction =
    InterchainSecurityModule
  | InterchainSecurityModuleAccountMetas
  | Handle handle_instruction
  | HandleAccountMetas handle_instruction

definition INTERCHAIN_SECURITY_MODULE_DISCRIMINATOR :: bytes where
  "INTERCHAIN_SECURITY_MODULE_DISCRIMINATOR = [45, 18, 245, 87, 234, 46, 246, 15]"

definition INTERCHAIN_SECURITY_MODULE_ACCOUNT_METAS_DISCRIMINATOR :: bytes where
  "INTERCHAIN_SECURITY_MODULE_ACCOUNT_METAS_DISCRIMINATOR = [190, 214, 218, 129, 67, 97, 4, 76]"

definition HANDLE_DISCRIMINATOR :: bytes where
  "HANDLE_DISCRIMINATOR = [33, 210, 5, 66, 196, 212, 239, 142]"

definition HANDLE_ACCOUNT_METAS_DISCRIMINATOR :: bytes where
  "HANDLE_ACCOUNT_METAS_DISCRIMINATOR = [194, 141, 30, 82, 241, 41, 169, 52]"

primrec recipient_encode :: "message_recipient_instruction \<Rightarrow> bytes exec" where
  "recipient_encode InterchainSecurityModule = Inr INTERCHAIN_SECURITY_MODULE_DISCRIMINATOR"
| "recipient_encode InterchainSecurityModuleAccountMetas =
     Inr INTERCHAIN_SECURITY_MODULE_ACCOUNT_METAS_DISCRIMINATOR"
| "recipient_encode (Handle i) =
     rbind (try_to_vec handle_valid ser_handle i) (\<lambda>bs. Inr (HANDLE_DISCRIMINATOR @ bs))"
| "recipient_encode (HandleAccountMetas i) =
     rbind (try_to_vec handle_valid ser_handle i) (\<lambda>bs. Inr (HANDLE_ACCOUNT_METAS_DISCRIMINATOR @ bs))"

definition recipient_decode :: "bytes \<Rightarrow> message_recipient_instruction exec" where
  "recipient_decode buf =
     require (\<not> length buf < DISCRIMINATOR_LENGTH) (Err InvalidInstructionData) (
     let discriminator = take DISCRIMINATOR_LENGTH buf; rest = drop DISCRIMINATOR_LENGTH buf in
     if discriminator = INTERCHAIN_SECURITY_MODULE_DISCRIMINATOR then Inr InterchainSecurityModule
     else if discriminator = INTERCHAIN_SECURITY_MODULE_ACCOUNT_METAS_DISCRIMINATOR
     then Inr InterchainSecurityModuleAccountMetas
     else if discriminator = HANDLE_DISCRIMINATOR
     then rbind (try_from_rest de_handle rest) (\<lambda>i. Inr (Handle i))
     else if discriminator = HANDLE_ACCOUNT_METAS_DISCRIMINATOR
     then rbind (try_from_rest de_handle rest) (\<lambda>i. Inr (HandleAccountMetas i))
     else Inl (Err InvalidInstructionData))"

section \<open>Return data\<close>

text \<open>\<^verbatim>\<open>SimulationReturnData\<close>: the data followed by a byte that is not zero.\<close>

definition ser_simulation :: "('a \<Rightarrow> bytes) \<Rightarrow> 'a \<Rightarrow> bytes" where
  "ser_simulation ser x = ser x @ ser_u8 255"

definition de_simulation :: "'a de \<Rightarrow> ('a \<times> u8) de" where
  "de_simulation de r = rbind (de r) (\<lambda>(x, r). rbind (de_u8 r) (\<lambda>(b, r). Inr ((x, b), r)))"

definition ser_account_meta :: "account_meta \<Rightarrow> bytes" where
  "ser_account_meta m = ser_h256 (am_pubkey m) @ ser_bool (am_is_signer m) @ ser_bool (am_is_writable m)"

definition de_account_meta :: "account_meta de" where
  "de_account_meta r =
     rbind (de_h256 r) (\<lambda>(pubkey, r).
     rbind (de_bool r) (\<lambda>(is_signer, r).
     rbind (de_bool r) (\<lambda>(is_writable, r).
     Inr (\<lparr>am_pubkey = pubkey, am_is_signer = is_signer, am_is_writable = is_writable\<rparr>, r))))"

section \<open>The interfaces hold\<close>

interpretation borsh_verify: borsh ser_verify de_verify verify_valid
  by unfold_locales
     (auto simp: ser_verify_def de_verify_def verify_valid_def result_simps borsh_iffs borsh_bytes.de_ser)

interpretation borsh_handle: borsh ser_handle de_handle handle_valid
  by unfold_locales
     (auto simp: ser_handle_def de_handle_def handle_valid_def result_simps borsh_iffs
        borsh_u32.de_ser borsh_h256.de_ser borsh_bytes.de_ser)

interpretation borsh_account_meta: borsh ser_account_meta de_account_meta always
  by unfold_locales
     (auto simp: ser_account_meta_def de_account_meta_def result_simps borsh_iffs
        borsh_h256.de_ser borsh_bool.de_ser)

lemmas discriminator_defs =
  TYPE_DISCRIMINATOR_def VERIFY_DISCRIMINATOR_def VERIFY_ACCOUNT_METAS_DISCRIMINATOR_def
  INTERCHAIN_SECURITY_MODULE_DISCRIMINATOR_def INTERCHAIN_SECURITY_MODULE_ACCOUNT_METAS_DISCRIMINATOR_def
  HANDLE_DISCRIMINATOR_def HANDLE_ACCOUNT_METAS_DISCRIMINATOR_def DISCRIMINATOR_LENGTH_def

lemma try_to_vec_Inr [result_simps]: "try_to_vec valid ser x = Inr bs \<longleftrightarrow> valid x \<and> bs = ser x"
  by (auto simp: try_to_vec_def)

interpretation ism_codec: instruction_codec ism_encode ism_decode
proof
  fix i bs
  assume "ism_encode i = Inr bs"
  then show "ism_decode bs = Inr i"
    using borsh_verify.try_from_slice_iff
    by (cases i) (auto simp: result_simps ism_decode_def discriminator_defs Let_def try_from_rest_def)
qed

interpretation recipient_codec: instruction_codec recipient_encode recipient_decode
proof
  fix i bs
  assume "recipient_encode i = Inr bs"
  then show "recipient_decode bs = Inr i"
    using borsh_handle.try_from_slice_iff
    by (cases i) (auto simp: result_simps recipient_decode_def discriminator_defs Let_def try_from_rest_def)
qed

section \<open>Properties\<close>

text \<open>
  Instructions survive the trip between programs: what the mailbox encodes for a security module
  or a recipient is decoded there to the same instruction.
\<close>

theorem interface_roundtrip:
  assumes "ism_encode i = Inr bs" and "recipient_encode r = Inr cs"
  shows "ism_decode bs = Inr i \<and> recipient_decode cs = Inr r"
  using ism_codec.decode_encode [OF assms(1)] recipient_codec.decode_encode [OF assms(2)] by simp

theorem interface_roundtrip_witness:
  "\<exists>bs cs. ism_encode (IsmVerify \<lparr>vi_metadata = [1], vi_message = [2, 3]\<rparr>) = Inr bs \<and>
    recipient_encode InterchainSecurityModule = Inr cs \<and>
    ism_decode bs = Inr (IsmVerify \<lparr>vi_metadata = [1], vi_message = [2, 3]\<rparr>)"
proof -
  obtain bs where bs: "ism_encode (IsmVerify \<lparr>vi_metadata = [1], vi_message = [2, 3]\<rparr>) = Inr bs"
    by (simp add: try_to_vec_def verify_valid_def)
  show ?thesis
    using interface_roundtrip [OF bs, of InterchainSecurityModule] bs by auto
qed

end
