(* ===== verification/Mailbox.thy ===== *)
theory Mailbox
  imports Interfaces Message Incremental
begin

text \<open>
  The mailbox program of Solana, \<^verbatim>\<open>sealevel/programs/mailbox\<close>: its accounts (\<^verbatim>\<open>accounts.rs\<close>), seeds
  (\<^verbatim>\<open>pda_seeds.rs\<close>), errors (\<^verbatim>\<open>error.rs\<close>), instruction data (\<^verbatim>\<open>instruction.rs\<close>) and every handler of
  \<^verbatim>\<open>processor.rs\<close>, from the instruction data to the new ledger. The handlers follow the order of the
  checks in the code; \<open>kc\<close> is Keccak-256 and \<open>rt\<close> the Solana runtime.
\<close>

section \<open>Seeds and errors\<close>

definition inbox_seeds :: "bytes list" where
  "inbox_seeds = [str_bytes ''hyperlane'', str_bytes ''-'', str_bytes ''inbox'']"

definition outbox_seeds :: "bytes list" where
  "outbox_seeds = [str_bytes ''hyperlane'', str_bytes ''-'', str_bytes ''outbox'']"

definition dispatched_message_seeds :: "pubkey \<Rightarrow> bytes list" where
  "dispatched_message_seeds unique_message_pubkey =
     [str_bytes ''hyperlane'', str_bytes ''-'', str_bytes ''dispatched_message'', str_bytes ''-'',
      h256_bytes unique_message_pubkey]"

definition dispatch_authority_seeds :: "bytes list" where
  "dispatch_authority_seeds =
     [str_bytes ''hyperlane_dispatcher'', str_bytes ''-'', str_bytes ''dispatch_authority'']"

definition process_authority_seeds :: "pubkey \<Rightarrow> bytes list" where
  "process_authority_seeds recipient_pubkey =
     [str_bytes ''hyperlane'', str_bytes ''-'', str_bytes ''process_authority'', str_bytes ''-'',
      h256_bytes recipient_pubkey]"

definition processed_message_seeds :: "h256 \<Rightarrow> bytes list" where
  "processed_message_seeds message_id =
     [str_bytes ''hyperlane'', str_bytes ''-'', str_bytes ''processed_message'', str_bytes ''-'',
      h256_bytes message_id]"

datatype mailbox_error =
    EncodeError
  | DecodeError
  | UnsupportedMessageVersion
  | DestinationDomainNotLocalDomain
  | MessageAlreadyProcessed
  | ExtraneousAccount
  | MaxMessageSizeExceeded

primrec mailbox_error_code :: "mailbox_error \<Rightarrow> u32" where
  "mailbox_error_code EncodeError = 1"
| "mailbox_error_code DecodeError = 2"
| "mailbox_error_code UnsupportedMessageVersion = 3"
| "mailbox_error_code DestinationDomainNotLocalDomain = 4"
| "mailbox_error_code MessageAlreadyProcessed = 5"
| "mailbox_error_code ExtraneousAccount = 6"
| "mailbox_error_code MaxMessageSizeExceeded = 7"

abbreviation mailbox_err :: "mailbox_error \<Rightarrow> program_error failure" where
  "mailbox_err e \<equiv> Err (Custom (mailbox_error_code e))"

section \<open>Accounts\<close>

record inbox =
  ib_local_domain :: u32
  ib_bump_seed :: u8
  ib_default_ism :: pubkey
  ib_processed_count :: u64

definition inbox_default :: inbox where
  "inbox_default = \<lparr>ib_local_domain = 0, ib_bump_seed = 0, ib_default_ism = 0, ib_processed_count = 0\<rparr>"

definition ser_inbox :: "inbox \<Rightarrow> bytes" where
  "ser_inbox i =
     ser_u32 (ib_local_domain i) @ ser_u8 (ib_bump_seed i) @ ser_h256 (ib_default_ism i) @
     ser_u64 (ib_processed_count i)"

definition de_inbox :: "inbox de" where
  "de_inbox r =
     rbind (de_u32 r) (\<lambda>(local_domain, r).
     rbind (de_u8 r) (\<lambda>(bump, r).
     rbind (de_h256 r) (\<lambda>(default_ism, r).
     rbind (de_u64 r) (\<lambda>(processed_count, r).
     Inr (\<lparr>ib_local_domain = local_domain, ib_bump_seed = bump, ib_default_ism = default_ism,
           ib_processed_count = processed_count\<rparr>, r)))))"

definition inbox_size :: "inbox \<Rightarrow> nat" where
  "inbox_size i = 4 + 1 + 32 + 8"

text \<open>The checks both ways of fetching the inbox make on the data they read.\<close>

definition inbox_verify ::
  "runtime \<Rightarrow> pubkey \<Rightarrow> account_info \<Rightarrow> vm \<Rightarrow> bytes \<Rightarrow> inbox exec" where
  "inbox_verify rt program_id inbox_info vm d =
     rbind (fetch (lift_de de_inbox) inbox_default d) (\<lambda>inbox.
     rbind (create_program_address rt (inbox_seeds @ [[ib_bump_seed inbox]]) program_id) (\<lambda>expected_inbox_key.
     require (ai_key inbox_info = expected_inbox_key) (Err InvalidArgument) (
     require (owner_of inbox_info vm = program_id) (Err IllegalOwner) (
     Inr inbox))))"

definition inbox_fetch :: "runtime \<Rightarrow> pubkey \<Rightarrow> account_info \<Rightarrow> vm \<Rightarrow> inbox exec" where
  "inbox_fetch rt program_id inbox_info vm =
     rbind (borrow_data inbox_info vm) (inbox_verify rt program_id inbox_info vm)"

text \<open>The mutable borrow is handed to the caller: the inbox stays borrowed in the new state.\<close>

definition inbox_fetch_refmut :: "runtime \<Rightarrow> pubkey \<Rightarrow> account_info \<Rightarrow> vm \<Rightarrow> (inbox \<times> vm) exec" where
  "inbox_fetch_refmut rt program_id inbox_info vm =
     rbind (try_borrow_mut_data inbox_info vm) (\<lambda>d.
     rbind (inbox_verify rt program_id inbox_info vm d) (\<lambda>inbox.
     Inr (inbox, vm\<lparr>vm_borrowed := ai_key inbox_info # vm_borrowed vm\<rparr>)))"

record outbox =
  ob_local_domain :: u32
  ob_bump_seed :: u8
  ob_owner :: "pubkey option"
  ob_tree :: incremental_merkle

definition outbox_default :: outbox where
  "outbox_default = \<lparr>ob_local_domain = 0, ob_bump_seed = 0, ob_owner = None, ob_tree = im_default\<rparr>"

definition ser_tree :: "incremental_merkle \<Rightarrow> bytes" where
  "ser_tree t = concat (map ser_h256 (im_branch t)) @ ser_u64 (im_count t)"

definition de_tree :: "incremental_merkle de" where
  "de_tree r =
     rbind (de_list de_h256 TREE_DEPTH r) (\<lambda>(branch, r).
     rbind (de_u64 r) (\<lambda>(count, r).
     Inr (\<lparr>im_branch = branch, im_count = count\<rparr>, r)))"

definition ser_outbox :: "outbox \<Rightarrow> bytes" where
  "ser_outbox x =
     ser_u32 (ob_local_domain x) @ ser_u8 (ob_bump_seed x) @ ser_option ser_h256 (ob_owner x) @
     ser_tree (ob_tree x)"

definition de_outbox :: "outbox de" where
  "de_outbox r =
     rbind (de_u32 r) (\<lambda>(local_domain, r).
     rbind (de_u8 r) (\<lambda>(bump, r).
     rbind (de_option de_h256 r) (\<lambda>(owner, r).
     rbind (de_tree r) (\<lambda>(tree, r).
     Inr (\<lparr>ob_local_domain = local_domain, ob_bump_seed = bump, ob_owner = owner, ob_tree = tree\<rparr>, r)))))"

definition outbox_size :: "outbox \<Rightarrow> nat" where
  "outbox_size x = 4 + 1 + 33 + 1032"

definition outbox_set_owner :: "pubkey option \<Rightarrow> outbox \<Rightarrow> outbox exec" where
  "outbox_set_owner owner x = Inr (x\<lparr>ob_owner := owner\<rparr>)"

definition outbox_fetch :: "runtime \<Rightarrow> pubkey \<Rightarrow> account_info \<Rightarrow> vm \<Rightarrow> outbox exec" where
  "outbox_fetch rt program_id outbox_info vm =
     rbind (borrow_data outbox_info vm) (\<lambda>d.
     rbind (fetch (lift_de de_outbox) outbox_default d) (\<lambda>outbox.
     rbind (create_program_address rt (outbox_seeds @ [[ob_bump_seed outbox]]) program_id) (\<lambda>expected_outbox_key.
     require (ai_key outbox_info = expected_outbox_key) (Err InvalidArgument) (
     require (owner_of outbox_info vm = program_id) (Err IllegalOwner) (
     Inr outbox)))))"

definition DISPATCHED_MESSAGE_DISCRIMINATOR :: bytes where
  "DISPATCHED_MESSAGE_DISCRIMINATOR = str_bytes ''DISPATCH''"

record dispatched_message =
  dm_discriminator :: bytes
  dm_nonce :: u32
  dm_slot :: u64
  dm_unique_message_pubkey :: pubkey
  dm_encoded_message :: bytes

definition dispatched_message_new :: "u32 \<Rightarrow> u64 \<Rightarrow> pubkey \<Rightarrow> bytes \<Rightarrow> dispatched_message" where
  "dispatched_message_new nonce slot unique_message_pubkey encoded_message =
     \<lparr>dm_discriminator = DISPATCHED_MESSAGE_DISCRIMINATOR, dm_nonce = nonce, dm_slot = slot,
      dm_unique_message_pubkey = unique_message_pubkey, dm_encoded_message = encoded_message\<rparr>"

definition dispatched_message_size :: "dispatched_message \<Rightarrow> nat" where
  "dispatched_message_size m = 8 + 4 + 8 + 32 + length (dm_encoded_message m)"

text \<open>The serialization writes the constant discriminator, whatever the field holds.\<close>

definition ser_dispatched_message :: "dispatched_message \<Rightarrow> bytes" where
  "ser_dispatched_message m =
     DISPATCHED_MESSAGE_DISCRIMINATOR @ to_le_bytes 4 (dm_nonce m) @ to_le_bytes 8 (dm_slot m) @
     h256_bytes (dm_unique_message_pubkey m) @ dm_encoded_message m"

definition de_dispatched_message :: "dispatched_message de" where
  "de_dispatched_message r =
     rbind (read_exact 8 r) (\<lambda>(discriminator, r).
     require (discriminator = DISPATCHED_MESSAGE_DISCRIMINATOR) InvalidData (
     rbind (read_exact 4 r) (\<lambda>(nonce, r).
     rbind (read_exact 8 r) (\<lambda>(slot, r).
     rbind (read_exact 32 r) (\<lambda>(unique_message_pubkey, r).
     Inr (\<lparr>dm_discriminator = discriminator, dm_nonce = from_le_bytes nonce,
           dm_slot = from_le_bytes slot,
           dm_unique_message_pubkey = h256_from_slice unique_message_pubkey,
           dm_encoded_message = r\<rparr>, []))))))"

definition PROCESSED_MESSAGE_DISCRIMINATOR :: bytes where
  "PROCESSED_MESSAGE_DISCRIMINATOR = str_bytes ''PROCESSD''"

record processed_message =
  pm_discriminator :: bytes
  pm_sequence :: u64
  pm_message_id :: h256
  pm_slot :: u64

definition processed_message_new :: "u64 \<Rightarrow> h256 \<Rightarrow> u64 \<Rightarrow> processed_message" where
  "processed_message_new sequence message_id slot =
     \<lparr>pm_discriminator = PROCESSED_MESSAGE_DISCRIMINATOR, pm_sequence = sequence,
      pm_message_id = message_id, pm_slot = slot\<rparr>"

definition processed_message_size :: "processed_message \<Rightarrow> nat" where
  "processed_message_size m = 8 + 8 + 32 + 8"

definition ser_processed_message :: "processed_message \<Rightarrow> bytes" where
  "ser_processed_message m =
     pm_discriminator m @ ser_u64 (pm_sequence m) @ ser_h256 (pm_message_id m) @ ser_u64 (pm_slot m)"

definition de_processed_message :: "processed_message de" where
  "de_processed_message r =
     rbind (read_exact 8 r) (\<lambda>(discriminator, r).
     require (discriminator = PROCESSED_MESSAGE_DISCRIMINATOR) InvalidData (
     rbind (read_exact 8 r) (\<lambda>(sequence, r).
     rbind (read_exact 32 r) (\<lambda>(message_id, r).
     rbind (read_exact 8 r) (\<lambda>(slot, r).
     Inr (\<lparr>pm_discriminator = discriminator, pm_sequence = from_le_bytes sequence,
           pm_message_id = h256_from_slice message_id, pm_slot = from_le_bytes slot\<rparr>, r))))))"

section \<open>Instruction data\<close>

definition VERSION :: u8 where
  "VERSION = 3"

definition MAX_MESSAGE_BODY_BYTES :: nat where
  "MAX_MESSAGE_BODY_BYTES = 2 * 2 ^ 10"

record mailbox_init =
  mi_local_domain :: u32
  mi_default_ism :: pubkey

record outbox_dispatch_ix =
  od_sender :: pubkey
  od_destination_domain :: u32
  od_recipient :: h256
  od_message_body :: bytes

record inbox_process_ix =
  ip_metadata :: bytes
  ip_message :: bytes

datatype mailbox_instruction =
    Init mailbox_init
  | InboxProcess inbox_process_ix
  | InboxSetDefaultIsm pubkey
  | InboxGetRecipientIsm pubkey
  | OutboxDispatch outbox_dispatch_ix
  | OutboxGetCount
  | OutboxGetLatestCheckpoint
  | OutboxGetRoot
  | GetOwner
  | TransferOwnership "pubkey option"

primrec ser_mailbox_instruction :: "mailbox_instruction \<Rightarrow> bytes" where
  "ser_mailbox_instruction (Init i) = ser_u8 0 @ ser_u32 (mi_local_domain i) @ ser_h256 (mi_default_ism i)"
| "ser_mailbox_instruction (InboxProcess p) = ser_u8 1 @ ser_bytes (ip_metadata p) @ ser_bytes (ip_message p)"
| "ser_mailbox_instruction (InboxSetDefaultIsm k) = ser_u8 2 @ ser_h256 k"
| "ser_mailbox_instruction (InboxGetRecipientIsm k) = ser_u8 3 @ ser_h256 k"
| "ser_mailbox_instruction (OutboxDispatch d) =
     ser_u8 4 @ ser_h256 (od_sender d) @ ser_u32 (od_destination_domain d) @ ser_h256 (od_recipient d) @
     ser_bytes (od_message_body d)"
| "ser_mailbox_instruction OutboxGetCount = ser_u8 5"
| "ser_mailbox_instruction OutboxGetLatestCheckpoint = ser_u8 6"
| "ser_mailbox_instruction OutboxGetRoot = ser_u8 7"
| "ser_mailbox_instruction GetOwner = ser_u8 8"
| "ser_mailbox_instruction (TransferOwnership k) = ser_u8 9 @ ser_option ser_h256 k"

definition de_mailbox_instruction :: "mailbox_instruction de" where
  "de_mailbox_instruction r =
     rbind (de_u8 r) (\<lambda>(tag, r).
     if tag = 0 then
       rbind (de_u32 r) (\<lambda>(local_domain, r).
       rbind (de_h256 r) (\<lambda>(default_ism, r).
       Inr (Init \<lparr>mi_local_domain = local_domain, mi_default_ism = default_ism\<rparr>, r)))
     else if tag = 1 then
       rbind (de_bytes r) (\<lambda>(metadata, r).
       rbind (de_bytes r) (\<lambda>(message, r).
       Inr (InboxProcess \<lparr>ip_metadata = metadata, ip_message = message\<rparr>, r)))
     else if tag = 2 then rbind (de_h256 r) (\<lambda>(k, r). Inr (InboxSetDefaultIsm k, r))
     else if tag = 3 then rbind (de_h256 r) (\<lambda>(k, r). Inr (InboxGetRecipientIsm k, r))
     else if tag = 4 then
       rbind (de_h256 r) (\<lambda>(sender, r).
       rbind (de_u32 r) (\<lambda>(destination, r).
       rbind (de_h256 r) (\<lambda>(recipient, r).
       rbind (de_bytes r) (\<lambda>(body, r).
       Inr (OutboxDispatch \<lparr>od_sender = sender, od_destination_domain = destination,
                            od_recipient = recipient, od_message_body = body\<rparr>, r)))))
     else if tag = 5 then Inr (OutboxGetCount, r)
     else if tag = 6 then Inr (OutboxGetLatestCheckpoint, r)
     else if tag = 7 then Inr (OutboxGetRoot, r)
     else if tag = 8 then Inr (GetOwner, r)
     else if tag = 9 then rbind (de_option de_h256 r) (\<lambda>(k, r). Inr (TransferOwnership k, r))
     else Inl InvalidData)"

fun mailbox_instruction_valid :: "mailbox_instruction \<Rightarrow> bool" where
  "mailbox_instruction_valid (InboxProcess p) \<longleftrightarrow>
     length (ip_metadata p) < 2 ^ 32 \<and> length (ip_message p) < 2 ^ 32"
| "mailbox_instruction_valid (OutboxDispatch d) \<longleftrightarrow> length (od_message_body d) < 2 ^ 32"
| "mailbox_instruction_valid _ \<longleftrightarrow> True"

definition mailbox_from_instruction_data :: "bytes \<Rightarrow> mailbox_instruction exec" where
  "mailbox_from_instruction_data data =
     map_err (\<lambda>_. Err InvalidInstructionData) (try_from_slice de_mailbox_instruction data)"

definition mailbox_into_instruction_data :: "mailbox_instruction \<Rightarrow> bytes exec" where
  "mailbox_into_instruction_data i = try_to_vec mailbox_instruction_valid ser_mailbox_instruction i"

section \<open>Handlers\<close>

definition meta_of :: "account_info \<Rightarrow> account_meta" where
  "meta_of i =
     \<lparr>am_pubkey = ai_key i, am_is_signer = ai_is_signer i, am_is_writable = ai_is_writable i\<rparr>"

text \<open>\<^verbatim>\<open>count().try_into().expect("Too many messages in outbox tree")\<close>.\<close>

definition count_u32 :: "incremental_merkle \<Rightarrow> u32 exec" where
  "count_u32 t = (if im_count t \<le> 0xffffffff then Inr (ucast (im_count t)) else Inl Panic)"

definition mailbox_initialize ::
  "runtime \<Rightarrow> pubkey \<Rightarrow> account_info list \<Rightarrow> mailbox_init \<Rightarrow> vm \<Rightarrow> vm exec" where
  "mailbox_initialize rt program_id accounts init vm =
     rbind (next_account_info accounts) (\<lambda>(system_program_info, accounts).
     require (ai_key system_program_info = SYSTEM_PROGRAM_ID) (Err InvalidArgument) (
     rbind (next_account_info accounts) (\<lambda>(payer_info, accounts).
     require (ai_is_signer payer_info) (Err MissingRequiredSignature) (
     rbind (next_account_info accounts) (\<lambda>(inbox_info, accounts).
     let (inbox_key, inbox_bump) = rt_find_program_address rt inbox_seeds program_id in
     require (inbox_key = ai_key inbox_info) (Err InvalidArgument) (
     rbind (verify_account_uninitialized inbox_info vm) (\<lambda>_.
     let inbox = \<lparr>ib_local_domain = mi_local_domain init, ib_bump_seed = inbox_bump,
                  ib_default_ism = mi_default_ism init, ib_processed_count = 0\<rparr> in
     rbind (create_pda_account rt payer_info (account_size inbox_size inbox) program_id
              system_program_info inbox_info (inbox_seeds @ [[inbox_bump]]) vm) (\<lambda>vm.
     rbind (store ser_inbox inbox inbox_info False vm) (\<lambda>vm.
     rbind (next_account_info accounts) (\<lambda>(outbox_info, accounts).
     let (outbox_key, outbox_bump) = rt_find_program_address rt outbox_seeds program_id in
     require (outbox_key = ai_key outbox_info) (Err InvalidArgument) (
     rbind (verify_account_uninitialized outbox_info vm) (\<lambda>_.
     let outbox = \<lparr>ob_local_domain = mi_local_domain init, ob_bump_seed = outbox_bump,
                   ob_owner = Some (ai_key payer_info), ob_tree = im_default\<rparr> in
     rbind (create_pda_account rt payer_info (account_size outbox_size outbox) program_id
              system_program_info outbox_info (outbox_seeds @ [[outbox_bump]]) vm) (\<lambda>vm.
     store ser_outbox outbox outbox_info False vm)))))))))))))"

definition get_recipient_ism ::
  "runtime \<Rightarrow> pubkey \<Rightarrow> account_info list \<Rightarrow> account_meta list \<Rightarrow> pubkey \<Rightarrow> vm \<Rightarrow> (pubkey \<times> vm) exec" where
  "get_recipient_ism rt recipient_program_id account_infos account_metas default_ism vm =
     rbind (recipient_encode InterchainSecurityModule) (\<lambda>data.
     rbind (invoke rt \<lparr>ix_program_id = recipient_program_id, ix_accounts = account_metas, ix_data = data\<rparr>
              account_infos vm) (\<lambda>vm.
     case vm_return_data vm of
       Some (returning_program_id, returned_data) \<Rightarrow>
         require (returning_program_id = recipient_program_id) (Err InvalidAccountData) (
         if returned_data = [] then Inr (default_ism, vm)
         else rbind (try_from_rest (de_option de_h256) returned_data) (\<lambda>ism.
              Inr (case ism of None \<Rightarrow> default_ism | Some k \<Rightarrow> k, vm)))
     | None \<Rightarrow> Inr (default_ism, vm)))"

text \<open>
  The loops over \<^verbatim>\<open>accounts_iter.peek()\<close>: the accounts before the first one with the given key, and the
  rest from that one on.
\<close>

fun accounts_until :: "pubkey \<Rightarrow> account_info list \<Rightarrow> (account_info list \<times> account_info list) exec" where
  "accounts_until marker [] = Inl (Err InvalidArgument)"
| "accounts_until marker (i # is) =
     (if ai_key i = marker then Inr ([], i # is)
      else rbind (accounts_until marker is) (\<lambda>(infos, rest). Inr (i # infos, rest)))"

text \<open>The text of the log, with the \<^verbatim>\<open>Debug\<close> form of a hash: its digits in base 16.\<close>

definition hex_digit :: "nat \<Rightarrow> u8" where
  "hex_digit n = word_of_nat (if n < 10 then 48 + n else 87 + n)"

definition hex_of_bytes :: "bytes \<Rightarrow> bytes" where
  "hex_of_bytes bs = concat (map (\<lambda>b. [hex_digit (unat b div 16), hex_digit (unat b mod 16)]) bs)"

definition inbox_log :: "h256 \<Rightarrow> bytes" where
  "inbox_log message_id = str_bytes ''Hyperlane inbox: 0x'' @ hex_of_bytes (h256_bytes message_id)"

text \<open>
  The accounts of \<^verbatim>\<open>inbox_process\<close> after the checks on them, and the ISM the recipient chose: the first
  half of the handler, up to the call of the ISM.
\<close>

record process_context =
  pc_message :: hyperlane_message
  pc_message_id :: h256
  pc_inbox :: inbox
  pc_payer :: account_info
  pc_system :: account_info
  pc_inbox_info :: account_info
  pc_authority :: account_info
  pc_authority_bump :: u8
  pc_processed :: account_info
  pc_processed_bump :: u8
  pc_ism :: pubkey
  pc_ism_infos :: "account_info list"
  pc_recipient_infos :: "account_info list"

definition inbox_process_checks ::
  "keccak \<Rightarrow> runtime \<Rightarrow> pubkey \<Rightarrow> account_info list \<Rightarrow> inbox_process_ix \<Rightarrow> vm \<Rightarrow> (process_context \<times> vm) exec" where
  "inbox_process_checks kc rt program_id accounts process vm =
     rbind (map_err (\<lambda>_. mailbox_err DecodeError) (message_read_from (ip_message process))) (\<lambda>(message, _).
     let message_id = hyperlane_message_id kc message in
     require (msg_version message = VERSION) (mailbox_err UnsupportedMessageVersion) (
     let recipient_program_id = msg_recipient message in
     rbind (next_account_info accounts) (\<lambda>(payer_info, accounts).
     require (ai_is_signer payer_info) (Err MissingRequiredSignature) (
     rbind (next_account_info accounts) (\<lambda>(system_program_info, accounts).
     require (ai_key system_program_info = SYSTEM_PROGRAM_ID) (Err InvalidArgument) (
     rbind (next_account_info accounts) (\<lambda>(inbox_info, accounts).
     rbind (inbox_fetch_refmut rt program_id inbox_info vm) (\<lambda>(inbox, vm).
     require (ib_local_domain inbox = msg_destination message) (mailbox_err DestinationDomainNotLocalDomain) (
     rbind (next_account_info accounts) (\<lambda>(process_authority_info, accounts).
     let (authority_key, authority_bump) =
           rt_find_program_address rt (process_authority_seeds recipient_program_id) program_id in
     require (ai_key process_authority_info = authority_key) (Err InvalidArgument) (
     rbind (next_account_info accounts) (\<lambda>(processed_info, accounts).
     let (processed_key, processed_bump) =
           rt_find_program_address rt (processed_message_seeds message_id) program_id in
     require (ai_key processed_info = processed_key) (Err InvalidArgument) (
     rbind (case verify_account_uninitialized processed_info vm of
              Inl Panic \<Rightarrow> Inl Panic
            | Inl (Err _) \<Rightarrow> Inl (mailbox_err MessageAlreadyProcessed)
            | Inr _ \<Rightarrow> Inr ()) (\<lambda>_.
     let spl_noop_id = rt_spl_noop_id rt in
     rbind (accounts_until spl_noop_id accounts) (\<lambda>(get_ism_infos, accounts).
     rbind (get_recipient_ism rt recipient_program_id get_ism_infos (map meta_of get_ism_infos)
              (ib_default_ism inbox) vm) (\<lambda>(ism, vm).
     rbind (next_account_info accounts) (\<lambda>(spl_noop_info, accounts).
     require (ai_key spl_noop_info = spl_noop_id) (Err InvalidArgument) (
     require (ai_executable spl_noop_info) (Err InvalidArgument) (
     rbind (next_account_info accounts) (\<lambda>(ism_info, accounts).
     require (ism = ai_key ism_info) (Err InvalidArgument) (
     rbind (accounts_until recipient_program_id accounts) (\<lambda>(ism_verify_infos, accounts).
     rbind (next_account_info accounts) (\<lambda>(recipient_info, accounts).
     require (recipient_program_id = ai_key recipient_info) (Err InvalidArgument) (
     require (ai_executable recipient_info) (Err InvalidAccountData) (
     Inr (\<lparr>pc_message = message, pc_message_id = message_id, pc_inbox = inbox, pc_payer = payer_info,
           pc_system = system_program_info, pc_inbox_info = inbox_info,
           pc_authority = process_authority_info, pc_authority_bump = authority_bump,
           pc_processed = processed_info, pc_processed_bump = processed_bump, pc_ism = ism,
           pc_ism_infos = ism_verify_infos, pc_recipient_infos = accounts\<rparr>, vm))))))))))))))))))))))))))"

text \<open>The second half: verify, mark as processed, count, deliver and log, in this order.\<close>

definition inbox_process_deliver ::
  "runtime \<Rightarrow> pubkey \<Rightarrow> inbox_process_ix \<Rightarrow> process_context \<Rightarrow> vm \<Rightarrow> vm exec" where
  "inbox_process_deliver rt program_id process pc vm =
     (let message = pc_message pc; message_id = pc_message_id pc;
          recipient_program_id = msg_recipient message in
     rbind (ism_encode (IsmVerify \<lparr>vi_metadata = ip_metadata process, vi_message = ip_message process\<rparr>)) (\<lambda>data.
     rbind (invoke rt \<lparr>ix_program_id = pc_ism pc, ix_accounts = map meta_of (pc_ism_infos pc), ix_data = data\<rparr>
              (pc_ism_infos pc) vm) (\<lambda>vm.
     let processed = processed_message_new (ib_processed_count (pc_inbox pc)) message_id (rt_slot rt) in
     rbind (create_pda_account rt (pc_payer pc) (account_size processed_message_size processed) program_id
              (pc_system pc) (pc_processed pc)
              (processed_message_seeds message_id @ [[pc_processed_bump pc]]) vm) (\<lambda>vm.
     rbind (store ser_processed_message processed (pc_processed pc) False vm) (\<lambda>vm.
     rbind (checked_add Panic (ib_processed_count (pc_inbox pc)) 1) (\<lambda>processed_count.
     let inbox = (pc_inbox pc)\<lparr>ib_processed_count := processed_count\<rparr>;
         inbox_key = ai_key (pc_inbox_info pc) in
     rbind (ok_or (store_in_slice ser_inbox inbox (acc_data (vm_ledger vm inbox_key)))
              (Err BorshIoError)) (\<lambda>d.
     let vm = write_data inbox_key d vm in
     rbind (recipient_encode
              (Handle \<lparr>hi_origin = msg_origin message, hi_sender = msg_sender message,
                       hi_message = msg_body message\<rparr>)) (\<lambda>data.
     rbind (invoke_signed rt
              \<lparr>ix_program_id = recipient_program_id,
               ix_accounts = \<lparr>am_pubkey = ai_key (pc_authority pc), am_is_signer = True,
                              am_is_writable = False\<rparr> # map meta_of (pc_recipient_infos pc),
               ix_data = data\<rparr>
              (pc_authority pc # pc_recipient_infos pc)
              [process_authority_seeds recipient_program_id @ [[pc_authority_bump pc]]] vm) (\<lambda>vm.
     invoke rt \<lparr>ix_program_id = rt_spl_noop_id rt, ix_accounts = [], ix_data = inbox_log message_id\<rparr>
       [] vm)))))))))"

text \<open>The mutable borrow of the inbox ends with the handler.\<close>

definition inbox_process ::
  "keccak \<Rightarrow> runtime \<Rightarrow> pubkey \<Rightarrow> account_info list \<Rightarrow> inbox_process_ix \<Rightarrow> vm \<Rightarrow> vm exec" where
  "inbox_process kc rt program_id accounts process vm =
     rbind (inbox_process_checks kc rt program_id accounts process vm) (\<lambda>(pc, vm').
     rbind (inbox_process_deliver rt program_id process pc vm') (\<lambda>vm''.
     Inr (vm''\<lparr>vm_borrowed := vm_borrowed vm\<rparr>)))"

definition inbox_get_recipient_ism ::
  "runtime \<Rightarrow> pubkey \<Rightarrow> account_info list \<Rightarrow> pubkey \<Rightarrow> vm \<Rightarrow> vm exec" where
  "inbox_get_recipient_ism rt program_id accounts recipient vm =
     rbind (next_account_info accounts) (\<lambda>(inbox_info, accounts).
     rbind (inbox_fetch rt program_id inbox_info vm) (\<lambda>inbox.
     rbind (next_account_info accounts) (\<lambda>(recipient_info, accounts).
     require (\<not> (recipient \<noteq> ai_key recipient_info \<or> \<not> ai_executable recipient_info)) (Err InvalidArgument) (
     rbind (get_recipient_ism rt recipient accounts (map meta_of accounts) (ib_default_ism inbox) vm) (\<lambda>(ism, vm).
     Inr (set_return_data program_id (ser_simulation ser_h256 ism) vm))))))"

definition inbox_set_default_ism ::
  "runtime \<Rightarrow> pubkey \<Rightarrow> account_info list \<Rightarrow> pubkey \<Rightarrow> vm \<Rightarrow> vm exec" where
  "inbox_set_default_ism rt program_id accounts ism vm =
     rbind (next_account_info accounts) (\<lambda>(inbox_info, accounts).
     rbind (inbox_fetch rt program_id inbox_info vm) (\<lambda>inbox.
     rbind (next_account_info accounts) (\<lambda>(outbox_info, accounts).
     rbind (outbox_fetch rt program_id outbox_info vm) (\<lambda>outbox.
     rbind (next_account_info accounts) (\<lambda>(owner_info, accounts).
     rbind (ensure_owner_signer (ob_owner outbox) owner_info) (\<lambda>_.
     require (accounts = []) (mailbox_err ExtraneousAccount) (
     store ser_inbox (inbox\<lparr>ib_default_ism := ism\<rparr>) inbox_info False vm)))))))"

definition outbox_dispatch ::
  "keccak \<Rightarrow> runtime \<Rightarrow> pubkey \<Rightarrow> account_info list \<Rightarrow> outbox_dispatch_ix \<Rightarrow> vm \<Rightarrow> vm exec" where
  "outbox_dispatch kc rt program_id accounts dispatch vm =
     rbind (next_account_info accounts) (\<lambda>(outbox_info, accounts).
     rbind (outbox_fetch rt program_id outbox_info vm) (\<lambda>outbox.
     rbind (next_account_info accounts) (\<lambda>(sender_signer_info, accounts).
     require (ai_is_signer sender_signer_info) (Err MissingRequiredSignature) (
     require (ai_key sender_signer_info = od_sender dispatch \<or>
              fst (rt_find_program_address rt dispatch_authority_seeds (od_sender dispatch)) =
                ai_key sender_signer_info) (Err MissingRequiredSignature) (
     rbind (next_account_info accounts) (\<lambda>(system_program_info, accounts).
     require (ai_key system_program_info = SYSTEM_PROGRAM_ID) (Err InvalidArgument) (
     rbind (next_account_info accounts) (\<lambda>(spl_noop_info, accounts).
     require (ai_key spl_noop_info = rt_spl_noop_id rt) (Err InvalidArgument) (
     require (ai_executable spl_noop_info) (Err InvalidArgument) (
     rbind (next_account_info accounts) (\<lambda>(payer_info, accounts).
     require (ai_is_signer payer_info) (Err MissingRequiredSignature) (
     rbind (next_account_info accounts) (\<lambda>(unique_message_info, accounts).
     require (ai_is_signer unique_message_info) (Err MissingRequiredSignature) (
     rbind (next_account_info accounts) (\<lambda>(dispatched_info, accounts).
     let (dispatched_key, dispatched_bump) =
           rt_find_program_address rt (dispatched_message_seeds (ai_key unique_message_info)) program_id in
     require (dispatched_key = ai_key dispatched_info) (Err InvalidArgument) (
     rbind (verify_account_uninitialized dispatched_info vm) (\<lambda>_.
     require (accounts = []) (mailbox_err ExtraneousAccount) (
     require (\<not> length (od_message_body dispatch) > MAX_MESSAGE_BODY_BYTES) (mailbox_err MaxMessageSizeExceeded) (
     rbind (count_u32 (ob_tree outbox)) (\<lambda>count.
     let message = \<lparr>msg_version = VERSION, msg_nonce = count, msg_origin = ob_local_domain outbox,
                    msg_sender = od_sender dispatch, msg_destination = od_destination_domain dispatch,
                    msg_recipient = od_recipient dispatch, msg_body = od_message_body dispatch\<rparr>;
         encoded_message = to_vec message_write_to message;
         id = hyperlane_message_id kc message in
     rbind (unwrap (ingest kc id (ob_tree outbox))) (\<lambda>tree.
     let outbox = outbox\<lparr>ob_tree := tree\<rparr>;
         dispatched = dispatched_message_new (msg_nonce message) (rt_slot rt)
                        (ai_key unique_message_info) encoded_message in
     rbind (create_pda_account rt payer_info (account_size dispatched_message_size dispatched) program_id
              system_program_info dispatched_info
              (dispatched_message_seeds (ai_key unique_message_info) @ [[dispatched_bump]]) vm) (\<lambda>vm.
     rbind (store ser_dispatched_message dispatched dispatched_info False vm) (\<lambda>vm.
     rbind (borrow_data dispatched_info vm) (\<lambda>log.
     rbind (invoke rt \<lparr>ix_program_id = ai_key spl_noop_info, ix_accounts = [], ix_data = log\<rparr> [] vm) (\<lambda>vm.
     rbind (store ser_outbox outbox outbox_info True vm) (\<lambda>vm.
     Inr (set_return_data program_id (h256_bytes id) vm)))))))))))))))))))))))))))"

definition outbox_get_count :: "runtime \<Rightarrow> pubkey \<Rightarrow> account_info list \<Rightarrow> vm \<Rightarrow> vm exec" where
  "outbox_get_count rt program_id accounts vm =
     rbind (next_account_info accounts) (\<lambda>(outbox_info, accounts).
     rbind (outbox_fetch rt program_id outbox_info vm) (\<lambda>outbox.
     require (accounts = []) (mailbox_err ExtraneousAccount) (
     rbind (count_u32 (ob_tree outbox)) (\<lambda>count.
     Inr (set_return_data program_id (ser_simulation (to_le_bytes 4) count) vm)))))"

text \<open>\<^verbatim>\<open>buf[a..b].copy_from_slice(src)\<close> panics when the lengths differ or the range is outside.\<close>

definition copy_from_slice :: "bytes \<Rightarrow> nat \<Rightarrow> nat \<Rightarrow> bytes \<Rightarrow> bytes exec" where
  "copy_from_slice buf a b src =
     (if a \<le> b \<and> b \<le> length buf \<and> length src = b - a
      then Inr (take a buf @ src @ drop b buf) else Inl Panic)"

definition outbox_get_latest_checkpoint ::
  "keccak \<Rightarrow> runtime \<Rightarrow> pubkey \<Rightarrow> account_info list \<Rightarrow> vm \<Rightarrow> vm exec" where
  "outbox_get_latest_checkpoint kc rt program_id accounts vm =
     rbind (next_account_info accounts) (\<lambda>(outbox_info, accounts).
     rbind (outbox_fetch rt program_id outbox_info vm) (\<lambda>outbox.
     require (accounts = []) (mailbox_err ExtraneousAccount) (
     let root = im_root kc (ob_tree outbox) in
     rbind (count_u32 (ob_tree outbox)) (\<lambda>count.
     rbind (copy_from_slice (replicate 36 0) 0 31 (h256_bytes root)) (\<lambda>ret_buf.
     rbind (copy_from_slice ret_buf 32 36 (to_le_bytes 4 count)) (\<lambda>ret_buf.
     Inr (set_return_data program_id (ser_simulation ser_bytes ret_buf) vm)))))))"

definition outbox_get_root :: "keccak \<Rightarrow> runtime \<Rightarrow> pubkey \<Rightarrow> account_info list \<Rightarrow> vm \<Rightarrow> vm exec" where
  "outbox_get_root kc rt program_id accounts vm =
     rbind (next_account_info accounts) (\<lambda>(outbox_info, accounts).
     rbind (outbox_fetch rt program_id outbox_info vm) (\<lambda>outbox.
     require (accounts = []) (mailbox_err ExtraneousAccount) (
     let root = im_root kc (ob_tree outbox) in
     Inr (set_return_data program_id (ser_simulation ser_h256 root) vm))))"

definition mailbox_get_owner :: "runtime \<Rightarrow> pubkey \<Rightarrow> account_info list \<Rightarrow> vm \<Rightarrow> vm exec" where
  "mailbox_get_owner rt program_id accounts vm =
     rbind (next_account_info accounts) (\<lambda>(outbox_info, accounts).
     rbind (outbox_fetch rt program_id outbox_info vm) (\<lambda>outbox.
     Inr (set_return_data program_id (ser_simulation (ser_option ser_h256) (ob_owner outbox)) vm)))"

definition mailbox_transfer_ownership ::
  "runtime \<Rightarrow> pubkey \<Rightarrow> account_info list \<Rightarrow> pubkey option \<Rightarrow> vm \<Rightarrow> vm exec" where
  "mailbox_transfer_ownership rt program_id accounts new_owner vm =
     rbind (next_account_info accounts) (\<lambda>(outbox_info, accounts).
     rbind (outbox_fetch rt program_id outbox_info vm) (\<lambda>outbox.
     rbind (next_account_info accounts) (\<lambda>(owner_info, accounts).
     rbind (ac_transfer_ownership ob_owner outbox_set_owner owner_info new_owner outbox) (\<lambda>outbox.
     store ser_outbox outbox outbox_info False vm))))"

definition mailbox_process_instruction ::
  "keccak \<Rightarrow> runtime \<Rightarrow> pubkey \<Rightarrow> account_info list \<Rightarrow> bytes \<Rightarrow> vm \<Rightarrow> vm exec" where
  "mailbox_process_instruction kc rt program_id accounts instruction_data vm =
     rbind (mailbox_from_instruction_data instruction_data) (\<lambda>ix.
     case ix of
       Init i \<Rightarrow> mailbox_initialize rt program_id accounts i vm
     | InboxProcess p \<Rightarrow> inbox_process kc rt program_id accounts p vm
     | InboxSetDefaultIsm ism \<Rightarrow> inbox_set_default_ism rt program_id accounts ism vm
     | InboxGetRecipientIsm r \<Rightarrow> inbox_get_recipient_ism rt program_id accounts r vm
     | OutboxDispatch d \<Rightarrow> outbox_dispatch kc rt program_id accounts d vm
     | OutboxGetCount \<Rightarrow> outbox_get_count rt program_id accounts vm
     | OutboxGetLatestCheckpoint \<Rightarrow> outbox_get_latest_checkpoint kc rt program_id accounts vm
     | OutboxGetRoot \<Rightarrow> outbox_get_root kc rt program_id accounts vm
     | GetOwner \<Rightarrow> mailbox_get_owner rt program_id accounts vm
     | TransferOwnership new_owner \<Rightarrow> mailbox_transfer_ownership rt program_id accounts new_owner vm)"

end
