(* ===== verification/Hash_Map.thy ===== *)
theory Hash_Map
  imports Borsh
begin

text \<open>
  Rust's \<^verbatim>\<open>HashMap\<close> as the Solana programs use it. A map is the association list of its entries in the
  order of the keys, which is also the order in which Borsh writes them; reading inserts the entries
  one by one, so that the last one of a key counts. The operations are an instance of the interface
  \<open>map_ops\<close>, in which updating a map by a list of configurations is shown correct.
\<close>

type_synonym ('k, 'v) hash_map = "('k \<times> 'v) list"

definition hm_get :: "('k, 'v) hash_map \<Rightarrow> 'k \<Rightarrow> 'v option" where
  "hm_get m k = map_of m k"

fun hm_insert :: "'k::linorder \<Rightarrow> 'v \<Rightarrow> ('k, 'v) hash_map \<Rightarrow> ('k, 'v) hash_map" where
  "hm_insert k v [] = [(k, v)]"
| "hm_insert k v ((j, w) # m) =
     (if k < j then (k, v) # (j, w) # m else if k = j then (k, v) # m else (j, w) # hm_insert k v m)"

definition hm_remove :: "'k \<Rightarrow> ('k, 'v) hash_map \<Rightarrow> ('k, 'v) hash_map" where
  "hm_remove k m = filter (\<lambda>(j, _). j \<noteq> k) m"

definition hm_sorted :: "('k::linorder, 'v) hash_map \<Rightarrow> bool" where
  "hm_sorted m \<longleftrightarrow> sorted_wrt (<) (map fst m)"

definition ser_entry :: "('k \<Rightarrow> bytes) \<Rightarrow> ('v \<Rightarrow> bytes) \<Rightarrow> 'k \<times> 'v \<Rightarrow> bytes" where
  "ser_entry serk serv e = serk (fst e) @ serv (snd e)"

definition de_entry :: "'k de \<Rightarrow> 'v de \<Rightarrow> ('k \<times> 'v) de" where
  "de_entry dek dev r = rbind (dek r) (\<lambda>(k, r). rbind (dev r) (\<lambda>(v, r). Inr ((k, v), r)))"

definition ser_hash_map :: "('k \<Rightarrow> bytes) \<Rightarrow> ('v \<Rightarrow> bytes) \<Rightarrow> ('k, 'v) hash_map \<Rightarrow> bytes" where
  "ser_hash_map serk serv m = ser_vec (ser_entry serk serv) m"

definition de_hash_map :: "'k::linorder de \<Rightarrow> 'v de \<Rightarrow> ('k, 'v) hash_map de" where
  "de_hash_map dek dev r =
     rbind (de_vec (de_entry dek dev) r) (\<lambda>(entries, r).
     Inr (fold (\<lambda>(k, v). hm_insert k v) entries [], r))"

section \<open>The interface of maps\<close>

locale map_ops =
  fixes get :: "'m \<Rightarrow> 'k \<Rightarrow> 'v option" and ins :: "'k \<Rightarrow> 'v \<Rightarrow> 'm \<Rightarrow> 'm" and del :: "'k \<Rightarrow> 'm \<Rightarrow> 'm"
  assumes get_ins: "get (ins k v m) j = (if j = k then Some v else get m j)"
    and get_del: "get (del k m) j = (if j = k then None else get m j)"
begin

text \<open>A list of updates: each sets or removes a key, and the last one of a key counts.\<close>

lemma get_updates:
  "get (fold (\<lambda>(k, c). case c of Some v \<Rightarrow> ins k v | None \<Rightarrow> del k) cs m) k =
   (case map_of (rev cs) k of None \<Rightarrow> get m k | Some c \<Rightarrow> c)"
  by (induction cs arbitrary: m) (auto simp: get_ins get_del map_add_def split: option.splits)

end

interpretation hm: map_ops hm_get hm_insert hm_remove
proof
  show "hm_get (hm_insert k v m) j = (if j = k then Some v else hm_get m j)" for k v m and j :: "'a::linorder"
    by (induction m) (auto simp: hm_get_def)
  show "hm_get (hm_remove k m) j = (if j = k then None else hm_get m j)" for k m and j :: "'a::linorder"
    by (induction m) (auto simp: hm_get_def hm_remove_def)
qed

section \<open>The order of the entries\<close>

lemma hm_insert_keys: "fst ` set (hm_insert k v m) = insert k (fst ` set m)"
  by (induction k v m rule: hm_insert.induct) auto

lemma hm_sorted_Cons: "hm_sorted ((k, v) # m) \<longleftrightarrow> (\<forall>j \<in> fst ` set m. k < j) \<and> hm_sorted m"
  by (simp add: hm_sorted_def)

lemma hm_sorted_insert: "hm_sorted m \<Longrightarrow> hm_sorted (hm_insert k v m)"
  by (induction k v m rule: hm_insert.induct) (auto simp: hm_sorted_Cons hm_insert_keys hm_sorted_def)

lemma hm_sorted_remove: "hm_sorted m \<Longrightarrow> hm_sorted (hm_remove k m)"
  by (simp add: hm_sorted_def hm_remove_def sorted_wrt_map sorted_wrt_filter)

lemma hm_insert_snoc: "\<forall>j \<in> fst ` set m. j < k \<Longrightarrow> hm_insert k v m = m @ [(k, v)]"
  by (induction k v m rule: hm_insert.induct) auto

lemma fold_hm_insert: "hm_sorted (m @ es) \<Longrightarrow> fold (\<lambda>(k, v). hm_insert k v) es m = m @ es"
proof (induction es arbitrary: m)
  case Nil
  then show ?case by simp
next
  case (Cons e es)
  obtain k v where e: "e = (k, v)" by (cases e)
  have "\<forall>j \<in> fst ` set m. j < k" using Cons.prems by (auto simp: hm_sorted_def sorted_wrt_append e)
  then show ?case using Cons.IH [of "m @ [e]"] Cons.prems by (simp add: e hm_insert_snoc)
qed

lemma fold_hm_insert_sorted: "hm_sorted m \<Longrightarrow> hm_sorted (fold (\<lambda>(k, v). hm_insert k v) es m)"
  by (induction es arbitrary: m) (auto simp: hm_sorted_insert)

section \<open>Encoding\<close>

lemma borsh_entry:
  assumes "borsh serk dek validk" and "borsh serv dev validv"
  shows "borsh (ser_entry serk serv) (de_entry dek dev) (\<lambda>e. validk (fst e) \<and> validv (snd e))"
proof -
  have iff: "de_entry dek dev bs = Inr (e, rest) \<longleftrightarrow>
      bs = ser_entry serk serv e @ rest \<and> validk (fst e) \<and> validv (snd e)" for bs e rest
    by (cases e)
       (auto simp: de_entry_def ser_entry_def result_simps borsh.de_iff [OF assms(1)] borsh.de_iff [OF assms(2)])
  show ?thesis by unfold_locales (simp_all add: iff)
qed

definition hm_valid :: "('v \<Rightarrow> bool) \<Rightarrow> ('k::linorder, 'v) hash_map \<Rightarrow> bool" where
  "hm_valid validv m \<longleftrightarrow> hm_sorted m \<and> length m < 2 ^ 32 \<and> list_all (\<lambda>e. validv (snd e)) m"

lemma de_ser_hash_map:
  assumes "borsh serk dek always" and "borsh serv dev validv" and "hm_valid validv m"
  shows "de_hash_map dek dev (ser_hash_map serk serv m @ rest) = Inr (m, rest)"
proof -
  have "de_vec (de_entry dek dev) (ser_vec (ser_entry serk serv) m @ rest) = Inr (m, rest)"
    by (rule borsh.de_ser [OF borsh_vec [OF borsh_entry [OF assms(1,2)]]])
       (use assms(3) in \<open>simp add: hm_valid_def list_all_iff\<close>)
  then show ?thesis
    using fold_hm_insert [of "[]" m] assms(3) by (simp add: de_hash_map_def ser_hash_map_def hm_valid_def)
qed

end
