(* ===== verification/Igp.thy ===== *)
theory Igp
  imports Interfaces Hash_Map
begin

text \<open>
  The interchain gas paymaster of Solana, \<^verbatim>\<open>sealevel/programs/hyperlane-sealevel-igp\<close>: its accounts
  (\<^verbatim>\<open>accounts.rs\<close>) with the quoting of gas payments, seeds (\<^verbatim>\<open>pda_seeds.rs\<close>), instructions
  (\<^verbatim>\<open>instruction.rs\<close>) and every handler of \<^verbatim>\<open>processor.rs\<close>.
\<close>

section \<open>Seeds and errors\<close>

definition igp_program_data_seeds :: "bytes list" where
  "igp_program_data_seeds = [str_bytes ''hyperlane_igp'', str_bytes ''-'', str_bytes ''program_data'']"

definition igp_seeds :: "h256 \<Rightarrow> bytes list" where
  "igp_seeds salt =
     [str_bytes ''hyperlane_igp'', str_bytes ''-'', str_bytes ''igp'', str_bytes ''-'', h256_bytes salt]"

definition overhead_igp_seeds :: "h256 \<Rightarrow> bytes list" where
  "overhead_igp_seeds salt =
     [str_bytes ''hyperlane_igp'', str_bytes ''-'', str_bytes ''overhead_igp'', str_bytes ''-'', h256_bytes salt]"

definition igp_gas_payment_seeds :: "pubkey \<Rightarrow> bytes list" where
  "igp_gas_payment_seeds unique_gas_payment_pubkey =
     [str_bytes ''hyperlane_igp'', str_bytes ''-'', str_bytes ''gas_payment'', str_bytes ''-'',
      h256_bytes unique_gas_payment_pubkey]"

datatype igp_error = NoGasOracleSetForDestinationDomain

primrec igp_error_code :: "igp_error \<Rightarrow> u32" where
  "igp_error_code NoGasOracleSetForDestinationDomain = 1"

section \<open>Accounts\<close>

definition TOKEN_EXCHANGE_RATE_SCALE :: u128 where
  "TOKEN_EXCHANGE_RATE_SCALE = 10000000000000000000"

definition SOL_DECIMALS :: u8 where
  "SOL_DECIMALS = 9"

record remote_gas_data =
  rg_token_exchange_rate :: u128
  rg_gas_price :: u128
  rg_token_decimals :: u8

datatype gas_oracle = RemoteGasData remote_gas_data

definition ser_gas_oracle :: "gas_oracle \<Rightarrow> bytes" where
  "ser_gas_oracle o' = (case o' of RemoteGasData d \<Rightarrow>
     ser_u8 0 @ ser_u128 (rg_token_exchange_rate d) @ ser_u128 (rg_gas_price d) @ ser_u8 (rg_token_decimals d))"

definition de_gas_oracle :: "gas_oracle de" where
  "de_gas_oracle r =
     rbind (de_u8 r) (\<lambda>(tag, r).
     require (tag = 0) InvalidData (
     rbind (de_u128 r) (\<lambda>(rate, r).
     rbind (de_u128 r) (\<lambda>(price, r).
     rbind (de_u8 r) (\<lambda>(decimals, r).
     Inr (RemoteGasData \<lparr>rg_token_exchange_rate = rate, rg_gas_price = price, rg_token_decimals = decimals\<rparr>, r))))))"

datatype igp_type = IgpType pubkey | OverheadIgpType pubkey

primrec igp_type_key :: "igp_type \<Rightarrow> pubkey" where
  "igp_type_key (IgpType key) = key"
| "igp_type_key (OverheadIgpType key) = key"

record program_data =
  pd_bump_seed :: u8
  pd_payment_count :: u64

definition program_data_default :: program_data where
  "program_data_default = \<lparr>pd_bump_seed = 0, pd_payment_count = 0\<rparr>"

definition PROGRAM_DATA_DISCRIMINATOR :: bytes where
  "PROGRAM_DATA_DISCRIMINATOR = str_bytes ''PRGMDATA''"

definition ser_program_data :: "program_data \<Rightarrow> bytes" where
  "ser_program_data d = ser_u8 (pd_bump_seed d) @ ser_u64 (pd_payment_count d)"

definition de_program_data :: "program_data de" where
  "de_program_data r =
     rbind (de_u8 r) (\<lambda>(bump, r).
     rbind (de_u64 r) (\<lambda>(count, r).
     Inr (\<lparr>pd_bump_seed = bump, pd_payment_count = count\<rparr>, r)))"

definition program_data_size :: "program_data \<Rightarrow> nat" where
  "program_data_size d = 1 + 8"

record overhead_igp =
  oi_bump_seed :: u8
  oi_salt :: h256
  oi_owner :: "pubkey option"
  oi_inner :: pubkey
  oi_gas_overheads :: "(u32, u64) hash_map"

definition overhead_igp_default :: overhead_igp where
  "overhead_igp_default =
     \<lparr>oi_bump_seed = 0, oi_salt = 0, oi_owner = None, oi_inner = 0, oi_gas_overheads = []\<rparr>"

definition OVERHEAD_IGP_DISCRIMINATOR :: bytes where
  "OVERHEAD_IGP_DISCRIMINATOR = str_bytes ''OVRHDIGP''"

definition ser_overhead_igp :: "overhead_igp \<Rightarrow> bytes" where
  "ser_overhead_igp x =
     ser_u8 (oi_bump_seed x) @ ser_h256 (oi_salt x) @ ser_option ser_h256 (oi_owner x) @
     ser_h256 (oi_inner x) @ ser_hash_map ser_u32 ser_u64 (oi_gas_overheads x)"

definition de_overhead_igp :: "overhead_igp de" where
  "de_overhead_igp r =
     rbind (de_u8 r) (\<lambda>(bump, r).
     rbind (de_h256 r) (\<lambda>(salt, r).
     rbind (de_option de_h256 r) (\<lambda>(owner, r).
     rbind (de_h256 r) (\<lambda>(inner, r).
     rbind (de_hash_map de_u32 de_u64 r) (\<lambda>(gas_overheads, r).
     Inr (\<lparr>oi_bump_seed = bump, oi_salt = salt, oi_owner = owner, oi_inner = inner,
           oi_gas_overheads = gas_overheads\<rparr>, r))))))"

definition overhead_igp_size :: "overhead_igp \<Rightarrow> nat" where
  "overhead_igp_size x = 1 + 32 + 33 + 32 + 4 + length (oi_gas_overheads x) * (4 + 8)"

definition overhead_igp_set_owner :: "pubkey option \<Rightarrow> overhead_igp \<Rightarrow> overhead_igp exec" where
  "overhead_igp_set_owner new_owner x = Inr (x\<lparr>oi_owner := new_owner\<rparr>)"

definition gas_overhead :: "overhead_igp \<Rightarrow> u32 \<Rightarrow> u64" where
  "gas_overhead x destination_domain =
     (case hm_get (oi_gas_overheads x) destination_domain of None \<Rightarrow> 0 | Some g \<Rightarrow> g)"

record igp =
  igp_bump_seed :: u8
  igp_salt :: h256
  igp_owner :: "pubkey option"
  igp_beneficiary :: pubkey
  igp_gas_oracles :: "(u32, gas_oracle) hash_map"

definition igp_default :: igp where
  "igp_default =
     \<lparr>igp_bump_seed = 0, igp_salt = 0, igp_owner = None, igp_beneficiary = 0, igp_gas_oracles = []\<rparr>"

definition IGP_DISCRIMINATOR :: bytes where
  "IGP_DISCRIMINATOR = str_bytes ''IGP_____''"

definition ser_igp :: "igp \<Rightarrow> bytes" where
  "ser_igp x =
     ser_u8 (igp_bump_seed x) @ ser_h256 (igp_salt x) @ ser_option ser_h256 (igp_owner x) @
     ser_h256 (igp_beneficiary x) @ ser_hash_map ser_u32 ser_gas_oracle (igp_gas_oracles x)"

definition de_igp :: "igp de" where
  "de_igp r =
     rbind (de_u8 r) (\<lambda>(bump, r).
     rbind (de_h256 r) (\<lambda>(salt, r).
     rbind (de_option de_h256 r) (\<lambda>(owner, r).
     rbind (de_h256 r) (\<lambda>(beneficiary, r).
     rbind (de_hash_map de_u32 de_gas_oracle r) (\<lambda>(gas_oracles, r).
     Inr (\<lparr>igp_bump_seed = bump, igp_salt = salt, igp_owner = owner, igp_beneficiary = beneficiary,
           igp_gas_oracles = gas_oracles\<rparr>, r))))))"

definition igp_size :: "igp \<Rightarrow> nat" where
  "igp_size x = 1 + 32 + 33 + 32 + 4 + length (igp_gas_oracles x) * (1 + 257)"

definition igp_set_owner :: "pubkey option \<Rightarrow> igp \<Rightarrow> igp exec" where
  "igp_set_owner new_owner x = Inr (x\<lparr>igp_owner := new_owner\<rparr>)"

text \<open>\<^verbatim>\<open>U256\<close> arithmetic panics on overflow, also in \<^verbatim>\<open>pow\<close>.\<close>

definition u256_pow10 :: "nat \<Rightarrow> 'e failure + u256" where
  "u256_pow10 n = (if (10::nat) ^ n < 2 ^ 256 then Inr (10 ^ n) else Inl Panic)"

definition convert_decimals :: "u256 \<Rightarrow> u8 \<Rightarrow> u8 \<Rightarrow> 'e failure + u256" where
  "convert_decimals num from_decimals to_decimals =
     (if from_decimals > to_decimals
      then rbind (u256_pow10 (unat (from_decimals - to_decimals))) (\<lambda>p. Inr (num div p))
      else if from_decimals < to_decimals
      then rbind (u256_pow10 (unat (to_decimals - from_decimals))) (\<lambda>p. checked_mul Panic num p)
      else Inr num)"

text \<open>\<^verbatim>\<open>as_u64\<close> panics when the number does not fit.\<close>

definition as_u64 :: "u256 \<Rightarrow> 'e failure + u64" where
  "as_u64 n = (if unat n < 2 ^ 64 then Inr (ucast n) else Inl Panic)"

definition igp_quote_gas_payment :: "igp \<Rightarrow> u32 \<Rightarrow> u64 \<Rightarrow> igp_error failure + u64" where
  "igp_quote_gas_payment x destination_domain gas_amount =
     rbind (ok_or (hm_get (igp_gas_oracles x) destination_domain)
              (Err NoGasOracleSetForDestinationDomain)) (\<lambda>oracle.
     case oracle of RemoteGasData d \<Rightarrow>
       rbind (checked_mul Panic (ucast gas_amount) (ucast (rg_gas_price d) :: u256)) (\<lambda>destination_gas_cost.
       rbind (checked_mul Panic destination_gas_cost (ucast (rg_token_exchange_rate d))) (\<lambda>scaled.
       let origin_cost = scaled div ucast TOKEN_EXCHANGE_RATE_SCALE in
       rbind (convert_decimals origin_cost (rg_token_decimals d) SOL_DECIMALS) (\<lambda>origin_cost.
       as_u64 origin_cost))))"

definition overhead_quote_gas_payment :: "overhead_igp \<Rightarrow> u32 \<Rightarrow> u64 \<Rightarrow> igp \<Rightarrow> igp_error failure + u64" where
  "overhead_quote_gas_payment x destination_domain gas_amount inner_igp =
     rbind (checked_add Panic (gas_overhead x destination_domain) gas_amount) (\<lambda>total_gas_amount.
     igp_quote_gas_payment inner_igp destination_domain total_gas_amount)"

definition GAS_PAYMENT_DISCRIMINATOR :: bytes where
  "GAS_PAYMENT_DISCRIMINATOR = str_bytes ''GASPAYMT''"

record gas_payment_data =
  gp_sequence_number :: u64
  gp_igp :: pubkey
  gp_destination_domain :: u32
  gp_message_id :: h256
  gp_gas_amount :: u64
  gp_payment :: u64
  gp_unique_gas_payment_pubkey :: pubkey
  gp_slot :: u64

definition ser_gas_payment :: "gas_payment_data \<Rightarrow> bytes" where
  "ser_gas_payment g =
     ser_u64 (gp_sequence_number g) @ ser_h256 (gp_igp g) @ ser_u32 (gp_destination_domain g) @
     ser_h256 (gp_message_id g) @ ser_u64 (gp_gas_amount g) @ ser_u64 (gp_payment g) @
     ser_h256 (gp_unique_gas_payment_pubkey g) @ ser_u64 (gp_slot g)"

definition de_gas_payment :: "gas_payment_data de" where
  "de_gas_payment r =
     rbind (de_u64 r) (\<lambda>(sequence_number, r).
     rbind (de_h256 r) (\<lambda>(igp, r).
     rbind (de_u32 r) (\<lambda>(destination_domain, r).
     rbind (de_h256 r) (\<lambda>(message_id, r).
     rbind (de_u64 r) (\<lambda>(gas_amount, r).
     rbind (de_u64 r) (\<lambda>(payment, r).
     rbind (de_h256 r) (\<lambda>(unique_gas_payment_pubkey, r).
     rbind (de_u64 r) (\<lambda>(slot, r).
     Inr (\<lparr>gp_sequence_number = sequence_number, gp_igp = igp, gp_destination_domain = destination_domain,
           gp_message_id = message_id, gp_gas_amount = gas_amount, gp_payment = payment,
           gp_unique_gas_payment_pubkey = unique_gas_payment_pubkey, gp_slot = slot\<rparr>, r)))))))))"

definition gas_payment_size :: "gas_payment_data \<Rightarrow> nat" where
  "gas_payment_size g = 8 + 32 + 4 + 32 + 8 + 8 + 32 + 8"

section \<open>Instructions\<close>

record init_igp_ix =
  ii_salt :: h256
  ii_owner :: "pubkey option"
  ii_beneficiary :: pubkey

record init_overhead_igp_ix =
  io_salt :: h256
  io_owner :: "pubkey option"
  io_inner :: pubkey

record pay_for_gas_ix =
  pg_message_id :: h256
  pg_destination_domain :: u32
  pg_gas_amount :: u64

record quote_gas_payment_ix =
  qg_destination_domain :: u32
  qg_gas_amount :: u64

record gas_overhead_config =
  go_destination_domain :: u32
  go_gas_overhead :: "u64 option"

record gas_oracle_config =
  gc_domain :: u32
  gc_gas_oracle :: "gas_oracle option"

datatype igp_instruction =
    IgpInit
  | InitIgp init_igp_ix
  | InitOverheadIgp init_overhead_igp_ix
  | PayForGas pay_for_gas_ix
  | QuoteGasPayment quote_gas_payment_ix
  | TransferIgpOwnership "pubkey option"
  | TransferOverheadIgpOwnership "pubkey option"
  | SetIgpBeneficiary pubkey
  | SetDestinationGasOverheads "gas_overhead_config list"
  | SetGasOracleConfigs "gas_oracle_config list"
  | Claim

definition ser_overhead_config :: "gas_overhead_config \<Rightarrow> bytes" where
  "ser_overhead_config c = ser_u32 (go_destination_domain c) @ ser_option ser_u64 (go_gas_overhead c)"

definition de_overhead_config :: "gas_overhead_config de" where
  "de_overhead_config r =
     rbind (de_u32 r) (\<lambda>(domain, r).
     rbind (de_option de_u64 r) (\<lambda>(overhead, r).
     Inr (\<lparr>go_destination_domain = domain, go_gas_overhead = overhead\<rparr>, r)))"

definition ser_oracle_config :: "gas_oracle_config \<Rightarrow> bytes" where
  "ser_oracle_config c = ser_u32 (gc_domain c) @ ser_option ser_gas_oracle (gc_gas_oracle c)"

definition de_oracle_config :: "gas_oracle_config de" where
  "de_oracle_config r =
     rbind (de_u32 r) (\<lambda>(domain, r).
     rbind (de_option de_gas_oracle r) (\<lambda>(oracle, r).
     Inr (\<lparr>gc_domain = domain, gc_gas_oracle = oracle\<rparr>, r)))"

primrec ser_igp_instruction :: "igp_instruction \<Rightarrow> bytes" where
  "ser_igp_instruction IgpInit = ser_u8 0"
| "ser_igp_instruction (InitIgp i) =
     ser_u8 1 @ ser_h256 (ii_salt i) @ ser_option ser_h256 (ii_owner i) @ ser_h256 (ii_beneficiary i)"
| "ser_igp_instruction (InitOverheadIgp i) =
     ser_u8 2 @ ser_h256 (io_salt i) @ ser_option ser_h256 (io_owner i) @ ser_h256 (io_inner i)"
| "ser_igp_instruction (PayForGas p) =
     ser_u8 3 @ ser_h256 (pg_message_id p) @ ser_u32 (pg_destination_domain p) @ ser_u64 (pg_gas_amount p)"
| "ser_igp_instruction (QuoteGasPayment q) =
     ser_u8 4 @ ser_u32 (qg_destination_domain q) @ ser_u64 (qg_gas_amount q)"
| "ser_igp_instruction (TransferIgpOwnership k) = ser_u8 5 @ ser_option ser_h256 k"
| "ser_igp_instruction (TransferOverheadIgpOwnership k) = ser_u8 6 @ ser_option ser_h256 k"
| "ser_igp_instruction (SetIgpBeneficiary k) = ser_u8 7 @ ser_h256 k"
| "ser_igp_instruction (SetDestinationGasOverheads cs) = ser_u8 8 @ ser_vec ser_overhead_config cs"
| "ser_igp_instruction (SetGasOracleConfigs cs) = ser_u8 9 @ ser_vec ser_oracle_config cs"
| "ser_igp_instruction Claim = ser_u8 10"

definition de_igp_instruction :: "igp_instruction de" where
  "de_igp_instruction r =
     rbind (de_u8 r) (\<lambda>(tag, r).
     if tag = 0 then Inr (IgpInit, r)
     else if tag = 1 then
       rbind (de_h256 r) (\<lambda>(salt, r).
       rbind (de_option de_h256 r) (\<lambda>(owner, r).
       rbind (de_h256 r) (\<lambda>(beneficiary, r).
       Inr (InitIgp \<lparr>ii_salt = salt, ii_owner = owner, ii_beneficiary = beneficiary\<rparr>, r))))
     else if tag = 2 then
       rbind (de_h256 r) (\<lambda>(salt, r).
       rbind (de_option de_h256 r) (\<lambda>(owner, r).
       rbind (de_h256 r) (\<lambda>(inner, r).
       Inr (InitOverheadIgp \<lparr>io_salt = salt, io_owner = owner, io_inner = inner\<rparr>, r))))
     else if tag = 3 then
       rbind (de_h256 r) (\<lambda>(message_id, r).
       rbind (de_u32 r) (\<lambda>(domain, r).
       rbind (de_u64 r) (\<lambda>(gas, r).
       Inr (PayForGas \<lparr>pg_message_id = message_id, pg_destination_domain = domain, pg_gas_amount = gas\<rparr>, r))))
     else if tag = 4 then
       rbind (de_u32 r) (\<lambda>(domain, r).
       rbind (de_u64 r) (\<lambda>(gas, r).
       Inr (QuoteGasPayment \<lparr>qg_destination_domain = domain, qg_gas_amount = gas\<rparr>, r)))
     else if tag = 5 then rbind (de_option de_h256 r) (\<lambda>(k, r). Inr (TransferIgpOwnership k, r))
     else if tag = 6 then rbind (de_option de_h256 r) (\<lambda>(k, r). Inr (TransferOverheadIgpOwnership k, r))
     else if tag = 7 then rbind (de_h256 r) (\<lambda>(k, r). Inr (SetIgpBeneficiary k, r))
     else if tag = 8 then rbind (de_vec de_overhead_config r) (\<lambda>(cs, r). Inr (SetDestinationGasOverheads cs, r))
     else if tag = 9 then rbind (de_vec de_oracle_config r) (\<lambda>(cs, r). Inr (SetGasOracleConfigs cs, r))
     else if tag = 10 then Inr (Claim, r)
     else Inl InvalidData)"

fun igp_instruction_valid :: "igp_instruction \<Rightarrow> bool" where
  "igp_instruction_valid (SetDestinationGasOverheads cs) \<longleftrightarrow> length cs < 2 ^ 32"
| "igp_instruction_valid (SetGasOracleConfigs cs) \<longleftrightarrow> length cs < 2 ^ 32"
| "igp_instruction_valid _ \<longleftrightarrow> True"

section \<open>Handlers\<close>

text \<open>Account data behind a discriminator.\<close>

definition fetch_prefixed :: "bytes \<Rightarrow> 'a de \<Rightarrow> 'a \<Rightarrow> account_info \<Rightarrow> vm \<Rightarrow> 'a exec" where
  "fetch_prefixed discriminator de dflt i vm =
     rbind (borrow_data i vm) (fetch (de_discriminator discriminator de) dflt)"

definition igp_err :: "igp_error failure + 'a \<Rightarrow> 'a exec" where
  "igp_err = map_err (\<lambda>f. case f of Err e \<Rightarrow> Err (Custom (igp_error_code e)) | Panic \<Rightarrow> Panic)"

definition check_system_program :: "account_info list \<Rightarrow> (account_info \<times> account_info list) exec" where
  "check_system_program accounts =
     rbind (next_account_info accounts) (\<lambda>(system_program_info, accounts).
     require (ai_key system_program_info = SYSTEM_PROGRAM_ID) (Err IncorrectProgramId) (
     Inr (system_program_info, accounts)))"

definition igp_init :: "runtime \<Rightarrow> pubkey \<Rightarrow> account_info list \<Rightarrow> vm \<Rightarrow> vm exec" where
  "igp_init rt program_id accounts vm =
     rbind (check_system_program accounts) (\<lambda>(system_program_info, accounts).
     rbind (next_account_info accounts) (\<lambda>(payer_info, accounts).
     require (ai_is_signer payer_info) (Err MissingRequiredSignature) (
     rbind (next_account_info accounts) (\<lambda>(program_data_info, accounts).
     rbind (verify_account_uninitialized program_data_info vm) (\<lambda>_.
     let (program_data_key, program_data_bump) = rt_find_program_address rt igp_program_data_seeds program_id in
     require (ai_key program_data_info = program_data_key) (Err InvalidSeeds) (
     let program_data = \<lparr>pd_bump_seed = program_data_bump, pd_payment_count = 0\<rparr> in
     rbind (create_pda_account rt payer_info (account_size (discriminator_size program_data_size) program_data)
              program_id system_program_info program_data_info
              (igp_program_data_seeds @ [[program_data_bump]]) vm) (\<lambda>vm.
     store (ser_discriminator PROGRAM_DATA_DISCRIMINATOR ser_program_data) program_data
       program_data_info False vm)))))))"

definition init_igp_variant ::
  "runtime \<Rightarrow> pubkey \<Rightarrow> account_info list \<Rightarrow> (u8 \<Rightarrow> 'a) \<Rightarrow> bytes list \<Rightarrow> bytes \<Rightarrow> ('a \<Rightarrow> bytes) \<Rightarrow> ('a \<Rightarrow> nat) \<Rightarrow>
     vm \<Rightarrow> vm exec" where
  "init_igp_variant rt program_id accounts get_data pda_seeds discriminator ser size' vm =
     rbind (check_system_program accounts) (\<lambda>(system_program_info, accounts).
     rbind (next_account_info accounts) (\<lambda>(payer_info, accounts).
     require (ai_is_signer payer_info) (Err MissingRequiredSignature) (
     rbind (next_account_info accounts) (\<lambda>(igp_info, accounts).
     rbind (verify_account_uninitialized igp_info vm) (\<lambda>_.
     let (igp_key, igp_bump) = rt_find_program_address rt pda_seeds program_id in
     require (ai_key igp_info = igp_key) (Err InvalidSeeds) (
     let igp_account = get_data igp_bump in
     rbind (create_pda_account rt payer_info (account_size (discriminator_size size') igp_account)
              program_id system_program_info igp_info (pda_seeds @ [[igp_bump]]) vm) (\<lambda>vm.
     store (ser_discriminator discriminator ser) igp_account igp_info False vm)))))))"

definition init_igp :: "runtime \<Rightarrow> pubkey \<Rightarrow> account_info list \<Rightarrow> init_igp_ix \<Rightarrow> vm \<Rightarrow> vm exec" where
  "init_igp rt program_id accounts data vm =
     init_igp_variant rt program_id accounts
       (\<lambda>bump_seed. \<lparr>igp_bump_seed = bump_seed, igp_salt = ii_salt data, igp_owner = ii_owner data,
                     igp_beneficiary = ii_beneficiary data, igp_gas_oracles = []\<rparr>)
       (igp_seeds (ii_salt data)) IGP_DISCRIMINATOR ser_igp igp_size vm"

definition init_overhead_igp ::
  "runtime \<Rightarrow> pubkey \<Rightarrow> account_info list \<Rightarrow> init_overhead_igp_ix \<Rightarrow> vm \<Rightarrow> vm exec" where
  "init_overhead_igp rt program_id accounts data vm =
     init_igp_variant rt program_id accounts
       (\<lambda>bump_seed. \<lparr>oi_bump_seed = bump_seed, oi_salt = io_salt data, oi_owner = io_owner data,
                     oi_inner = io_inner data, oi_gas_overheads = []\<rparr>)
       (overhead_igp_seeds (io_salt data)) OVERHEAD_IGP_DISCRIMINATOR ser_overhead_igp overhead_igp_size vm"

text \<open>The gas amount with the overhead of the optional last account.\<close>

definition pay_gas_amount ::
  "runtime \<Rightarrow> pubkey \<Rightarrow> account_info list \<Rightarrow> account_info \<Rightarrow> u32 \<Rightarrow> u64 \<Rightarrow> vm \<Rightarrow> u64 exec" where
  "pay_gas_amount rt program_id accounts igp_info destination_domain gas_amount vm =
     (case accounts of
        [] \<Rightarrow> Inr gas_amount
      | overhead_igp_info # _ \<Rightarrow>
          require (owner_of overhead_igp_info vm = program_id) (Err IncorrectProgramId) (
          rbind (fetch_prefixed OVERHEAD_IGP_DISCRIMINATOR de_overhead_igp overhead_igp_default
                   overhead_igp_info vm) (\<lambda>overhead_igp.
          rbind (create_program_address rt
                   (overhead_igp_seeds (oi_salt overhead_igp) @ [[oi_bump_seed overhead_igp]]) program_id)
            (\<lambda>overhead_igp_key.
          require (\<not> (overhead_igp_key \<noteq> ai_key overhead_igp_info \<or> oi_inner overhead_igp \<noteq> ai_key igp_info))
            (Err InvalidArgument) (
          checked_add Panic (gas_overhead overhead_igp destination_domain) gas_amount)))))"

definition pay_for_gas ::
  "runtime \<Rightarrow> pubkey \<Rightarrow> account_info list \<Rightarrow> pay_for_gas_ix \<Rightarrow> vm \<Rightarrow> vm exec" where
  "pay_for_gas rt program_id accounts payment vm =
     rbind (check_system_program accounts) (\<lambda>(system_program_info, accounts).
     rbind (next_account_info accounts) (\<lambda>(payer_info, accounts).
     require (ai_is_signer payer_info) (Err MissingRequiredSignature) (
     rbind (next_account_info accounts) (\<lambda>(program_data_info, accounts).
     rbind (fetch_prefixed PROGRAM_DATA_DISCRIMINATOR de_program_data program_data_default
              program_data_info vm) (\<lambda>program_data.
     rbind (create_program_address rt (igp_program_data_seeds @ [[pd_bump_seed program_data]]) program_id)
       (\<lambda>expected_program_data_key.
     require (ai_key program_data_info = expected_program_data_key) (Err InvalidSeeds) (
     require (owner_of program_data_info vm = program_id) (Err IncorrectProgramId) (
     rbind (next_account_info accounts) (\<lambda>(unique_gas_payment_account_info, accounts).
     require (ai_is_signer unique_gas_payment_account_info) (Err MissingRequiredSignature) (
     rbind (next_account_info accounts) (\<lambda>(gas_payment_account_info, accounts).
     let (gas_payment_key, gas_payment_bump) =
           rt_find_program_address rt (igp_gas_payment_seeds (ai_key unique_gas_payment_account_info)) program_id in
     require (ai_key gas_payment_account_info = gas_payment_key) (Err InvalidSeeds) (
     rbind (verify_account_uninitialized gas_payment_account_info vm) (\<lambda>_.
     rbind (next_account_info accounts) (\<lambda>(igp_info, accounts).
     require (owner_of igp_info vm = program_id) (Err IncorrectProgramId) (
     rbind (fetch_prefixed IGP_DISCRIMINATOR de_igp igp_default igp_info vm) (\<lambda>igp.
     rbind (create_program_address rt (igp_seeds (igp_salt igp) @ [[igp_bump_seed igp]]) program_id) (\<lambda>igp_key.
     require (ai_key igp_info = igp_key) (Err InvalidSeeds) (
     rbind (pay_gas_amount rt program_id accounts igp_info (pg_destination_domain payment)
              (pg_gas_amount payment) vm) (\<lambda>gas_amount.
     rbind (igp_err (igp_quote_gas_payment igp (pg_destination_domain payment) gas_amount)) (\<lambda>required_payment.
     rbind (invoke_system rt (SysTransfer (ai_key payer_info) (ai_key igp_info) required_payment)
              [payer_info, igp_info] vm) (\<lambda>vm.
     let gas_payment = \<lparr>gp_sequence_number = pd_payment_count program_data, gp_igp = ai_key igp_info,
           gp_destination_domain = pg_destination_domain payment, gp_message_id = pg_message_id payment,
           gp_gas_amount = gas_amount, gp_payment = required_payment,
           gp_unique_gas_payment_pubkey = ai_key unique_gas_payment_account_info, gp_slot = rt_slot rt\<rparr> in
     rbind (create_pda_account rt payer_info (account_size (discriminator_size gas_payment_size) gas_payment)
              program_id system_program_info gas_payment_account_info
              (igp_gas_payment_seeds (ai_key unique_gas_payment_account_info) @ [[gas_payment_bump]]) vm) (\<lambda>vm.
     rbind (store (ser_discriminator GAS_PAYMENT_DISCRIMINATOR ser_gas_payment) gas_payment
              gas_payment_account_info False vm) (\<lambda>vm.
     rbind (checked_add Panic (pd_payment_count program_data) 1) (\<lambda>payment_count.
     store (ser_discriminator PROGRAM_DATA_DISCRIMINATOR ser_program_data)
       (program_data\<lparr>pd_payment_count := payment_count\<rparr>) program_data_info False vm))))))))))))))))))))))))"

definition quote_gas_payment ::
  "runtime \<Rightarrow> pubkey \<Rightarrow> account_info list \<Rightarrow> quote_gas_payment_ix \<Rightarrow> vm \<Rightarrow> vm exec" where
  "quote_gas_payment rt program_id accounts payment vm =
     rbind (check_system_program accounts) (\<lambda>(system_program_info, accounts).
     rbind (next_account_info accounts) (\<lambda>(igp_info, accounts).
     require (owner_of igp_info vm = program_id) (Err IncorrectProgramId) (
     rbind (case accounts of
              [] \<Rightarrow> Inr (qg_gas_amount payment)
            | overhead_igp_info # _ \<Rightarrow>
                require (owner_of overhead_igp_info vm = program_id) (Err IncorrectProgramId) (
                rbind (fetch_prefixed OVERHEAD_IGP_DISCRIMINATOR de_overhead_igp overhead_igp_default
                         overhead_igp_info vm) (\<lambda>overhead_igp.
                require (oi_inner overhead_igp = ai_key igp_info) (Err InvalidArgument) (
                checked_add Panic (gas_overhead overhead_igp (qg_destination_domain payment))
                  (qg_gas_amount payment))))) (\<lambda>gas_amount.
     rbind (fetch_prefixed IGP_DISCRIMINATOR de_igp igp_default igp_info vm) (\<lambda>igp.
     rbind (igp_err (igp_quote_gas_payment igp (qg_destination_domain payment) gas_amount)) (\<lambda>required_payment.
     Inr (set_return_data program_id (ser_simulation ser_u64 required_payment) vm)))))))"

definition get_igp_variant_and_verify_owner ::
  "pubkey \<Rightarrow> account_info list \<Rightarrow> bytes \<Rightarrow> 'a de \<Rightarrow> 'a \<Rightarrow> ('a \<Rightarrow> pubkey option) \<Rightarrow> vm \<Rightarrow>
     (account_info \<times> 'a \<times> account_info) exec" where
  "get_igp_variant_and_verify_owner program_id accounts discriminator de dflt owner vm =
     rbind (next_account_info accounts) (\<lambda>(igp_info, accounts).
     require (owner_of igp_info vm = program_id) (Err IncorrectProgramId) (
     rbind (fetch_prefixed discriminator de dflt igp_info vm) (\<lambda>igp.
     rbind (next_account_info accounts) (\<lambda>(owner_info, accounts).
     rbind (ensure_owner_signer (owner igp) owner_info) (\<lambda>_.
     Inr (igp_info, igp, owner_info))))))"

abbreviation get_igp where
  "get_igp program_id accounts vm \<equiv>
     get_igp_variant_and_verify_owner program_id accounts IGP_DISCRIMINATOR de_igp igp_default igp_owner vm"

abbreviation get_overhead_igp where
  "get_overhead_igp program_id accounts vm \<equiv>
     get_igp_variant_and_verify_owner program_id accounts OVERHEAD_IGP_DISCRIMINATOR de_overhead_igp
       overhead_igp_default oi_owner vm"

definition set_igp_beneficiary :: "pubkey \<Rightarrow> account_info list \<Rightarrow> pubkey \<Rightarrow> vm \<Rightarrow> vm exec" where
  "set_igp_beneficiary program_id accounts beneficiary vm =
     rbind (get_igp program_id accounts vm) (\<lambda>(igp_info, igp, _).
     store (ser_discriminator IGP_DISCRIMINATOR ser_igp) (igp\<lparr>igp_beneficiary := beneficiary\<rparr>) igp_info False vm)"

definition transfer_igp_variant_ownership ::
  "pubkey \<Rightarrow> account_info list \<Rightarrow> bytes \<Rightarrow> 'a de \<Rightarrow> ('a \<Rightarrow> bytes) \<Rightarrow> 'a \<Rightarrow> ('a \<Rightarrow> pubkey option) \<Rightarrow>
     (pubkey option \<Rightarrow> 'a \<Rightarrow> 'a exec) \<Rightarrow> pubkey option \<Rightarrow> vm \<Rightarrow> vm exec" where
  "transfer_igp_variant_ownership program_id accounts discriminator de ser dflt owner set_owner new_owner vm =
     rbind (get_igp_variant_and_verify_owner program_id accounts discriminator de dflt owner vm)
       (\<lambda>(igp_info, igp, _).
     rbind (set_owner new_owner igp) (\<lambda>igp.
     store (ser_discriminator discriminator ser) igp igp_info False vm))"

definition set_lamports :: "pubkey \<Rightarrow> u64 \<Rightarrow> vm \<Rightarrow> vm" where
  "set_lamports k n vm =
     vm\<lparr>vm_ledger := (vm_ledger vm)(k := (vm_ledger vm k)\<lparr>acc_lamports := n\<rparr>)\<rparr>"

definition igp_claim :: "runtime \<Rightarrow> pubkey \<Rightarrow> account_info list \<Rightarrow> vm \<Rightarrow> vm exec" where
  "igp_claim rt program_id accounts vm =
     rbind (check_system_program accounts) (\<lambda>(system_program_info, accounts).
     rbind (next_account_info accounts) (\<lambda>(igp_info, accounts).
     require (owner_of igp_info vm = program_id) (Err IncorrectProgramId) (
     rbind (fetch_prefixed IGP_DISCRIMINATOR de_igp igp_default igp_info vm) (\<lambda>igp.
     rbind (create_program_address rt (igp_seeds (igp_salt igp) @ [[igp_bump_seed igp]]) program_id)
       (\<lambda>expected_igp_key.
     require (ai_key igp_info = expected_igp_key) (Err InvalidSeeds) (
     rbind (next_account_info accounts) (\<lambda>(igp_beneficiary', accounts).
     require (ai_key igp_beneficiary' = igp_beneficiary igp) (Err InvalidArgument) (
     rbind (borrow_data igp_info vm) (\<lambda>d.
     let required_balance = rt_minimum_balance rt (length d);
         transfer_amount = saturating_sub (lamports igp_info vm) required_balance in
     rbind (checked_sub Panic (lamports igp_info vm) transfer_amount) (\<lambda>n.
     let vm = set_lamports (ai_key igp_info) n vm in
     rbind (checked_add Panic (lamports igp_beneficiary' vm) transfer_amount) (\<lambda>n.
     let vm = set_lamports (ai_key igp_beneficiary') n vm in
     rbind (verify_rent_exempt rt igp_info vm) (\<lambda>_.
     Inr vm))))))))))))"

definition overhead_config_update :: "gas_overhead_config \<Rightarrow> (u32, u64) hash_map \<Rightarrow> (u32, u64) hash_map" where
  "overhead_config_update config m =
     (case go_gas_overhead config of
        Some g \<Rightarrow> hm_insert (go_destination_domain config) g m
      | None \<Rightarrow> hm_remove (go_destination_domain config) m)"

definition set_destination_gas_overheads ::
  "runtime \<Rightarrow> pubkey \<Rightarrow> account_info list \<Rightarrow> gas_overhead_config list \<Rightarrow> vm \<Rightarrow> vm exec" where
  "set_destination_gas_overheads rt program_id accounts configs vm =
     rbind (check_system_program accounts) (\<lambda>(system_program_info, accounts).
     rbind (get_overhead_igp program_id accounts vm) (\<lambda>(overhead_igp_info, overhead_igp, owner_info).
     let overhead_igp = overhead_igp\<lparr>oi_gas_overheads := fold overhead_config_update configs (oi_gas_overheads overhead_igp)\<rparr> in
     store_with_rent_exempt_realloc rt (ser_discriminator OVERHEAD_IGP_DISCRIMINATOR ser_overhead_igp)
       (discriminator_size overhead_igp_size) overhead_igp overhead_igp_info owner_info vm))"

definition oracle_config_update ::
  "gas_oracle_config \<Rightarrow> (u32, gas_oracle) hash_map \<Rightarrow> (u32, gas_oracle) hash_map" where
  "oracle_config_update config m =
     (case gc_gas_oracle config of
        Some gas_oracle \<Rightarrow> hm_insert (gc_domain config) gas_oracle m
      | None \<Rightarrow> hm_remove (gc_domain config) m)"

definition set_gas_oracle_configs ::
  "runtime \<Rightarrow> pubkey \<Rightarrow> account_info list \<Rightarrow> gas_oracle_config list \<Rightarrow> vm \<Rightarrow> vm exec" where
  "set_gas_oracle_configs rt program_id accounts configs vm =
     rbind (check_system_program accounts) (\<lambda>(system_program_info, accounts).
     rbind (get_igp program_id accounts vm) (\<lambda>(igp_info, igp, owner_info).
     let igp = igp\<lparr>igp_gas_oracles := fold oracle_config_update configs (igp_gas_oracles igp)\<rparr> in
     store_with_rent_exempt_realloc rt (ser_discriminator IGP_DISCRIMINATOR ser_igp)
       (discriminator_size igp_size) igp igp_info owner_info vm))"

definition igp_process_instruction ::
  "runtime \<Rightarrow> pubkey \<Rightarrow> account_info list \<Rightarrow> bytes \<Rightarrow> vm \<Rightarrow> vm exec" where
  "igp_process_instruction rt program_id accounts instruction_data vm =
     rbind (try_from_rest de_igp_instruction instruction_data) (\<lambda>ix.
     case ix of
       IgpInit \<Rightarrow> igp_init rt program_id accounts vm
     | InitIgp data \<Rightarrow> init_igp rt program_id accounts data vm
     | InitOverheadIgp data \<Rightarrow> init_overhead_igp rt program_id accounts data vm
     | PayForGas payment \<Rightarrow> pay_for_gas rt program_id accounts payment vm
     | QuoteGasPayment payment \<Rightarrow> quote_gas_payment rt program_id accounts payment vm
     | TransferIgpOwnership new_owner \<Rightarrow>
         transfer_igp_variant_ownership program_id accounts IGP_DISCRIMINATOR de_igp ser_igp igp_default
           igp_owner igp_set_owner new_owner vm
     | TransferOverheadIgpOwnership new_owner \<Rightarrow>
         transfer_igp_variant_ownership program_id accounts OVERHEAD_IGP_DISCRIMINATOR de_overhead_igp
           ser_overhead_igp overhead_igp_default oi_owner overhead_igp_set_owner new_owner vm
     | SetIgpBeneficiary beneficiary \<Rightarrow> set_igp_beneficiary program_id accounts beneficiary vm
     | Claim \<Rightarrow> igp_claim rt program_id accounts vm
     | SetDestinationGasOverheads configs \<Rightarrow> set_destination_gas_overheads rt program_id accounts configs vm
     | SetGasOracleConfigs configs \<Rightarrow> set_gas_oracle_configs rt program_id accounts configs vm)"

end
