(* ===== verification/Token_Lib.thy ===== *)
theory Token_Lib
  imports Mailbox Igp
begin

text \<open>
  The library of the token bridge on Solana: \<^verbatim>\<open>sealevel/libraries/hyperlane-sealevel-token\<close> and
  \<^verbatim>\<open>sealevel/libraries/hyperlane-sealevel-connection-client\<close>, whose traits it implements. A token
  program is the library with a plugin that moves the tokens; the trait \<^verbatim>\<open>HyperlaneSealevelTokenPlugin\<close> is
  the record \<open>token_plugin\<close>, and the type of the plugin's data is \<open>'p\<close>. The entry points of the three
  token programs differ only in the plugin, \<open>token_process_instruction\<close> is their common form.
\<close>

section \<open>Messages\<close>

record token_message =
  tm_recipient :: h256
  tm_amount_or_id :: u256
  tm_metadata :: bytes

definition token_message_write_to :: "token_message \<Rightarrow> written" where
  "token_message_write_to m =
     (h256_bytes (tm_recipient m) @ to_be_bytes 32 (tm_amount_or_id m) @ tm_metadata m,
      32 + 32 + length (tm_metadata m))"

definition token_message_read_from :: "bytes \<Rightarrow> io_error + token_message \<times> bytes" where
  "token_message_read_from r =
     rbind (read_exact 32 r) (\<lambda>(recipient, r).
     rbind (read_exact 32 r) (\<lambda>(amount_or_id, r).
     Inr (\<lparr>tm_recipient = h256_from_slice recipient, tm_amount_or_id = from_be_bytes amount_or_id,
           tm_metadata = r\<rparr>, [])))"

section \<open>Accounts\<close>

record 'p hyperlane_token =
  ht_bump :: u8
  ht_mailbox :: pubkey
  ht_mailbox_process_authority :: pubkey
  ht_dispatch_authority_bump :: u8
  ht_decimals :: u8
  ht_remote_decimals :: u8
  ht_owner :: "pubkey option"
  ht_interchain_security_module :: "pubkey option"
  ht_interchain_gas_paymaster :: "(pubkey \<times> igp_type) option"
  ht_destination_gas :: "(u32, u64) hash_map"
  ht_remote_routers :: "(u32, h256) hash_map"
  ht_plugin_data :: 'p

record 'p token_plugin =
  tp_ser :: "'p \<Rightarrow> bytes"
  tp_de :: "'p de"
  tp_default :: 'p
  tp_size :: "'p \<Rightarrow> nat"
  tp_initialize :: "runtime \<Rightarrow> pubkey \<Rightarrow> account_info \<Rightarrow> account_info \<Rightarrow> account_info \<Rightarrow> account_info list \<Rightarrow>
     vm \<Rightarrow> ('p \<times> account_info list \<times> vm) exec"
  tp_transfer_in :: "runtime \<Rightarrow> pubkey \<Rightarrow> 'p hyperlane_token \<Rightarrow> account_info \<Rightarrow> account_info list \<Rightarrow> u64 \<Rightarrow>
     vm \<Rightarrow> (account_info list \<times> vm) exec"
  tp_transfer_out :: "runtime \<Rightarrow> pubkey \<Rightarrow> 'p hyperlane_token \<Rightarrow> account_info \<Rightarrow> account_info \<Rightarrow>
     account_info list \<Rightarrow> u64 \<Rightarrow> vm \<Rightarrow> (account_info list \<times> vm) exec"
  tp_transfer_out_account_metas :: "runtime \<Rightarrow> pubkey \<Rightarrow> 'p hyperlane_token \<Rightarrow> token_message \<Rightarrow>
     (account_meta list \<times> bool) exec"

definition hyperlane_token_seeds :: "bytes list" where
  "hyperlane_token_seeds =
     [str_bytes ''hyperlane_message_recipient'', str_bytes ''-'', str_bytes ''handle'', str_bytes ''-'',
      str_bytes ''account_metas'']"

primrec ser_igp_type :: "igp_type \<Rightarrow> bytes" where
  "ser_igp_type (IgpType k) = ser_u8 0 @ ser_h256 k"
| "ser_igp_type (OverheadIgpType k) = ser_u8 1 @ ser_h256 k"

definition de_igp_type :: "igp_type de" where
  "de_igp_type r =
     rbind (de_u8 r) (\<lambda>(tag, r).
     if tag = 0 then rbind (de_h256 r) (\<lambda>(k, r). Inr (IgpType k, r))
     else if tag = 1 then rbind (de_h256 r) (\<lambda>(k, r). Inr (OverheadIgpType k, r))
     else Inl InvalidData)"

definition ser_igp_pair :: "pubkey \<times> igp_type \<Rightarrow> bytes" where
  "ser_igp_pair p = ser_h256 (fst p) @ ser_igp_type (snd p)"

definition de_igp_pair :: "(pubkey \<times> igp_type) de" where
  "de_igp_pair r =
     rbind (de_h256 r) (\<lambda>(k, r). rbind (de_igp_type r) (\<lambda>(t, r). Inr ((k, t), r)))"

definition ser_hyperlane_token :: "'p token_plugin \<Rightarrow> 'p hyperlane_token \<Rightarrow> bytes" where
  "ser_hyperlane_token P t =
     ser_u8 (ht_bump t) @ ser_h256 (ht_mailbox t) @ ser_h256 (ht_mailbox_process_authority t) @
     ser_u8 (ht_dispatch_authority_bump t) @ ser_u8 (ht_decimals t) @ ser_u8 (ht_remote_decimals t) @
     ser_option ser_h256 (ht_owner t) @ ser_option ser_h256 (ht_interchain_security_module t) @
     ser_option ser_igp_pair (ht_interchain_gas_paymaster t) @
     ser_hash_map ser_u32 ser_u64 (ht_destination_gas t) @
     ser_hash_map ser_u32 ser_h256 (ht_remote_routers t) @ tp_ser P (ht_plugin_data t)"

definition de_hyperlane_token :: "'p token_plugin \<Rightarrow> 'p hyperlane_token de" where
  "de_hyperlane_token P r =
     rbind (de_u8 r) (\<lambda>(bump, r).
     rbind (de_h256 r) (\<lambda>(mailbox, r).
     rbind (de_h256 r) (\<lambda>(process_authority, r).
     rbind (de_u8 r) (\<lambda>(dispatch_bump, r).
     rbind (de_u8 r) (\<lambda>(decimals, r).
     rbind (de_u8 r) (\<lambda>(remote_decimals, r).
     rbind (de_option de_h256 r) (\<lambda>(owner, r).
     rbind (de_option de_h256 r) (\<lambda>(ism, r).
     rbind (de_option de_igp_pair r) (\<lambda>(igp, r).
     rbind (de_hash_map de_u32 de_u64 r) (\<lambda>(gas, r).
     rbind (de_hash_map de_u32 de_h256 r) (\<lambda>(routers, r).
     rbind (tp_de P r) (\<lambda>(plugin_data, r).
     Inr (\<lparr>ht_bump = bump, ht_mailbox = mailbox, ht_mailbox_process_authority = process_authority,
           ht_dispatch_authority_bump = dispatch_bump, ht_decimals = decimals,
           ht_remote_decimals = remote_decimals, ht_owner = owner,
           ht_interchain_security_module = ism, ht_interchain_gas_paymaster = igp,
           ht_destination_gas = gas, ht_remote_routers = routers, ht_plugin_data = plugin_data\<rparr>, r)))))))))))))"

definition hyperlane_token_default :: "'p token_plugin \<Rightarrow> 'p hyperlane_token" where
  "hyperlane_token_default P =
     \<lparr>ht_bump = 0, ht_mailbox = 0, ht_mailbox_process_authority = 0, ht_dispatch_authority_bump = 0,
      ht_decimals = 0, ht_remote_decimals = 0, ht_owner = None, ht_interchain_security_module = None,
      ht_interchain_gas_paymaster = None, ht_destination_gas = [], ht_remote_routers = [],
      ht_plugin_data = tp_default P\<rparr>"

definition hyperlane_token_size :: "'p token_plugin \<Rightarrow> 'p hyperlane_token \<Rightarrow> nat" where
  "hyperlane_token_size P t =
     1 + 32 + 32 + 1 + 1 + 1 + (1 + 32) + (1 + 32) + (1 + 32 + 1 + 32) +
     4 + length (ht_destination_gas t) * (4 + 8) +
     4 + length (ht_remote_routers t) * (4 + 32) + tp_size P (ht_plugin_data t)"

definition token_set_owner :: "pubkey option \<Rightarrow> 'p hyperlane_token \<Rightarrow> 'p hyperlane_token exec" where
  "token_set_owner new_owner t = Inr (t\<lparr>ht_owner := new_owner\<rparr>)"

text \<open>The account of the token: \<^verbatim>\<open>verify_account_and_fetch_inner\<close>, and the same checks written out.\<close>

definition token_fetch ::
  "'p token_plugin \<Rightarrow> runtime \<Rightarrow> pubkey \<Rightarrow> account_info \<Rightarrow> vm \<Rightarrow> 'p hyperlane_token exec" where
  "token_fetch P rt program_id token_account vm =
     rbind (rbind (borrow_data token_account vm)
       (fetch (lift_de (de_hyperlane_token P)) (hyperlane_token_default P))) (\<lambda>token.
     rbind (create_program_address rt (hyperlane_token_seeds @ [[ht_bump token]]) program_id) (\<lambda>expected_token_key.
     require (ai_key token_account = expected_token_key) (Err InvalidArgument) (
     require (owner_of token_account vm = program_id) (Err IncorrectProgramId) (
     Inr token))))"

subsection \<open>Amounts\<close>

text \<open>\<^verbatim>\<open>checked_pow\<close> and \<^verbatim>\<open>checked_mul\<close>: \<open>None\<close> is an overflow.\<close>

definition u256_checked_pow10 :: "nat \<Rightarrow> u256 option" where
  "u256_checked_pow10 n = (if (10::nat) ^ n < 2 ^ 256 then Some (10 ^ n) else None)"

definition token_convert_decimals :: "u256 \<Rightarrow> u8 \<Rightarrow> u8 \<Rightarrow> u256 option" where
  "token_convert_decimals amount from_decimals to_decimals =
     (if from_decimals > to_decimals
      then (case u256_checked_pow10 (unat (from_decimals - to_decimals)) of
              None \<Rightarrow> None
            | Some d \<Rightarrow> if d = 0 then None else Some (amount div d))
      else if from_decimals < to_decimals
      then (case u256_checked_pow10 (unat (to_decimals - from_decimals)) of
              None \<Rightarrow> None
            | Some m \<Rightarrow> if unat amount * unat m < 2 ^ 256 then Some (amount * m) else None)
      else Some amount)"

definition local_amount_to_remote_amount :: "'p hyperlane_token \<Rightarrow> u64 \<Rightarrow> u256 exec" where
  "local_amount_to_remote_amount t amount =
     ok_or (token_convert_decimals (ucast amount) (ht_decimals t) (ht_remote_decimals t))
       (Err InvalidArgument)"

definition remote_amount_to_local_amount :: "'p hyperlane_token \<Rightarrow> u256 \<Rightarrow> u64 exec" where
  "remote_amount_to_local_amount t amount =
     rbind (ok_or (token_convert_decimals amount (ht_remote_decimals t) (ht_decimals t))
       (Err InvalidArgument)) as_u64"

section \<open>The connection client\<close>

record remote_router_config =
  rr_domain :: u32
  rr_router :: "h256 option"

record gas_router_config =
  gr_domain :: u32
  gr_gas :: "u64 option"

definition token_enroll_remote_router ::
  "remote_router_config \<Rightarrow> 'p hyperlane_token \<Rightarrow> 'p hyperlane_token" where
  "token_enroll_remote_router config t =
     t\<lparr>ht_remote_routers :=
        (case rr_router config of
           Some router \<Rightarrow> hm_insert (rr_domain config) router (ht_remote_routers t)
         | None \<Rightarrow> hm_remove (rr_domain config) (ht_remote_routers t))\<rparr>"

definition token_set_destination_gas ::
  "gas_router_config \<Rightarrow> 'p hyperlane_token \<Rightarrow> 'p hyperlane_token" where
  "token_set_destination_gas config t =
     t\<lparr>ht_destination_gas :=
        (case gr_gas config of
           Some gas \<Rightarrow> hm_insert (gr_domain config) gas (ht_destination_gas t)
         | None \<Rightarrow> hm_remove (gr_domain config) (ht_destination_gas t))\<rparr>"

definition only_owner ::
  "('p hyperlane_token \<Rightarrow> 'p hyperlane_token) \<Rightarrow> account_info \<Rightarrow> 'p hyperlane_token \<Rightarrow> 'p hyperlane_token exec" where
  "only_owner change maybe_owner t =
     rbind (ensure_owner_signer (ht_owner t) maybe_owner) (\<lambda>_. Inr (change t))"

definition set_mailbox_only_owner :: "pubkey \<Rightarrow> account_info \<Rightarrow> 'p hyperlane_token \<Rightarrow> 'p hyperlane_token exec" where
  "set_mailbox_only_owner new_mailbox = only_owner (\<lambda>t. t\<lparr>ht_mailbox := new_mailbox\<rparr>)"

definition ensure_mailbox_process_authority_signer :: "'p hyperlane_token \<Rightarrow> account_info \<Rightarrow> unit exec" where
  "ensure_mailbox_process_authority_signer t maybe_authority =
     require (ht_mailbox_process_authority t = ai_key maybe_authority) (Err InvalidArgument) (
     require (ai_is_signer maybe_authority) (Err MissingRequiredSignature) (
     Inr ()))"

definition is_remote_router :: "'p hyperlane_token \<Rightarrow> u32 \<Rightarrow> h256 \<Rightarrow> bool" where
  "is_remote_router t origin maybe_router \<longleftrightarrow> hm_get (ht_remote_routers t) origin = Some maybe_router"

definition only_remote_router :: "'p hyperlane_token \<Rightarrow> u32 \<Rightarrow> h256 \<Rightarrow> unit exec" where
  "only_remote_router t origin maybe_router =
     require (is_remote_router t origin maybe_router) (Err InvalidInstructionData) (Inr ())"

definition ensure_valid_router_message ::
  "'p hyperlane_token \<Rightarrow> account_info \<Rightarrow> u32 \<Rightarrow> h256 \<Rightarrow> unit exec" where
  "ensure_valid_router_message t maybe_mailbox_process_authority origin sender =
     rbind (ensure_mailbox_process_authority_signer t maybe_mailbox_process_authority) (\<lambda>_.
     only_remote_router t origin sender)"

definition router_dispatch ::
  "runtime \<Rightarrow> 'p hyperlane_token \<Rightarrow> pubkey \<Rightarrow> bytes list \<Rightarrow> u32 \<Rightarrow> bytes \<Rightarrow> account_meta list \<Rightarrow>
     account_info list \<Rightarrow> vm \<Rightarrow> (h256 \<times> vm) exec" where
  "router_dispatch rt t program_id authority_seeds destination_domain message_body account_metas
     account_infos vm =
     rbind (ok_or (hm_get (ht_remote_routers t) destination_domain) (Err InvalidArgument)) (\<lambda>recipient.
     rbind (mailbox_into_instruction_data (OutboxDispatch
       \<lparr>od_sender = program_id, od_destination_domain = destination_domain, od_recipient = recipient,
        od_message_body = message_body\<rparr>)) (\<lambda>data.
     rbind (invoke_signed rt
       \<lparr>ix_program_id = ht_mailbox t, ix_accounts = account_metas, ix_data = data\<rparr> account_infos
       [authority_seeds] vm) (\<lambda>vm.
     rbind (ok_or (vm_return_data vm) (Err InvalidArgument)) (\<lambda>(returning_program_id, returned_data).
     require (returning_program_id = ht_mailbox t) (Err InvalidArgument) (
     rbind (map_err (\<lambda>_. Err InvalidArgument) (try_from_slice de_h256 returned_data)) (\<lambda>message_id.
     Inr (message_id, vm)))))))"

definition router_dispatch_with_gas ::
  "runtime \<Rightarrow> 'p hyperlane_token \<Rightarrow> pubkey \<Rightarrow> bytes list \<Rightarrow> u32 \<Rightarrow> bytes \<Rightarrow> u64 \<Rightarrow> account_meta list \<Rightarrow>
     account_info list \<Rightarrow> account_meta list \<Rightarrow> account_info list \<Rightarrow> vm \<Rightarrow> (h256 \<times> vm) exec" where
  "router_dispatch_with_gas rt t program_id authority_seeds destination_domain message_body gas_amount
     dispatch_account_metas dispatch_account_infos payment_account_metas payment_account_infos vm =
     rbind (router_dispatch rt t program_id authority_seeds destination_domain message_body
       dispatch_account_metas dispatch_account_infos vm) (\<lambda>(message_id, vm).
     rbind (ok_or (ht_interchain_gas_paymaster t) (Err InvalidArgument)) (\<lambda>(igp_program_id, _).
     rbind (invoke rt
       \<lparr>ix_program_id = igp_program_id, ix_accounts = payment_account_metas,
        ix_data = ser_igp_instruction (PayForGas
          \<lparr>pg_message_id = message_id, pg_destination_domain = destination_domain,
           pg_gas_amount = gas_amount\<rparr>)\<rparr> payment_account_infos vm) (\<lambda>vm.
     Inr (message_id, vm))))"

definition gas_router_dispatch_with_gas ::
  "runtime \<Rightarrow> 'p hyperlane_token \<Rightarrow> pubkey \<Rightarrow> bytes list \<Rightarrow> u32 \<Rightarrow> bytes \<Rightarrow> account_meta list \<Rightarrow>
     account_info list \<Rightarrow> account_meta list \<Rightarrow> account_info list \<Rightarrow> vm \<Rightarrow> (h256 \<times> vm) exec" where
  "gas_router_dispatch_with_gas rt t program_id authority_seeds destination_domain message_body
     dispatch_account_metas dispatch_account_infos payment_account_metas payment_account_infos vm =
     rbind (ok_or (hm_get (ht_destination_gas t) destination_domain) (Err InvalidArgument)) (\<lambda>gas.
     router_dispatch_with_gas rt t program_id authority_seeds destination_domain message_body gas
       dispatch_account_metas dispatch_account_infos payment_account_metas payment_account_infos vm)"

section \<open>Instructions\<close>

datatype token_error = TokenExtraneousAccount | IntegerOverflow | MessageDecodeError

primrec token_error_code :: "token_error \<Rightarrow> u32" where
  "token_error_code TokenExtraneousAccount = 1"
| "token_error_code IntegerOverflow = 2"
| "token_error_code MessageDecodeError = 3"

abbreviation token_err :: "token_error \<Rightarrow> program_error failure" where
  "token_err e \<equiv> Err (Custom (token_error_code e))"

record token_init =
  ti_mailbox :: pubkey
  ti_interchain_security_module :: "pubkey option"
  ti_interchain_gas_paymaster :: "(pubkey \<times> igp_type) option"
  ti_decimals :: u8
  ti_remote_decimals :: u8

record transfer_remote_ix =
  tr_destination_domain :: u32
  tr_recipient :: h256
  tr_amount_or_id :: u256

datatype token_instruction =
    TokenInit token_init
  | TransferRemote transfer_remote_ix
  | EnrollRemoteRouter remote_router_config
  | EnrollRemoteRouters "remote_router_config list"
  | SetDestinationGasConfigs "gas_router_config list"
  | SetInterchainSecurityModule "pubkey option"
  | SetInterchainGasPaymaster "(pubkey \<times> igp_type) option"
  | TokenTransferOwnership "pubkey option"

definition ser_router_config :: "remote_router_config \<Rightarrow> bytes" where
  "ser_router_config c = ser_u32 (rr_domain c) @ ser_option ser_h256 (rr_router c)"

definition de_router_config :: "remote_router_config de" where
  "de_router_config r =
     rbind (de_u32 r) (\<lambda>(domain, r).
     rbind (de_option de_h256 r) (\<lambda>(router, r). Inr (\<lparr>rr_domain = domain, rr_router = router\<rparr>, r)))"

definition ser_gas_config :: "gas_router_config \<Rightarrow> bytes" where
  "ser_gas_config c = ser_u32 (gr_domain c) @ ser_option ser_u64 (gr_gas c)"

definition de_gas_config :: "gas_router_config de" where
  "de_gas_config r =
     rbind (de_u32 r) (\<lambda>(domain, r).
     rbind (de_option de_u64 r) (\<lambda>(gas, r). Inr (\<lparr>gr_domain = domain, gr_gas = gas\<rparr>, r)))"

text \<open>\<^verbatim>\<open>U256\<close> is serialized as four little endian words of 64 bits.\<close>

definition ser_u256 :: "u256 \<Rightarrow> bytes" where
  "ser_u256 x = to_le_bytes 32 x"

definition de_u256 :: "u256 de" where
  "de_u256 r = rbind (read_exact 32 r) (\<lambda>(bs, r). Inr (from_le_bytes bs, r))"

primrec ser_token_instruction :: "token_instruction \<Rightarrow> bytes" where
  "ser_token_instruction (TokenInit i) =
     ser_u8 0 @ ser_h256 (ti_mailbox i) @ ser_option ser_h256 (ti_interchain_security_module i) @
     ser_option ser_igp_pair (ti_interchain_gas_paymaster i) @ ser_u8 (ti_decimals i) @
     ser_u8 (ti_remote_decimals i)"
| "ser_token_instruction (TransferRemote x) =
     ser_u8 1 @ ser_u32 (tr_destination_domain x) @ ser_h256 (tr_recipient x) @
     ser_u256 (tr_amount_or_id x)"
| "ser_token_instruction (EnrollRemoteRouter c) = ser_u8 2 @ ser_router_config c"
| "ser_token_instruction (EnrollRemoteRouters cs) = ser_u8 3 @ ser_vec ser_router_config cs"
| "ser_token_instruction (SetDestinationGasConfigs cs) = ser_u8 4 @ ser_vec ser_gas_config cs"
| "ser_token_instruction (SetInterchainSecurityModule m) = ser_u8 5 @ ser_option ser_h256 m"
| "ser_token_instruction (SetInterchainGasPaymaster m) = ser_u8 6 @ ser_option ser_igp_pair m"
| "ser_token_instruction (TokenTransferOwnership w) = ser_u8 7 @ ser_option ser_h256 w"

definition de_token_instruction :: "token_instruction de" where
  "de_token_instruction r =
     rbind (de_u8 r) (\<lambda>(tag, r).
     if tag = 0 then
       rbind (de_h256 r) (\<lambda>(mailbox, r).
       rbind (de_option de_h256 r) (\<lambda>(ism, r).
       rbind (de_option de_igp_pair r) (\<lambda>(igp, r).
       rbind (de_u8 r) (\<lambda>(decimals, r).
       rbind (de_u8 r) (\<lambda>(remote_decimals, r).
       Inr (TokenInit \<lparr>ti_mailbox = mailbox, ti_interchain_security_module = ism,
              ti_interchain_gas_paymaster = igp, ti_decimals = decimals,
              ti_remote_decimals = remote_decimals\<rparr>, r))))))
     else if tag = 1 then
       rbind (de_u32 r) (\<lambda>(destination, r).
       rbind (de_h256 r) (\<lambda>(recipient, r).
       rbind (de_u256 r) (\<lambda>(amount, r).
       Inr (TransferRemote \<lparr>tr_destination_domain = destination, tr_recipient = recipient,
              tr_amount_or_id = amount\<rparr>, r))))
     else if tag = 2 then rbind (de_router_config r) (\<lambda>(c, r). Inr (EnrollRemoteRouter c, r))
     else if tag = 3 then rbind (de_vec de_router_config r) (\<lambda>(cs, r). Inr (EnrollRemoteRouters cs, r))
     else if tag = 4 then rbind (de_vec de_gas_config r) (\<lambda>(cs, r). Inr (SetDestinationGasConfigs cs, r))
     else if tag = 5 then rbind (de_option de_h256 r) (\<lambda>(m, r). Inr (SetInterchainSecurityModule m, r))
     else if tag = 6 then rbind (de_option de_igp_pair r) (\<lambda>(m, r). Inr (SetInterchainGasPaymaster m, r))
     else if tag = 7 then rbind (de_option de_h256 r) (\<lambda>(w, r). Inr (TokenTransferOwnership w, r))
     else Inl InvalidData)"

definition token_decode :: "bytes \<Rightarrow> token_instruction exec" where
  "token_decode = discriminator_decode PROGRAM_INSTRUCTION_DISCRIMINATOR de_token_instruction"

section \<open>Handlers\<close>

definition meta_new :: "pubkey \<Rightarrow> bool \<Rightarrow> account_meta" where
  "meta_new k is_signer = \<lparr>am_pubkey = k, am_is_signer = is_signer, am_is_writable = True\<rparr>"

definition meta_new_readonly :: "pubkey \<Rightarrow> bool \<Rightarrow> account_meta" where
  "meta_new_readonly k is_signer = \<lparr>am_pubkey = k, am_is_signer = is_signer, am_is_writable = False\<rparr>"

definition token_initialize ::
  "'p token_plugin \<Rightarrow> runtime \<Rightarrow> pubkey \<Rightarrow> account_info list \<Rightarrow> token_init \<Rightarrow> vm \<Rightarrow> vm exec" where
  "token_initialize P rt program_id accounts init vm =
     rbind (next_account_info accounts) (\<lambda>(system_program, accounts).
     require (ai_key system_program = SYSTEM_PROGRAM_ID) (Err IncorrectProgramId) (
     rbind (next_account_info accounts) (\<lambda>(token_account, accounts).
     let (token_key, token_bump) = rt_find_program_address rt hyperlane_token_seeds program_id in
     require (token_key = ai_key token_account) (Err IncorrectProgramId) (
     rbind (verify_account_uninitialized token_account vm) (\<lambda>_.
     rbind (next_account_info accounts) (\<lambda>(dispatch_authority_account, accounts).
     let (dispatch_authority_key, dispatch_authority_bump) =
           rt_find_program_address rt dispatch_authority_seeds program_id in
     require (ai_key dispatch_authority_account = dispatch_authority_key) (Err IncorrectProgramId) (
     rbind (verify_account_uninitialized dispatch_authority_account vm) (\<lambda>_.
     rbind (next_account_info accounts) (\<lambda>(payer_account, accounts).
     require (ai_is_signer payer_account) (Err MissingRequiredSignature) (
     let (mailbox_process_authority, _) =
           rt_find_program_address rt (process_authority_seeds program_id) (ti_mailbox init) in
     rbind (tp_initialize P rt program_id system_program token_account payer_account accounts vm)
       (\<lambda>(plugin_data, accounts, vm).
     require (accounts = []) (token_err TokenExtraneousAccount) (
     let token = \<lparr>ht_bump = token_bump, ht_mailbox = ti_mailbox init,
                  ht_mailbox_process_authority = mailbox_process_authority,
                  ht_dispatch_authority_bump = dispatch_authority_bump,
                  ht_decimals = ti_decimals init, ht_remote_decimals = ti_remote_decimals init,
                  ht_owner = Some (ai_key payer_account),
                  ht_interchain_security_module = ti_interchain_security_module init,
                  ht_interchain_gas_paymaster = ti_interchain_gas_paymaster init,
                  ht_destination_gas = [], ht_remote_routers = [], ht_plugin_data = plugin_data\<rparr> in
     rbind (create_pda_account rt payer_account (account_size (hyperlane_token_size P) token) program_id
              system_program token_account (hyperlane_token_seeds @ [[token_bump]]) vm) (\<lambda>vm.
     rbind (create_pda_account rt payer_account 0 program_id system_program dispatch_authority_account
              (dispatch_authority_seeds @ [[dispatch_authority_bump]]) vm) (\<lambda>vm.
     store (ser_hyperlane_token P) token token_account False vm))))))))))))))"

text \<open>The accounts of the gas payment, if the token has a paymaster.\<close>

definition igp_payment_accounts ::
  "(pubkey \<times> igp_type) option \<Rightarrow> account_info \<Rightarrow> account_info \<Rightarrow> account_info \<Rightarrow> account_info list \<Rightarrow>
     ((account_meta list \<times> account_info list) option \<times> account_info list) exec" where
  "igp_payment_accounts igp system_program_account sender_wallet unique_message_account accounts =
     (case igp of
        None \<Rightarrow> Inr (None, accounts)
      | Some (igp_program_id, igp_account_type) \<Rightarrow>
          rbind (next_account_info accounts) (\<lambda>(igp_program_account, accounts).
          require (ai_key igp_program_account = igp_program_id) (Err InvalidArgument) (
          rbind (next_account_info accounts) (\<lambda>(igp_program_data_account, accounts).
          rbind (next_account_info accounts) (\<lambda>(igp_payment_pda_account, accounts).
          rbind (next_account_info accounts) (\<lambda>(configured_igp_account, accounts).
          require (ai_key configured_igp_account = igp_type_key igp_account_type) (Err InvalidArgument) (
          let metas = [meta_new_readonly SYSTEM_PROGRAM_ID False, meta_new (ai_key sender_wallet) True,
                       meta_new (ai_key igp_program_data_account) False,
                       meta_new_readonly (ai_key unique_message_account) True,
                       meta_new (ai_key igp_payment_pda_account) False];
              infos = [system_program_account, sender_wallet, igp_program_data_account,
                       unique_message_account, igp_payment_pda_account] in
          (case igp_account_type of
             IgpType _ \<Rightarrow>
               Inr (Some (metas @ [meta_new (ai_key configured_igp_account) False],
                          infos @ [configured_igp_account]), accounts)
           | OverheadIgpType _ \<Rightarrow>
               rbind (next_account_info accounts) (\<lambda>(inner_igp_account, accounts).
               Inr (Some (metas @ [meta_new (ai_key inner_igp_account) False,
                                   meta_new_readonly (ai_key configured_igp_account) False],
                          infos @ [inner_igp_account, configured_igp_account]), accounts))))))))))"

definition transfer_remote ::
  "'p token_plugin \<Rightarrow> runtime \<Rightarrow> pubkey \<Rightarrow> account_info list \<Rightarrow> transfer_remote_ix \<Rightarrow> vm \<Rightarrow> vm exec" where
  "transfer_remote P rt program_id accounts xfer vm =
     rbind (next_account_info accounts) (\<lambda>(system_program_account, accounts).
     require (ai_key system_program_account = SYSTEM_PROGRAM_ID) (Err InvalidArgument) (
     rbind (next_account_info accounts) (\<lambda>(spl_noop, accounts).
     require (ai_key spl_noop = rt_spl_noop_id rt) (Err InvalidArgument) (
     rbind (next_account_info accounts) (\<lambda>(token_account, accounts).
     rbind (token_fetch P rt program_id token_account vm) (\<lambda>token.
     rbind (next_account_info accounts) (\<lambda>(mailbox_info, accounts).
     require (ai_key mailbox_info = ht_mailbox token) (Err IncorrectProgramId) (
     rbind (next_account_info accounts) (\<lambda>(mailbox_outbox_account, accounts).
     rbind (next_account_info accounts) (\<lambda>(dispatch_authority_account, accounts).
     let authority_seeds = dispatch_authority_seeds @ [[ht_dispatch_authority_bump token]] in
     rbind (create_program_address rt authority_seeds program_id) (\<lambda>dispatch_authority_key.
     require (ai_key dispatch_authority_account = dispatch_authority_key) (Err InvalidArgument) (
     rbind (next_account_info accounts) (\<lambda>(sender_wallet, accounts).
     require (ai_is_signer sender_wallet) (Err MissingRequiredSignature) (
     rbind (next_account_info accounts) (\<lambda>(unique_message_account, accounts).
     rbind (next_account_info accounts) (\<lambda>(dispatched_message_pda, accounts).
     rbind (igp_payment_accounts (ht_interchain_gas_paymaster token) system_program_account sender_wallet
              unique_message_account accounts) (\<lambda>(payment, accounts).
     require (unat (tr_amount_or_id xfer) < 2 ^ 64) (token_err IntegerOverflow) (
     let local_amount = (ucast (tr_amount_or_id xfer) :: u64) in
     rbind (local_amount_to_remote_amount token local_amount) (\<lambda>remote_amount.
     rbind (tp_transfer_in P rt program_id token sender_wallet accounts local_amount vm) (\<lambda>(accounts, vm).
     require (accounts = []) (token_err TokenExtraneousAccount) (
     let metas = [meta_new (ai_key mailbox_outbox_account) False,
                  meta_new_readonly (ai_key dispatch_authority_account) True,
                  meta_new_readonly SYSTEM_PROGRAM_ID False, meta_new_readonly (rt_spl_noop_id rt) False,
                  meta_new (ai_key sender_wallet) True,
                  meta_new_readonly (ai_key unique_message_account) True,
                  meta_new (ai_key dispatched_message_pda) False];
         infos = [mailbox_outbox_account, dispatch_authority_account, system_program_account, spl_noop,
                  sender_wallet, unique_message_account, dispatched_message_pda];
         body = to_vec token_message_write_to
           \<lparr>tm_recipient = tr_recipient xfer, tm_amount_or_id = remote_amount, tm_metadata = []\<rparr> in
     rbind (case payment of
        Some (payment_metas, payment_infos) \<Rightarrow>
          gas_router_dispatch_with_gas rt token program_id authority_seeds (tr_destination_domain xfer)
            body metas infos payment_metas payment_infos vm
      | None \<Rightarrow>
          router_dispatch rt token program_id authority_seeds (tr_destination_domain xfer) body metas
            infos vm) (\<lambda>(_, vm).
     Inr vm))))))))))))))))))))))"

definition transfer_from_remote ::
  "'p token_plugin \<Rightarrow> runtime \<Rightarrow> pubkey \<Rightarrow> account_info list \<Rightarrow> handle_instruction \<Rightarrow> vm \<Rightarrow> vm exec" where
  "transfer_from_remote P rt program_id accounts xfer vm =
     rbind (map_err (\<lambda>_. token_err MessageDecodeError) (token_message_read_from (hi_message xfer)))
       (\<lambda>(message, _).
     rbind (next_account_info accounts) (\<lambda>(process_authority_account, accounts).
     rbind (next_account_info accounts) (\<lambda>(system_program, accounts).
     require (ai_key system_program = SYSTEM_PROGRAM_ID) (Err InvalidArgument) (
     rbind (next_account_info accounts) (\<lambda>(token_account, accounts).
     rbind (token_fetch P rt program_id token_account vm) (\<lambda>token.
     rbind (next_account_info accounts) (\<lambda>(recipient_wallet, accounts).
     require (ai_key recipient_wallet = tm_recipient message) (Err InvalidArgument) (
     rbind (ensure_valid_router_message token process_authority_account (hi_origin xfer) (hi_sender xfer)) (\<lambda>_.
     rbind (remote_amount_to_local_amount token (tm_amount_or_id message)) (\<lambda>local_amount.
     rbind (tp_transfer_out P rt program_id token system_program recipient_wallet accounts local_amount vm)
       (\<lambda>(accounts, vm).
     require (accounts = []) (token_err TokenExtraneousAccount) (
     Inr vm))))))))))))"

definition transfer_from_remote_account_metas ::
  "'p token_plugin \<Rightarrow> runtime \<Rightarrow> pubkey \<Rightarrow> account_info list \<Rightarrow> handle_instruction \<Rightarrow> vm \<Rightarrow> vm exec" where
  "transfer_from_remote_account_metas P rt program_id accounts transfer vm =
     rbind (map_err (\<lambda>_. token_err MessageDecodeError) (token_message_read_from (hi_message transfer)))
       (\<lambda>(message, _).
     rbind (next_account_info accounts) (\<lambda>(token_account_info, _).
     rbind (token_fetch P rt program_id token_account_info vm) (\<lambda>token.
     rbind (tp_transfer_out_account_metas P rt program_id token message) (\<lambda>(metas, writeable_recipient).
     Inr (set_return_data program_id
       (ser_simulation (ser_vec ser_account_meta)
          ([meta_new_readonly SYSTEM_PROGRAM_ID False, meta_new_readonly (ai_key token_account_info) False,
            \<lparr>am_pubkey = tm_recipient message, am_is_signer = False, am_is_writable = writeable_recipient\<rparr>]
           @ metas)) vm)))))"

definition token_enroll_with ::
  "'p token_plugin \<Rightarrow> ('p hyperlane_token \<Rightarrow> 'p hyperlane_token) \<Rightarrow> runtime \<Rightarrow> pubkey \<Rightarrow>
     account_info list \<Rightarrow> vm \<Rightarrow> vm exec" where
  "token_enroll_with P change rt program_id accounts vm =
     rbind (next_account_info accounts) (\<lambda>(system_program, accounts).
     require (ai_key system_program = SYSTEM_PROGRAM_ID) (Err InvalidArgument) (
     rbind (next_account_info accounts) (\<lambda>(token_account, accounts).
     rbind (token_fetch P rt program_id token_account vm) (\<lambda>token.
     rbind (next_account_info accounts) (\<lambda>(owner_account, accounts).
     rbind (only_owner change owner_account token) (\<lambda>token.
     store_with_rent_exempt_realloc rt (ser_hyperlane_token P) (hyperlane_token_size P) token
       token_account owner_account vm))))))"

definition enroll_remote_router ::
  "'p token_plugin \<Rightarrow> runtime \<Rightarrow> pubkey \<Rightarrow> account_info list \<Rightarrow> remote_router_config \<Rightarrow> vm \<Rightarrow> vm exec" where
  "enroll_remote_router P rt program_id accounts config vm =
     token_enroll_with P (token_enroll_remote_router config) rt program_id accounts vm"

definition enroll_remote_routers ::
  "'p token_plugin \<Rightarrow> runtime \<Rightarrow> pubkey \<Rightarrow> account_info list \<Rightarrow> remote_router_config list \<Rightarrow> vm \<Rightarrow> vm exec" where
  "enroll_remote_routers P rt program_id accounts configs vm =
     token_enroll_with P (fold token_enroll_remote_router configs) rt program_id accounts vm"

definition set_destination_gas_configs ::
  "'p token_plugin \<Rightarrow> runtime \<Rightarrow> pubkey \<Rightarrow> account_info list \<Rightarrow> gas_router_config list \<Rightarrow> vm \<Rightarrow> vm exec" where
  "set_destination_gas_configs P rt program_id accounts configs vm =
     token_enroll_with P (fold token_set_destination_gas configs) rt program_id accounts vm"

definition token_set_with ::
  "'p token_plugin \<Rightarrow> (account_info \<Rightarrow> 'p hyperlane_token \<Rightarrow> 'p hyperlane_token exec) \<Rightarrow> runtime \<Rightarrow>
     pubkey \<Rightarrow> account_info list \<Rightarrow> vm \<Rightarrow> vm exec" where
  "token_set_with P change rt program_id accounts vm =
     rbind (next_account_info accounts) (\<lambda>(token_account, accounts).
     rbind (token_fetch P rt program_id token_account vm) (\<lambda>token.
     rbind (next_account_info accounts) (\<lambda>(owner_account, accounts).
     rbind (change owner_account token) (\<lambda>token.
     store (ser_hyperlane_token P) token token_account False vm))))"

definition token_transfer_ownership ::
  "'p token_plugin \<Rightarrow> runtime \<Rightarrow> pubkey \<Rightarrow> account_info list \<Rightarrow> pubkey option \<Rightarrow> vm \<Rightarrow> vm exec" where
  "token_transfer_ownership P rt program_id accounts new_owner vm =
     token_set_with P (\<lambda>owner_account. ac_transfer_ownership ht_owner token_set_owner owner_account new_owner)
       rt program_id accounts vm"

definition set_interchain_security_module ::
  "'p token_plugin \<Rightarrow> runtime \<Rightarrow> pubkey \<Rightarrow> account_info list \<Rightarrow> pubkey option \<Rightarrow> vm \<Rightarrow> vm exec" where
  "set_interchain_security_module P rt program_id accounts ism vm =
     token_set_with P (only_owner (\<lambda>t. t\<lparr>ht_interchain_security_module := ism\<rparr>)) rt program_id accounts vm"

definition set_interchain_gas_paymaster ::
  "'p token_plugin \<Rightarrow> runtime \<Rightarrow> pubkey \<Rightarrow> account_info list \<Rightarrow> (pubkey \<times> igp_type) option \<Rightarrow> vm \<Rightarrow> vm exec" where
  "set_interchain_gas_paymaster P rt program_id accounts igp vm =
     token_set_with P (only_owner (\<lambda>t. t\<lparr>ht_interchain_gas_paymaster := igp\<rparr>)) rt program_id accounts vm"

definition interchain_security_module ::
  "'p token_plugin \<Rightarrow> runtime \<Rightarrow> pubkey \<Rightarrow> account_info list \<Rightarrow> vm \<Rightarrow> vm exec" where
  "interchain_security_module P rt program_id accounts vm =
     rbind (next_account_info accounts) (\<lambda>(token_account, _).
     rbind (token_fetch P rt program_id token_account vm) (\<lambda>token.
     Inr (set_return_data program_id (ser_option ser_h256 (ht_interchain_security_module token)) vm)))"

definition interchain_security_module_account_metas :: "runtime \<Rightarrow> pubkey \<Rightarrow> vm \<Rightarrow> vm exec" where
  "interchain_security_module_account_metas rt program_id vm =
     Inr (set_return_data program_id
       (ser_simulation (ser_vec ser_account_meta)
          [meta_new_readonly (fst (rt_find_program_address rt hyperlane_token_seeds program_id)) False]) vm)"

definition token_process_instruction ::
  "'p token_plugin \<Rightarrow> runtime \<Rightarrow> pubkey \<Rightarrow> account_info list \<Rightarrow> bytes \<Rightarrow> vm \<Rightarrow> vm exec" where
  "token_process_instruction P rt program_id accounts instruction_data vm =
     (case recipient_decode instruction_data of
        Inr InterchainSecurityModule \<Rightarrow> interchain_security_module P rt program_id accounts vm
      | Inr InterchainSecurityModuleAccountMetas \<Rightarrow>
          interchain_security_module_account_metas rt program_id vm
      | Inr (Handle handle) \<Rightarrow> transfer_from_remote P rt program_id accounts handle vm
      | Inr (HandleAccountMetas handle) \<Rightarrow>
          transfer_from_remote_account_metas P rt program_id accounts handle vm
      | Inl Panic \<Rightarrow> Inl Panic
      | Inl (Err _) \<Rightarrow>
          rbind (token_decode instruction_data) (\<lambda>ix.
          case ix of
            TokenInit init \<Rightarrow> token_initialize P rt program_id accounts init vm
          | TransferRemote xfer \<Rightarrow> transfer_remote P rt program_id accounts xfer vm
          | EnrollRemoteRouter config \<Rightarrow> enroll_remote_router P rt program_id accounts config vm
          | EnrollRemoteRouters configs \<Rightarrow> enroll_remote_routers P rt program_id accounts configs vm
          | SetDestinationGasConfigs configs \<Rightarrow> set_destination_gas_configs P rt program_id accounts configs vm
          | TokenTransferOwnership new_owner \<Rightarrow> token_transfer_ownership P rt program_id accounts new_owner vm
          | SetInterchainSecurityModule ism \<Rightarrow> set_interchain_security_module P rt program_id accounts ism vm
          | SetInterchainGasPaymaster igp \<Rightarrow> set_interchain_gas_paymaster P rt program_id accounts igp vm))"

end
