(* ===== verification/Token_Plugins.thy ===== *)
theory Token_Plugins
  imports Token_Lib
begin

text \<open>
  The three plugins of the token library, \<^verbatim>\<open>sealevel/programs/hyperlane-sealevel-token-native\<close>,
  \<^verbatim>\<open>sealevel/programs/hyperlane-sealevel-token\<close> (synthetic) and
  \<^verbatim>\<open>sealevel/programs/hyperlane-sealevel-token-collateral\<close>. The SPL token and associated token account
  crates are the record \<open>spl_crates\<close>, a parameter: their program ids, the address of an associated
  account and the builders of their instructions; the programs themselves are called through the runtime.
\<close>

section \<open>Native lamports\<close>

record native_plugin =
  np_native_collateral_bump :: u8

definition native_collateral_seeds :: "bytes list" where
  "native_collateral_seeds = [str_bytes ''hyperlane_token'', str_bytes ''-'', str_bytes ''native_collateral'']"

definition verify_native_collateral_account_info ::
  "runtime \<Rightarrow> pubkey \<Rightarrow> native_plugin hyperlane_token \<Rightarrow> account_info \<Rightarrow> unit exec" where
  "verify_native_collateral_account_info rt program_id token native_collateral =
     rbind (create_program_address rt
       (native_collateral_seeds @ [[np_native_collateral_bump (ht_plugin_data token)]]) program_id)
       (\<lambda>expected_native_collateral_key.
     require (ai_key native_collateral = expected_native_collateral_key) (Err InvalidArgument) (Inr ()))"

definition native_initialize ::
  "runtime \<Rightarrow> pubkey \<Rightarrow> account_info \<Rightarrow> account_info \<Rightarrow> account_info \<Rightarrow> account_info list \<Rightarrow> vm \<Rightarrow>
     (native_plugin \<times> account_info list \<times> vm) exec" where
  "native_initialize rt program_id system_program token_account payer_account accounts vm =
     rbind (next_account_info accounts) (\<lambda>(native_collateral_account, accounts).
     let (native_collateral_key, native_collateral_bump) =
           rt_find_program_address rt native_collateral_seeds program_id in
     require (native_collateral_key = ai_key native_collateral_account) (Err InvalidArgument) (
     rbind (create_pda_account rt payer_account 0 SYSTEM_PROGRAM_ID system_program native_collateral_account
              (native_collateral_seeds @ [[native_collateral_bump]]) vm) (\<lambda>vm.
     Inr (\<lparr>np_native_collateral_bump = native_collateral_bump\<rparr>, accounts, vm))))"

definition native_transfer_in ::
  "runtime \<Rightarrow> pubkey \<Rightarrow> native_plugin hyperlane_token \<Rightarrow> account_info \<Rightarrow> account_info list \<Rightarrow> u64 \<Rightarrow> vm \<Rightarrow>
     (account_info list \<times> vm) exec" where
  "native_transfer_in rt program_id token sender_wallet accounts amount vm =
     rbind (next_account_info accounts) (\<lambda>(system_program, accounts).
     require (ai_key system_program = SYSTEM_PROGRAM_ID) (Err InvalidArgument) (
     rbind (next_account_info accounts) (\<lambda>(native_collateral_account, accounts).
     rbind (verify_native_collateral_account_info rt program_id token native_collateral_account) (\<lambda>_.
     rbind (invoke_system rt
       (SysTransfer (ai_key sender_wallet) (ai_key native_collateral_account) amount)
       [sender_wallet, native_collateral_account] vm) (\<lambda>vm.
     Inr (accounts, vm))))))"

definition native_transfer_out ::
  "runtime \<Rightarrow> pubkey \<Rightarrow> native_plugin hyperlane_token \<Rightarrow> account_info \<Rightarrow> account_info \<Rightarrow> account_info list \<Rightarrow>
     u64 \<Rightarrow> vm \<Rightarrow> (account_info list \<times> vm) exec" where
  "native_transfer_out rt program_id token _ recipient_wallet accounts amount vm =
     rbind (next_account_info accounts) (\<lambda>(system_program, accounts).
     require (ai_key system_program = SYSTEM_PROGRAM_ID) (Err InvalidArgument) (
     rbind (next_account_info accounts) (\<lambda>(native_collateral_account, accounts).
     rbind (verify_native_collateral_account_info rt program_id token native_collateral_account) (\<lambda>_.
     rbind (invoke_system_signed rt
       (SysTransfer (ai_key native_collateral_account) (ai_key recipient_wallet) amount)
       [native_collateral_account, recipient_wallet]
       [native_collateral_seeds @ [[np_native_collateral_bump (ht_plugin_data token)]]] vm) (\<lambda>vm.
     rbind (verify_rent_exempt rt native_collateral_account vm) (\<lambda>_.
     Inr (accounts, vm)))))))"

definition native_transfer_out_account_metas ::
  "runtime \<Rightarrow> pubkey \<Rightarrow> native_plugin hyperlane_token \<Rightarrow> token_message \<Rightarrow> (account_meta list \<times> bool) exec" where
  "native_transfer_out_account_metas rt program_id _ _ =
     Inr ([meta_new_readonly SYSTEM_PROGRAM_ID False,
           meta_new (fst (rt_find_program_address rt native_collateral_seeds program_id)) False], True)"

definition NativePlugin :: "native_plugin token_plugin" where
  "NativePlugin =
     \<lparr>tp_ser = (\<lambda>p. ser_u8 (np_native_collateral_bump p)),
      tp_de = (\<lambda>r. rbind (de_u8 r) (\<lambda>(b, r). Inr (\<lparr>np_native_collateral_bump = b\<rparr>, r))),
      tp_default = \<lparr>np_native_collateral_bump = 0\<rparr>, tp_size = (\<lambda>_. 1),
      tp_initialize = native_initialize, tp_transfer_in = native_transfer_in,
      tp_transfer_out = native_transfer_out,
      tp_transfer_out_account_metas = native_transfer_out_account_metas\<rparr>"

section \<open>The SPL crates\<close>

record spl_crates =
  spl_token_id :: pubkey
  spl_token_2022_id :: pubkey
  spl_ata_id :: pubkey
  spl_rent_sysvar_id :: pubkey
  spl_mint_len :: nat
  spl_ata_address :: "pubkey \<Rightarrow> pubkey \<Rightarrow> pubkey \<Rightarrow> pubkey"
  spl_burn_checked :: "pubkey \<Rightarrow> pubkey \<Rightarrow> pubkey \<Rightarrow> pubkey \<Rightarrow> pubkey list \<Rightarrow> u64 \<Rightarrow> u8 \<Rightarrow> instruction exec"
  spl_mint_to_checked :: "pubkey \<Rightarrow> pubkey \<Rightarrow> pubkey \<Rightarrow> pubkey \<Rightarrow> pubkey list \<Rightarrow> u64 \<Rightarrow> u8 \<Rightarrow> instruction exec"
  spl_transfer_checked ::
    "pubkey \<Rightarrow> pubkey \<Rightarrow> pubkey \<Rightarrow> pubkey \<Rightarrow> pubkey \<Rightarrow> pubkey list \<Rightarrow> u64 \<Rightarrow> u8 \<Rightarrow> instruction exec"
  spl_create_ata_idempotent :: "pubkey \<Rightarrow> pubkey \<Rightarrow> pubkey \<Rightarrow> pubkey \<Rightarrow> instruction"
  spl_get_account_data_size :: "pubkey \<Rightarrow> pubkey \<Rightarrow> instruction exec"
  spl_initialize_account :: "pubkey \<Rightarrow> pubkey \<Rightarrow> pubkey \<Rightarrow> pubkey \<Rightarrow> instruction exec"

definition ata_payer_seeds :: "bytes list" where
  "ata_payer_seeds = [str_bytes ''hyperlane_token'', str_bytes ''-'', str_bytes ''ata_payer'']"

text \<open>The check of the payer of associated accounts, written out in both plugins.\<close>

definition verify_ata_payer :: "runtime \<Rightarrow> pubkey \<Rightarrow> u8 \<Rightarrow> account_info \<Rightarrow> unit exec" where
  "verify_ata_payer rt program_id bump ata_payer =
     rbind (create_program_address rt (ata_payer_seeds @ [[bump]]) program_id) (\<lambda>expected_ata_payer.
     require (ai_key ata_payer = expected_ata_payer) (Err InvalidArgument) (Inr ()))"

section \<open>Synthetic tokens\<close>

record synthetic_plugin =
  sp_mint :: pubkey
  sp_mint_bump :: u8
  sp_ata_payer_bump :: u8

definition mint_seeds :: "bytes list" where
  "mint_seeds = [str_bytes ''hyperlane_token'', str_bytes ''-'', str_bytes ''mint'']"

definition verify_mint_account_info ::
  "spl_crates \<Rightarrow> runtime \<Rightarrow> pubkey \<Rightarrow> synthetic_plugin hyperlane_token \<Rightarrow> account_info \<Rightarrow> vm \<Rightarrow> unit exec" where
  "verify_mint_account_info spl rt program_id token mint vm =
     rbind (create_program_address rt (mint_seeds @ [[sp_mint_bump (ht_plugin_data token)]]) program_id)
       (\<lambda>expected_mint_key.
     require (ai_key mint = expected_mint_key) (Err InvalidArgument) (
     require (ai_key mint = sp_mint (ht_plugin_data token)) (Err InvalidArgument) (
     require (owner_of mint vm = spl_token_2022_id spl) (Err IncorrectProgramId) (Inr ()))))"

definition synthetic_initialize ::
  "spl_crates \<Rightarrow> runtime \<Rightarrow> pubkey \<Rightarrow> account_info \<Rightarrow> account_info \<Rightarrow> account_info \<Rightarrow> account_info list \<Rightarrow> vm \<Rightarrow>
     (synthetic_plugin \<times> account_info list \<times> vm) exec" where
  "synthetic_initialize spl rt program_id system_program token_account payer_account accounts vm =
     rbind (next_account_info accounts) (\<lambda>(mint_account, accounts).
     let (mint_key, mint_bump) = rt_find_program_address rt mint_seeds program_id in
     require (mint_key = ai_key mint_account) (Err InvalidArgument) (
     rbind (create_pda_account rt payer_account (spl_mint_len spl) (spl_token_2022_id spl) system_program
              mint_account (mint_seeds @ [[mint_bump]]) vm) (\<lambda>vm.
     rbind (next_account_info accounts) (\<lambda>(ata_payer_account, accounts).
     let (ata_payer_key, ata_payer_bump) = rt_find_program_address rt ata_payer_seeds program_id in
     require (ata_payer_key = ai_key ata_payer_account) (Err InvalidArgument) (
     rbind (create_pda_account rt payer_account 0 SYSTEM_PROGRAM_ID system_program ata_payer_account
              (ata_payer_seeds @ [[ata_payer_bump]]) vm) (\<lambda>vm.
     Inr (\<lparr>sp_mint = mint_key, sp_mint_bump = mint_bump, sp_ata_payer_bump = ata_payer_bump\<rparr>,
          accounts, vm)))))))"

definition synthetic_transfer_in ::
  "spl_crates \<Rightarrow> runtime \<Rightarrow> pubkey \<Rightarrow> synthetic_plugin hyperlane_token \<Rightarrow> account_info \<Rightarrow> account_info list \<Rightarrow>
     u64 \<Rightarrow> vm \<Rightarrow> (account_info list \<times> vm) exec" where
  "synthetic_transfer_in spl rt program_id token sender_wallet accounts amount vm =
     rbind (next_account_info accounts) (\<lambda>(spl_token_2022, accounts).
     require (ai_key spl_token_2022 = spl_token_2022_id spl \<and> ai_executable spl_token_2022) (Err InvalidArgument) (
     rbind (next_account_info accounts) (\<lambda>(mint_account, accounts).
     rbind (verify_mint_account_info spl rt program_id token mint_account vm) (\<lambda>_.
     rbind (next_account_info accounts) (\<lambda>(sender_ata, accounts).
     require (ai_key sender_ata =
              spl_ata_address spl (ai_key sender_wallet) (ai_key mint_account) (spl_token_2022_id spl))
       (Err InvalidArgument) (
     rbind (spl_burn_checked spl (spl_token_2022_id spl) (ai_key sender_ata) (ai_key mint_account)
              (ai_key sender_wallet) [ai_key sender_wallet] amount (ht_decimals token)) (\<lambda>burn_ixn.
     rbind (invoke rt burn_ixn [sender_ata, mint_account, sender_wallet] vm) (\<lambda>vm.
     Inr (accounts, vm)))))))))"

definition synthetic_transfer_out ::
  "spl_crates \<Rightarrow> runtime \<Rightarrow> pubkey \<Rightarrow> synthetic_plugin hyperlane_token \<Rightarrow> account_info \<Rightarrow> account_info \<Rightarrow>
     account_info list \<Rightarrow> u64 \<Rightarrow> vm \<Rightarrow> (account_info list \<times> vm) exec" where
  "synthetic_transfer_out spl rt program_id token system_program recipient_wallet accounts amount vm =
     rbind (next_account_info accounts) (\<lambda>(spl_token_2022, accounts).
     require (ai_key spl_token_2022 = spl_token_2022_id spl \<and> ai_executable spl_token_2022) (Err InvalidArgument) (
     rbind (next_account_info accounts) (\<lambda>(spl_ata, accounts).
     require (ai_key spl_ata = spl_ata_id spl \<and> ai_executable spl_ata) (Err InvalidArgument) (
     rbind (next_account_info accounts) (\<lambda>(mint_account, accounts).
     rbind (verify_mint_account_info spl rt program_id token mint_account vm) (\<lambda>_.
     rbind (next_account_info accounts) (\<lambda>(recipient_ata, accounts).
     require (ai_key recipient_ata =
              spl_ata_address spl (ai_key recipient_wallet) (ai_key mint_account) (spl_token_2022_id spl))
       (Err InvalidArgument) (
     rbind (next_account_info accounts) (\<lambda>(ata_payer_account, accounts).
     rbind (verify_ata_payer rt program_id (sp_ata_payer_bump (ht_plugin_data token)) ata_payer_account) (\<lambda>_.
     rbind (invoke_signed rt
       (spl_create_ata_idempotent spl (ai_key ata_payer_account) (ai_key recipient_wallet)
          (ai_key mint_account) (spl_token_2022_id spl))
       [ata_payer_account, recipient_ata, recipient_wallet, mint_account, system_program, spl_token_2022]
       [ata_payer_seeds @ [[sp_ata_payer_bump (ht_plugin_data token)]]] vm) (\<lambda>vm.
     rbind (verify_rent_exempt rt recipient_ata vm) (\<lambda>_.
     rbind (spl_mint_to_checked spl (spl_token_2022_id spl) (ai_key mint_account) (ai_key recipient_ata)
              (ai_key mint_account) [] amount (ht_decimals token)) (\<lambda>mint_ixn.
     rbind (invoke_signed rt mint_ixn [mint_account, recipient_ata, mint_account]
              [mint_seeds @ [[sp_mint_bump (ht_plugin_data token)]]] vm) (\<lambda>vm.
     Inr (accounts, vm)))))))))))))))"

definition synthetic_transfer_out_account_metas ::
  "spl_crates \<Rightarrow> runtime \<Rightarrow> pubkey \<Rightarrow> synthetic_plugin hyperlane_token \<Rightarrow> token_message \<Rightarrow>
     (account_meta list \<times> bool) exec" where
  "synthetic_transfer_out_account_metas spl rt program_id token message =
     rbind (create_program_address rt (ata_payer_seeds @ [[sp_ata_payer_bump (ht_plugin_data token)]]) program_id)
       (\<lambda>ata_payer_account_key.
     Inr ([meta_new_readonly (spl_token_2022_id spl) False, meta_new_readonly (spl_ata_id spl) False,
           meta_new (sp_mint (ht_plugin_data token)) False,
           meta_new (spl_ata_address spl (tm_recipient message) (sp_mint (ht_plugin_data token))
             (spl_token_2022_id spl)) False,
           meta_new ata_payer_account_key False], False))"

definition de_synthetic_plugin :: "synthetic_plugin de" where
  "de_synthetic_plugin r =
     rbind (de_h256 r) (\<lambda>(mint, r).
     rbind (de_u8 r) (\<lambda>(mint_bump, r).
     rbind (de_u8 r) (\<lambda>(ata_payer_bump, r).
     Inr (\<lparr>sp_mint = mint, sp_mint_bump = mint_bump, sp_ata_payer_bump = ata_payer_bump\<rparr>, r))))"

definition SyntheticPlugin :: "spl_crates \<Rightarrow> synthetic_plugin token_plugin" where
  "SyntheticPlugin spl =
     \<lparr>tp_ser = (\<lambda>p. ser_h256 (sp_mint p) @ ser_u8 (sp_mint_bump p) @ ser_u8 (sp_ata_payer_bump p)),
      tp_de = de_synthetic_plugin,
      tp_default = \<lparr>sp_mint = 0, sp_mint_bump = 0, sp_ata_payer_bump = 0\<rparr>, tp_size = (\<lambda>_. 32 + 1 + 1),
      tp_initialize = synthetic_initialize spl, tp_transfer_in = synthetic_transfer_in spl,
      tp_transfer_out = synthetic_transfer_out spl,
      tp_transfer_out_account_metas = synthetic_transfer_out_account_metas spl\<rparr>"

section \<open>Escrowed tokens\<close>

record collateral_plugin =
  cp_spl_token_program :: pubkey
  cp_mint :: pubkey
  cp_escrow :: pubkey
  cp_escrow_bump :: u8
  cp_ata_payer_bump :: u8

definition escrow_seeds :: "bytes list" where
  "escrow_seeds = [str_bytes ''hyperlane_token'', str_bytes ''-'', str_bytes ''escrow'']"

text \<open>The size of the escrow account, read from the return data of the SPL program.\<close>

definition returned_data_size :: "pubkey \<Rightarrow> vm \<Rightarrow> u64 exec" where
  "returned_data_size spl_token_program vm =
     rbind (ok_or (vm_return_data vm) (Err InvalidArgument)) (\<lambda>(returning_pubkey, data).
     require (returning_pubkey = spl_token_program) (Err InvalidArgument) (
     require (length data = 8) (Err InvalidArgument) (Inr (from_le_bytes data))))"

definition collateral_initialize ::
  "spl_crates \<Rightarrow> runtime \<Rightarrow> pubkey \<Rightarrow> account_info \<Rightarrow> account_info \<Rightarrow> account_info \<Rightarrow> account_info list \<Rightarrow> vm \<Rightarrow>
     (collateral_plugin \<times> account_info list \<times> vm) exec" where
  "collateral_initialize spl rt program_id system_program token_account payer_account accounts vm =
     rbind (next_account_info accounts) (\<lambda>(spl_token_account, accounts).
     require (\<not> (ai_key spl_token_account \<noteq> spl_token_2022_id spl \<and> ai_key spl_token_account \<noteq> spl_token_id spl))
       (Err IncorrectProgramId) (
     rbind (next_account_info accounts) (\<lambda>(mint_account, accounts).
     require (owner_of mint_account vm = ai_key spl_token_account) (Err IllegalOwner) (
     rbind (next_account_info accounts) (\<lambda>(rent_account, accounts).
     require (ai_key rent_account = spl_rent_sysvar_id spl) (Err IncorrectProgramId) (
     rbind (next_account_info accounts) (\<lambda>(escrow_account, accounts).
     let (escrow_key, escrow_bump) = rt_find_program_address rt escrow_seeds program_id in
     require (escrow_key = ai_key escrow_account) (Err IncorrectProgramId) (
     rbind (spl_get_account_data_size spl (ai_key spl_token_account) (ai_key mint_account)) (\<lambda>size_ixn.
     rbind (invoke rt size_ixn [mint_account] vm) (\<lambda>vm.
     rbind (returned_data_size (ai_key spl_token_account) vm) (\<lambda>account_data_size.
     rbind (create_pda_account rt payer_account (unat account_data_size) (ai_key spl_token_account)
              system_program escrow_account (escrow_seeds @ [[escrow_bump]]) vm) (\<lambda>vm.
     rbind (spl_initialize_account spl (ai_key spl_token_account) (ai_key escrow_account)
              (ai_key mint_account) (ai_key escrow_account)) (\<lambda>init_ixn.
     rbind (invoke rt init_ixn [escrow_account, mint_account, escrow_account, rent_account] vm) (\<lambda>vm.
     rbind (next_account_info accounts) (\<lambda>(ata_payer_account, accounts).
     let (ata_payer_key, ata_payer_bump) = rt_find_program_address rt ata_payer_seeds program_id in
     require (ata_payer_key = ai_key ata_payer_account) (Err IncorrectProgramId) (
     rbind (create_pda_account rt payer_account 0 SYSTEM_PROGRAM_ID system_program ata_payer_account
              (ata_payer_seeds @ [[ata_payer_bump]]) vm) (\<lambda>vm.
     Inr (\<lparr>cp_spl_token_program = ai_key spl_token_account, cp_mint = ai_key mint_account,
           cp_escrow = escrow_key, cp_escrow_bump = escrow_bump, cp_ata_payer_bump = ata_payer_bump\<rparr>,
          accounts, vm))))))))))))))))))"

definition collateral_transfer_in ::
  "spl_crates \<Rightarrow> runtime \<Rightarrow> pubkey \<Rightarrow> collateral_plugin hyperlane_token \<Rightarrow> account_info \<Rightarrow> account_info list \<Rightarrow>
     u64 \<Rightarrow> vm \<Rightarrow> (account_info list \<times> vm) exec" where
  "collateral_transfer_in spl rt program_id token sender_wallet accounts amount vm =
     rbind (next_account_info accounts) (\<lambda>(spl_token_account, accounts).
     require (ai_key spl_token_account = cp_spl_token_program (ht_plugin_data token)) (Err IncorrectProgramId) (
     require (ai_executable spl_token_account) (Err InvalidAccountData) (
     rbind (next_account_info accounts) (\<lambda>(mint_account, accounts).
     require (ai_key mint_account = cp_mint (ht_plugin_data token)) (Err IncorrectProgramId) (
     require (owner_of mint_account vm = ai_key spl_token_account) (Err InvalidAccountData) (
     rbind (next_account_info accounts) (\<lambda>(sender_ata, accounts).
     require (ai_key sender_ata =
              spl_ata_address spl (ai_key sender_wallet) (ai_key mint_account) (ai_key spl_token_account))
       (Err IncorrectProgramId) (
     rbind (next_account_info accounts) (\<lambda>(escrow_account, accounts).
     require (ai_key escrow_account = cp_escrow (ht_plugin_data token)) (Err IncorrectProgramId) (
     rbind (spl_transfer_checked spl (ai_key spl_token_account) (ai_key sender_ata) (ai_key mint_account)
              (ai_key escrow_account) (ai_key sender_wallet) [] amount (ht_decimals token)) (\<lambda>transfer_ixn.
     rbind (invoke rt transfer_ixn [sender_ata, mint_account, escrow_account, sender_wallet] vm) (\<lambda>vm.
     Inr (accounts, vm)))))))))))))"

definition collateral_transfer_out ::
  "spl_crates \<Rightarrow> runtime \<Rightarrow> pubkey \<Rightarrow> collateral_plugin hyperlane_token \<Rightarrow> account_info \<Rightarrow> account_info \<Rightarrow>
     account_info list \<Rightarrow> u64 \<Rightarrow> vm \<Rightarrow> (account_info list \<times> vm) exec" where
  "collateral_transfer_out spl rt program_id token system_program recipient_wallet accounts amount vm =
     rbind (next_account_info accounts) (\<lambda>(spl_token_account, accounts).
     require (ai_key spl_token_account = cp_spl_token_program (ht_plugin_data token)) (Err IncorrectProgramId) (
     require (ai_executable spl_token_account) (Err InvalidAccountData) (
     rbind (next_account_info accounts) (\<lambda>(spl_ata_account, accounts).
     require (ai_key spl_ata_account = spl_ata_id spl) (Err IncorrectProgramId) (
     require (ai_executable spl_ata_account) (Err InvalidAccountData) (
     rbind (next_account_info accounts) (\<lambda>(mint_account, accounts).
     require (ai_key mint_account = cp_mint (ht_plugin_data token)) (Err IncorrectProgramId) (
     rbind (next_account_info accounts) (\<lambda>(recipient_ata, accounts).
     require (ai_key recipient_ata =
              spl_ata_address spl (ai_key recipient_wallet) (ai_key mint_account) (ai_key spl_token_account))
       (Err IncorrectProgramId) (
     require (ai_is_writable recipient_ata) (Err InvalidAccountData) (
     rbind (next_account_info accounts) (\<lambda>(ata_payer_account, accounts).
     rbind (verify_ata_payer rt program_id (cp_ata_payer_bump (ht_plugin_data token)) ata_payer_account) (\<lambda>_.
     rbind (next_account_info accounts) (\<lambda>(escrow_account, accounts).
     require (ai_key escrow_account = cp_escrow (ht_plugin_data token)) (Err IncorrectProgramId) (
     rbind (invoke_signed rt
       (spl_create_ata_idempotent spl (ai_key ata_payer_account) (ai_key recipient_wallet)
          (ai_key mint_account) (ai_key spl_token_account))
       [ata_payer_account, recipient_ata, recipient_wallet, mint_account, system_program, spl_token_account]
       [ata_payer_seeds @ [[cp_ata_payer_bump (ht_plugin_data token)]]] vm) (\<lambda>vm.
     rbind (verify_rent_exempt rt ata_payer_account vm) (\<lambda>_.
     rbind (spl_transfer_checked spl (ai_key spl_token_account) (ai_key escrow_account) (ai_key mint_account)
              (ai_key recipient_ata) (ai_key escrow_account) [] amount (ht_decimals token)) (\<lambda>transfer_ixn.
     rbind (invoke_signed rt transfer_ixn [escrow_account, mint_account, recipient_ata, escrow_account]
              [escrow_seeds @ [[cp_escrow_bump (ht_plugin_data token)]]] vm) (\<lambda>vm.
     Inr (accounts, vm))))))))))))))))))))"

definition collateral_transfer_out_account_metas ::
  "spl_crates \<Rightarrow> runtime \<Rightarrow> pubkey \<Rightarrow> collateral_plugin hyperlane_token \<Rightarrow> token_message \<Rightarrow>
     (account_meta list \<times> bool) exec" where
  "collateral_transfer_out_account_metas spl rt program_id token message =
     rbind (create_program_address rt (ata_payer_seeds @ [[cp_ata_payer_bump (ht_plugin_data token)]]) program_id)
       (\<lambda>ata_payer_account_key.
     let p = ht_plugin_data token in
     Inr ([meta_new_readonly (cp_spl_token_program p) False, meta_new_readonly (spl_ata_id spl) False,
           meta_new (cp_mint p) False,
           meta_new (spl_ata_address spl (tm_recipient message) (cp_mint p) (cp_spl_token_program p)) False,
           meta_new ata_payer_account_key False, meta_new (cp_escrow p) False], False))"

definition de_collateral_plugin :: "collateral_plugin de" where
  "de_collateral_plugin r =
     rbind (de_h256 r) (\<lambda>(spl_token_program, r).
     rbind (de_h256 r) (\<lambda>(mint, r).
     rbind (de_h256 r) (\<lambda>(escrow, r).
     rbind (de_u8 r) (\<lambda>(escrow_bump, r).
     rbind (de_u8 r) (\<lambda>(ata_payer_bump, r).
     Inr (\<lparr>cp_spl_token_program = spl_token_program, cp_mint = mint, cp_escrow = escrow,
           cp_escrow_bump = escrow_bump, cp_ata_payer_bump = ata_payer_bump\<rparr>, r))))))"

definition CollateralPlugin :: "spl_crates \<Rightarrow> collateral_plugin token_plugin" where
  "CollateralPlugin spl =
     \<lparr>tp_ser = (\<lambda>p. ser_h256 (cp_spl_token_program p) @ ser_h256 (cp_mint p) @ ser_h256 (cp_escrow p) @
                    ser_u8 (cp_escrow_bump p) @ ser_u8 (cp_ata_payer_bump p)),
      tp_de = de_collateral_plugin,
      tp_default = \<lparr>cp_spl_token_program = 0, cp_mint = 0, cp_escrow = 0, cp_escrow_bump = 0,
                    cp_ata_payer_bump = 0\<rparr>,
      tp_size = (\<lambda>_. 32 + 32 + 32 + 1 + 1),
      tp_initialize = collateral_initialize spl, tp_transfer_in = collateral_transfer_in spl,
      tp_transfer_out = collateral_transfer_out spl,
      tp_transfer_out_account_metas = collateral_transfer_out_account_metas spl\<rparr>"

section \<open>Entry points\<close>

text \<open>
  \<^verbatim>\<open>process_instruction\<close> of the three programs. Their handlers only call the one of the library with the
  plugin of the program.
\<close>

definition native_process_instruction ::
  "runtime \<Rightarrow> pubkey \<Rightarrow> account_info list \<Rightarrow> bytes \<Rightarrow> vm \<Rightarrow> vm exec" where
  "native_process_instruction = token_process_instruction NativePlugin"

definition synthetic_process_instruction ::
  "spl_crates \<Rightarrow> runtime \<Rightarrow> pubkey \<Rightarrow> account_info list \<Rightarrow> bytes \<Rightarrow> vm \<Rightarrow> vm exec" where
  "synthetic_process_instruction spl = token_process_instruction (SyntheticPlugin spl)"

definition collateral_process_instruction ::
  "spl_crates \<Rightarrow> runtime \<Rightarrow> pubkey \<Rightarrow> account_info list \<Rightarrow> bytes \<Rightarrow> vm \<Rightarrow> vm exec" where
  "collateral_process_instruction spl = token_process_instruction (CollateralPlugin spl)"

end
