(* ===== verification/Token_Correct.thy ===== *)
theory Token_Correct
  imports Token_Plugins Igp_Correct
begin

text \<open>
  What the token library relies on from its plugins, as the interface \<open>token_plugin_laws\<close>, with the
  three plugins as instances, and the token account over the instructions of the program: its encoding,
  who changes it, and how.
\<close>

section \<open>Encodings\<close>

interpretation borsh_igp_type: borsh ser_igp_type de_igp_type always
proof
  show "de_igp_type (ser_igp_type x @ rest) = Inr (x, rest)" for x rest
    by (cases x) (simp_all add: de_igp_type_def borsh_u8.de_ser borsh_h256.de_ser)
  show "bs = ser_igp_type x @ rest \<and> always x" if "de_igp_type bs = Inr (x, rest)" for bs x rest
    using that by (auto simp: de_igp_type_def result_simps borsh_iffs split: if_splits)
qed

interpretation borsh_igp_pair: borsh ser_igp_pair de_igp_pair always
proof
  show "de_igp_pair (ser_igp_pair x @ rest) = Inr (x, rest)" for x rest
    by (simp add: de_igp_pair_def ser_igp_pair_def borsh_h256.de_ser borsh_igp_type.de_ser)
  show "bs = ser_igp_pair x @ rest \<and> always x" if "de_igp_pair bs = Inr (x, rest)" for bs x rest
    using that by (auto simp: de_igp_pair_def ser_igp_pair_def result_simps borsh_iffs borsh_igp_type.de_iff)
qed

interpretation borsh_igp_option: borsh "ser_option ser_igp_pair" "de_option de_igp_pair" "pred_option always"
  by (rule borsh_option) (rule borsh_igp_pair.borsh_axioms)

text \<open>A map is read back well-formed: reading sorts the entries.\<close>

lemma fold_hm_insert_length: "length (fold (\<lambda>(k, v). hm_insert k v) es m) \<le> length es + length m"
proof (induction es arbitrary: m)
  case (Cons e es)
  obtain k v where e: "e = (k, v)" by (cases e)
  have "length (hm_insert k v m) \<le> Suc (length m)" by (induction k v m rule: hm_insert.induct) auto
  then show ?case using Cons.IH [of "hm_insert k v m"] by (simp add: e)
qed simp

lemma de_hash_map_valid:
  assumes "borsh serk dek always" "borsh serv dev always" and "de_hash_map dek dev bs = Inr (m, rest)"
  shows "hm_valid always m"
proof -
  obtain es where "de_vec (de_entry dek dev) bs = Inr (es, rest)"
    and m: "m = fold (\<lambda>(k, v). hm_insert k v) es []"
    using assms(3) by (auto simp: de_hash_map_def result_simps)
  then have "length es < 2 ^ 32"
    using borsh.ser_de [OF borsh_vec [OF borsh_entry [OF assms(1,2)]]] by blast
  moreover have "length m \<le> length es" using fold_hm_insert_length [of es "[]"] by (simp add: m)
  ultimately show ?thesis
    using fold_hm_insert_sorted [of "[]" es] by (auto simp: hm_valid_def m hm_sorted_def list_all_iff)
qed

lemma length_ser_hash_map:
  assumes "\<And>k. length (serk k) = a" and "\<And>v. length (serv v) = b"
  shows "length (ser_hash_map serk serv m) = 4 + length m * (a + b)"
  by (induction m) (simp_all add: ser_hash_map_def ser_vec_def ser_entry_def assms)

lemma length_ser_igp_option: "length (ser_option ser_igp_pair x) \<le> 66"
proof -
  have "length (ser_igp_type t) = 33" for t by (cases t) simp_all
  then show ?thesis by (simp add: ser_option_def ser_igp_pair_def split: option.splits)
qed

lemma length_ser_pubkey_option: "length (ser_option ser_h256 x) \<le> 33"
  by (simp add: length_ser_option_h256 split: option.splits)

definition token_wf :: "'p hyperlane_token \<Rightarrow> bool" where
  "token_wf t \<longleftrightarrow> hm_valid always (ht_destination_gas t) \<and> hm_valid always (ht_remote_routers t)"

section \<open>The interface of the plugins\<close>

text \<open>The accounts a program owns keep their data, and no borrow is taken or released.\<close>

definition owned_frame :: "pubkey \<Rightarrow> vm \<Rightarrow> vm \<Rightarrow> bool" where
  "owned_frame pid vm vm' \<longleftrightarrow>
     vm_borrowed vm' = vm_borrowed vm \<and>
     (\<forall>k. acc_owner (vm_ledger vm k) = pid \<longrightarrow> same_data (vm_ledger vm) (vm_ledger vm') k)"

definition token_env :: "runtime \<Rightarrow> pubkey \<Rightarrow> bool" where
  "token_env rt pid \<longleftrightarrow> system_program_ok rt \<and> cpi_frame rt pid \<and> pid \<noteq> SYSTEM_PROGRAM_ID"

locale token_plugin_laws =
  fixes P :: "'p token_plugin"
  assumes data_borsh: "borsh (tp_ser P) (tp_de P) always"
    and data_size: "length (tp_ser P p) = tp_size P p"
    and initialize_frame: "token_env rt pid \<Longrightarrow>
      on_success (tp_initialize P rt pid sp ta payer accounts vm) (\<lambda>(p, accounts', vm'). owned_frame pid vm vm')"
    and transfer_in_frame: "token_env rt pid \<Longrightarrow>
      on_success (tp_transfer_in P rt pid t sender accounts amount vm) (\<lambda>(accounts', vm'). owned_frame pid vm vm')"
    and transfer_out_frame: "token_env rt pid \<Longrightarrow>
      on_success (tp_transfer_out P rt pid t sp recipient accounts amount vm)
        (\<lambda>(accounts', vm'). owned_frame pid vm vm')"
begin

lemma de_ser_token:
  assumes "token_wf t"
  shows "de_hyperlane_token P (ser_hyperlane_token P t @ rest) = Inr (t, rest)"
proof -
  have gas: "de_hash_map de_u32 de_u64 (ser_hash_map ser_u32 ser_u64 (ht_destination_gas t) @ r) =
      Inr (ht_destination_gas t, r)" for r
    using de_ser_hash_map [OF borsh_u32.borsh_axioms borsh_u64.borsh_axioms] assms by (simp add: token_wf_def)
  have routers: "de_hash_map de_u32 de_h256 (ser_hash_map ser_u32 ser_h256 (ht_remote_routers t) @ r) =
      Inr (ht_remote_routers t, r)" for r
    using de_ser_hash_map [OF borsh_u32.borsh_axioms borsh_h256.borsh_axioms] assms by (simp add: token_wf_def)
  show ?thesis
    unfolding de_hyperlane_token_def ser_hyperlane_token_def
    by (simp add: borsh_u8.de_ser borsh_h256.de_ser borsh_pubkey_option.de_ser borsh_igp_option.de_ser
        gas routers borsh.de_ser [OF data_borsh])
qed

lemma de_token_wf:
  assumes "de_hyperlane_token P bs = Inr (t, rest)"
  shows "token_wf t"
  using assms de_hash_map_valid [OF borsh_u32.borsh_axioms borsh_u64.borsh_axioms]
    de_hash_map_valid [OF borsh_u32.borsh_axioms borsh_h256.borsh_axioms]
  unfolding de_hyperlane_token_def by (fastforce simp: rbind_eq_Inr token_wf_def)

text \<open>\<^verbatim>\<open>SizedData::size\<close> is enough room for every token.\<close>

lemma token_size_enough: "length (ser_hyperlane_token P t) \<le> hyperlane_token_size P t"
  using length_ser_pubkey_option [of "ht_owner t"] length_ser_pubkey_option [of "ht_interchain_security_module t"]
    length_ser_igp_option [of "ht_interchain_gas_paymaster t"]
  by (simp add: ser_hyperlane_token_def hyperlane_token_size_def data_size
      length_ser_hash_map [where a = 4 and b = 8] length_ser_hash_map [where a = 4 and b = 32])

lemma fetch_held:
  assumes "holds (ser_hyperlane_token P) t k l" and "token_wf t"
  shows "fetch (lift_de (de_hyperlane_token P)) dflt (acc_data (l k)) = Inr t"
  using assms fetch_stored [of "lift_de (de_hyperlane_token P)" "ser_hyperlane_token P" t]
  by (auto simp: holds_def lift_de_def de_ser_token)

end

section \<open>The plugins\<close>

lemma owned_frame_refl [simp]: "owned_frame pid vm vm"
  by (simp add: owned_frame_def)

lemma owned_frame_trans: "owned_frame pid vm vm' \<Longrightarrow> owned_frame pid vm' vm'' \<Longrightarrow> owned_frame pid vm vm''"
  unfolding owned_frame_def by (metis same_data_def same_data_trans)

lemma invoke_signed_owned:
  "token_env rt pid \<Longrightarrow> invoke_signed rt ix infos seeds vm = Inr vm' \<Longrightarrow> owned_frame pid vm vm'"
  unfolding owned_frame_def by (rule invoke_signed_frame) (simp_all add: token_env_def)

lemma transfer_owned:
  "token_env rt pid \<Longrightarrow> invoke_system_signed rt (SysTransfer f t a) infos seeds vm = Inr vm' \<Longrightarrow>
   owned_frame pid vm vm'"
  using system_changes(1) [of rt f t a infos seeds vm vm'] invoke_borrowed(3)
  by (auto simp: owned_frame_def token_env_def)

lemma system_only_changes_owned:
  assumes "only_changes k vm vm'" and "acc_owner (vm_ledger vm k) \<noteq> pid"
  shows "owned_frame pid vm vm'"
  using assms by (auto simp: owned_frame_def only_changes_def)

lemma create_pda_owned:
  assumes env: "token_env rt pid" and c: "create_pda_account rt payer space owner sp new seeds vm = Inr vm'"
  shows "owned_frame pid vm vm'"
proof -
  have sys: "system_program_ok rt" and pid: "pid \<noteq> SYSTEM_PROGRAM_ID" using env by (auto simp: token_env_def)
  show ?thesis
  proof (cases "lamports new vm > 0")
    case False
    then show ?thesis
      using c system_changes(4) [OF sys] pid
      by (auto simp: create_pda_account_def intro!: system_only_changes_owned [where k = "ai_key new"])
  next
    case True
    let ?r = "saturating_sub (max (rt_minimum_balance rt space) 1) (lamports new vm)"
    from True c obtain vm1 vm2 where
      t: "(if ?r > 0 then invoke_system rt (SysTransfer (ai_key payer) (ai_key new) ?r) [payer, new, sp] vm
           else Inr vm) = Inr vm1"
      and 2: "invoke_system_signed rt (SysAllocate (ai_key new) (word_of_nat space)) [new, sp] [seeds] vm1 = Inr vm2"
      and 3: "invoke_system_signed rt (SysAssign (ai_key new) owner) [new, sp] [seeds] vm2 = Inr vm'"
      unfolding create_pda_account_def Let_def by (auto simp: rbind_eq_Inr)
    have 1: "owned_frame pid vm vm1"
      using t transfer_owned [OF env] by (auto simp: invoke_system_def split: if_splits)
    have "only_changes (ai_key new) vm1 vm'" "acc_owner (vm_ledger vm1 (ai_key new)) \<noteq> pid"
      using system_changes(2) [OF sys 2] system_changes(3) [OF sys 3] only_changes_trans pid by auto
    then show ?thesis using 1 by (blast intro: owned_frame_trans system_only_changes_owned)
  qed
qed

lemmas owned_frames = invoke_signed_owned transfer_owned create_pda_owned

lemma native_plugin_data: "borsh (tp_ser NativePlugin) (tp_de NativePlugin) always"
  by unfold_locales (auto simp: NativePlugin_def borsh_u8.de_ser result_simps borsh_iffs)

lemma synthetic_plugin_data: "borsh (tp_ser (SyntheticPlugin spl)) (tp_de (SyntheticPlugin spl)) always"
  by unfold_locales
     (auto simp: SyntheticPlugin_def de_synthetic_plugin_def borsh_u8.de_ser borsh_h256.de_ser result_simps borsh_iffs)

lemma collateral_plugin_data: "borsh (tp_ser (CollateralPlugin spl)) (tp_de (CollateralPlugin spl)) always"
  by unfold_locales
     (auto simp: CollateralPlugin_def de_collateral_plugin_def borsh_u8.de_ser borsh_h256.de_ser result_simps borsh_iffs)

lemma NativePlugin_simps [simp]:
  "tp_transfer_in NativePlugin = native_transfer_in" "tp_transfer_out NativePlugin = native_transfer_out"
  by (simp_all add: NativePlugin_def)

interpretation native: token_plugin_laws NativePlugin
proof (rule token_plugin_laws.intro)
  show "borsh (tp_ser NativePlugin) (tp_de NativePlugin) always" by (rule native_plugin_data)
  show "length (tp_ser NativePlugin p) = tp_size NativePlugin p" for p by (simp add: NativePlugin_def)
  fix rt :: runtime and pid sp ta payer accounts vm t sender recipient amount
  assume env: "token_env rt pid"
  show "on_success (tp_initialize NativePlugin rt pid sp ta payer accounts vm) (\<lambda>(p, accounts', vm'). owned_frame pid vm vm')"
    unfolding NativePlugin_def native_initialize_def token_plugin.simps invoke_def invoke_system_def
    by (intro success_intros; clarsimp) (meson env owned_frame_trans owned_frames)
  show "on_success (tp_transfer_in NativePlugin rt pid t sender accounts amount vm) (\<lambda>(accounts', vm'). owned_frame pid vm vm')"
    unfolding NativePlugin_def native_transfer_in_def token_plugin.simps invoke_def invoke_system_def
    by (intro success_intros; clarsimp) (meson env owned_frame_trans owned_frames)
  show "on_success (tp_transfer_out NativePlugin rt pid t sp recipient accounts amount vm) (\<lambda>(accounts', vm'). owned_frame pid vm vm')"
    unfolding NativePlugin_def native_transfer_out_def token_plugin.simps invoke_def invoke_system_def
    by (intro success_intros; clarsimp) (meson env owned_frame_trans owned_frames)
qed

interpretation synthetic: token_plugin_laws "SyntheticPlugin spl" for spl
proof (rule token_plugin_laws.intro)
  show "borsh (tp_ser (SyntheticPlugin spl)) (tp_de (SyntheticPlugin spl)) always" by (rule synthetic_plugin_data)
  show "length (tp_ser (SyntheticPlugin spl) p) = tp_size (SyntheticPlugin spl) p" for p by (simp add: SyntheticPlugin_def)
  fix rt :: runtime and pid sp ta payer accounts vm t sender recipient amount
  assume env: "token_env rt pid"
  show "on_success (tp_initialize (SyntheticPlugin spl) rt pid sp ta payer accounts vm)
      (\<lambda>(p, accounts', vm'). owned_frame pid vm vm')"
    unfolding SyntheticPlugin_def synthetic_initialize_def token_plugin.simps invoke_def invoke_system_def
    by (intro success_intros; clarsimp) (meson env owned_frame_trans owned_frames)
  show "on_success (tp_transfer_in (SyntheticPlugin spl) rt pid t sender accounts amount vm)
      (\<lambda>(accounts', vm'). owned_frame pid vm vm')"
    unfolding SyntheticPlugin_def synthetic_transfer_in_def token_plugin.simps invoke_def invoke_system_def
    by (intro success_intros; clarsimp) (meson env owned_frame_trans owned_frames)
  show "on_success (tp_transfer_out (SyntheticPlugin spl) rt pid t sp recipient accounts amount vm)
      (\<lambda>(accounts', vm'). owned_frame pid vm vm')"
    unfolding SyntheticPlugin_def synthetic_transfer_out_def token_plugin.simps invoke_def invoke_system_def
    by (intro success_intros; clarsimp) (meson env owned_frame_trans owned_frames)
qed

interpretation collateral: token_plugin_laws "CollateralPlugin spl" for spl
proof (rule token_plugin_laws.intro)
  show "borsh (tp_ser (CollateralPlugin spl)) (tp_de (CollateralPlugin spl)) always" by (rule collateral_plugin_data)
  show "length (tp_ser (CollateralPlugin spl) p) = tp_size (CollateralPlugin spl) p" for p by (simp add: CollateralPlugin_def)
  fix rt :: runtime and pid sp ta payer accounts vm t sender recipient amount
  assume env: "token_env rt pid"
  show "on_success (tp_initialize (CollateralPlugin spl) rt pid sp ta payer accounts vm)
      (\<lambda>(p, accounts', vm'). owned_frame pid vm vm')"
    unfolding CollateralPlugin_def collateral_initialize_def token_plugin.simps invoke_def invoke_system_def
    by (intro success_intros; clarsimp) (meson env owned_frame_trans owned_frames)
  show "on_success (tp_transfer_in (CollateralPlugin spl) rt pid t sender accounts amount vm)
      (\<lambda>(accounts', vm'). owned_frame pid vm vm')"
    unfolding CollateralPlugin_def collateral_transfer_in_def token_plugin.simps invoke_def invoke_system_def
    by (intro success_intros; clarsimp) (meson env owned_frame_trans owned_frames)
  show "on_success (tp_transfer_out (CollateralPlugin spl) rt pid t sp recipient accounts amount vm)
      (\<lambda>(accounts', vm'). owned_frame pid vm vm')"
    unfolding CollateralPlugin_def collateral_transfer_out_def token_plugin.simps invoke_def invoke_system_def
    by (intro success_intros; clarsimp) (meson env owned_frame_trans owned_frames)
qed

end
