(* ===== verification/Token_State.thy ===== *)
theory Token_State
  imports Token_Correct
begin

text \<open>
  The token account over the instructions of a token program. The abstract state is the configuration
  \<open>token_config\<close> with its tables as maps; \<open>config_step\<close> is what each instruction of the owner does to it.
\<close>

section \<open>The abstract configuration\<close>

record token_config =
  tc_owner :: "pubkey option"
  tc_ism :: "pubkey option"
  tc_igp :: "(pubkey \<times> igp_type) option"
  tc_gas :: "u32 \<rightharpoonup> u64"
  tc_routers :: "u32 \<rightharpoonup> h256"

definition token_config_of :: "'p hyperlane_token \<Rightarrow> token_config" where
  "token_config_of t =
     \<lparr>tc_owner = ht_owner t, tc_ism = ht_interchain_security_module t,
      tc_igp = ht_interchain_gas_paymaster t, tc_gas = hm_get (ht_destination_gas t),
      tc_routers = hm_get (ht_remote_routers t)\<rparr>"

text \<open>The rest of the token, which no instruction changes.\<close>

definition token_fixed :: "'p hyperlane_token \<Rightarrow> 'p hyperlane_token" where
  "token_fixed t =
     t\<lparr>ht_owner := None, ht_interchain_security_module := None, ht_interchain_gas_paymaster := None,
       ht_destination_gas := [], ht_remote_routers := []\<rparr>"

text \<open>A list of settings: the last one of a key counts.\<close>

definition updated :: "('k \<times> 'v option) list \<Rightarrow> ('k \<rightharpoonup> 'v) \<Rightarrow> 'k \<rightharpoonup> 'v" where
  "updated cs m k = (case map_of (rev cs) k of None \<Rightarrow> m k | Some c \<Rightarrow> c)"

definition router_entry :: "remote_router_config \<Rightarrow> u32 \<times> h256 option" where
  "router_entry c = (rr_domain c, rr_router c)"

definition gas_entry :: "gas_router_config \<Rightarrow> u32 \<times> u64 option" where
  "gas_entry c = (gr_domain c, gr_gas c)"

primrec config_step :: "token_instruction \<Rightarrow> token_config \<Rightarrow> token_config" where
  "config_step (TokenInit i) c = c"
| "config_step (TransferRemote x) c = c"
| "config_step (EnrollRemoteRouter r) c = c\<lparr>tc_routers := (tc_routers c)(rr_domain r := rr_router r)\<rparr>"
| "config_step (EnrollRemoteRouters rs) c = c\<lparr>tc_routers := updated (map router_entry rs) (tc_routers c)\<rparr>"
| "config_step (SetDestinationGasConfigs gs) c = c\<lparr>tc_gas := updated (map gas_entry gs) (tc_gas c)\<rparr>"
| "config_step (SetInterchainSecurityModule m) c = c\<lparr>tc_ism := m\<rparr>"
| "config_step (SetInterchainGasPaymaster m) c = c\<lparr>tc_igp := m\<rparr>"
| "config_step (TokenTransferOwnership w) c = c\<lparr>tc_owner := w\<rparr>"

text \<open>Where an instruction of the owner has the token account and the owner's.\<close>

primrec owner_instruction :: "token_instruction \<Rightarrow> nat option" where
  "owner_instruction (TokenInit i) = None"
| "owner_instruction (TransferRemote x) = None"
| "owner_instruction (EnrollRemoteRouter r) = Some 1"
| "owner_instruction (EnrollRemoteRouters rs) = Some 1"
| "owner_instruction (SetDestinationGasConfigs gs) = Some 1"
| "owner_instruction (SetInterchainSecurityModule m) = Some 0"
| "owner_instruction (SetInterchainGasPaymaster m) = Some 0"
| "owner_instruction (TokenTransferOwnership w) = Some 0"

definition configures :: "pubkey \<Rightarrow> account_info list \<Rightarrow> bytes \<Rightarrow> token_instruction \<Rightarrow> bool" where
  "configures K accounts data ix \<longleftrightarrow>
     (\<nexists>i. recipient_decode data = Inr i) \<and> token_decode data = Inr ix \<and>
     (\<exists>n. owner_instruction ix = Some n \<and> n < length accounts \<and> ai_key (accounts ! n) = K)"

definition owner_signed :: "account_info list \<Rightarrow> token_config \<Rightarrow> bool" where
  "owner_signed accounts c \<longleftrightarrow> (\<exists>i \<in> set accounts. ai_is_signer i \<and> tc_owner c = Some (ai_key i))"

text \<open>
  The specification of one successful instruction: it leaves the configuration alone, or it is an
  instruction of the owner for this account, the owner signed it, and it has exactly its effect.
\<close>

definition config_call ::
  "pubkey \<Rightarrow> account_info list \<Rightarrow> bytes \<Rightarrow> token_config \<Rightarrow> token_config \<Rightarrow> bool" where
  "config_call K accounts data c c' \<longleftrightarrow>
     (if \<exists>ix. configures K accounts data ix
      then owner_signed accounts c \<and> (\<exists>ix. configures K accounts data ix \<and> c' = config_step ix c)
      else c' = c)"

section \<open>The token account\<close>

definition token_at :: "'p token_plugin \<Rightarrow> pubkey \<Rightarrow> pubkey \<Rightarrow> 'p hyperlane_token \<Rightarrow> vm \<Rightarrow> bool" where
  "token_at P pid K t vm \<longleftrightarrow>
     holds (ser_hyperlane_token P) t K (vm_ledger vm) \<and> token_wf t \<and> acc_owner (vm_ledger vm K) = pid"

text \<open>An account of the runtime has at most 10 MiB of data.\<close>

definition data_bounded :: "vm \<Rightarrow> bool" where
  "data_bounded vm \<longleftrightarrow> (\<forall>k. length (acc_data (vm_ledger vm k)) \<le> 10485760)"

lemma token_at_frame: "token_at P pid K t vm \<Longrightarrow> owned_frame pid vm vm' \<Longrightarrow> token_at P pid K t vm'"
  unfolding token_at_def owned_frame_def by (metis holds_same_data same_data_def)

lemma token_at_only_changes:
  "token_at P pid K t vm \<Longrightarrow> only_changes k vm vm' \<Longrightarrow> K \<noteq> k \<Longrightarrow> token_at P pid K t vm'"
  unfolding token_at_def only_changes_def by (metis holds_same_data same_data_def)

lemma token_at_data: "token_at P pid K t vm \<Longrightarrow> acc_data (vm_ledger vm K) \<noteq> []"
  by (auto simp: token_at_def dest: holds_nonempty)

lemma token_at_return_data [simp]: "token_at P pid K t (set_return_data p d vm) = token_at P pid K t vm"
  by (simp add: token_at_def set_return_data_def)

definition tables_sorted :: "'p hyperlane_token \<Rightarrow> bool" where
  "tables_sorted t \<longleftrightarrow> hm_sorted (ht_destination_gas t) \<and> hm_sorted (ht_remote_routers t)"

lemma token_wf_sorted: "token_wf t \<Longrightarrow> tables_sorted t"
  by (simp add: token_wf_def tables_sorted_def hm_valid_def)

text \<open>What fits into an account is well-formed when its tables are sorted.\<close>

lemma held_token_wf:
  assumes "holds (ser_hyperlane_token P) t K (vm_ledger vm)" and "data_bounded vm" and "tables_sorted t"
  shows "token_wf t"
proof -
  have "length (ser_hyperlane_token P t) \<le> 10485760"
    using assms(1,2) unfolding holds_def data_bounded_def by (metis le_trans length_append le_add1 le_add2)
  then have "length (ht_destination_gas t) < 2 ^ 32" "length (ht_remote_routers t) < 2 ^ 32"
    by (simp_all add: ser_hyperlane_token_def length_ser_hash_map [where a = 4 and b = 8]
        length_ser_hash_map [where a = 4 and b = 32])
  then show ?thesis using assms(3) by (simp add: token_wf_def hm_valid_def tables_sorted_def list_all_iff)
qed

section \<open>The owner's changes\<close>

lemma enroll_routers_eq:
  "fold token_enroll_remote_router cs t =
   t\<lparr>ht_remote_routers := fold (\<lambda>(k, c). case c of Some v \<Rightarrow> hm_insert k v | None \<Rightarrow> hm_remove k)
      (map router_entry cs) (ht_remote_routers t)\<rparr>"
  by (induction cs arbitrary: t)
     (auto simp: token_enroll_remote_router_def router_entry_def split: option.splits)

lemma set_gas_eq:
  "fold token_set_destination_gas cs t =
   t\<lparr>ht_destination_gas := fold (\<lambda>(k, c). case c of Some v \<Rightarrow> hm_insert k v | None \<Rightarrow> hm_remove k)
      (map gas_entry cs) (ht_destination_gas t)\<rparr>"
  by (induction cs arbitrary: t)
     (auto simp: token_set_destination_gas_def gas_entry_def split: option.splits)

lemma fold_entries_sorted:
  "hm_sorted m \<Longrightarrow> hm_sorted (fold (\<lambda>(k, c). case c of Some v \<Rightarrow> hm_insert k v | None \<Rightarrow> hm_remove k) cs m)"
  by (induction cs arbitrary: m) (auto simp: hm_sorted_insert hm_sorted_remove split: option.splits)

lemma updated_get:
  "hm_get (fold (\<lambda>(k, c). case c of Some v \<Rightarrow> hm_insert k v | None \<Rightarrow> hm_remove k) cs m) = updated cs (hm_get m)"
  by (rule ext) (simp add: hm.get_updates updated_def)

lemma updated_single: "updated [(k, c)] m = m(k := c)"
  by (simp add: updated_def fun_eq_iff)

text \<open>The change an instruction makes, and its effect on the configuration.\<close>

primrec token_change :: "token_instruction \<Rightarrow> 'p hyperlane_token \<Rightarrow> 'p hyperlane_token" where
  "token_change (TokenInit i) t = t"
| "token_change (TransferRemote x) t = t"
| "token_change (EnrollRemoteRouter r) t = token_enroll_remote_router r t"
| "token_change (EnrollRemoteRouters rs) t = fold token_enroll_remote_router rs t"
| "token_change (SetDestinationGasConfigs gs) t = fold token_set_destination_gas gs t"
| "token_change (SetInterchainSecurityModule m) t = t\<lparr>ht_interchain_security_module := m\<rparr>"
| "token_change (SetInterchainGasPaymaster m) t = t\<lparr>ht_interchain_gas_paymaster := m\<rparr>"
| "token_change (TokenTransferOwnership w) t = t\<lparr>ht_owner := w\<rparr>"

lemma token_change_fun:
  "token_change (EnrollRemoteRouter r) = token_enroll_remote_router r"
  "token_change (EnrollRemoteRouters rs) = fold token_enroll_remote_router rs"
  "token_change (SetDestinationGasConfigs gs) = fold token_set_destination_gas gs"
  "token_change (SetInterchainSecurityModule m) = (\<lambda>t. t\<lparr>ht_interchain_security_module := m\<rparr>)"
  "token_change (SetInterchainGasPaymaster g) = (\<lambda>t. t\<lparr>ht_interchain_gas_paymaster := g\<rparr>)"
  "token_change (TokenTransferOwnership w) = (\<lambda>t. t\<lparr>ht_owner := w\<rparr>)"
  by (simp_all add: fun_eq_iff)

lemma enroll_single: "token_enroll_remote_router r t = fold token_enroll_remote_router [r] t"
  by simp

lemma token_change_config: "token_config_of (token_change ix t) = config_step ix (token_config_of t)"
  by (cases ix)
     (simp_all add: token_config_of_def enroll_single enroll_routers_eq set_gas_eq updated_get
        del: fold_simps fold.simps,
      simp add: router_entry_def updated_single)

lemma token_change_fixed: "token_fixed (token_change ix t) = token_fixed t"
  by (cases ix) (simp_all add: token_fixed_def enroll_single enroll_routers_eq set_gas_eq del: fold_simps fold.simps)

lemma token_change_sorted: "tables_sorted t \<Longrightarrow> tables_sorted (token_change ix t)"
  by (cases ix)
     (simp_all add: tables_sorted_def enroll_single enroll_routers_eq set_gas_eq fold_entries_sorted
        del: fold_simps fold.simps)

section \<open>One instruction\<close>

definition changed_by ::
  "'p token_plugin \<Rightarrow> pubkey \<Rightarrow> pubkey \<Rightarrow> nat \<Rightarrow> ('p hyperlane_token \<Rightarrow> 'p hyperlane_token) \<Rightarrow>
     account_info list \<Rightarrow> 'p hyperlane_token \<Rightarrow> vm \<Rightarrow> bool" where
  "changed_by P pid K n ch accounts t vm' \<longleftrightarrow>
     n < length accounts \<and>
     (if ai_key (accounts ! n) = K
      then owner_signed accounts (token_config_of t) \<and>
           holds (ser_hyperlane_token P) (ch t) K (vm_ledger vm') \<and> acc_owner (vm_ledger vm' K) = pid
      else token_at P pid K t vm')"

lemma only_owner_Inr [result_simps]:
  "only_owner ch i t = Inr t' \<longleftrightarrow> ht_owner t = Some (ai_key i) \<and> ai_is_signer i \<and> t' = ch t"
  by (auto simp: only_owner_def ensure_owner_signer_def result_simps)

lemma transfer_ownership_Inr [result_simps]:
  "ac_transfer_ownership ht_owner token_set_owner i w t = Inr t' \<longleftrightarrow>
   ht_owner t = Some (ai_key i) \<and> ai_is_signer i \<and> t' = t\<lparr>ht_owner := w\<rparr>"
  by (auto simp: ac_transfer_ownership_def token_set_owner_def ensure_owner_signer_def result_simps)

interpretation token_ac: access_control ht_owner token_set_owner
  by unfold_locales (simp add: token_set_owner_def)

context token_plugin_laws
begin

lemma token_fetch_at:
  assumes "token_at P pid K t vm" and "ai_key i = K" and "token_fetch P rt pid' i vm = Inr t'"
  shows "t' = t"
  using assms fetch_held [of t K "vm_ledger vm"]
  by (auto simp: token_fetch_def token_at_def result_simps)

lemma enroll_changed:
  assumes "token_env rt pid" and "token_at P pid K t vm"
  shows "on_success (token_enroll_with P ch rt pid accounts vm) (changed_by P pid K 1 ch accounts t)"
proof (rule on_successI)
  fix vm' assume "token_enroll_with P ch rt pid accounts vm = Inr vm'"
  then obtain sys tok own rest t1 where a: "accounts = sys # tok # own # rest"
    and f: "token_fetch P rt pid tok vm = Inr t1" and w: "ht_owner t1 = Some (ai_key own)" "ai_is_signer own"
    and s: "store_with_rent_exempt_realloc rt (ser_hyperlane_token P) (hyperlane_token_size P) (ch t1) tok own vm = Inr vm'"
    by (auto simp: token_enroll_with_def result_simps)
  have "system_program_ok rt" using assms(1) by (simp add: token_env_def)
  note st = store_with_rent_exempt_realloc_Inr [OF this s]
  show "changed_by P pid K 1 ch accounts t vm'"
    using st w token_fetch_at [OF assms(2) _ f] token_at_only_changes [OF assms(2)] assms(2)
    by (auto simp: changed_by_def owner_signed_def token_config_of_def token_at_def a)
qed

lemma set_changed:
  assumes "token_at P pid K t vm"
    and ch: "\<And>i x y. change i x = Inr y \<longleftrightarrow> ht_owner x = Some (ai_key i) \<and> ai_is_signer i \<and> y = ch x"
  shows "on_success (token_set_with P change rt pid accounts vm) (changed_by P pid K 0 ch accounts t)"
proof (rule on_successI)
  fix vm' assume "token_set_with P change rt pid accounts vm = Inr vm'"
  then obtain tok own rest t1 where a: "accounts = tok # own # rest"
    and f: "token_fetch P rt pid tok vm = Inr t1" and w: "ht_owner t1 = Some (ai_key own)" "ai_is_signer own"
    and s: "store (ser_hyperlane_token P) (ch t1) tok False vm = Inr vm'"
    by (auto simp: token_set_with_def result_simps ch)
  show "changed_by P pid K 0 ch accounts t vm'"
    using store_holds [OF s] w token_fetch_at [OF assms(1) _ f] token_at_only_changes [OF assms(1)] assms(1)
    by (auto simp: changed_by_def owner_signed_def token_config_of_def token_at_def a)
qed

lemma initialize_keeps:
  assumes "token_env rt pid" and "token_at P pid K t vm"
  shows "on_success (token_initialize P rt pid accounts init vm) (token_at P pid K t)"
proof (rule on_successI)
  fix vm' assume "token_initialize P rt pid accounts init vm = Inr vm'"
  then obtain sp tok da payer rest p vm1 vm2 vm3 token seeds dseeds space where
    empty: "acc_data (vm_ledger vm (ai_key tok)) = []"
    and 1: "tp_initialize P rt pid sp tok payer rest vm = Inr (p, [], vm1)"
    and 2: "create_pda_account rt payer space pid sp tok seeds vm1 = Inr vm2"
    and 3: "create_pda_account rt payer 0 pid sp da dseeds vm2 = Inr vm3"
    and 4: "store (ser_hyperlane_token P) token tok False vm3 = Inr vm'"
    unfolding token_initialize_def Let_def
    by (auto simp: rbind_eq_Inr require_eq_Inr next_account_info_Inr verify_account_uninitialized_Inr case_prod_unfold)
  have "owned_frame pid vm vm1" using on_successD [OF initialize_frame [OF assms(1)] 1] by simp
  then have "token_at P pid K t vm3"
    using create_pda_owned [OF assms(1) 2] create_pda_owned [OF assms(1) 3] assms(2)
    by (blast intro: token_at_frame)
  moreover have "K \<noteq> ai_key tok" using token_at_data [OF assms(2)] empty by auto
  ultimately show "token_at P pid K t vm'" using store_holds [OF 4] token_at_only_changes by blast
qed

lemma dispatch_owned:
  assumes "token_env rt pid"
  shows "on_success (router_dispatch rt t pid' seeds d body metas infos vm) (\<lambda>(_, vm'). owned_frame pid vm vm')"
    and "on_success (gas_router_dispatch_with_gas rt t pid' seeds d body metas infos pm pi vm)
      (\<lambda>(_, vm'). owned_frame pid vm vm')"
proof -
  show 1: "on_success (router_dispatch rt t pid' seeds d body metas infos vm) (\<lambda>(_, vm'). owned_frame pid vm vm')"
    unfolding router_dispatch_def by (intro success_intros; clarsimp) (meson assms owned_frames)
  have r: "owned_frame pid vm vm1" if "router_dispatch rt t pid' seeds d body metas infos vm = Inr (i, vm1)" for i vm1
    using on_successD [OF 1 that] by simp
  show "on_success (gas_router_dispatch_with_gas rt t pid' seeds d body metas infos pm pi vm)
      (\<lambda>(_, vm'). owned_frame pid vm vm')"
    unfolding gas_router_dispatch_with_gas_def router_dispatch_with_gas_def invoke_def
    by (intro success_intros; clarsimp) (blast intro: owned_frame_trans r invoke_signed_owned [OF assms])
qed

lemma transfer_remote_keeps:
  assumes "token_env rt pid" and "token_at P pid K t vm"
  shows "on_success (transfer_remote P rt pid accounts x vm) (token_at P pid K t)"
proof -
  have in_frame: "token_at P pid K t vm1"
    if "tp_transfer_in P rt pid tk sender rest a vm = Inr (rest', vm1)" for tk sender rest a rest' vm1
    using on_successD [OF transfer_in_frame [OF assms(1)] that] token_at_frame [OF assms(2)] by simp
  have out: "token_at P pid K t vm2"
    if "(case pay of None \<Rightarrow> router_dispatch rt tk pid seeds d body metas infos vm1
         | Some (pm, pi) \<Rightarrow> gas_router_dispatch_with_gas rt tk pid seeds d body metas infos pm pi vm1) = Inr (i, vm2)"
      and "token_at P pid K t vm1" for pay tk seeds d body metas infos vm1 i vm2
    using that on_successD [OF dispatch_owned(1) [OF assms(1)]] on_successD [OF dispatch_owned(2) [OF assms(1)]]
    by (fastforce split: option.splits intro: token_at_frame)
  show ?thesis
    unfolding transfer_remote_def
    by (intro success_intros; clarsimp simp only: prod.inject) (rule out, assumption, rule in_frame, assumption)
qed

lemma transfer_from_remote_keeps:
  assumes "token_env rt pid" and "token_at P pid K t vm"
  shows "on_success (transfer_from_remote P rt pid accounts x vm) (token_at P pid K t)"
  unfolding transfer_from_remote_def
  by (rule on_successI)
     (use on_successD [OF transfer_out_frame [OF assms(1)]] token_at_frame [OF assms(2)] in \<open>fastforce simp: result_simps\<close>)

lemma views_keep:
  assumes "token_at P pid K t vm"
  shows "on_success (transfer_from_remote_account_metas P rt pid accounts x vm) (token_at P pid K t)"
    and "on_success (interchain_security_module P rt pid accounts vm) (token_at P pid K t)"
    and "on_success (interchain_security_module_account_metas rt pid vm) (token_at P pid K t)"
  using assms
  by (auto simp: on_success_def transfer_from_remote_account_metas_def interchain_security_module_def
      interchain_security_module_account_metas_def result_simps)

lemma owner_instruction_changed:
  assumes "token_env rt pid" and "token_at P pid K t vm" and "owner_instruction ix = Some n"
    and "\<nexists>i. recipient_decode data = Inr i" and "token_decode data = Inr ix"
    and "token_process_instruction P rt pid accounts data vm = Inr vm'"
  shows "changed_by P pid K n (token_change ix) accounts t vm'"
  using assms(3-6) enroll_changed [OF assms(1,2), THEN on_successD] set_changed [OF assms(2) only_owner_Inr [where ch = ch for ch], THEN on_successD]
    set_changed [OF assms(2) transfer_ownership_Inr [where w = w for w], THEN on_successD]
  by (cases ix)
     (auto simp: token_change_fun token_process_instruction_def enroll_remote_router_def enroll_remote_routers_def
        set_destination_gas_configs_def token_transfer_ownership_def set_interchain_security_module_def
        set_interchain_gas_paymaster_def split: sum.splits failure.splits)

lemma other_instruction_keeps:
  assumes "token_env rt pid" and "token_at P pid K t vm"
    and "(\<exists>i. recipient_decode data = Inr i) \<or> (\<forall>ix. token_decode data = Inr ix \<longrightarrow> owner_instruction ix = None)"
  shows "on_success (token_process_instruction P rt pid accounts data vm) (token_at P pid K t)"
proof (rule on_successI)
  fix vm' assume r: "token_process_instruction P rt pid accounts data vm = Inr vm'"
  note keeps = transfer_from_remote_keeps [OF assms(1,2), THEN on_successD]
    views_keep [OF assms(2), THEN on_successD] transfer_remote_keeps [OF assms(1,2), THEN on_successD]
    initialize_keeps [OF assms(1,2), THEN on_successD]
  show "token_at P pid K t vm'"
  proof (cases "recipient_decode data")
    case (Inr i)
    then show ?thesis using r keeps by (cases i) (auto simp: token_process_instruction_def)
  next
    case (Inl e)
    then obtain ix where "token_decode data = Inr ix" "owner_instruction ix = None"
      using r assms(3) by (auto simp: token_process_instruction_def rbind_eq_Inr split: failure.splits)
    then show ?thesis
      using Inl r keeps by (cases ix) (auto simp: token_process_instruction_def split: failure.splits)
  qed
qed

lemma instruction_refines:
  assumes env: "token_env rt pid" and at: "token_at P pid K t vm"
    and r: "token_process_instruction P rt pid accounts data vm = Inr vm'" and b: "data_bounded vm'"
  shows "\<exists>t'. token_at P pid K t' vm' \<and> token_fixed t' = token_fixed t \<and>
    config_call K accounts data (token_config_of t) (token_config_of t')"
proof (cases "(\<nexists>i. recipient_decode data = Inr i) \<and> (\<exists>ix n. token_decode data = Inr ix \<and> owner_instruction ix = Some n)")
  case False
  then have "token_at P pid K t vm'"
    using on_successD [OF other_instruction_keeps [OF env at] r] by (metis not_Some_eq)
  moreover have "\<not> configures K accounts data ix" for ix using False by (auto simp: configures_def)
  ultimately show ?thesis by (auto simp: config_call_def)
next
  case True
  then obtain ix n where d: "\<nexists>i. recipient_decode data = Inr i" "token_decode data = Inr ix" "owner_instruction ix = Some n"
    by blast
  note ch = owner_instruction_changed [OF env at d(3,1,2) r, unfolded changed_by_def]
  have conf: "configures K accounts data ix' \<longleftrightarrow> ix' = ix \<and> ai_key (accounts ! n) = K" for ix'
    using d ch by (auto simp: configures_def)
  show ?thesis
  proof (cases "ai_key (accounts ! n) = K")
    case False
    then show ?thesis using ch by (auto simp: config_call_def conf)
  next
    case True
    then have h: "holds (ser_hyperlane_token P) (token_change ix t) K (vm_ledger vm')"
      and w: "acc_owner (vm_ledger vm' K) = pid" and o: "owner_signed accounts (token_config_of t)"
      using ch by auto
    have "token_wf (token_change ix t)"
      using held_token_wf [OF h b] token_change_sorted token_wf_sorted at by (auto simp: token_at_def)
    then have "token_at P pid K (token_change ix t) vm'" using h w by (simp add: token_at_def)
    then show ?thesis
      using True o by (intro exI [of _ "token_change ix t"]) (auto simp: config_call_def conf token_change_config token_change_fixed)
  qed
qed

end

section \<open>Runs\<close>

text \<open>
  A run of a token program: successful instructions, interleaved with other transactions, which cannot
  change the data of accounts the program owns.
\<close>

type_synonym token_call = "account_info list \<times> bytes"

inductive token_run ::
  "'p token_plugin \<Rightarrow> runtime \<Rightarrow> pubkey \<Rightarrow> vm \<Rightarrow> token_call list \<Rightarrow> vm \<Rightarrow> bool"
  for P rt pid vm0 where
  start: "token_run P rt pid vm0 [] vm0"
| call: "token_run P rt pid vm0 cs vm \<Longrightarrow>
    token_process_instruction P rt pid accounts data vm = Inr vm' \<Longrightarrow> data_bounded vm' \<Longrightarrow>
    token_run P rt pid vm0 (cs @ [(accounts, data)]) vm'"
| other: "token_run P rt pid vm0 cs vm \<Longrightarrow> outside_step (\<lambda>_. False) pid vm vm' \<Longrightarrow> token_run P rt pid vm0 cs vm'"

inductive config_history ::
  "pubkey \<Rightarrow> token_config \<Rightarrow> token_call list \<Rightarrow> token_config \<Rightarrow> bool" for K c0 where
  start: "config_history K c0 [] c0"
| call: "config_history K c0 cs c \<Longrightarrow> config_call K accounts data c c' \<Longrightarrow>
    config_history K c0 (cs @ [(accounts, data)]) c'"

inductive_cases config_history_NilE: "config_history K c0 [] c"

lemma config_history_single:
  "config_history K c0 [(accounts, data)] c \<Longrightarrow> config_call K accounts data c0 c"
  by (erule config_history.cases) (auto elim: config_history_NilE)

definition config_refines :: "'p token_plugin \<Rightarrow> runtime \<Rightarrow> pubkey \<Rightarrow> bool" where
  "config_refines P rt pid \<longleftrightarrow>
     (\<forall>vm0 cs vm K t0. token_run P rt pid vm0 cs vm \<and> token_at P pid K t0 vm0 \<longrightarrow>
        (\<exists>t. token_at P pid K t vm \<and> token_fixed t = token_fixed t0 \<and>
             config_history K (token_config_of t0) cs (token_config_of t)))"

lemma token_at_outside:
  "token_at P pid K t vm \<Longrightarrow> outside_step (\<lambda>_. False) pid vm vm' \<Longrightarrow> token_at P pid K t vm'"
  unfolding token_at_def outside_step_def by (metis holds_same_data same_data_def)

context token_plugin_laws
begin

lemma run_refines:
  assumes env: "token_env rt pid" and "token_run P rt pid vm0 cs vm" and "token_at P pid K t0 vm0"
  shows "\<exists>t. token_at P pid K t vm \<and> token_fixed t = token_fixed t0 \<and>
    config_history K (token_config_of t0) cs (token_config_of t)"
  using assms(2,3)
proof (induction rule: token_run.induct)
  case start
  then show ?case using config_history.start by blast
next
  case (call cs vm accounts data vm')
  then obtain t where "token_at P pid K t vm" "token_fixed t = token_fixed t0"
    "config_history K (token_config_of t0) cs (token_config_of t)" by blast
  moreover from this obtain t' where "token_at P pid K t' vm'" "token_fixed t' = token_fixed t"
    "config_call K accounts data (token_config_of t) (token_config_of t')"
    using instruction_refines [OF env _ call.hyps(2,3)] by blast
  ultimately show ?case using config_history.call by (metis (no_types, lifting))
next
  case (other cs vm vm')
  then show ?case using token_at_outside by blast
qed

lemma config_refinement: "token_env rt pid \<Longrightarrow> config_refines P rt pid"
  unfolding config_refines_def using run_refines by blast

end

end
