(* ===== verification/Token_Samples.thy ===== *)
theory Token_Samples
  imports Token_State
begin

text \<open>
  A native token program on the runtime of the witnesses, with an initialized token account, and its runs:
  a transfer in each direction and a change of the configuration. CPIs return a message id.
\<close>

section \<open>Sample runs\<close>

definition bridge_runtime :: runtime where
  "bridge_runtime = sim_runtime\<lparr>rt_invoke := \<lambda>ix infos seeds l. Inr (l, Some (ix_program_id ix, ser_h256 42))\<rparr>"

definition token_key :: pubkey where
  "token_key = sim_key hyperlane_token_seeds 3000"

definition collateral_key :: pubkey where
  "collateral_key = sim_key native_collateral_seeds 3000"

definition authority_key :: pubkey where
  "authority_key = sim_key dispatch_authority_seeds 3000"

definition sample_token :: "native_plugin hyperlane_token" where
  "sample_token =
     \<lparr>ht_bump = 255, ht_mailbox = 50, ht_mailbox_process_authority = 60, ht_dispatch_authority_bump = 255,
      ht_decimals = 9, ht_remote_decimals = 18, ht_owner = Some 1, ht_interchain_security_module = None,
      ht_interchain_gas_paymaster = None, ht_destination_gas = [], ht_remote_routers = [(5, 77)],
      ht_plugin_data = \<lparr>np_native_collateral_bump = 255\<rparr>\<rparr>"

definition bridge_vm :: vm where
  "bridge_vm = initial_vm ((\<lambda>_. empty_account)
     (1 := funded_account 100000, collateral_key := funded_account 5000,
      token_key := data_account 3000 (ser_bool True @ ser_hyperlane_token NativePlugin sample_token)))"

lemma bridge_runtime_simps [simp]:
  "rt_find_program_address bridge_runtime seeds pid = (sim_key seeds pid, 255)"
  "rt_create_program_address bridge_runtime seeds pid = sim_create_address seeds pid"
  "rt_spl_noop_id bridge_runtime = 11" "rt_system bridge_runtime = sim_system"
  "rt_minimum_balance bridge_runtime n = word_of_nat n"
  "rt_invoke bridge_runtime ix infos ss l = Inr (l, Some (ix_program_id ix, ser_h256 42))"
  by (simp_all add: bridge_runtime_def sim_runtime_def)

lemma bridge_env: "token_env bridge_runtime 3000" "system_program_ok bridge_runtime"
proof -
  have "system_transfer_ok bridge_runtime = system_transfer_ok sim_runtime"
    "system_create_ok bridge_runtime = system_create_ok sim_runtime"
    "system_allocate_ok bridge_runtime = system_allocate_ok sim_runtime"
    "system_assign_ok bridge_runtime = system_assign_ok sim_runtime"
    by (simp_all add: system_transfer_ok_def system_create_ok_def system_allocate_ok_def system_assign_ok_def
        bridge_runtime_def)
  then show s: "system_program_ok bridge_runtime" using sim_system_ok by (simp add: system_program_ok_def)
  show "token_env bridge_runtime 3000"
    using s by (simp add: token_env_def cpi_frame_def SYSTEM_PROGRAM_ID_def)
qed

lemma bridge_keys:
  "token_key \<noteq> 1" "token_key \<noteq> 101" "collateral_key \<noteq> 1" "collateral_key \<noteq> 101" "token_key \<noteq> collateral_key"
proof -
  have t: "concat hyperlane_token_seeds = str_bytes ''hyperlane_message_recipient-handle-account_meta'' @ [115]"
    and c: "concat native_collateral_seeds = str_bytes ''hyperlane_token-native_collatera'' @ [108]"
    by (simp_all add: hyperlane_token_seeds_def native_collateral_seeds_def str_bytes_def)
  show "token_key \<noteq> 1" "token_key \<noteq> 101"
    unfolding token_key_def
    by (rule sim_key_neq [OF t, of _ "[]" 0] sim_key_neq [OF t, of _ "[]" 100],
        simp_all add: from_be_bytes_def from_le_bytes_def)+
  show "collateral_key \<noteq> 1" "collateral_key \<noteq> 101"
    unfolding collateral_key_def
    by (rule sim_key_neq [OF c, of _ "[]" 0] sim_key_neq [OF c, of _ "[]" 100],
        simp_all add: from_be_bytes_def from_le_bytes_def)+
  show "token_key \<noteq> collateral_key"
    unfolding token_key_def collateral_key_def by (rule sim_key_neq [OF t, of _ "str_bytes ''hyperlane_token-native_collatera''" 108]) (simp_all add: sim_key_def c)
qed

lemma sample_at: "token_at NativePlugin 3000 token_key sample_token bridge_vm"
  by (auto simp: token_at_def holds_def token_wf_def hm_valid_def hm_sorted_def sample_token_def bridge_vm_def
      initial_vm_def data_account_def)

lemma token_sample_fetch: "token_fetch NativePlugin bridge_runtime 3000 (signer_account token_key) bridge_vm = Inr sample_token"
proof -
  have "fetch (lift_de (de_hyperlane_token NativePlugin)) dflt (acc_data (vm_ledger bridge_vm token_key)) = Inr sample_token" for dflt
    using native.fetch_held [of sample_token token_key "vm_ledger bridge_vm"] sample_at by (simp add: token_at_def)
  moreover have "vm_borrowed bridge_vm = []" "acc_owner (vm_ledger bridge_vm token_key) = 3000"
    using sample_at by (simp_all add: bridge_vm_def initial_vm_def token_at_def)
  ultimately show ?thesis
    by (simp add: token_fetch_def borrow_data_def create_program_address_def owner_of_def sim_create_address_def
        token_key_def sample_token_def)
qed

lemma sample_token_simps [simp]:
  "ht_mailbox_process_authority sample_token = 60" "ht_remote_routers sample_token = [(5, 77)]"
  "ht_mailbox sample_token = 50" "ht_dispatch_authority_bump sample_token = 255"
  "ht_interchain_gas_paymaster sample_token = None" "ht_owner sample_token = Some 1"
  "ht_plugin_data sample_token = \<lparr>np_native_collateral_bump = 255\<rparr>"
  by (simp_all add: sample_token_def)

lemma sample_amounts:
  "local_amount_to_remote_amount sample_token 7 = Inr 7000000000"
  "remote_amount_to_local_amount sample_token 7000000000 = Inr 7"
  by (simp_all add: local_amount_to_remote_amount_def remote_amount_to_local_amount_def token_convert_decimals_def
      sample_token_def u256_checked_pow10_def as_u64_def)

lemma token_message_roundtrip: "token_message_read_from (to_vec token_message_write_to m) = Inr (m, [])"
  by (simp add: token_message_read_from_def token_message_write_to_def to_vec_def)

lemma bridge_vm_simps [simp]:
  "vm_borrowed bridge_vm = []" "vm_ledger bridge_vm 1 = funded_account 100000"
  "vm_ledger bridge_vm 101 = empty_account" "vm_ledger bridge_vm collateral_key = funded_account 5000"
  using bridge_keys by (auto simp: bridge_vm_def initial_vm_def)

lemma sample_collateral:
  "verify_native_collateral_account_info bridge_runtime 3000 sample_token (signer_account collateral_key) = Inr ()"
  by (simp add: verify_native_collateral_account_info_def create_program_address_def sim_create_address_def collateral_key_def)

lemma bridge_transfer:
  assumes "f \<noteq> t" and "a \<le> acc_lamports (vm_ledger bridge_vm f)"
    and "unat (acc_lamports (vm_ledger bridge_vm t)) + unat a < 2 ^ 64"
  shows "\<exists>vm. invoke_system_signed bridge_runtime (SysTransfer f t a) infos seeds bridge_vm = Inr vm \<and>
    vm_borrowed vm = [] \<and> acc_data (vm_ledger vm f) = acc_data (vm_ledger bridge_vm f)"
  using assms
  by (auto simp: invoke_system_signed_def sim_move_def checked_sub_def checked_add_def list_all_iff word_le_nat_alt)

subsection \<open>A message that pays out\<close>

definition payout :: handle_instruction where
  "payout = \<lparr>hi_origin = 5, hi_sender = 77, hi_message = to_vec token_message_write_to
     \<lparr>tm_recipient = 101, tm_amount_or_id = 7000000000, tm_metadata = []\<rparr>\<rparr>"

definition payout_accounts :: "account_info list" where
  "payout_accounts = [signer_account 60, program_account 0, signer_account token_key, signer_account 101,
     program_account 0, signer_account collateral_key]"

lemma payout_decode: "recipient_decode (HANDLE_DISCRIMINATOR @ ser_handle payout) = Inr (Handle payout)"
  by (rule recipient_codec.decode_encode)
     (simp add: try_to_vec_def handle_valid_def payout_def to_vec_def token_message_write_to_def)

lemma payout_runs:
  "\<exists>vm'. token_process_instruction NativePlugin bridge_runtime 3000 payout_accounts
     (HANDLE_DISCRIMINATOR @ ser_handle payout) bridge_vm = Inr vm'"
proof -
  obtain vm1 where t: "invoke_system_signed bridge_runtime (SysTransfer collateral_key 101 7)
      [signer_account collateral_key, signer_account 101] [native_collateral_seeds @ [[255]]] bridge_vm = Inr vm1"
    and v: "vm_borrowed vm1 = []" "acc_data (vm_ledger vm1 collateral_key) = []"
    using bridge_transfer [of collateral_key 101 7] bridge_keys by (auto simp: funded_account_def empty_account_def)
  have "transfer_from_remote NativePlugin bridge_runtime 3000 payout_accounts payout bridge_vm = Inr vm1"
    using t v token_sample_fetch sample_amounts(2) sample_collateral
    by (simp add: transfer_from_remote_def payout_accounts_def
        token_message_roundtrip SYSTEM_PROGRAM_ID_def native_transfer_out_def lamports_def
        ensure_valid_router_message_def ensure_mailbox_process_authority_signer_def only_remote_router_def
        is_remote_router_def hm_get_def payout_def verify_rent_exempt_def borrow_data_def)
  then show ?thesis by (simp add: token_process_instruction_def payout_decode)
qed

subsection \<open>A transfer to a remote chain\<close>

definition sending :: transfer_remote_ix where
  "sending = \<lparr>tr_destination_domain = 5, tr_recipient = 888, tr_amount_or_id = 7\<rparr>"

definition sending_data :: bytes where
  "sending_data = PROGRAM_INSTRUCTION_DISCRIMINATOR @ ser_token_instruction (TransferRemote sending)"

definition sending_accounts :: "account_info list" where
  "sending_accounts = [program_account 0, program_account 11, signer_account token_key, program_account 50,
     signer_account 51, signer_account authority_key, signer_account 1, signer_account 52, signer_account 53,
     program_account 0, signer_account collateral_key]"

interpretation borsh_u256: borsh ser_u256 de_u256 always
  by (rule borsh_fixed [where n = 32 and conv = "to_le_bytes 32" and unconv = from_le_bytes])
     (auto simp: ser_u256_def de_u256_def)

lemma not_recipient: "recipient_decode (PROGRAM_INSTRUCTION_DISCRIMINATOR @ bs) = Inl (Err InvalidInstructionData)"
  by (simp add: recipient_decode_def PROGRAM_INSTRUCTION_DISCRIMINATOR_def DISCRIMINATOR_LENGTH_def Let_def discriminator_defs)

lemma token_decode_ser:
  assumes "de_token_instruction (ser_token_instruction ix) = Inr (ix, [])"
  shows "token_decode (PROGRAM_INSTRUCTION_DISCRIMINATOR @ ser_token_instruction ix) = Inr ix"
  using assms
  by (simp add: token_decode_def discriminator_decode_def PROGRAM_INSTRUCTION_DISCRIMINATOR_def
      DISCRIMINATOR_LENGTH_def try_from_slice_def)

lemma sending_decode: "token_decode sending_data = Inr (TransferRemote sending)"
  unfolding sending_data_def
  by (rule token_decode_ser)
     (simp add: de_token_instruction_def sending_def borsh_u8.de_ser borsh_u32.de_ser borsh_h256.de_ser
        borsh_u256.de_Nil)

lemma sending_runs:
  "\<exists>vm'. token_process_instruction NativePlugin bridge_runtime 3000 sending_accounts sending_data bridge_vm = Inr vm'"
proof -
  obtain vm1 where t: "invoke_system bridge_runtime (SysTransfer 1 collateral_key 7)
      [signer_account 1, signer_account collateral_key] bridge_vm = Inr vm1" and v: "vm_borrowed vm1 = []"
    using bridge_transfer [of 1 collateral_key 7] bridge_keys
    by (auto simp: funded_account_def empty_account_def invoke_system_def)
  have i: "native_transfer_in bridge_runtime 3000 sample_token (signer_account 1)
      [program_account 0, signer_account collateral_key] 7 bridge_vm = Inr ([], vm1)"
    using t sample_collateral by (simp add: native_transfer_in_def SYSTEM_PROGRAM_ID_def)
  have d: "\<exists>vm'. rbind (router_dispatch bridge_runtime sample_token 3000 seeds 5 (to_vec token_message_write_to
      \<lparr>tm_recipient = 888, tm_amount_or_id = 7000000000, tm_metadata = []\<rparr>) metas infos vm1) (\<lambda>(_, vm). Inr vm) = Inr vm'" for seeds metas infos
    using v by (simp add: router_dispatch_def hm_get_def mailbox_into_instruction_data_def try_to_vec_def
        invoke_signed_def list_all_iff try_from_slice_def borsh_h256.de_Nil
        to_vec_def token_message_write_to_def)
  have a: "create_program_address bridge_runtime (dispatch_authority_seeds @ [[255]]) 3000 = Inr authority_key"
    by (simp add: create_program_address_def sim_create_address_def authority_key_def)
  have "\<exists>vm'. transfer_remote NativePlugin bridge_runtime 3000 sending_accounts sending bridge_vm = Inr vm'"
    using i d token_sample_fetch sample_amounts(1) a
    by (simp add: transfer_remote_def sending_accounts_def sending_def SYSTEM_PROGRAM_ID_def igp_payment_accounts_def Let_def)
  then show ?thesis
    using sending_decode not_recipient by (simp add: token_process_instruction_def sending_data_def)
qed

subsection \<open>A change of the configuration\<close>

definition enrolling_data :: bytes where
  "enrolling_data = PROGRAM_INSTRUCTION_DISCRIMINATOR @
     ser_token_instruction (SetInterchainSecurityModule (Some 99))"

definition enrolling_accounts :: "account_info list" where
  "enrolling_accounts = [signer_account token_key, signer_account 1]"

lemma enrolling_decode: "token_decode enrolling_data = Inr (SetInterchainSecurityModule (Some 99))"
  unfolding enrolling_data_def
  by (rule token_decode_ser) (simp add: de_token_instruction_def borsh_u8.de_ser borsh_pubkey_option.de_Nil)

definition roomy_vm :: vm where
  "roomy_vm = write_data token_key
     (ser_bool True @ ser_hyperlane_token NativePlugin sample_token @ replicate 32 0) bridge_vm"

lemma roomy_at: "token_at NativePlugin 3000 token_key sample_token roomy_vm"
  using sample_at by (auto simp: token_at_def roomy_vm_def holds_def)

lemma roomy_fetch: "token_fetch NativePlugin bridge_runtime 3000 (signer_account token_key) roomy_vm = Inr sample_token"
proof -
  have "fetch (lift_de (de_hyperlane_token NativePlugin)) dflt (acc_data (vm_ledger roomy_vm token_key)) = Inr sample_token" for dflt
    using native.fetch_held [of sample_token token_key "vm_ledger roomy_vm"] roomy_at by (simp add: token_at_def)
  moreover have "vm_borrowed roomy_vm = []" "acc_owner (vm_ledger roomy_vm token_key) = 3000"
    using roomy_at by (simp_all add: roomy_vm_def token_at_def)
  ultimately show ?thesis
    by (simp add: token_fetch_def borrow_data_def create_program_address_def owner_of_def sim_create_address_def
        token_key_def sample_token_def)
qed

lemma enrolling_run:
  "\<exists>vm'. token_run NativePlugin bridge_runtime 3000 roomy_vm [(enrolling_accounts, enrolling_data)] vm'"
proof -
  let ?t = "sample_token\<lparr>ht_interchain_security_module := Some 99\<rparr>"
  let ?S = "ser_hyperlane_token NativePlugin"
  have l: "length (?S ?t) = 32 + length (?S sample_token)"
    by (simp add: ser_hyperlane_token_def sample_token_def ser_option_def)
  have small: "length (?S sample_token) < 1000"
    using native.token_size_enough [of sample_token]
    by (simp add: hyperlane_token_size_def sample_token_def NativePlugin_def)
  obtain vm' where s: "store ?S ?t (signer_account token_key) False roomy_vm = Inr vm'"
    and v: "vm' = write_data token_key (ser_bool True @ ?S ?t) roomy_vm"
    using store_ok [of "signer_account token_key" roomy_vm ?S ?t False] l by (simp add: roomy_vm_def)
  have "token_process_instruction NativePlugin bridge_runtime 3000 enrolling_accounts enrolling_data roomy_vm = Inr vm'"
    using s roomy_fetch enrolling_decode not_recipient
    by (simp add: token_process_instruction_def enrolling_data_def set_interchain_security_module_def
        token_set_with_def enrolling_accounts_def only_owner_def ensure_owner_signer_def)
  moreover have "data_bounded vm'"
    using small l unfolding v data_bounded_def
    by (auto simp: write_data_def roomy_vm_def bridge_vm_def initial_vm_def empty_account_def funded_account_def data_account_def)
  ultimately have "token_run NativePlugin bridge_runtime 3000 roomy_vm ([] @ [(enrolling_accounts, enrolling_data)]) vm'"
    by (rule token_run.call [OF token_run.start])
  then show ?thesis by auto
qed

text \<open>Only the token account of this ledger can be fetched from: the others have no data.\<close>

lemma fetched_key:
  assumes "token_fetch NativePlugin bridge_runtime 3000 i bridge_vm = Inr t"
  shows "ai_key i = token_key"
proof (rule ccontr)
  assume "ai_key i \<noteq> token_key"
  then have "acc_owner (vm_ledger bridge_vm (ai_key i)) = SYSTEM_PROGRAM_ID"
    by (simp add: bridge_vm_def initial_vm_def empty_account_def funded_account_def)
  then show False using assms by (auto simp: token_fetch_def owner_of_def result_simps SYSTEM_PROGRAM_ID_def)
qed

end
