(* ===== verification/Token_Props.thy ===== *)
theory Token_Props
  imports Token_Samples
begin

text \<open>
  The properties of the token bridge: amounts, transfers of native lamports in both directions, and the
  configuration of the three token programs, with sample runs.
\<close>

section \<open>Amounts\<close>

text \<open>A successful conversion is exact up to rounding down.\<close>

lemma checked_pow10_Some: "u256_checked_pow10 n = Some d \<longleftrightarrow> n \<le> 77 \<and> d = 10 ^ n"
  unfolding u256_checked_pow10_def pow10_fits by auto

lemma token_convert_decimals_eq:
  assumes "token_convert_decimals a f t = Some b"
  shows "unat b = unat a * 10 ^ unat t div 10 ^ unat f"
proof (cases "f > t")
  case True
  let ?n = "unat (f - t)"
  have n: "unat f = ?n + unat t" using True by (simp add: unat_sub word_less_nat_alt less_imp_le)
  have b: "?n \<le> 77" "b = a div 10 ^ ?n"
    using assms True by (auto simp: token_convert_decimals_def checked_pow10_Some split: option.splits if_splits)
  then have "unat b = unat a div 10 ^ ?n" by (simp add: unat_div unat_pow10)
  then show ?thesis by (simp add: n power_add)
next
  case False
  show ?thesis
  proof (cases "f < t")
    case True
    let ?n = "unat (t - f)"
    have n: "unat t = ?n + unat f" using True by (simp add: unat_sub word_less_nat_alt less_imp_le)
    have b: "?n \<le> 77" "b = a * 10 ^ ?n" "unat a * 10 ^ ?n < 2 ^ 256"
      using assms True False
      by (auto simp: token_convert_decimals_def checked_pow10_Some unat_pow10 split: option.splits if_splits)
    then have "unat b = unat a * 10 ^ ?n" by (simp add: unat_word_ariths unat_pow10)
    then show ?thesis by (simp add: n power_add)
  next
    case False
    then have "f = t" using \<open>\<not> f > t\<close> by simp
    then show ?thesis using assms by (simp add: token_convert_decimals_def)
  qed
qed

lemma local_to_remote_eq:
  assumes "local_amount_to_remote_amount A a = Inr w"
  shows "unat w = unat a * 10 ^ unat (ht_remote_decimals A) div 10 ^ unat (ht_decimals A)"
  using assms token_convert_decimals_eq [of "ucast a"] by (auto simp: local_amount_to_remote_amount_def result_simps)

lemma remote_to_local_eq:
  assumes "remote_amount_to_local_amount B w = Inr b"
  shows "unat b = unat w * 10 ^ unat (ht_decimals B) div 10 ^ unat (ht_remote_decimals B)"
  using assms token_convert_decimals_eq
  by (auto simp: remote_amount_to_local_amount_def result_simps as_u64_def unsigned_ucast_eq take_bit_eq_mod split: if_splits)

lemma div_mult_div_le:
  fixes a :: nat
  assumes "0 < f" and "0 < r"
  shows "(a * r div f) * d div r * f \<le> a * d"
proof -
  have "(a * r div f) * d div r * r \<le> (a * r div f) * d" by (rule div_times_less_eq_dividend)
  then have "(a * r div f) * d div r * r * f \<le> (a * r div f) * f * d" by (metis mult.commute mult.left_commute mult_le_mono1)
  also have "\<dots> \<le> a * r * d" by (intro mult_le_mono1 div_times_less_eq_dividend)
  finally have "((a * r div f) * d div r * f) * r \<le> (a * d) * r" by (simp add: ac_simps)
  then show ?thesis using assms by simp
qed

section \<open>Native transfers\<close>

lemma system_transfer_exact:
  assumes "system_program_ok rt"
    and "invoke_system_signed rt (SysTransfer f t a) infos seeds vm = Inr vm'"
  shows "\<forall>k. same_data (vm_ledger vm) (vm_ledger vm') k"
    and "f \<noteq> t \<Longrightarrow> unat (acc_lamports (vm_ledger vm f)) = unat a + unat (acc_lamports (vm_ledger vm' f)) \<and>
       unat (acc_lamports (vm_ledger vm' t)) = unat (acc_lamports (vm_ledger vm t)) + unat a"
    and "k \<noteq> f \<Longrightarrow> k \<noteq> t \<Longrightarrow> vm_ledger vm' k = vm_ledger vm k"
  using assms by (auto simp: system_program_ok_def system_transfer_ok_def dest!: invoke_system_signed_Inr)

text \<open>\<open>moved f t a vm vm'\<close>: exactly \<open>a\<close> lamports went from \<open>f\<close> to \<open>t\<close>, and nothing else changed.\<close>

definition moved :: "pubkey \<Rightarrow> pubkey \<Rightarrow> u64 \<Rightarrow> vm \<Rightarrow> vm \<Rightarrow> bool" where
  "moved f t a vm vm' \<longleftrightarrow>
     (\<forall>k. same_data (vm_ledger vm) (vm_ledger vm') k) \<and>
     (f \<noteq> t \<longrightarrow> unat (acc_lamports (vm_ledger vm f)) = unat a + unat (acc_lamports (vm_ledger vm' f)) \<and>
        unat (acc_lamports (vm_ledger vm' t)) = unat (acc_lamports (vm_ledger vm t)) + unat a) \<and>
     (\<forall>k. k \<noteq> f \<and> k \<noteq> t \<longrightarrow> vm_ledger vm' k = vm_ledger vm k)"

lemma system_transfer_moved:
  assumes "system_program_ok rt"
    and "invoke_system_signed rt (SysTransfer f t a) infos seeds vm = Inr vm'"
  shows "moved f t a vm vm'"
  using system_transfer_exact [OF assms] by (simp add: moved_def)

definition native_collateral_at :: "runtime \<Rightarrow> pubkey \<Rightarrow> native_plugin hyperlane_token \<Rightarrow> pubkey \<Rightarrow> bool" where
  "native_collateral_at rt pid t k \<longleftrightarrow>
     rt_create_program_address rt
       (native_collateral_seeds @ [[np_native_collateral_bump (ht_plugin_data t)]]) pid = Inr k"

lemma native_in:
  assumes "system_program_ok rt" and "native_transfer_in rt pid t sender accounts a vm = Inr (rest, vm')"
  shows "\<exists>sys coll. accounts = sys # coll # rest \<and> native_collateral_at rt pid t (ai_key coll) \<and>
    moved (ai_key sender) (ai_key coll) a vm vm'"
  using assms
  by (auto simp: native_transfer_in_def result_simps verify_native_collateral_account_info_def
      native_collateral_at_def invoke_system_def dest: system_transfer_moved)

lemma native_out:
  assumes "system_program_ok rt" and "native_transfer_out rt pid t sp recipient accounts a vm = Inr (rest, vm')"
  shows "\<exists>sys coll. accounts = sys # coll # rest \<and> native_collateral_at rt pid t (ai_key coll) \<and>
    moved (ai_key coll) (ai_key recipient) a vm vm' \<and>
    rt_minimum_balance rt (length (acc_data (vm_ledger vm' (ai_key coll)))) \<le> acc_lamports (vm_ledger vm' (ai_key coll))"
  using assms
  by (auto simp: native_transfer_out_def result_simps verify_native_collateral_account_info_def
      native_collateral_at_def verify_rent_exempt_def lamports_def dest: system_transfer_moved)

text \<open>What a dispatch asked the mailbox for.\<close>

definition dispatched :: "runtime \<Rightarrow> 'p hyperlane_token \<Rightarrow> pubkey \<Rightarrow> u32 \<Rightarrow> bytes \<Rightarrow> vm \<Rightarrow> bool" where
  "dispatched rt t pid destination body vm \<longleftrightarrow>
     (\<exists>router data metas infos seeds l id.
        hm_get (ht_remote_routers t) destination = Some router \<and>
        mailbox_into_instruction_data (OutboxDispatch
          \<lparr>od_sender = pid, od_destination_domain = destination, od_recipient = router, od_message_body = body\<rparr>) = Inr data \<and>
        rt_invoke rt \<lparr>ix_program_id = ht_mailbox t, ix_accounts = metas, ix_data = data\<rparr> infos seeds (vm_ledger vm) =
          Inr (l, Some (ht_mailbox t, ser_h256 id)))"

lemma router_dispatch_dispatched:
  assumes "router_dispatch rt t pid seeds d body metas infos vm = Inr r"
  shows "dispatched rt t pid d body vm"
proof -
  obtain router data vm1 p ret id where 1: "hm_get (ht_remote_routers t) d = Some router"
    and 2: "mailbox_into_instruction_data (OutboxDispatch \<lparr>od_sender = pid, od_destination_domain = d,
        od_recipient = router, od_message_body = body\<rparr>) = Inr data"
    and 3: "invoke_signed rt \<lparr>ix_program_id = ht_mailbox t, ix_accounts = metas, ix_data = data\<rparr> infos [seeds] vm = Inr vm1"
    and 4: "vm_return_data vm1 = Some (p, ret)" "p = ht_mailbox t" "try_from_slice de_h256 ret = Inr id"
    using assms by (auto simp: router_dispatch_def result_simps)
  obtain l rd where "rt_invoke rt \<lparr>ix_program_id = ht_mailbox t, ix_accounts = metas, ix_data = data\<rparr> infos [seeds]
      (vm_ledger vm) = Inr (l, rd)" "vm1 = vm\<lparr>vm_ledger := l, vm_return_data := rd\<rparr>"
    using invoke_signed_Inr [OF 3] by blast
  then show ?thesis
    using 1 2 4 borsh_h256.try_from_slice_iff [of ret id] unfolding dispatched_def by simp blast
qed

lemma gas_dispatch_dispatched:
  assumes "gas_router_dispatch_with_gas rt t pid seeds d body metas infos pm pi vm = Inr r"
  shows "dispatched rt t pid d body vm"
  using assms router_dispatch_dispatched
  by (fastforce simp: gas_router_dispatch_with_gas_def router_dispatch_with_gas_def result_simps)

lemma igp_payment_accounts_rest:
  assumes "igp_payment_accounts igp sys sender unique accounts = Inr (payment, rest)"
  shows "set rest \<subseteq> set accounts"
  using assms
  by (auto simp: igp_payment_accounts_def result_simps Let_def split: option.splits igp_type.splits)
     (metis igp_type.exhaust)

lemma transfer_remote_steps:
  assumes "transfer_remote P rt pid accounts x vm = Inr vm'"
  shows "\<exists>tok sender rest t w vm1.
    {tok, sender} \<subseteq> set accounts \<and> set rest \<subseteq> set accounts \<and> token_fetch P rt pid tok vm = Inr t \<and>
    ai_is_signer sender \<and> unat (tr_amount_or_id x) < 2 ^ 64 \<and>
    local_amount_to_remote_amount t (ucast (tr_amount_or_id x)) = Inr w \<and>
    tp_transfer_in P rt pid t sender rest (ucast (tr_amount_or_id x)) vm = Inr ([], vm1) \<and>
    dispatched rt t pid (tr_destination_domain x)
      (to_vec token_message_write_to \<lparr>tm_recipient = tr_recipient x, tm_amount_or_id = w, tm_metadata = []\<rparr>) vm1"
    (is "?Q vm'")
proof -
  have d: "dispatched rt tk pid dest body vm1"
    if "(case pay of None \<Rightarrow> router_dispatch rt tk pid seeds dest body metas infos vm1
         | Some (pm, pi) \<Rightarrow> gas_router_dispatch_with_gas rt tk pid seeds dest body metas infos pm pi vm1) = Inr r"
    for pay tk seeds dest body metas infos vm1 r
    using that by (cases pay) (auto intro: router_dispatch_dispatched gas_dispatch_dispatched)
  have "on_success (transfer_remote P rt pid accounts x vm) ?Q"
    unfolding transfer_remote_def
    apply (intro success_intros; clarsimp simp only: prod.inject next_account_info_Inr)
    apply (drule d, drule igp_payment_accounts_rest, intro exI conjI)
           prefer 3 apply assumption
          prefer 6 apply assumption
         prefer 5 apply assumption
        prefer 5 apply assumption
       apply simp_all
    apply blast
    done
  then show ?thesis using assms by (rule on_successD)
qed

section \<open>Properties\<close>

text \<open>
  C8. Bridging never creates value. When an amount is converted for the message on one chain, and the
  amount of the message is converted on another chain whose token uses the same decimals on the wire,
  the amount paid out is worth at most the amount taken in; and when the wire has at least the decimals
  of the sending chain nothing is lost but the fraction of one unit of the receiving chain.
\<close>

theorem bridge_amount_bounds:
  assumes "local_amount_to_remote_amount A a = Inr w" and "remote_amount_to_local_amount B w = Inr b"
    and "ht_remote_decimals A = ht_remote_decimals B"
  shows "unat b * 10 ^ unat (ht_decimals A) \<le> unat a * 10 ^ unat (ht_decimals B) \<and>
    (ht_decimals A \<le> ht_remote_decimals A \<longrightarrow>
       unat b = unat a * 10 ^ unat (ht_decimals B) div 10 ^ unat (ht_decimals A))"
proof -
  let ?A = "unat (ht_decimals A)" and ?B = "unat (ht_decimals B)" and ?r = "unat (ht_remote_decimals A)"
  have b: "unat b = (unat a * 10 ^ ?r div 10 ^ ?A) * 10 ^ ?B div 10 ^ ?r"
    using local_to_remote_eq [OF assms(1)] remote_to_local_eq [OF assms(2)] assms(3) by simp
  have "unat b = unat a * 10 ^ ?B div 10 ^ ?A" if "ht_decimals A \<le> ht_remote_decimals A"
  proof -
    have r: "(10::nat) ^ ?r = 10 ^ (?r - ?A) * 10 ^ ?A" using that by (simp add: word_le_nat_alt flip: power_add)
    have "unat b = (unat a * 10 ^ (?r - ?A)) * 10 ^ ?B div (10 ^ (?r - ?A) * 10 ^ ?A)"
      unfolding b r by (simp flip: mult.assoc)
    also have "\<dots> = 10 ^ (?r - ?A) * (unat a * 10 ^ ?B) div (10 ^ (?r - ?A) * 10 ^ ?A)" by (simp add: ac_simps)
    also have "\<dots> = unat a * 10 ^ ?B div 10 ^ ?A" by (rule div_mult_mult1) simp
    finally show ?thesis .
  qed
  then show ?thesis unfolding b by (simp add: div_mult_div_le)
qed

theorem bridge_amount_bounds_witness:
  "unat (7::u64) * 10 ^ unat (ht_decimals sample_token) \<le> unat (7::u64) * 10 ^ unat (ht_decimals sample_token) \<and>
   ht_decimals sample_token \<le> ht_remote_decimals sample_token"
  using bridge_amount_bounds [OF sample_amounts refl] by (simp add: sample_token_def)

text \<open>
  C3. The native token program pays out only for messages of the bridge. When the instruction that
  handles a message succeeds, the process authority of the mailbox stored in the token account signed it,
  the sender is the router enrolled for the origin, and the only effect is that exactly the converted
  amount of the message moved from the collateral account of the program to the recipient the message
  names; the collateral account stays rent exempt.
\<close>

theorem native_pays_out_exactly:
  assumes "system_program_ok rt" and "recipient_decode data = Inr (Handle h)"
    and "token_process_instruction NativePlugin rt pid accounts data vm = Inr vm'"
  shows "\<exists>authority sys tok recipient sys' coll t m a.
    accounts = [authority, sys, tok, recipient, sys', coll] \<and> token_fetch NativePlugin rt pid tok vm = Inr t \<and>
    ai_is_signer authority \<and> ai_key authority = ht_mailbox_process_authority t \<and>
    hm_get (ht_remote_routers t) (hi_origin h) = Some (hi_sender h) \<and>
    token_message_read_from (hi_message h) = Inr (m, []) \<and> tm_recipient m = ai_key recipient \<and>
    remote_amount_to_local_amount t (tm_amount_or_id m) = Inr a \<and> native_collateral_at rt pid t (ai_key coll) \<and>
    moved (ai_key coll) (ai_key recipient) a vm vm' \<and>
    rt_minimum_balance rt (length (acc_data (vm_ledger vm' (ai_key coll)))) \<le> acc_lamports (vm_ledger vm' (ai_key coll))"
proof -
  have "transfer_from_remote NativePlugin rt pid accounts h vm = Inr vm'"
    using assms(2,3) by (simp add: token_process_instruction_def)
  then obtain authority sys tok recipient rest t m a r where acc: "accounts = authority # sys # tok # recipient # rest"
    and m: "token_message_read_from (hi_message h) = Inr (m, r)" "ai_key recipient = tm_recipient m"
    and t: "token_fetch NativePlugin rt pid tok vm = Inr t"
    and v: "ensure_valid_router_message t authority (hi_origin h) (hi_sender h) = Inr ()"
    and a: "remote_amount_to_local_amount t (tm_amount_or_id m) = Inr a"
    and o: "native_transfer_out rt pid t sys recipient rest a vm = Inr ([], vm')"
    by (auto simp: transfer_from_remote_def result_simps)
  have "r = []" using m(1) by (auto simp: token_message_read_from_def result_simps)
  then show ?thesis
    using native_out [OF assms(1) o] acc m t v a
    by (auto simp: ensure_valid_router_message_def ensure_mailbox_process_authority_signer_def
        only_remote_router_def is_remote_router_def result_simps)
qed

theorem native_pays_out_exactly_witness:
  "\<exists>vm'. moved collateral_key 101 7 bridge_vm vm' \<and> acc_lamports (vm_ledger vm' 101) = 7"
proof -
  obtain vm' where r: "token_process_instruction NativePlugin bridge_runtime 3000 payout_accounts
     (HANDLE_DISCRIMINATOR @ ser_handle payout) bridge_vm = Inr vm'" using payout_runs by blast
  from native_pays_out_exactly [OF bridge_env(2) payout_decode r] token_sample_fetch sample_amounts(2)
  have m: "moved collateral_key 101 7 bridge_vm vm'"
    by (auto simp: payout_accounts_def payout_def token_message_roundtrip)
  then have "unat (acc_lamports (vm_ledger vm' 101)) = 7"
    using bridge_keys by (auto simp: moved_def empty_account_def)
  then have "acc_lamports (vm_ledger vm' 101) = 7" by (simp add: word_unat_eq_iff)
  then show ?thesis using m by blast
qed

text \<open>
  C6. The native token program sends a message only for lamports it took in. When a transfer to a remote
  chain succeeds, the sender signed it, exactly the amount moved from the sender to the collateral
  account of the program, and afterwards the mailbox of the token dispatched to the enrolled router of
  the destination a message that names the recipient and the converted amount.
\<close>

theorem native_dispatches_collateral:
  assumes "system_program_ok rt" and "\<nexists>i. recipient_decode data = Inr i" and "token_decode data = Inr (TransferRemote x)"
    and "token_process_instruction NativePlugin rt pid accounts data vm = Inr vm'"
  shows "\<exists>tok sender coll t a w vm1.
    {tok, sender, coll} \<subseteq> set accounts \<and> token_fetch NativePlugin rt pid tok vm = Inr t \<and>
    ai_is_signer sender \<and> unat a = unat (tr_amount_or_id x) \<and> native_collateral_at rt pid t (ai_key coll) \<and>
    moved (ai_key sender) (ai_key coll) a vm vm1 \<and> local_amount_to_remote_amount t a = Inr w \<and>
    dispatched rt t pid (tr_destination_domain x)
      (to_vec token_message_write_to \<lparr>tm_recipient = tr_recipient x, tm_amount_or_id = w, tm_metadata = []\<rparr>) vm1"
proof -
  have "transfer_remote NativePlugin rt pid accounts x vm = Inr vm'"
    using assms(2-4) by (auto simp: token_process_instruction_def split: sum.splits failure.splits)
  from transfer_remote_steps [OF this] obtain tok sender rest' t w vm1 where
    s: "{tok, sender} \<subseteq> set accounts" "set rest' \<subseteq> set accounts" "token_fetch NativePlugin rt pid tok vm = Inr t"
      "ai_is_signer sender" "unat (tr_amount_or_id x) < 2 ^ 64"
    and w: "local_amount_to_remote_amount t (ucast (tr_amount_or_id x)) = Inr w"
    and i: "native_transfer_in rt pid t sender rest' (ucast (tr_amount_or_id x)) vm = Inr ([], vm1)"
    and d: "dispatched rt t pid (tr_destination_domain x)
      (to_vec token_message_write_to \<lparr>tm_recipient = tr_recipient x, tm_amount_or_id = w, tm_metadata = []\<rparr>) vm1"
    by auto
  have "unat (ucast (tr_amount_or_id x) :: u64) = unat (tr_amount_or_id x)"
    using s(5) by (simp add: unsigned_ucast_eq take_bit_eq_mod)
  then show ?thesis using native_in [OF assms(1) i] s w d by fastforce
qed

theorem native_dispatches_collateral_witness:
  "\<exists>sender coll vm1. moved sender coll 7 bridge_vm vm1 \<and>
     dispatched bridge_runtime sample_token 3000 5 (to_vec token_message_write_to
       \<lparr>tm_recipient = 888, tm_amount_or_id = 7000000000, tm_metadata = []\<rparr>) vm1"
proof -
  obtain vm' where r: "token_process_instruction NativePlugin bridge_runtime 3000 sending_accounts
     sending_data bridge_vm = Inr vm'" using sending_runs by blast
  have n: "\<nexists>i. recipient_decode sending_data = Inr i" using not_recipient by (simp add: sending_data_def)
  from native_dispatches_collateral [OF bridge_env(2) n sending_decode r]
  obtain tok t a w vm1 and sender coll :: account_info where
    f: "tok \<in> set sending_accounts" "token_fetch NativePlugin bridge_runtime 3000 tok bridge_vm = Inr t"
    and a: "unat a = unat (tr_amount_or_id sending)" and m: "moved (ai_key sender) (ai_key coll) a bridge_vm vm1"
    and w: "local_amount_to_remote_amount t a = Inr w"
    and d: "dispatched bridge_runtime t 3000 (tr_destination_domain sending) (to_vec token_message_write_to
      \<lparr>tm_recipient = tr_recipient sending, tm_amount_or_id = w, tm_metadata = []\<rparr>) vm1"
    unfolding insert_subset by blast
  have "ai_key tok = token_key" using f(2) by (rule fetched_key)
  then have t: "t = sample_token" using native.token_fetch_at [OF sample_at _ f(2)] by simp
  have "a = 7" using a by (simp add: word_unat_eq_iff sending_def)
  then show ?thesis using m w d sample_amounts(1) by (auto simp: t sending_def)
qed

text \<open>
  C7. The configuration of each of the three token programs is changed only by its owner. In every run of
  the program, interleaved with other transactions, the token account stays well-formed, its mailbox,
  process authority, decimals and plugin data never change, and its owner, security module, gas paymaster,
  destination gas and routers are the result of exactly the owner's instructions among those that
  succeeded, each signed by the owner at that time.
\<close>

theorem token_config_refined:
  assumes "token_env rt pid"
  shows "config_refines NativePlugin rt pid \<and> config_refines (SyntheticPlugin spl) rt pid \<and>
    config_refines (CollateralPlugin spl) rt pid"
  using native.config_refinement synthetic.config_refinement collateral.config_refinement assms by blast

theorem token_config_refined_witness:
  "\<exists>vm' t. token_run NativePlugin bridge_runtime 3000 roomy_vm [(enrolling_accounts, enrolling_data)] vm' \<and>
     token_at NativePlugin 3000 token_key t vm' \<and> ht_interchain_security_module t = Some 99 \<and>
     ht_mailbox t = 50"
proof -
  obtain vm' where r: "token_run NativePlugin bridge_runtime 3000 roomy_vm [(enrolling_accounts, enrolling_data)] vm'"
    using enrolling_run by blast
  obtain t where t: "token_at NativePlugin 3000 token_key t vm'" "token_fixed t = token_fixed sample_token"
    and h: "config_history token_key (token_config_of sample_token) [(enrolling_accounts, enrolling_data)] (token_config_of t)"
    using token_config_refined [OF bridge_env(1)] r roomy_at unfolding config_refines_def by blast
  have c: "config_call token_key enrolling_accounts enrolling_data (token_config_of sample_token) (token_config_of t)"
    using h by (rule config_history_single)
  have "configures token_key enrolling_accounts enrolling_data (SetInterchainSecurityModule (Some 99))"
    using enrolling_decode not_recipient
    by (auto simp: configures_def enrolling_accounts_def enrolling_data_def)
  then have "token_config_of t = config_step (SetInterchainSecurityModule (Some 99)) (token_config_of sample_token)"
    using c enrolling_decode by (auto simp: config_call_def configures_def split: if_splits)
  then have "ht_interchain_security_module t = Some 99" by (simp add: token_config_of_def)
  moreover have "ht_mailbox t = 50"
    using arg_cong [OF t(2), of ht_mailbox] by (simp add: token_fixed_def)
  ultimately show ?thesis using r t(1) by blast
qed

text \<open>
  C40. Token accounts are well-typed: whatever bytes an account of the native, synthetic or collateral
  program holds, a token that is read from them has tables with distinct sorted keys, it is read back
  exactly from its own encoding, and the size the program reserves for it is enough.
\<close>

theorem token_account_data:
  "(de_hyperlane_token NativePlugin bs = Inr (n, r) \<longrightarrow>
      token_wf n \<and> de_hyperlane_token NativePlugin (ser_hyperlane_token NativePlugin n @ tail) = Inr (n, tail) \<and>
      length (ser_hyperlane_token NativePlugin n) \<le> hyperlane_token_size NativePlugin n) \<and>
   (de_hyperlane_token (SyntheticPlugin spl) bs = Inr (s, r) \<longrightarrow>
      token_wf s \<and> de_hyperlane_token (SyntheticPlugin spl) (ser_hyperlane_token (SyntheticPlugin spl) s @ tail) = Inr (s, tail) \<and>
      length (ser_hyperlane_token (SyntheticPlugin spl) s) \<le> hyperlane_token_size (SyntheticPlugin spl) s) \<and>
   (de_hyperlane_token (CollateralPlugin spl) bs = Inr (c, r) \<longrightarrow>
      token_wf c \<and> de_hyperlane_token (CollateralPlugin spl) (ser_hyperlane_token (CollateralPlugin spl) c @ tail) = Inr (c, tail) \<and>
      length (ser_hyperlane_token (CollateralPlugin spl) c) \<le> hyperlane_token_size (CollateralPlugin spl) c)"
  by (intro conjI impI)
     (rule native.de_token_wf native.de_ser_token native.token_size_enough
        synthetic.de_token_wf synthetic.de_ser_token synthetic.token_size_enough
        collateral.de_token_wf collateral.de_ser_token collateral.token_size_enough; (assumption)?)+

theorem token_account_data_witness:
  "token_wf sample_token \<and>
   length (ser_hyperlane_token NativePlugin sample_token) \<le> hyperlane_token_size NativePlugin sample_token"
proof -
  have "de_hyperlane_token NativePlugin (ser_hyperlane_token NativePlugin sample_token @ []) = Inr (sample_token, [])"
    by (rule native.de_ser_token) (use sample_at in \<open>simp add: token_at_def\<close>)
  then show ?thesis using token_account_data [of _ sample_token "[]"] by blast
qed

end
