(* ===== verification/Matching_List.thy ===== *)
theory Matching_List
  imports Message
begin

text \<open>
  The relayer's matching lists (\<^verbatim>\<open>agents/relayer/src/settings/matching_list.rs\<close>): the rules, whether
  a message matches them, and the visitors that read a rule from the configuration, with the
  conversions of \<^verbatim>\<open>StrOrInt\<close> (\<^verbatim>\<open>hyperlane-core/src/config/str_or_int.rs\<close>) and the parser of addresses
  (\<^verbatim>\<open>hyperlane-core/src/utils.rs\<close>). The deserializer of serde, which chooses the visitor's method and
  gives the elements of a sequence, and the hexadecimal and base 58 decoders are not code of the
  repository: an element of a sequence is a value or the deserializer's error, and the decoders are
  the fields of a record.
\<close>

section \<open>Rules\<close>

datatype 'a filter_rule = Wildcard | Enumerated "'a list"

definition filter_default :: "'a filter_rule" where
  "filter_default = Wildcard"

fun filter_matches :: "'a filter_rule \<Rightarrow> 'a \<Rightarrow> bool" where
  "filter_matches Wildcard v = True"
| "filter_matches (Enumerated list) v = list_ex (\<lambda>i. i = v) list"

record list_element =
  origin_domain :: "u32 filter_rule"
  sender_address :: "h256 filter_rule"
  destination_domain :: "u32 filter_rule"
  recipient_address :: "h256 filter_rule"

datatype matching_list = MatchingList "list_element list option"

definition matching_list_default :: matching_list where
  "matching_list_default = MatchingList None"

record match_info =
  src_domain :: u32
  src_addr :: h256
  dst_domain :: u32
  dst_addr :: h256

definition match_info_from :: "hyperlane_message \<Rightarrow> match_info" where
  "match_info_from msg =
     \<lparr>src_domain = msg_origin msg, src_addr = msg_sender msg,
      dst_domain = msg_destination msg, dst_addr = msg_recipient msg\<rparr>"

definition matches_any_rule :: "list_element list \<Rightarrow> match_info \<Rightarrow> bool" where
  "matches_any_rule rules info \<longleftrightarrow> list_ex (\<lambda>rule.
     filter_matches (origin_domain rule) (src_domain info) \<and>
     filter_matches (sender_address rule) (src_addr info) \<and>
     filter_matches (destination_domain rule) (dst_domain info) \<and>
     filter_matches (recipient_address rule) (dst_addr info)) rules"

fun ml_matches :: "matching_list \<Rightarrow> match_info \<Rightarrow> bool \<Rightarrow> bool" where
  "ml_matches (MatchingList (Some rules)) info dflt = matches_any_rule rules info"
| "ml_matches (MatchingList None) info dflt = dflt"

definition msg_matches :: "matching_list \<Rightarrow> hyperlane_message \<Rightarrow> bool \<Rightarrow> bool" where
  "msg_matches ml msg dflt = ml_matches ml (match_info_from msg) dflt"

section \<open>Reading integers\<close>

text \<open>
  \<^verbatim>\<open>str::parse\<close> of the standard library for an unsigned type: an optional plus sign and at least one
  decimal digit, within the width.
\<close>

definition is_digit :: "u8 \<Rightarrow> bool" where
  "is_digit c \<longleftrightarrow> 48 \<le> c \<and> c \<le> 57"

fun digits_value :: "bytes \<Rightarrow> nat \<Rightarrow> nat option" where
  "digits_value [] acc = Some acc"
| "digits_value (c # cs) acc =
     (if is_digit c then digits_value cs (10 * acc + unat (c - 48)) else None)"

datatype str_or_int_parse_error = StrParse | InvalidInt | OtherParse

definition parse_uint :: "bytes \<Rightarrow> str_or_int_parse_error + 'a::len word" where
  "parse_uint s =
     (let cs = (case s of [] \<Rightarrow> [] | c # r \<Rightarrow> if c = 43 then r else s) in
      if cs = [] then Inl StrParse
      else case digits_value cs 0 of
        None \<Rightarrow> Inl StrParse
      | Some v \<Rightarrow> if v < 2 ^ LENGTH('a) then Inr (word_of_nat v) else Inl StrParse)"

datatype str_or_int = StrVal bytes | IntVal "64 word"

text \<open>\<^verbatim>\<open>convert_to!\<close> for the unsigned types; an \<^verbatim>\<open>i64\<close> is read by \<open>sint\<close>.\<close>

definition str_or_int_try_into :: "str_or_int \<Rightarrow> str_or_int_parse_error + 'a::len word" where
  "str_or_int_try_into v =
     (case v of
        StrVal s \<Rightarrow> parse_uint s
      | IntVal i \<Rightarrow> if 0 \<le> sint i \<and> sint i < 2 ^ LENGTH('a) then Inr (word_of_int (sint i))
                else Inl InvalidInt)"

section \<open>Reading addresses\<close>

record 'x addr_decoders =
  h256_from_str :: "bytes \<Rightarrow> 'x + h256"
  h160_from_str :: "bytes \<Rightarrow> 'x + h160"
  bs58_decode :: "bytes \<Rightarrow> 'x + bytes"

datatype 'x addr_error = DecoderError 'x | InvalidHexString | InvalidBase58Length

definition hex_or_base58_to_h256 :: "'x addr_decoders \<Rightarrow> bytes \<Rightarrow> 'x addr_error + h256" where
  "hex_or_base58_to_h256 D s =
     (if take 2 s = str_bytes ''0x'' then
        if length s = 66 then map_err DecoderError (h256_from_str D s)
        else if length s = 42 then
          rbind (map_err DecoderError (h160_from_str D s)) (\<lambda>a. Inr (ucast a))
        else Inl InvalidHexString
      else
        rbind (map_err DecoderError (bs58_decode D s)) (\<lambda>bytes.
        require (length bytes = 32) InvalidBase58Length
          (Inr (h256_from_slice bytes))))"

section \<open>The visitors\<close>

datatype ('x, 'd) serde_error =
    DomainTooLarge | NotAnInteger str_or_int_parse_error | NotAnAddress "'x addr_error"
  | DeserializerError 'd

definition parse_addr :: "'x addr_decoders \<Rightarrow> bytes \<Rightarrow> ('x, 'd) serde_error + h256" where
  "parse_addr D s = map_err NotAnAddress (hex_or_base58_to_h256 D s)"

definition domain_visit_u32 :: "u32 \<Rightarrow> ('x, 'd) serde_error + u32 filter_rule" where
  "domain_visit_u32 v = Inr (Enumerated [v])"

definition domain_visit_u64 :: "u64 \<Rightarrow> ('x, 'd) serde_error + u32 filter_rule" where
  "domain_visit_u64 v =
     (if unat v < 2 ^ 32 then Inr (Enumerated [ucast v]) else Inl DomainTooLarge)"

definition domain_visit_str :: "bytes \<Rightarrow> ('x, 'd) serde_error + u32 filter_rule" where
  "domain_visit_str v =
     (if v = str_bytes ''*'' then Inr Wildcard
      else rbind (map_err NotAnInteger (parse_uint v)) (\<lambda>d. Inr (Enumerated [d])))"

fun domain_seq_values :: "('d + str_or_int) list \<Rightarrow> ('x, 'd) serde_error + u32 list" where
  "domain_seq_values [] = Inr []"
| "domain_seq_values (e # es) =
     rbind (map_err DeserializerError e) (\<lambda>i.
     rbind (map_err NotAnInteger (str_or_int_try_into i)) (\<lambda>v.
     rbind (domain_seq_values es) (\<lambda>vs. Inr (v # vs))))"

definition domain_visit_seq :: "('d + str_or_int) list \<Rightarrow> ('x, 'd) serde_error + u32 filter_rule" where
  "domain_visit_seq es = rbind (domain_seq_values es) (\<lambda>vs. Inr (Enumerated vs))"

definition addr_visit_str ::
  "'x addr_decoders \<Rightarrow> bytes \<Rightarrow> ('x, 'd) serde_error + h256 filter_rule" where
  "addr_visit_str D v =
     (if v = str_bytes ''*'' then Inr Wildcard
      else rbind (parse_addr D v) (\<lambda>a. Inr (Enumerated [a])))"

fun addr_seq_values ::
  "'x addr_decoders \<Rightarrow> ('d + bytes) list \<Rightarrow> ('x, 'd) serde_error + h256 list" where
  "addr_seq_values D [] = Inr []"
| "addr_seq_values D (e # es) =
     rbind (map_err DeserializerError e) (\<lambda>i.
     rbind (parse_addr D i) (\<lambda>v.
     rbind (addr_seq_values D es) (\<lambda>vs. Inr (v # vs))))"

definition addr_visit_seq ::
  "'x addr_decoders \<Rightarrow> ('d + bytes) list \<Rightarrow> ('x, 'd) serde_error + h256 filter_rule" where
  "addr_visit_seq D es = rbind (addr_seq_values D es) (\<lambda>vs. Inr (Enumerated vs))"

fun rules_visit_seq :: "('d + list_element) list \<Rightarrow> ('x, 'd) serde_error + list_element list" where
  "rules_visit_seq [] = Inr []"
| "rules_visit_seq (e # es) =
     rbind (map_err DeserializerError e) (\<lambda>rule.
     rbind (rules_visit_seq es) (\<lambda>rules. Inr (rule # rules)))"

definition matching_list_visit_none :: "('x, 'd) serde_error + matching_list" where
  "matching_list_visit_none = Inr (MatchingList None)"

definition matching_list_visit_some ::
  "('d + list_element) list \<Rightarrow> ('x, 'd) serde_error + matching_list" where
  "matching_list_visit_some es =
     rbind (rules_visit_seq es) (\<lambda>list.
     Inr (if list = [] then MatchingList None else MatchingList (Some list)))"

section \<open>What a list read from the configuration matches\<close>

lemma filter_matches_iff:
  "filter_matches f v \<longleftrightarrow> (case f of Wildcard \<Rightarrow> True | Enumerated vs \<Rightarrow> v \<in> set vs)"
  by (cases f) (auto simp: list_ex_iff)

definition rule_matches :: "list_element \<Rightarrow> hyperlane_message \<Rightarrow> bool" where
  "rule_matches rule msg \<longleftrightarrow>
     filter_matches (origin_domain rule) (msg_origin msg) \<and>
     filter_matches (sender_address rule) (msg_sender msg) \<and>
     filter_matches (destination_domain rule) (msg_destination msg) \<and>
     filter_matches (recipient_address rule) (msg_recipient msg)"

lemma msg_matches_iff:
  "msg_matches (MatchingList o') msg dflt \<longleftrightarrow>
     (case o' of None \<Rightarrow> dflt | Some rules \<Rightarrow> \<exists>rule\<in>set rules. rule_matches rule msg)"
  by (cases o')
     (auto simp: msg_matches_def matches_any_rule_def list_ex_iff rule_matches_def match_info_from_def)

lemma rules_visit_seq_ok: "rules_visit_seq es = Inr rules \<longleftrightarrow> es = map Inr rules"
proof (induction es arbitrary: rules)
  case (Cons e es)
  then show ?case by (cases e) (auto simp: result_simps)
qed auto

text \<open>
  A list read from the configuration matches by default exactly when no rule was given, and
  otherwise exactly when one of the rules matches.
\<close>

lemma visit_some_matches:
  assumes "matching_list_visit_some es = (Inr ml :: ('x, 'd) serde_error + matching_list)"
  shows "\<exists>rules. es = map Inr rules \<and>
    (msg_matches ml msg dflt \<longleftrightarrow>
      (if rules = [] then dflt else \<exists>rule\<in>set rules. rule_matches rule msg))"
proof -
  obtain rules where "rules_visit_seq es = (Inr rules :: ('x, 'd) serde_error + _)"
    and ml: "ml = (if rules = [] then MatchingList None else MatchingList (Some rules))"
    using assms unfolding matching_list_visit_some_def by (cases "rules_visit_seq es :: ('x, 'd) serde_error + _") simp_all
  then have "es = map Inr rules" by (simp add: rules_visit_seq_ok)
  moreover have "msg_matches ml msg dflt \<longleftrightarrow>
      (if rules = [] then dflt else \<exists>rule\<in>set rules. rule_matches rule msg)"
    by (simp add: ml msg_matches_iff)
  ultimately show ?thesis by blast
qed

end
