(* ===== verification/Gas_Payment.thy ===== *)
theory Gas_Payment
  imports Hyperlane_Db_Props Matching_List
begin

text \<open>
  The relayer's gas payment enforcement (\<^verbatim>\<open>agents/relayer/src/msg/gas_payment\<close>): the three policies,
  the enforcer that applies the first policy whose matching list the message matches, to the totals of
  the database, and the recording of what a transaction spent. The fixed point numbers of gas prices
  wrap a library type; their operations are the fields of a record.
\<close>

section \<open>Policies\<close>

record 'fp tx_cost_estimate =
  tce_gas_limit :: u256
  tce_gas_price :: 'fp
  tce_l2_gas_limit :: "u256 option"

definition enforceable_gas_limit :: "'fp tx_cost_estimate \<Rightarrow> u256" where
  "enforceable_gas_limit e = (case tce_l2_gas_limit e of None \<Rightarrow> tce_gas_limit e | Some g \<Rightarrow> g)"

datatype gas_payment_policy =
    GasPaymentPolicyNone
  | GasPaymentPolicyMinimum u256
  | GasPaymentPolicyOnChainFeeQuoting u64 u64

text \<open>Arithmetic of \<^verbatim>\<open>U256\<close>, which panics on overflow and on division by zero.\<close>

definition u256_mul :: "u256 \<Rightarrow> u256 \<Rightarrow> u256 option" where
  "u256_mul a b = (if uint a * uint b < 2 ^ 256 then Some (a * b) else None)"

definition u256_div :: "u256 \<Rightarrow> u256 \<Rightarrow> u256 option" where
  "u256_div a b = (if b = 0 then None else Some (a div b))"

definition policy_none_requirement ::
  "hyperlane_message \<Rightarrow> interchain_gas_payment \<Rightarrow> interchain_gas_expenditure \<Rightarrow> 'fp tx_cost_estimate \<Rightarrow>
     'x failure + u256 option" where
  "policy_none_requirement message current_payment current_expenditure estimate =
     Inr (Some (tce_gas_limit estimate))"

definition policy_minimum_requirement ::
  "u256 \<Rightarrow> hyperlane_message \<Rightarrow> interchain_gas_payment \<Rightarrow> interchain_gas_expenditure \<Rightarrow>
     'fp tx_cost_estimate \<Rightarrow> 'x failure + u256 option" where
  "policy_minimum_requirement minimum_payment message current_payment current_expenditure estimate =
     (if igp_payment current_payment \<ge> minimum_payment then Inr (Some (tce_gas_limit estimate))
      else Inr None)"

definition policy_fee_quoting_requirement ::
  "u64 \<Rightarrow> u64 \<Rightarrow> hyperlane_message \<Rightarrow> interchain_gas_payment \<Rightarrow> interchain_gas_expenditure \<Rightarrow>
     'fp tx_cost_estimate \<Rightarrow> 'x failure + u256 option" where
  "policy_fee_quoting_requirement numerator denominator message current_payment current_expenditure
     estimate =
     rbind (unwrap (u256_mul (enforceable_gas_limit estimate) (ucast numerator))) (\<lambda>scaled.
     rbind (unwrap (u256_div scaled (ucast denominator))) (\<lambda>fractional_gas_estimate.
     let gas_amount =
       saturating_sub (igp_gas_amount current_payment) (ige_gas_used current_expenditure) in
     if gas_amount \<ge> fractional_gas_estimate
     then Inr (Some (max (tce_gas_limit estimate) gas_amount))
     else Inr None))"

fun policy_requirement ::
  "gas_payment_policy \<Rightarrow> hyperlane_message \<Rightarrow> interchain_gas_payment \<Rightarrow> interchain_gas_expenditure \<Rightarrow>
     'fp tx_cost_estimate \<Rightarrow> 'x failure + u256 option" where
  "policy_requirement GasPaymentPolicyNone = policy_none_requirement"
| "policy_requirement (GasPaymentPolicyMinimum m) = policy_minimum_requirement m"
| "policy_requirement (GasPaymentPolicyOnChainFeeQuoting n d) = policy_fee_quoting_requirement n d"

section \<open>The enforcer\<close>

datatype gas_payment_enforcement_policy =
    EnforceNone
  | EnforceMinimum u256
  | EnforceOnChainFeeQuoting u64 u64

record gas_payment_enforcement_conf =
  gpe_policy :: gas_payment_enforcement_policy
  gpe_matching_list :: matching_list

record ('db, 'e) gas_payment_enforcer =
  gpe_policies :: "(gas_payment_policy \<times> matching_list) list"
  gpe_db :: "('db, 'e) hyperlane_rocks_db"

fun policy_of_conf :: "gas_payment_enforcement_policy \<Rightarrow> gas_payment_policy" where
  "policy_of_conf EnforceNone = GasPaymentPolicyNone"
| "policy_of_conf (EnforceMinimum payment) = GasPaymentPolicyMinimum payment"
| "policy_of_conf (EnforceOnChainFeeQuoting n d) = GasPaymentPolicyOnChainFeeQuoting n d"

definition gas_payment_enforcer_new ::
  "gas_payment_enforcement_conf list \<Rightarrow> ('db, 'e) hyperlane_rocks_db \<Rightarrow> ('db, 'e) gas_payment_enforcer"
  where
  "gas_payment_enforcer_new confs db =
     \<lparr>gpe_policies = map (\<lambda>cfg. (policy_of_conf (gpe_policy cfg), gpe_matching_list cfg)) confs,
      gpe_db = db\<rparr>"

fun first_policy ::
  "(gas_payment_policy \<times> matching_list) list \<Rightarrow> hyperlane_message \<Rightarrow> interchain_gas_payment \<Rightarrow>
     interchain_gas_expenditure \<Rightarrow> 'fp tx_cost_estimate \<Rightarrow> 'x failure + u256 option" where
  "first_policy [] message payment expenditure estimate = Inr None"
| "first_policy ((policy, whitelist) # ps) message payment expenditure estimate =
     (if \<not> msg_matches whitelist message True
      then first_policy ps message payment expenditure estimate
      else policy_requirement policy message payment expenditure estimate)"

definition message_meets_gas_payment_requirement ::
  "keccak \<Rightarrow> ('db, 'e) gas_payment_enforcer \<Rightarrow> hyperlane_message \<Rightarrow> 'fp tx_cost_estimate \<Rightarrow> 'db \<Rightarrow>
     'e db_error failure + u256 option" where
  "message_meets_gas_payment_requirement kc g message estimate s =
     (let msg_id = hyperlane_message_id kc message;
          gas_payment_key = \<lparr>gpk_message_id = msg_id, gpk_destination = msg_destination message\<rparr>
      in
      rbind (map_err Err (retrieve_gas_payment_by_gas_payment_key (gpe_db g) gas_payment_key s))
        (\<lambda>current_payment.
      rbind (map_err Err (retrieve_gas_expenditure_by_message_id (gpe_db g) msg_id s))
        (\<lambda>current_expenditure.
      first_policy (gpe_policies g) message current_payment current_expenditure estimate)))"

section \<open>What a transaction spent\<close>

record ('fp, 'x) fixed_point =
  fp_from_u256 :: "u256 \<Rightarrow> 'x + 'fp"
  fp_mul :: "'fp \<Rightarrow> 'fp \<Rightarrow> 'fp"
  fp_to_u256 :: "'fp \<Rightarrow> 'x + u256"

record 'fp tx_outcome =
  txo_transaction_id :: h512
  txo_executed :: bool
  txo_gas_used :: u256
  txo_gas_price :: 'fp

datatype ('e, 'x) outcome_error = OutcomeDbError "'e db_error" | OutcomeNumberError 'x

definition record_tx_outcome ::
  "keccak \<Rightarrow> ('fp, 'x) fixed_point \<Rightarrow> ('db, 'e) gas_payment_enforcer \<Rightarrow> hyperlane_message \<Rightarrow>
     'fp tx_outcome \<Rightarrow> 'db \<Rightarrow> 'db \<times> (('e, 'x) outcome_error failure + unit)" where
  "record_tx_outcome kc F g message outcome s =
     (case rbind (fp_from_u256 F (txo_gas_used outcome)) (\<lambda>gas_used.
           fp_to_u256 F (fp_mul F gas_used (txo_gas_price outcome))) of
        Inl x \<Rightarrow> (s, Inl (Err (OutcomeNumberError x)))
      | Inr tokens_used \<Rightarrow>
          (case process_gas_expenditure (gpe_db g)
                  \<lparr>ige_message_id = hyperlane_message_id kc message,
                   ige_tokens_used = tokens_used, ige_gas_used = txo_gas_used outcome\<rparr> s of
             (s', Inr u) \<Rightarrow> (s', Inr u)
           | (s', Inl Panic) \<Rightarrow> (s', Inl Panic)
           | (s', Inl (Err e)) \<Rightarrow> (s', Inl (Err (OutcomeDbError e)))))"


section \<open>What the enforcer approves\<close>

text \<open>
  The gas limit a policy approves, from the exact totals: what was paid, the gas paid for, and the gas
  spent so far.
\<close>

fun approved_gas ::
  "gas_payment_policy \<Rightarrow> int \<Rightarrow> int \<Rightarrow> int \<Rightarrow> 'fp tx_cost_estimate \<Rightarrow> int option" where
  "approved_gas GasPaymentPolicyNone paid gas_paid gas_spent e = Some (uint (tce_gas_limit e))"
| "approved_gas (GasPaymentPolicyMinimum m) paid gas_paid gas_spent e =
     (if uint m \<le> paid then Some (uint (tce_gas_limit e)) else None)"
| "approved_gas (GasPaymentPolicyOnChainFeeQuoting n d) paid gas_paid gas_spent e =
     (let left = max 0 (gas_paid - gas_spent) in
      if uint (enforceable_gas_limit e) * uint n div uint d \<le> left
      then Some (max (uint (tce_gas_limit e)) left) else None)"

text \<open>The fraction of the estimate can be computed without a panic.\<close>

fun policy_computes :: "'fp tx_cost_estimate \<Rightarrow> gas_payment_policy \<Rightarrow> bool" where
  "policy_computes e (GasPaymentPolicyOnChainFeeQuoting n d) \<longleftrightarrow>
     d \<noteq> 0 \<and> uint (enforceable_gas_limit e) * uint n < 2 ^ 256"
| "policy_computes e p = True"

lemma u256_of_u64 [simp]: "uint (ucast (n :: u64) :: u256) = uint n"
  by (rule uint_up_ucast) (simp add: is_up)

lemma uint_u256_mul: "uint a * uint b < 2 ^ 256 \<Longrightarrow> uint ((a :: u256) * b) = uint a * uint b"
  by (simp add: uint_word_ariths)

lemma uint_saturating_sub_u256:
  "uint (saturating_sub (a :: u256) b) = max 0 (uint a - uint b)"
proof -
  have "uint (saturating_sub a b) = int (unat a - unat b)"
    using unat_saturating_sub [of a b] by (metis uint_nat)
  also have "\<dots> = max 0 (uint a - uint b)" unfolding uint_nat by linarith
  finally show ?thesis .
qed

lemma uint_max_u256: "uint (max a b :: u256) = max (uint a) (uint b)"
  by (simp add: max_def word_le_def)

lemma policy_requirement_approved:
  fixes e :: "'fp tx_cost_estimate"
  assumes "policy_computes e p"
  shows "\<exists>r. policy_requirement p message pay sp e = Inr r \<and>
    map_option uint r =
      approved_gas p (uint (igp_payment pay)) (uint (igp_gas_amount pay)) (uint (ige_gas_used sp)) e"
proof (cases p)
  case GasPaymentPolicyNone
  then show ?thesis by (simp add: policy_none_requirement_def)
next
  case (GasPaymentPolicyMinimum m)
  then show ?thesis by (simp add: policy_minimum_requirement_def word_le_def)
next
  case (GasPaymentPolicyOnChainFeeQuoting n d)
  let ?l = "enforceable_gas_limit e" and ?left = "saturating_sub (igp_gas_amount pay) (ige_gas_used sp)"
  have d: "(ucast d :: u256) \<noteq> 0" and fits: "uint ?l * uint (ucast n :: u256) < 2 ^ 256"
    using assms GasPaymentPolicyOnChainFeeQuoting u256_of_u64 [of d]
    by (auto simp: uint_0_iff simp del: u256_of_u64) (simp add: u256_of_u64)+
  have mul: "u256_mul ?l (ucast n) = Some (?l * ucast n)"
    unfolding u256_mul_def using fits by (rule if_P)
  have "uint (?l * ucast n div ucast d) = uint ?l * uint n div uint d"
    using uint_u256_mul [OF fits] by (simp add: uint_div_distrib)
  then show ?thesis
    using d by (simp add: GasPaymentPolicyOnChainFeeQuoting policy_fee_quoting_requirement_def mul
        u256_div_def Let_def word_le_def uint_saturating_sub_u256 uint_max_u256)
qed


lemma first_policy_approved:
  fixes e :: "'fp tx_cost_estimate"
  assumes "\<forall>cfg\<in>set confs. policy_computes e (policy_of_conf (gpe_policy cfg))"
  shows "\<exists>r. first_policy (map (\<lambda>cfg. (policy_of_conf (gpe_policy cfg), gpe_matching_list cfg)) confs)
      m pay sp e = Inr r \<and>
    map_option uint r =
      (case find (\<lambda>cfg. msg_matches (gpe_matching_list cfg) m True) confs of
         None \<Rightarrow> None
       | Some cfg \<Rightarrow> approved_gas (policy_of_conf (gpe_policy cfg)) (uint (igp_payment pay))
           (uint (igp_gas_amount pay)) (uint (ige_gas_used sp)) e)"
  using assms
proof (induction confs)
  case (Cons cfg confs)
  then show ?case
    using policy_requirement_approved [of e "policy_of_conf (gpe_policy cfg)" m pay sp]
    by (cases "msg_matches (gpe_matching_list cfg) m True") auto
qed simp

text \<open>A recorded outcome is an expenditure of the database.\<close>

lemma record_tx_outcome_expenditure:
  assumes "record_tx_outcome kc F g m outcome s = (s', Inr ())"
  shows "\<exists>tokens. exec_db kc (gpe_db g)
    (Expenditure \<lparr>ige_message_id = hyperlane_message_id kc m, ige_tokens_used = tokens,
       ige_gas_used = txo_gas_used outcome\<rparr>) s = (s', Inr ())"
proof -
  let ?t = "rbind (fp_from_u256 F (txo_gas_used outcome)) (\<lambda>gas_used.
    fp_to_u256 F (fp_mul F gas_used (txo_gas_price outcome)))"
  obtain tokens where t: "?t = Inr tokens"
    using assms by (cases ?t) (simp_all add: record_tx_outcome_def)
  let ?m = "process_gas_expenditure (gpe_db g) \<lparr>ige_message_id = hyperlane_message_id kc m,
    ige_tokens_used = tokens, ige_gas_used = txo_gas_used outcome\<rparr> s"
  obtain s1 r where r: "?m = (s1, r)" by fastforce
  have "r = Inr () \<and> s1 = s'"
  proof (cases r)
    case (Inl f)
    then show ?thesis using assms t r by (cases f) (simp_all add: record_tx_outcome_def)
  next
    case (Inr u)
    then show ?thesis using assms t r by (simp add: record_tx_outcome_def)
  qed
  with r show ?thesis by auto
qed

text \<open>
  C16. After any sequence of writes of an agent, the enforcer decides by the first configured policy
  whose matching list the message matches, on the exact totals for the message: the payments counted
  once per log, and the gas spent. With no matching policy the message is refused. The hypotheses are
  that RocksDB reads back what was written and that the fraction of the estimate of a fee quoting policy
  can be computed.
\<close>

theorem gas_enforcement_exact:
  fixes estimate :: "'fp tx_cost_estimate"
  assumes "rocks_ok R" and "h = hyperlane_rocks_db_new domain_id name R" and "fresh h s"
    and "run_db kc h es s = (s', Inr ())"
    and "\<forall>cfg\<in>set confs. policy_computes estimate (policy_of_conf (gpe_policy cfg))"
  shows "let i = hyperlane_message_id kc m;
      k = \<lparr>gpk_message_id = i, gpk_destination = msg_destination m\<rparr>
    in \<exists>r. message_meets_gas_payment_requirement kc (gas_payment_enforcer_new confs h) m estimate s' = Inr r \<and>
      map_option uint r =
        (case find (\<lambda>cfg. msg_matches (gpe_matching_list cfg) m True) confs of
           None \<Rightarrow> None
         | Some cfg \<Rightarrow> approved_gas (policy_of_conf (gpe_policy cfg))
             (sum_for igp_payment (payments_of es) k) (sum_for igp_gas_amount (payments_of es) k)
             (spent ige_gas_used (expenditures_of es) i) estimate)"
proof -
  have "db_ok h" using assms(1,2) by (simp add: hyperlane_rocks_db_new_def typed_db_new_def)
  then have view: "db_view kc h es s'" by (rule db_view_fresh [OF _ assms(3,4)])
  let ?i = "hyperlane_message_id kc m"
  let ?k = "\<lparr>gpk_message_id = ?i, gpk_destination = msg_destination m\<rparr>"
  obtain pay where pay: "retrieve_gas_payment_by_gas_payment_key h ?k s' = Inr pay"
    "uint (igp_payment pay) = sum_for igp_payment (payments_of es) ?k"
    "uint (igp_gas_amount pay) = sum_for igp_gas_amount (payments_of es) ?k"
    using view unfolding db_view_def gas_view_def by blast
  obtain sp where sp: "retrieve_gas_expenditure_by_message_id h ?i s' = Inr sp"
    "uint (ige_gas_used sp) = spent ige_gas_used (expenditures_of es) ?i"
    using view unfolding db_view_def exp_view_def by blast
  show ?thesis
    using first_policy_approved [OF assms(5), of m pay sp, unfolded pay(2,3) sp(2)] pay(1) sp(1)
    by (simp add: message_meets_gas_payment_requirement_def gas_payment_enforcer_new_def Let_def)
qed

definition sample_estimate :: "unit tx_cost_estimate" where
  "sample_estimate = \<lparr>tce_gas_limit = 4, tce_gas_price = (), tce_l2_gas_limit = None\<rparr>"

definition sample_confs :: "gas_payment_enforcement_conf list" where
  "sample_confs =
     [\<lparr>gpe_policy = EnforceNone, gpe_matching_list = MatchingList (Some
         [\<lparr>origin_domain = Enumerated [77], sender_address = Wildcard, destination_domain = Wildcard,
           recipient_address = Wildcard\<rparr>])\<rparr>,
      \<lparr>gpe_policy = EnforceOnChainFeeQuoting 1 2, gpe_matching_list = matching_list_default\<rparr>]"

definition sample_paid_msg :: hyperlane_message where
  "sample_paid_msg = message_default\<lparr>msg_destination := 2, msg_body := [9]\<rparr>"

text \<open>Half of the estimated 4 units of gas was paid for in two payments; the repeated one is not counted.\<close>

theorem gas_enforcement_exact_witness:
  "\<exists>s' r. run_db last_keccak sample_db sample_events Map.empty = (s', Inr ()) \<and>
     message_meets_gas_payment_requirement last_keccak (gas_payment_enforcer_new sample_confs sample_db)
       sample_paid_msg sample_estimate s' = Inr r \<and> map_option uint r = Some 4"
proof -
  obtain s' where run: "run_db last_keccak sample_db sample_events Map.empty = (s', Inr ())"
    using sample_db_run by blast
  have confs: "\<forall>cfg\<in>set sample_confs. policy_computes sample_estimate (policy_of_conf (gpe_policy cfg))"
    by (simp add: sample_confs_def sample_estimate_def enforceable_gas_limit_def)
  have id: "hyperlane_message_id last_keccak sample_paid_msg = 9"
    by (simp add: hyperlane_message_id_def last_keccak_def to_vec_def message_write_to_def sample_paid_msg_def)
  have sum: "sum_for igp_gas_amount (payments_of sample_events) \<lparr>gpk_message_id = 9, gpk_destination = 2\<rparr> = 2"
    by (simp add: sample_events_of sum_for_def new_payments_def gas_payment_meta_from_def
        sample_meta_def sample_gas_payment_def gas_key_def)
  have "find (\<lambda>cfg. msg_matches (gpe_matching_list cfg) sample_paid_msg True) sample_confs =
      Some (sample_confs ! 1)"
    by (simp add: sample_confs_def msg_matches_iff rule_matches_def matching_list_default_def
        sample_paid_msg_def message_default_def)
  moreover have "gpe_policy (sample_confs ! 1) = EnforceOnChainFeeQuoting 1 2"
    "enforceable_gas_limit sample_estimate = 4" "tce_gas_limit sample_estimate = 4"
    "msg_destination sample_paid_msg = 2" "spent ige_gas_used (expenditures_of sample_events) 9 = 0"
    by (simp_all add: sample_confs_def sample_estimate_def enforceable_gas_limit_def sample_paid_msg_def
        sample_events_of spent_def)
  ultimately show ?thesis
    using gas_enforcement_exact [OF map_rocks_ok(1) sample_db_def sample_db_ok(3) run confs, of sample_paid_msg] run
    by (auto simp: id sum Let_def)
qed

end
