(* ===== verification/Pending_Message.thy ===== *)
theory Pending_Message
  imports Gas_Payment
begin

text \<open>
  A message on its way to the destination chain: \<^verbatim>\<open>agents/relayer/src/msg/pending_message.rs\<close> and
  the order of pending operations in \<^verbatim>\<open>pending_operation.rs\<close>.

  The chain, the metadata builder and the clock are outside the repository's pure code: a call of a
  handler gets their answers in a record \<open>outside\<close>, with the clock readings of the
  readiness check and of the (at most two) later places that read the clock. Instants and durations are nanoseconds. A handler maps the message and the shared state (the
  database and the metrics) to its result and their new values; a panic is \<open>None\<close>. Log output is left out.
\<close>

type_synonym instant = nat
type_synonym duration = nat

definition from_secs :: "nat \<Rightarrow> duration" where
  "from_secs n = n * 1000000000"

text \<open>The production value; the test configuration waits 5 seconds.\<close>

definition CONFIRM_DELAY :: duration where
  "CONFIRM_DELAY = from_secs (60 * 10)"

record ('db, 'e) message_context =
  ctx_origin_db :: "('db, 'e) hyperlane_rocks_db"
  ctx_gas_payment_enforcer :: "('db, 'e) gas_payment_enforcer"
  ctx_transaction_gas_limit :: "u256 option"

record submission_data =
  sd_metadata :: bytes
  sd_gas_limit :: u256

record pending_message =
  pm_message :: hyperlane_message
  pm_submitted :: bool
  pm_submission_data :: "submission_data option"
  pm_num_retries :: u32
  pm_last_attempted_at :: instant
  pm_next_attempt_after :: "instant option"

text \<open>
  The state the handlers share: the database, and the two metrics of the contexts of a destination, by
  the origin of the context.
\<close>

record 'db shared =
  sh_db :: 'db
  sh_last_known_nonce :: "u32 \<Rightarrow> int"
  sh_messages_processed :: "u32 \<Rightarrow> nat"

text \<open>The answers of the outside during one call.\<close>

record ('fp, 'x, 'b) outside =
  now_checked :: instant
  now_first :: instant
  now_second :: instant
  o_delivered :: "h256 \<Rightarrow> 'x + bool"
  o_is_contract :: "h256 \<Rightarrow> 'x + bool"
  o_recipient_ism :: "h256 \<Rightarrow> 'x + h256"
  o_builder_new :: "h256 \<Rightarrow> hyperlane_message \<Rightarrow> 'x + 'b"
  o_build :: "'b \<Rightarrow> h256 \<Rightarrow> hyperlane_message \<Rightarrow> 'x + bytes option"
  o_process_estimate_costs :: "hyperlane_message \<Rightarrow> bytes \<Rightarrow> 'x + 'fp tx_cost_estimate"
  o_process :: "hyperlane_message \<Rightarrow> bytes \<Rightarrow> u256 option \<Rightarrow> 'x + 'fp tx_outcome"

datatype 'c pending_operation_result =
  Success | NotReady | Reprepare | Drop | CriticalFailure 'c

section \<open>Retries\<close>

definition calculate_msg_backoff :: "u32 \<Rightarrow> duration option" where
  "calculate_msg_backoff num_retries =
     (let i = unat num_retries in
      if i < 1 then None
      else Some (from_secs
        (if 1 \<le> i \<and> i < 12 then 10
         else if 12 \<le> i \<and> i < 24 then (i - 11) * 90
         else if 24 \<le> i \<and> i < 36 then 60 * 30
         else if 36 \<le> i \<and> i < 48 then 60 * 60
         else 60 * 60 * 3)))"

definition pending_message_new :: "instant \<Rightarrow> hyperlane_message \<Rightarrow> pending_message" where
  "pending_message_new now message =
     \<lparr>pm_message = message, pm_submitted = False, pm_submission_data = None, pm_num_retries = 0,
      pm_last_attempted_at = now, pm_next_attempt_after = None\<rparr>"

definition from_persisted_retries ::
  "keccak \<Rightarrow> ('db, 'e) message_context \<Rightarrow> instant \<Rightarrow> instant \<Rightarrow> hyperlane_message \<Rightarrow> 'db \<Rightarrow> pending_message"
  where
  "from_persisted_retries kc ctx created now message s =
     (let pm = pending_message_new created message in
      case retrieve_pending_message_retry_count_by_message_id (ctx_origin_db ctx)
             (hyperlane_message_id kc message) s of
        Inr (Some num_retries) \<Rightarrow>
          pm\<lparr>pm_num_retries := num_retries,
             pm_next_attempt_after := map_option (\<lambda>dur. now + dur) (calculate_msg_backoff num_retries)\<rparr>
      | _ \<Rightarrow> pm)"

text \<open>A failing write of the retry count is logged and ignored.\<close>

definition persist_retries ::
  "keccak \<Rightarrow> ('db, 'e) message_context \<Rightarrow> pending_message \<Rightarrow> 'db shared \<Rightarrow> 'db shared" where
  "persist_retries kc ctx pm w =
     w\<lparr>sh_db := fst (store_pending_message_retry_count_by_message_id (ctx_origin_db ctx)
        (hyperlane_message_id kc (pm_message pm)) (pm_num_retries pm) (sh_db w))\<rparr>"

definition set_retries ::
  "keccak \<Rightarrow> ('db, 'e) message_context \<Rightarrow> u32 \<Rightarrow> pending_message \<times> 'db shared \<Rightarrow>
     pending_message \<times> 'db shared" where
  "set_retries kc ctx retries c =
     (let (pm, w) = c; pm = pm\<lparr>pm_num_retries := retries\<rparr>
      in (pm, persist_retries kc ctx pm w))"

definition reset_attempts ::
  "keccak \<Rightarrow> ('db, 'e) message_context \<Rightarrow> instant \<Rightarrow> pending_message \<times> 'db shared \<Rightarrow>
     pending_message \<times> 'db shared" where
  "reset_attempts kc ctx now c =
     (let (pm, w) = set_retries kc ctx 0 c
      in (pm\<lparr>pm_next_attempt_after := None, pm_last_attempted_at := now\<rparr>, w))"

definition inc_attempts ::
  "keccak \<Rightarrow> ('db, 'e) message_context \<Rightarrow> instant \<Rightarrow> pending_message \<times> 'db shared \<Rightarrow>
     pending_message \<times> 'db shared" where
  "inc_attempts kc ctx now c =
     (let (pm, w) = set_retries kc ctx (pm_num_retries (fst c) + 1) c
      in (pm\<lparr>pm_last_attempted_at := now,
             pm_next_attempt_after :=
               map_option (\<lambda>dur. now + dur) (calculate_msg_backoff (pm_num_retries pm))\<rparr>, w))"

definition on_reprepare ::
  "keccak \<Rightarrow> ('db, 'e) message_context \<Rightarrow> instant \<Rightarrow> pending_message \<times> 'db shared \<Rightarrow>
     'c pending_operation_result \<times> pending_message \<times> 'db shared" where
  "on_reprepare kc ctx now c =
     (let (pm, w) = inc_attempts kc ctx now c
      in (Reprepare, pm\<lparr>pm_submitted := False\<rparr>, w))"

definition is_ready :: "instant \<Rightarrow> pending_message \<Rightarrow> bool" where
  "is_ready now pm = (case pm_next_attempt_after pm of None \<Rightarrow> True | Some a \<Rightarrow> now \<ge> a)"

section \<open>The handlers\<close>

text \<open>\<^verbatim>\<open>op_try!\<close>: an error ends the handler with its retry.\<close>

definition op_try :: "'r \<Rightarrow> 'x + 'a \<Rightarrow> ('a \<Rightarrow> 'r) \<Rightarrow> 'r" where
  "op_try retry r k = (case r of Inl _ \<Rightarrow> retry | Inr a \<Rightarrow> k a)"

definition pm_prepare ::
  "keccak \<Rightarrow> ('db, 'e) message_context \<Rightarrow> ('fp, 'x, 'b) outside \<Rightarrow> pending_message \<times> 'db shared \<Rightarrow>
     ('c pending_operation_result \<times> pending_message \<times> 'db shared) option" where
  "pm_prepare kc ctx env c =
     (let (pm, w) = c; message = pm_message pm;
          retry = Some (on_reprepare kc ctx (now_first env) c)
      in
      if \<not> is_ready (now_checked env) pm then Some (NotReady, pm, w)
      else op_try retry (o_delivered env (hyperlane_message_id kc message)) (\<lambda>is_already_delivered.
      if is_already_delivered
      then Some (Success, pm\<lparr>pm_submitted := True,
                             pm_next_attempt_after := Some (now_first env + CONFIRM_DELAY)\<rparr>, w)
      else op_try retry (o_is_contract env (msg_recipient message)) (\<lambda>is_contract.
      if \<not> is_contract then Some (Drop, pm, w)
      else op_try retry (o_recipient_ism env (msg_recipient message)) (\<lambda>ism_address.
      op_try retry (o_builder_new env ism_address message) (\<lambda>builder.
      op_try retry (o_build env builder ism_address message) (\<lambda>metadata.
      case metadata of None \<Rightarrow> retry | Some md \<Rightarrow>
      op_try retry (o_process_estimate_costs env message md) (\<lambda>tx_cost_estimate.
      case message_meets_gas_payment_requirement kc (ctx_gas_payment_enforcer ctx) message
             tx_cost_estimate (sh_db w) of
        Inl Panic \<Rightarrow> None
      | Inl (Err _) \<Rightarrow> retry
      | Inr None \<Rightarrow> retry
      | Inr (Some _) \<Rightarrow>
          let gas_limit = tce_gas_limit tx_cost_estimate in
          if (case ctx_transaction_gas_limit ctx of None \<Rightarrow> False | Some max_limit \<Rightarrow> gas_limit > max_limit)
          then retry
          else Some (Success, pm\<lparr>pm_submission_data :=
                 Some \<lparr>sd_metadata = md, sd_gas_limit = gas_limit\<rparr>\<rparr>, w))))))))"

definition pm_submit ::
  "keccak \<Rightarrow> ('fp, 'y) fixed_point \<Rightarrow> ('db, 'e) message_context \<Rightarrow> ('fp, 'x, 'b) outside \<Rightarrow>
     pending_message \<times> 'db shared \<Rightarrow>
     (('e, 'y) outcome_error pending_operation_result \<times> pending_message \<times> 'db shared) option" where
  "pm_submit kc F ctx env c =
     (let (pm, w) = c; message = pm_message pm in
      if pm_submitted pm then Some (Success, pm, w)
      else case pm_submission_data pm of
        None \<Rightarrow> None
      | Some state \<Rightarrow>
          let pm = pm\<lparr>pm_submission_data := None\<rparr> in
          op_try (Some (on_reprepare kc ctx (now_first env) (pm, w)))
            (o_process env message (sd_metadata state) (Some (sd_gas_limit state))) (\<lambda>tx_outcome.
          case record_tx_outcome kc F (ctx_gas_payment_enforcer ctx) message tx_outcome (sh_db w) of
            (s, Inl Panic) \<Rightarrow> None
          | (s, Inl (Err e)) \<Rightarrow> Some (CriticalFailure e, pm, w\<lparr>sh_db := s\<rparr>)
          | (s, Inr _) \<Rightarrow>
              let w = w\<lparr>sh_db := s\<rparr> in
              if txo_executed tx_outcome then
                let (pm, w) = reset_attempts kc ctx (now_first env) (pm\<lparr>pm_submitted := True\<rparr>, w) in
                Some (Success,
                  pm\<lparr>pm_next_attempt_after := Some (now_second env + CONFIRM_DELAY)\<rparr>, w)
              else Some (on_reprepare kc ctx (now_first env) (pm, w))))"

text \<open>
  \<^verbatim>\<open>record_message_process_success\<close>, with \<^verbatim>\<open>MessageSubmissionMetrics::update_nonce\<close>.
\<close>

definition update_nonce :: "hyperlane_message \<Rightarrow> 'db shared \<Rightarrow> 'db shared" where
  "update_nonce msg w =
     w\<lparr>sh_last_known_nonce := (sh_last_known_nonce w)
         (msg_origin msg := max (sh_last_known_nonce w (msg_origin msg)) (uint (msg_nonce msg)))\<rparr>"

definition record_message_process_success ::
  "('db, 'e) message_context \<Rightarrow> pending_message \<Rightarrow> 'db shared \<Rightarrow>
     'db shared \<times> ('e db_error failure + unit)" where
  "record_message_process_success ctx pm w =
     (case store_processed_by_nonce (ctx_origin_db ctx) (msg_nonce (pm_message pm)) True (sh_db w) of
        (s, Inl e) \<Rightarrow> (w\<lparr>sh_db := s\<rparr>, Inl e)
      | (s, Inr _) \<Rightarrow>
          let w = update_nonce (pm_message pm) (w\<lparr>sh_db := s\<rparr>) in
          let o' = msg_origin (pm_message pm) in
          (w\<lparr>sh_messages_processed := (sh_messages_processed w)(o' := sh_messages_processed w o' + 1)\<rparr>,
           Inr ()))"

definition pm_confirm ::
  "keccak \<Rightarrow> ('db, 'e) message_context \<Rightarrow> ('fp, 'x, 'b) outside \<Rightarrow> pending_message \<times> 'db shared \<Rightarrow>
     ('e db_error pending_operation_result \<times> pending_message \<times> 'db shared) option" where
  "pm_confirm kc ctx env c =
     (let (pm, w) = c in
      if \<not> is_ready (now_checked env) pm then Some (NotReady, pm, w)
      else op_try (let (pm, w) = inc_attempts kc ctx (now_first env) c in Some (NotReady, pm, w))
        (o_delivered env (hyperlane_message_id kc (pm_message pm))) (\<lambda>is_delivered.
      if is_delivered then
        case record_message_process_success ctx pm w of
          (w, Inl Panic) \<Rightarrow> None
        | (w, Inl (Err e)) \<Rightarrow> Some (CriticalFailure e, pm, w)
        | (w, Inr _) \<Rightarrow> Some (Success, pm, w)
      else
        Some (on_reprepare kc ctx (now_second env)
          (reset_attempts kc ctx (now_first env) c))))"

section \<open>The order of pending operations\<close>

datatype ordering = Less | Equal | Greater

definition ord_cmp :: "'a::linorder \<Rightarrow> 'a \<Rightarrow> ordering" where
  "ord_cmp a b = (if a < b then Less else if a = b then Equal else Greater)"

definition op_cmp :: "keccak \<Rightarrow> pending_message \<Rightarrow> pending_message \<Rightarrow> ordering" where
  "op_cmp kc a b =
     (case (pm_next_attempt_after a, pm_next_attempt_after b) of
        (Some s, Some t) \<Rightarrow> ord_cmp s t
      | (None, Some _) \<Rightarrow> Less
      | (Some _, None) \<Rightarrow> Greater
      | (None, None) \<Rightarrow>
          if msg_origin (pm_message a) = msg_origin (pm_message b)
          then ord_cmp (msg_nonce (pm_message a)) (msg_nonce (pm_message b))
          else ord_cmp (hyperlane_message_id kc (pm_message a)) (hyperlane_message_id kc (pm_message b)))"

definition pm_eq :: "pending_message \<Rightarrow> pending_message \<Rightarrow> bool" where
  "pm_eq a b \<longleftrightarrow> pm_num_retries a = pm_num_retries b \<and>
     msg_nonce (pm_message a) = msg_nonce (pm_message b) \<and>
     msg_origin (pm_message a) = msg_origin (pm_message b)"


section \<open>Backoff\<close>

text \<open>
  C37. The wait before the next attempt never shrinks as retries go on: there is none before the first
  retry, then it is between 10 seconds and 3 hours, linear from 90 seconds to 18 minutes in the twelve
  retries from the twelfth.
\<close>

theorem backoff_bounds:
  "(calculate_msg_backoff n = None \<longleftrightarrow> n = 0) \<and>
   (n \<noteq> 0 \<longrightarrow> (\<exists>d. calculate_msg_backoff n = Some d \<and> from_secs 10 \<le> d \<and> d \<le> from_secs (3 * 60 * 60))) \<and>
   (12 \<le> unat n \<and> unat n < 24 \<longrightarrow> (\<exists>d. calculate_msg_backoff n = Some d \<and>
      from_secs 90 \<le> d \<and> d \<le> from_secs (18 * 60))) \<and>
   (\<forall>m d e. calculate_msg_backoff m = Some d \<and> calculate_msg_backoff n = Some e \<and> m \<le> n \<longrightarrow> d \<le> e)"
proof -
  have zero: "unat n < 1 \<longleftrightarrow> n = 0" by (metis less_one unat_eq_zero)
  have "calculate_msg_backoff n = None \<longleftrightarrow> n = 0"
    using zero by (simp add: calculate_msg_backoff_def Let_def)
  moreover have "n \<noteq> 0 \<longrightarrow> (\<exists>d. calculate_msg_backoff n = Some d \<and> from_secs 10 \<le> d \<and> d \<le> from_secs (3 * 60 * 60))"
    using zero by (auto simp: calculate_msg_backoff_def Let_def from_secs_def)
  moreover have "12 \<le> unat n \<and> unat n < 24 \<longrightarrow> (\<exists>d. calculate_msg_backoff n = Some d \<and>
      from_secs 90 \<le> d \<and> d \<le> from_secs (18 * 60))"
    by (auto simp: calculate_msg_backoff_def Let_def from_secs_def)
  moreover have "\<forall>m d e. calculate_msg_backoff m = Some d \<and> calculate_msg_backoff n = Some e \<and> m \<le> n \<longrightarrow> d \<le> e"
    by (auto simp: calculate_msg_backoff_def Let_def from_secs_def word_le_nat_alt split: if_splits)
  ultimately show ?thesis by blast
qed

theorem backoff_bounds_witness:
  "calculate_msg_backoff 23 = Some (from_secs 1080) \<and> from_secs 1080 \<le> from_secs (18 * 60)"
  using backoff_bounds [of 23] by (simp add: calculate_msg_backoff_def)

section \<open>The order is not transitive\<close>

lemma ord_cmp_simps [simp]:
  "ord_cmp a b = Less \<longleftrightarrow> a < b" "ord_cmp a b = Equal \<longleftrightarrow> a = b"
  "ord_cmp a b = Greater \<longleftrightarrow> b < a" for a b :: "'a::linorder"
  by (auto simp: ord_cmp_def)

text \<open>The order is total and antisymmetric in the sense of \<^verbatim>\<open>Ord::cmp\<close>.\<close>

definition reverse_ord :: "ordering \<Rightarrow> ordering" where
  "reverse_ord o' = (case o' of Less \<Rightarrow> Greater | Equal \<Rightarrow> Equal | Greater \<Rightarrow> Less)"

lemma ord_cmp_flip: "ord_cmp b a = reverse_ord (ord_cmp a b)" for a b :: "'a::linorder"
  by (auto simp: ord_cmp_def reverse_ord_def)

lemma op_cmp_flip: "op_cmp kc b a = reverse_ord (op_cmp kc a b)"
  by (auto simp: op_cmp_def ord_cmp_flip [symmetric] split: option.splits)
     (auto simp: reverse_ord_def)

text \<open>Among operations whose messages have one origin the order is a total preorder.\<close>

lemma op_cmp_trans_same_origin:
  assumes "msg_origin (pm_message a) = msg_origin (pm_message b)"
    and "msg_origin (pm_message b) = msg_origin (pm_message c)"
    and "op_cmp kc a b \<noteq> Greater" and "op_cmp kc b c \<noteq> Greater"
  shows "op_cmp kc a c \<noteq> Greater"
  using assms by (auto simp: op_cmp_def split: option.splits)

text \<open>
  C38. With messages of two origins in the queue the order of pending operations has cycles: an
  operation with nonce 0 comes before one of the same origin with nonce 1, but when a message of another
  origin has an id between theirs in the wrong order, each of the three comes before the next one
  around. \<^verbatim>\<open>Ord\<close> requires transitivity, and the binary heap of the submitter relies on it.
\<close>

theorem pending_order_cycles:
  assumes "pm_next_attempt_after a = None" and "pm_next_attempt_after b = None"
    and "pm_next_attempt_after c = None"
    and "msg_origin (pm_message a) = msg_origin (pm_message b)"
    and "msg_origin (pm_message c) \<noteq> msg_origin (pm_message a)"
    and "msg_nonce (pm_message a) < msg_nonce (pm_message b)"
    and "hyperlane_message_id kc (pm_message b) < hyperlane_message_id kc (pm_message c)"
    and "hyperlane_message_id kc (pm_message c) < hyperlane_message_id kc (pm_message a)"
  shows "op_cmp kc a b = Less \<and> op_cmp kc b c = Less \<and> op_cmp kc c a = Less"
  using assms by (simp add: op_cmp_def)

theorem pending_order_cycles_witness:
  "\<exists>a b c. op_cmp last_keccak a b = Less \<and> op_cmp last_keccak b c = Less \<and> op_cmp last_keccak c a = Less"
proof -
  let ?m = "\<lambda>or n body. message_default\<lparr>msg_origin := or, msg_nonce := n, msg_body := [body]\<rparr>"
  have id: "hyperlane_message_id last_keccak (?m or n body) = ucast body" for or n body
    by (simp add: hyperlane_message_id_def last_keccak_def to_vec_def message_write_to_def)
  show ?thesis
    by (rule exI [of _ "pending_message_new 0 (?m 1 0 3)"], rule exI [of _ "pending_message_new 0 (?m 1 1 1)"],
        rule exI [of _ "pending_message_new 0 (?m 2 0 2)"], rule pending_order_cycles)
       (simp_all add: id pending_message_new_def)
qed

end
