(* ===== verification/Serial_Submitter.thy ===== *)
theory Serial_Submitter
  imports Pending_Message "HOL-Library.Multiset"
begin

text \<open>
  The submitter of a destination chain: \<^verbatim>\<open>agents/relayer/src/msg/serial_submitter.rs\<close>. Its four tasks
  share two priority queues and a channel for one operation; a step of the submitter is one iteration
  of one of the tasks, in any interleaving. An iteration holds no other operation than its own, so the
  calls to the outside it awaits are part of the step; the wait of the prepare task for the channel is
  a step of its own.

  The queues are binary heaps of the standard library. They are multisets here, and \<open>heap_top\<close> is what
  the library promises of \<^verbatim>\<open>pop\<close>: some operation of the queue, and a least one when the order is
  consistent on the queue. The sleeps and the log output are left out.
\<close>

section \<open>State\<close>

record submitter_metrics =
  prepare_queue_length :: nat
  confirm_queue_length :: nat
  ops_prepared :: nat
  ops_submitted :: nat
  ops_confirmed :: nat
  ops_reorged :: nat
  ops_failed :: nat
  ops_dropped :: nat

text \<open>
  \<open>ss_sending\<close> is the operation the prepare task waits to send. The operations confirmed and dropped
  are kept to state what happens to them; the code forgets them.
\<close>

record 'db submitter =
  ss_rx :: "pending_message list"
  ss_prepare_queue :: "pending_message multiset"
  ss_sending :: "pending_message option"
  ss_channel :: "pending_message option"
  ss_confirm_queue :: "pending_message multiset"
  ss_confirmed :: "pending_message multiset"
  ss_dropped :: "pending_message multiset"
  ss_metrics :: submitter_metrics
  ss_shared :: "'db shared"

text \<open>A task that returns an error or panics ends the submitter.\<close>

datatype 's outcome = Running 's | Failed | Panicked

text \<open>The contexts of the destination, by the origin of the message.\<close>

type_synonym ('db, 'e) contexts = "u32 \<Rightarrow> ('db, 'e) message_context"

abbreviation op_context :: "('db, 'e) contexts \<Rightarrow> pending_message \<Rightarrow> ('db, 'e) message_context" where
  "op_context ctx op \<equiv> ctx (msg_origin (pm_message op))"

section \<open>One iteration of each task\<close>

definition receive_step :: "'db submitter \<Rightarrow> 'db submitter option" where
  "receive_step st =
     (case ss_rx st of
        [] \<Rightarrow> None
      | op # rx \<Rightarrow> Some (st\<lparr>ss_rx := rx, ss_prepare_queue := add_mset op (ss_prepare_queue st)\<rparr>))"

definition prepare_step ::
  "keccak \<Rightarrow> ('db, 'e) contexts \<Rightarrow> ('fp, 'x, 'b) outside \<Rightarrow> pending_message \<Rightarrow> 'db submitter \<Rightarrow>
     'db submitter outcome" where
  "prepare_step kc ctx env op st =
     (let st = st\<lparr>ss_metrics := (ss_metrics st)\<lparr>prepare_queue_length := size (ss_prepare_queue st)\<rparr>,
                  ss_prepare_queue := ss_prepare_queue st - {#op#}\<rparr> in
      case pm_prepare kc (op_context ctx op) env (op, ss_shared st) of
        None \<Rightarrow> Panicked
      | Some (r, op, w) \<Rightarrow>
          let st = st\<lparr>ss_shared := w\<rparr>; m = ss_metrics st in
          (case r of
             Success \<Rightarrow>
               Running (st\<lparr>ss_metrics := m\<lparr>ops_prepared := ops_prepared m + 1\<rparr>, ss_sending := Some op\<rparr>)
           | NotReady \<Rightarrow> Running (st\<lparr>ss_prepare_queue := add_mset op (ss_prepare_queue st)\<rparr>)
           | Reprepare \<Rightarrow>
               Running (st\<lparr>ss_metrics := m\<lparr>ops_failed := ops_failed m + 1\<rparr>,
                           ss_prepare_queue := add_mset op (ss_prepare_queue st)\<rparr>)
           | Drop \<Rightarrow>
               Running (st\<lparr>ss_metrics := m\<lparr>ops_dropped := ops_dropped m + 1\<rparr>,
                           ss_dropped := add_mset op (ss_dropped st)\<rparr>)
           | CriticalFailure () \<Rightarrow> Failed))"

definition send_step :: "'db submitter \<Rightarrow> 'db submitter option" where
  "send_step st =
     (case (ss_sending st, ss_channel st) of
        (Some op, None) \<Rightarrow> Some (st\<lparr>ss_sending := None, ss_channel := Some op\<rparr>)
      | _ \<Rightarrow> None)"

definition submit_step ::
  "keccak \<Rightarrow> ('fp, 'y) fixed_point \<Rightarrow> ('db, 'e) contexts \<Rightarrow> ('fp, 'x, 'b) outside \<Rightarrow> pending_message \<Rightarrow>
     'db submitter \<Rightarrow> 'db submitter outcome" where
  "submit_step kc F ctx env op st =
     (let st = st\<lparr>ss_channel := None\<rparr> in
      case pm_submit kc F (op_context ctx op) env (op, ss_shared st) of
        None \<Rightarrow> Panicked
      | Some (r, op, w) \<Rightarrow>
          let st = st\<lparr>ss_shared := w\<rparr>; m = ss_metrics st in
          (case r of
             Success \<Rightarrow>
               Running (st\<lparr>ss_metrics := m\<lparr>ops_submitted := ops_submitted m + 1\<rparr>,
                           ss_confirm_queue := add_mset op (ss_confirm_queue st)\<rparr>)
           | NotReady \<Rightarrow> Panicked
           | Reprepare \<Rightarrow>
               Running (st\<lparr>ss_metrics := m\<lparr>ops_failed := ops_failed m + 1\<rparr>,
                           ss_prepare_queue := add_mset op (ss_prepare_queue st)\<rparr>)
           | Drop \<Rightarrow>
               Running (st\<lparr>ss_metrics := m\<lparr>ops_dropped := ops_dropped m + 1\<rparr>,
                           ss_dropped := add_mset op (ss_dropped st)\<rparr>)
           | CriticalFailure e \<Rightarrow> Failed))"

definition confirm_step ::
  "keccak \<Rightarrow> ('db, 'e) contexts \<Rightarrow> ('fp, 'x, 'b) outside \<Rightarrow> pending_message \<Rightarrow> 'db submitter \<Rightarrow>
     'db submitter outcome" where
  "confirm_step kc ctx env op st =
     (let st = st\<lparr>ss_metrics := (ss_metrics st)\<lparr>confirm_queue_length := size (ss_confirm_queue st)\<rparr>,
                  ss_confirm_queue := ss_confirm_queue st - {#op#}\<rparr> in
      case pm_confirm kc (op_context ctx op) env (op, ss_shared st) of
        None \<Rightarrow> Panicked
      | Some (r, op, w) \<Rightarrow>
          let st = st\<lparr>ss_shared := w\<rparr>; m = ss_metrics st in
          (case r of
             Success \<Rightarrow>
               Running (st\<lparr>ss_metrics := m\<lparr>ops_confirmed := ops_confirmed m + 1\<rparr>,
                           ss_confirmed := add_mset op (ss_confirmed st)\<rparr>)
           | NotReady \<Rightarrow> Running (st\<lparr>ss_confirm_queue := add_mset op (ss_confirm_queue st)\<rparr>)
           | Reprepare \<Rightarrow>
               Running (st\<lparr>ss_metrics := m\<lparr>ops_reorged := ops_reorged m + 1\<rparr>,
                           ss_prepare_queue := add_mset op (ss_prepare_queue st)\<rparr>)
           | Drop \<Rightarrow>
               Running (st\<lparr>ss_metrics := m\<lparr>ops_dropped := ops_dropped m + 1\<rparr>,
                           ss_dropped := add_mset op (ss_dropped st)\<rparr>)
           | CriticalFailure e \<Rightarrow> Failed))"

definition submitter_new :: "'db shared \<Rightarrow> 'db submitter" where
  "submitter_new w =
     \<lparr>ss_rx = [], ss_prepare_queue = {#}, ss_sending = None, ss_channel = None,
      ss_confirm_queue = {#}, ss_confirmed = {#}, ss_dropped = {#},
      ss_metrics = \<lparr>prepare_queue_length = 0, confirm_queue_length = 0, ops_prepared = 0,
        ops_submitted = 0, ops_confirmed = 0, ops_reorged = 0, ops_failed = 0, ops_dropped = 0\<rparr>,
      ss_shared = w\<rparr>"

section \<open>Runs\<close>

definition consistent_order :: "keccak \<Rightarrow> pending_message set \<Rightarrow> bool" where
  "consistent_order kc Q \<longleftrightarrow> (\<forall>a\<in>Q. \<forall>b\<in>Q. \<forall>c\<in>Q.
     op_cmp kc a b \<noteq> Greater \<and> op_cmp kc b c \<noteq> Greater \<longrightarrow> op_cmp kc a c \<noteq> Greater)"

definition heap_top :: "keccak \<Rightarrow> pending_message multiset \<Rightarrow> pending_message \<Rightarrow> bool" where
  "heap_top kc q op \<longleftrightarrow> op \<in># q \<and>
     (consistent_order kc (set_mset q) \<longrightarrow> (\<forall>x\<in>#q. op_cmp kc op x \<noteq> Greater))"

text \<open>
  The steps of a running submitter, with the answers of the outside from a set \<open>envs\<close>. Operations arrive as the processors make them
  (\<open>pending_message_new\<close> or \<open>from_persisted_retries\<close>); between two steps other tasks of the relayer may
  write to the shared state.
\<close>

inductive submitter_step ::
  "keccak \<Rightarrow> ('fp, 'y) fixed_point \<Rightarrow> ('db, 'e) contexts \<Rightarrow> ('fp, 'x, 'b) outside set \<Rightarrow>
     'db submitter \<Rightarrow> 'db submitter outcome \<Rightarrow> bool"
  for kc :: keccak and F :: "('fp, 'y) fixed_point" and ctx :: "('db, 'e) contexts"
    and envs :: "('fp, 'x, 'b) outside set" where
  receive: "receive_step st = Some st' \<Longrightarrow> submitter_step kc F ctx envs st (Running st')"
| prepare: "ss_sending st = None \<Longrightarrow> heap_top kc (ss_prepare_queue st) op \<Longrightarrow>
    env \<in> envs \<Longrightarrow> prepare_step kc ctx env op st = r \<Longrightarrow> submitter_step kc F ctx envs st r"
| send: "send_step st = Some st' \<Longrightarrow> submitter_step kc F ctx envs st (Running st')"
| submit: "ss_channel st = Some op \<Longrightarrow> env \<in> envs \<Longrightarrow> submit_step kc F ctx env op st = r \<Longrightarrow>
    submitter_step kc F ctx envs st r"
| confirm: "heap_top kc (ss_confirm_queue st) op \<Longrightarrow> env \<in> envs \<Longrightarrow> confirm_step kc ctx env op st = r \<Longrightarrow>
    submitter_step kc F ctx envs st r"
| other: "submitter_step kc F ctx envs st (Running (st\<lparr>ss_shared := w\<rparr>))"

text \<open>\<open>submitter_reachable kc F ctx envs ms r\<close>: outcome \<open>r\<close> after the messages \<open>ms\<close> were sent to the submitter.\<close>

inductive submitter_reachable ::
  "keccak \<Rightarrow> ('fp, 'y) fixed_point \<Rightarrow> ('db, 'e) contexts \<Rightarrow> ('fp, 'x, 'b) outside set \<Rightarrow>
     hyperlane_message multiset \<Rightarrow> 'db submitter outcome \<Rightarrow> bool"
  for kc :: keccak and F :: "('fp, 'y) fixed_point" and ctx :: "('db, 'e) contexts"
    and envs :: "('fp, 'x, 'b) outside set" where
  start: "submitter_reachable kc F ctx envs {#} (Running (submitter_new w))"
| arrive: "submitter_reachable kc F ctx envs ms (Running st) \<Longrightarrow> \<not> pm_submitted op \<Longrightarrow>
    submitter_reachable kc F ctx envs (add_mset (pm_message op) ms) (Running (st\<lparr>ss_rx := ss_rx st @ [op]\<rparr>))"
| step: "submitter_reachable kc F ctx envs ms (Running st) \<Longrightarrow> submitter_step kc F ctx envs st r \<Longrightarrow>
    submitter_reachable kc F ctx envs ms r"

section \<open>What the handlers keep\<close>

lemma on_reprepare_keeps:
  "on_reprepare kc ctx now c = (r, pm, w) \<Longrightarrow>
     r = Reprepare \<and> \<not> pm_submitted pm \<and> pm_message pm = pm_message (fst c)"
  by (auto simp: on_reprepare_def inc_attempts_def set_retries_def Let_def split: prod.splits)

text \<open>
  \<open>ends P z\<close>: unless it panics, a handler ends with a result, message and state for which \<open>P\<close> holds. The
  rules follow the shape of the handlers.
\<close>

definition ends :: "('r \<Rightarrow> 'm \<Rightarrow> bool) \<Rightarrow> ('r \<times> 'm \<times> 'w) option \<Rightarrow> bool" where
  "ends P z \<longleftrightarrow> (\<forall>r m w. z = Some (r, m, w) \<longrightarrow> P r m)"

named_theorems endsI \<open>rules for the end of a handler\<close>

lemma ends_rules [endsI]:
  "ends P None" "P r m \<Longrightarrow> ends P (Some (r, m, w))"
  "(c \<Longrightarrow> ends P x) \<Longrightarrow> (\<not> c \<Longrightarrow> ends P y) \<Longrightarrow> ends P (if c then x else y)"
  by (simp_all add: ends_def)

lemma ends_op_try [endsI]: "ends P retry \<Longrightarrow> (\<And>a. ends P (k a)) \<Longrightarrow> ends P (op_try retry r k)"
  by (cases r) (simp_all add: op_try_def)

lemma ends_case_option [endsI]:
  "(o' = None \<Longrightarrow> ends P x) \<Longrightarrow> (\<And>a. o' = Some a \<Longrightarrow> ends P (f a)) \<Longrightarrow>
     ends P (case o' of None \<Rightarrow> x | Some a \<Rightarrow> f a)"
  by (cases o') simp_all

lemma ends_case_sum [endsI]:
  "(\<And>a. r = Inl a \<Longrightarrow> ends P (f a)) \<Longrightarrow> (\<And>b. r = Inr b \<Longrightarrow> ends P (g b)) \<Longrightarrow>
     ends P (case r of Inl a \<Rightarrow> f a | Inr b \<Rightarrow> g b)"
  by (cases r) simp_all

lemma ends_case_failure [endsI]:
  "(\<And>e. x = Err e \<Longrightarrow> ends P (f e)) \<Longrightarrow> (x = Panic \<Longrightarrow> ends P y) \<Longrightarrow>
     ends P (case x of Err e \<Rightarrow> f e | Panic \<Rightarrow> y)"
  by (cases x) simp_all

lemma ends_case_prod [endsI]:
  "(\<And>a b. p = (a, b) \<Longrightarrow> ends P (f a b)) \<Longrightarrow> ends P (case p of (a, b) \<Rightarrow> f a b)"
  by (cases p) simp_all

lemma ends_reprepare [endsI]:
  "(\<And>m. \<not> pm_submitted m \<Longrightarrow> pm_message m = pm_message (fst c) \<Longrightarrow> P Reprepare m) \<Longrightarrow>
     ends P (Some (on_reprepare kc ctx now c))"
  using on_reprepare_keeps by (fastforce simp: ends_def)

definition prepared :: "pending_message \<Rightarrow> bool" where
  "prepared pm \<longleftrightarrow> pm_submitted pm \<or> pm_submission_data pm \<noteq> None"

lemma pm_prepare_keeps:
  assumes "\<not> pm_submitted pm"
  shows "ends (\<lambda>r pm'. pm_message pm' = pm_message pm \<and> (r = Success \<longrightarrow> prepared pm') \<and>
      (r \<noteq> Success \<longrightarrow> \<not> pm_submitted pm') \<and> (\<forall>c. r \<noteq> CriticalFailure c))
    (pm_prepare kc ctx env (pm, w))"
  unfolding pm_prepare_def Let_def prod.case
  by (intro endsI) (simp_all add: prepared_def assms)

lemma pm_submit_keeps:
  "ends (\<lambda>r pm'. pm_message pm' = pm_message pm \<and> r \<noteq> NotReady \<and> (r = Success \<longrightarrow> pm_submitted pm') \<and>
      (r = Reprepare \<longrightarrow> \<not> pm_submitted pm') \<and> r \<noteq> Drop)
    (pm_submit kc F ctx env (pm, w))"
  unfolding pm_submit_def Let_def prod.case
  by (intro endsI) (auto simp: reset_attempts_def set_retries_def Let_def split: prod.splits)

lemma pm_confirm_keeps:
  assumes "pm_submitted pm"
  shows "ends (\<lambda>r pm'. pm_message pm' = pm_message pm \<and> (r = NotReady \<longrightarrow> pm_submitted pm') \<and>
      (r = Reprepare \<longrightarrow> \<not> pm_submitted pm') \<and> r \<noteq> Drop)
    (pm_confirm kc ctx env (pm, w))"
  unfolding pm_confirm_def Let_def prod.case
  by (intro endsI)
     (auto simp: assms inc_attempts_def reset_attempts_def set_retries_def Let_def split: prod.splits)

lemma pm_submit_panics:
  assumes "prepared pm" and "pm_submit kc F ctx env (pm, w) = None"
  shows "\<exists>outcome. snd (record_tx_outcome kc F (ctx_gas_payment_enforcer ctx) (pm_message pm) outcome (sh_db w)) =
    Inl Panic"
  using assms unfolding pm_submit_def Let_def prod.case
  by (auto simp: prepared_def op_try_def split: if_splits sum.splits prod.splits failure.splits)
     (metis snd_conv)+

section \<open>The invariant of the submitter\<close>

definition submitter_inv :: "hyperlane_message multiset \<Rightarrow> 'db submitter \<Rightarrow> bool" where
  "submitter_inv ms st \<longleftrightarrow>
     (\<forall>op\<in>set (ss_rx st). \<not> pm_submitted op) \<and> (\<forall>op\<in>#ss_prepare_queue st. \<not> pm_submitted op) \<and>
     (\<forall>op\<in>set_option (ss_sending st). prepared op) \<and> (\<forall>op\<in>set_option (ss_channel st). prepared op) \<and>
     (\<forall>op\<in>#ss_confirm_queue st. pm_submitted op) \<and>
     ms = image_mset pm_message (mset (ss_rx st) + ss_prepare_queue st + ss_confirm_queue st +
            ss_confirmed st + ss_dropped st) +
          mset (map pm_message (case ss_sending st of None \<Rightarrow> [] | Some op \<Rightarrow> [op])) +
          mset (map pm_message (case ss_channel st of None \<Rightarrow> [] | Some op \<Rightarrow> [op]))"


lemma submitter_inv_shared [simp]:
  "submitter_inv ms (st\<lparr>ss_shared := w\<rparr>) = submitter_inv ms st"
  "submitter_inv ms (st\<lparr>ss_metrics := m\<rparr>) = submitter_inv ms st"
  by (simp_all add: submitter_inv_def)

lemma mset_remove: "op \<in># q \<Longrightarrow> image_mset f q = add_mset (f op) (image_mset f (q - {#op#}))"
  by (metis insert_DiffM image_mset_add_mset)

lemma endsD: "ends P z \<Longrightarrow> z = Some (r, m, w) \<Longrightarrow> P r m"
  by (simp add: ends_def)

lemma inv_receive:
  "submitter_inv ms st \<Longrightarrow> receive_step st = Some st' \<Longrightarrow> submitter_inv ms st'"
  by (auto simp: receive_step_def submitter_inv_def split: list.splits)

lemma inv_send:
  "submitter_inv ms st \<Longrightarrow> send_step st = Some st' \<Longrightarrow> submitter_inv ms st'"
  by (auto simp: send_step_def submitter_inv_def split: option.splits)

lemma inv_prepare:
  assumes inv: "submitter_inv ms st" and op: "op \<in># ss_prepare_queue st" and free: "ss_sending st = None"
    and run: "prepare_step kc ctx env op st = Running st'"
  shows "submitter_inv ms st'"
proof -
  have sub: "\<not> pm_submitted op" using inv op by (simp add: submitter_inv_def)
  let ?p = "pm_prepare kc (op_context ctx op) env (op, ss_shared st) ::
    (unit pending_operation_result \<times> _) option"
  obtain r op' w where p: "?p = Some (r, op', w)"
    using run by (cases ?p) (auto simp: prepare_step_def Let_def)
  from endsD [OF pm_prepare_keeps [OF sub] p]
  have keeps: "pm_message op' = pm_message op" "r = Success \<Longrightarrow> prepared op'"
    "r \<noteq> Success \<Longrightarrow> \<not> pm_submitted op'" "r \<noteq> CriticalFailure ()"
    by auto
  have rest: "op'' \<in># ss_prepare_queue st - {#op#} \<Longrightarrow> \<not> pm_submitted op''" for op''
    using inv by (auto simp: submitter_inv_def dest: in_diffD)
  show ?thesis
    using run p keeps inv rest free mset_remove [OF op, of pm_message]
    by (cases r) (auto simp: prepare_step_def Let_def submitter_inv_def)
qed

lemma inv_submit:
  assumes inv: "submitter_inv ms st" and op: "ss_channel st = Some op"
    and run: "submit_step kc F ctx env op st = Running st'"
  shows "submitter_inv ms st'"
proof -
  obtain r op' w where p: "pm_submit kc F (op_context ctx op) env (op, ss_shared st) = Some (r, op', w)"
    using run by (cases "pm_submit kc F (op_context ctx op) env (op, ss_shared st)")
      (auto simp: submit_step_def Let_def)
  from endsD [OF pm_submit_keeps p]
  have keeps: "pm_message op' = pm_message op" "r \<noteq> NotReady" "r = Success \<Longrightarrow> pm_submitted op'"
    "r = Reprepare \<Longrightarrow> \<not> pm_submitted op'" "r \<noteq> Drop"
    by auto
  show ?thesis
    using run p keeps inv op
    by (cases r) (auto simp: submit_step_def Let_def submitter_inv_def)
qed

lemma inv_confirm:
  assumes inv: "submitter_inv ms st" and op: "op \<in># ss_confirm_queue st"
    and run: "confirm_step kc ctx env op st = Running st'"
  shows "submitter_inv ms st'"
proof -
  have sub: "pm_submitted op" using inv op by (simp add: submitter_inv_def)
  obtain r op' w where p: "pm_confirm kc (op_context ctx op) env (op, ss_shared st) = Some (r, op', w)"
    using run by (cases "pm_confirm kc (op_context ctx op) env (op, ss_shared st)")
      (auto simp: confirm_step_def Let_def)
  from endsD [OF pm_confirm_keeps [OF sub] p]
  have keeps: "pm_message op' = pm_message op" "r = NotReady \<Longrightarrow> pm_submitted op'"
    "r = Reprepare \<Longrightarrow> \<not> pm_submitted op'" "r \<noteq> Drop"
    by auto
  have rest: "op'' \<in># ss_confirm_queue st - {#op#} \<Longrightarrow> pm_submitted op''" for op''
    using inv by (auto simp: submitter_inv_def dest: in_diffD)
  show ?thesis
    using run p keeps inv rest mset_remove [OF op, of pm_message]
    by (cases r) (auto simp: confirm_step_def Let_def submitter_inv_def)
qed

lemma submitter_inv_step:
  assumes inv: "submitter_inv ms st" and step: "submitter_step kc F ctx envs st (Running st')"
  shows "submitter_inv ms st'"
  using step
proof cases
  case (prepare op env)
  then show ?thesis by (intro inv_prepare [OF inv]) (simp_all add: heap_top_def)
next
  case (confirm op env)
  then show ?thesis by (intro inv_confirm [OF inv]) (simp_all add: heap_top_def)
qed (use inv in \<open>auto intro: inv_receive inv_send inv_submit\<close>)

lemma submitter_inv_reachable:
  "submitter_reachable kc F ctx envs ms r \<Longrightarrow> r = Running st \<Longrightarrow> submitter_inv ms st"
proof (induction arbitrary: st rule: submitter_reachable.induct)
  case (start w)
  then show ?case by (auto simp: submitter_new_def submitter_inv_def)
next
  case (arrive ms st op)
  then show ?case by (auto simp: submitter_inv_def)
next
  case (step ms st r)
  then show ?case using submitter_inv_step by blast
qed

section \<open>Properties\<close>

text \<open>
  C13. In every run of the submitter, with any answers of the outside and any interleaving of its tasks,
  no message is lost or duplicated: each message sent to it is in exactly one place, and a message that
  left is confirmed or dropped. Only prepared operations reach the submit task, so that it neither
  panics for missing submission data nor gets NotReady: when it panics, the recording of the transaction's
  outcome did. Only submitted operations wait for confirmation.
\<close>

theorem submitter_conserves:
  assumes "submitter_reachable kc F ctx envs ms (Running st)"
  shows "ms = image_mset pm_message (mset (ss_rx st) + ss_prepare_queue st + ss_confirm_queue st +
            ss_confirmed st + ss_dropped st) +
          mset (map pm_message (case ss_sending st of None \<Rightarrow> [] | Some op \<Rightarrow> [op])) +
          mset (map pm_message (case ss_channel st of None \<Rightarrow> [] | Some op \<Rightarrow> [op])) \<and>
    (\<forall>op\<in>#ss_confirm_queue st. pm_submitted op) \<and>
    (\<forall>op env. ss_channel st = Some op \<and> submit_step kc F ctx env op st = Panicked \<longrightarrow>
       (\<exists>outcome. snd (record_tx_outcome kc F (ctx_gas_payment_enforcer (op_context ctx op)) (pm_message op)
          outcome (sh_db (ss_shared st))) = Inl Panic))"
proof -
  have inv: "submitter_inv ms st" using submitter_inv_reachable [OF assms] by simp
  have "\<exists>outcome. snd (record_tx_outcome kc F (ctx_gas_payment_enforcer (op_context ctx op)) (pm_message op)
          outcome (sh_db (ss_shared st))) = Inl Panic"
    if op: "ss_channel st = Some op" and pan: "submit_step kc F ctx env op st = Panicked"
    for op env
  proof -
    have "prepared op" using inv op by (simp add: submitter_inv_def)
    moreover have "pm_submit kc F (op_context ctx op) env (op, ss_shared st) = None"
    proof (cases "pm_submit kc F (op_context ctx op) env (op, ss_shared st)")
      case (Some z)
      then obtain r op' w where z: "pm_submit kc F (op_context ctx op) env (op, ss_shared st) = Some (r, op', w)"
        by (cases z) auto
      with endsD [OF pm_submit_keeps z] pan show ?thesis
        by (cases r) (auto simp: submit_step_def Let_def)
    qed
    ultimately show ?thesis by (rule pm_submit_panics)
  qed
  with inv show ?thesis unfolding submitter_inv_def by blast
qed


text \<open>A message another relayer delivered: it is received, prepared, sent, submitted and confirmed.\<close>

definition sample_outside :: "(unit, unit, unit) outside" where
  "sample_outside =
     \<lparr>now_checked = from_secs 700, now_first = 0, now_second = 0, o_delivered = (\<lambda>_. Inr True),
      o_is_contract = (\<lambda>_. Inr True), o_recipient_ism = (\<lambda>_. Inr 0), o_builder_new = (\<lambda>_ _. Inr ()),
      o_build = (\<lambda>_ _ _. Inr None), o_process_estimate_costs = (\<lambda>_ _. Inl ()),
      o_process = (\<lambda>_ _ _. Inl ())\<rparr>"

definition sample_ctx :: "(bytes \<rightharpoonup> bytes, unit) contexts" where
  "sample_ctx = (\<lambda>_. \<lparr>ctx_origin_db = sample_db,
     ctx_gas_payment_enforcer = gas_payment_enforcer_new sample_confs sample_db,
     ctx_transaction_gas_limit = None\<rparr>)"

definition sample_fixed_point :: "(unit, unit) fixed_point" where
  "sample_fixed_point = \<lparr>fp_from_u256 = (\<lambda>_. Inr ()), fp_mul = (\<lambda>_ _. ()), fp_to_u256 = (\<lambda>_. Inr 0)\<rparr>"

definition sample_shared :: "(bytes \<rightharpoonup> bytes) shared" where
  "sample_shared = \<lparr>sh_db = Map.empty, sh_last_known_nonce = (\<lambda>_. 0), sh_messages_processed = (\<lambda>_. 0)\<rparr>"

abbreviation sample_reaches :: "hyperlane_message multiset \<Rightarrow> (bytes \<rightharpoonup> bytes) submitter outcome \<Rightarrow> bool" where
  "sample_reaches \<equiv> submitter_reachable last_keccak sample_fixed_point sample_ctx {sample_outside}"

lemma op_cmp_refl [simp]: "op_cmp kc a a = Equal"
  by (simp add: op_cmp_def split: option.splits)

lemma heap_top_single: "heap_top kc {#op#} op"
  by (simp add: heap_top_def)

lemma sample_prepare:
  "pm_prepare last_keccak (sample_ctx o') sample_outside (pending_message_new 0 m, w) =
     Some (Success, (pending_message_new 0 m)\<lparr>pm_submitted := True,
       pm_next_attempt_after := Some CONFIRM_DELAY\<rparr>, w)"
  by (simp add: pm_prepare_def pending_message_new_def is_ready_def sample_outside_def op_try_def Let_def)

lemma sample_confirm:
  fixes w :: "(bytes \<rightharpoonup> bytes) shared"
  shows "\<exists>w'. pm_confirm last_keccak (sample_ctx o') sample_outside ((pending_message_new 0 m)\<lparr>pm_submitted := True,
       pm_next_attempt_after := Some CONFIRM_DELAY\<rparr>, w) =
     Some (Success, (pending_message_new 0 m)\<lparr>pm_submitted := True,
       pm_next_attempt_after := Some CONFIRM_DELAY\<rparr>, w')"
  by (auto simp: pm_confirm_def pending_message_new_def is_ready_def sample_outside_def op_try_def Let_def
      CONFIRM_DELAY_def from_secs_def record_message_process_success_def stores db_put_def kv_store_def
      sample_ctx_def sample_db_def hyperlane_rocks_db_new_def typed_db_new_def map_rocks_def
      split: prod.splits sum.splits)

lemma submitter_sample_run:
  "\<exists>st op. sample_reaches {#m#} (Running st) \<and> ss_channel st = None \<and> ss_sending st = None \<and>
     ss_rx st = [] \<and> ss_prepare_queue st = {#} \<and> ss_confirm_queue st = {#} \<and> ss_dropped st = {#} \<and>
     ss_confirmed st = {#op#}"
proof -
  let ?op = "pending_message_new 0 m"
  let ?done = "?op\<lparr>pm_submitted := True, pm_next_attempt_after := Some CONFIRM_DELAY\<rparr>"
  have r1: "sample_reaches {#m#} (Running ((submitter_new sample_shared)\<lparr>ss_rx := [?op]\<rparr>))" (is "_ (Running ?s1)")
    using submitter_reachable.arrive [OF submitter_reachable.start, of ?op last_keccak sample_fixed_point
        sample_ctx "{sample_outside}" sample_shared]
    by (simp add: pending_message_new_def submitter_new_def)
  obtain s2 where s2: "receive_step ?s1 = Some s2" by (simp add: receive_step_def)
  then have f2: "ss_rx s2 = []" "ss_prepare_queue s2 = {#?op#}" "ss_sending s2 = None" "ss_channel s2 = None"
    "ss_confirm_queue s2 = {#}" "ss_dropped s2 = {#}" "ss_confirmed s2 = {#}"
    by (auto simp: receive_step_def submitter_new_def)
  have r2: "sample_reaches {#m#} (Running s2)"
    by (rule submitter_reachable.step [OF r1]) (rule submitter_step.receive [OF s2])
  obtain s3 where s3: "prepare_step last_keccak sample_ctx sample_outside ?op s2 = Running s3"
    and f3: "ss_rx s3 = []" "ss_prepare_queue s3 = {#}" "ss_sending s3 = Some ?done" "ss_channel s3 = None"
    "ss_confirm_queue s3 = {#}" "ss_dropped s3 = {#}" "ss_confirmed s3 = {#}"
    using f2 by (simp add: prepare_step_def sample_prepare Let_def)
  have r3: "sample_reaches {#m#} (Running s3)"
    by (rule submitter_reachable.step [OF r2], rule submitter_step.prepare [OF f2(3) _ _ s3])
       (simp_all add: f2 heap_top_single)
  obtain s4 where s4: "send_step s3 = Some s4"
    and f4: "ss_rx s4 = []" "ss_prepare_queue s4 = {#}" "ss_sending s4 = None" "ss_channel s4 = Some ?done"
    "ss_confirm_queue s4 = {#}" "ss_dropped s4 = {#}" "ss_confirmed s4 = {#}"
    using f3 by (simp add: send_step_def)
  have r4: "sample_reaches {#m#} (Running s4)"
    by (rule submitter_reachable.step [OF r3]) (rule submitter_step.send [OF s4])
  obtain s5 where s5: "submit_step last_keccak sample_fixed_point sample_ctx sample_outside ?done s4 = Running s5"
    and f5: "ss_rx s5 = []" "ss_prepare_queue s5 = {#}" "ss_sending s5 = None" "ss_channel s5 = None"
    "ss_confirm_queue s5 = {#?done#}" "ss_dropped s5 = {#}" "ss_confirmed s5 = {#}"
    using f4 by (simp add: submit_step_def pm_submit_def Let_def)
  have r5: "sample_reaches {#m#} (Running s5)"
    by (rule submitter_reachable.step [OF r4], rule submitter_step.submit [OF f4(4) _ s5]) simp
  obtain w where w: "pm_confirm last_keccak (sample_ctx (msg_origin (pm_message ?done))) sample_outside
      (?done, ss_shared s5) = Some (Success, ?done, w)"
    using sample_confirm by blast
  obtain s6 where s6: "confirm_step last_keccak sample_ctx sample_outside ?done s5 = Running s6"
    and f6: "ss_rx s6 = []" "ss_prepare_queue s6 = {#}" "ss_sending s6 = None" "ss_channel s6 = None"
    "ss_confirm_queue s6 = {#}" "ss_dropped s6 = {#}" "ss_confirmed s6 = {#?done#}"
    using f5 w by (simp add: confirm_step_def Let_def)
  have r6: "sample_reaches {#m#} (Running s6)"
    by (rule submitter_reachable.step [OF r5], rule submitter_step.confirm [OF _ _ s6])
       (simp_all add: f5 heap_top_single)
  with f6 show ?thesis by blast
qed

theorem submitter_conserves_witness:
  "\<exists>st. sample_reaches {#message_default#} (Running st) \<and>
     {#message_default#} = image_mset pm_message (ss_confirmed st)"
proof -
  obtain st op where st: "sample_reaches {#message_default#} (Running st)" "ss_channel st = None"
    "ss_sending st = None" "ss_rx st = []" "ss_prepare_queue st = {#}" "ss_confirm_queue st = {#}"
    "ss_dropped st = {#}" "ss_confirmed st = {#op#}"
    using submitter_sample_run by blast
  from submitter_conserves [OF st(1)] st show ?thesis by (intro exI [of _ st]) simp
qed

end
