(* ===== verification/Message_Processor.thy ===== *)
theory Message_Processor
  imports Pending_Message
begin

text \<open>
  The processor of an origin's messages: \<^verbatim>\<open>agents/relayer/src/msg/processor.rs\<close>. A tick scans the
  database for the next message not yet processed and sends it to the submitter of its destination. The
  scan is a loop over a \<^verbatim>\<open>u32\<close> that wraps in the agents' build and has no bound of its own, so it is a
  partial function: \<open>None\<close> is a scan that does not end. The log output and the sleep of an idle tick are
  left out.
\<close>

section \<open>Operations\<close>

record processor_metrics =
  max_last_known_message_nonce_gauge :: int
  last_known_message_nonce_gauges :: "u32 \<rightharpoonup> int"

text \<open>\<open>mp_send_channels\<close> are the destinations with a channel.\<close>

record ('db, 'e) message_processor =
  mp_db :: "('db, 'e) hyperlane_rocks_db"
  mp_whitelist :: matching_list
  mp_blacklist :: matching_list
  mp_metrics :: processor_metrics
  mp_send_channels :: "u32 set"
  mp_destination_ctxs :: "u32 \<rightharpoonup> ('db, 'e) message_context"
  mp_message_nonce :: u32

definition message_processor_new ::
  "('db, 'e) hyperlane_rocks_db \<Rightarrow> matching_list \<Rightarrow> matching_list \<Rightarrow> processor_metrics \<Rightarrow> u32 set \<Rightarrow>
     (u32 \<rightharpoonup> ('db, 'e) message_context) \<Rightarrow> ('db, 'e) message_processor" where
  "message_processor_new db whitelist blacklist metrics send_channels destination_ctxs =
     \<lparr>mp_db = db, mp_whitelist = whitelist, mp_blacklist = blacklist, mp_metrics = metrics,
      mp_send_channels = send_channels, mp_destination_ctxs = destination_ctxs, mp_message_nonce = 0\<rparr>"

definition set_nonce_gauges :: "hyperlane_message \<Rightarrow> processor_metrics \<Rightarrow> processor_metrics" where
  "set_nonce_gauges message m =
     m\<lparr>max_last_known_message_nonce_gauge := uint (msg_nonce message),
       last_known_message_nonce_gauges :=
         (case last_known_message_nonce_gauges m (msg_destination message) of
            None \<Rightarrow> last_known_message_nonce_gauges m
          | Some _ \<Rightarrow> (last_known_message_nonce_gauges m)
              (msg_destination message \<mapsto> uint (msg_nonce message)))\<rparr>"

partial_function (option) try_get_unprocessed_message ::
  "('db, 'e) message_processor \<Rightarrow> 'db \<Rightarrow>
     (('db, 'e) message_processor \<times> ('e db_error + hyperlane_message option)) option" where
  "try_get_unprocessed_message p s =
     (case retrieve_message_by_nonce (mp_db p) (mp_message_nonce p) s of
        Inl e \<Rightarrow> Some (p, Inl e)
      | Inr None \<Rightarrow> Some (p, Inr None)
      | Inr (Some message) \<Rightarrow>
          let p = p\<lparr>mp_metrics := set_nonce_gauges message (mp_metrics p)\<rparr> in
          (case retrieve_processed_by_nonce (mp_db p) (mp_message_nonce p) s of
             Inl e \<Rightarrow> Some (p, Inl e)
           | Inr o' \<Rightarrow>
               if \<not> (case o' of None \<Rightarrow> False | Some b \<Rightarrow> b) then Some (p, Inr (Some message))
               else try_get_unprocessed_message
                      (p\<lparr>mp_message_nonce := mp_message_nonce p + 1\<rparr>) s))"

datatype 'e tick_error = TickDbError "'e db_error" | SendError

text \<open>
  \<open>created\<close> and \<open>now\<close> are the clock readings of a new pending message, \<open>open\<close> tells which submitters
  still receive. The second component is what is sent, by destination.
\<close>

definition mp_tick ::
  "keccak \<Rightarrow> instant \<Rightarrow> instant \<Rightarrow> (u32 \<Rightarrow> bool) \<Rightarrow> ('db, 'e) message_processor \<Rightarrow> 'db \<Rightarrow>
     (('db, 'e) message_processor \<times> (u32 \<times> pending_message) list \<times> ('e tick_error failure + unit)) option"
  where
  "mp_tick kc created now open p s =
     (case try_get_unprocessed_message p s of
        None \<Rightarrow> None
      | Some (p, Inl e) \<Rightarrow> Some (p, [], Inl (Err (TickDbError e)))
      | Some (p, Inr None) \<Rightarrow> Some (p, [], Inr ())
      | Some (p, Inr (Some msg)) \<Rightarrow>
          let destination = msg_destination msg;
              skip = Some (p\<lparr>mp_message_nonce := mp_message_nonce p + 1\<rparr>, [], Inr ())
          in
          if \<not> msg_matches (mp_whitelist p) msg True then skip
          else if msg_matches (mp_blacklist p) msg False then skip
          else if destination = hrd_domain_id (mp_db p) then skip
          else if destination \<notin> mp_send_channels p then skip
          else case mp_destination_ctxs p destination of
            None \<Rightarrow> Some (p, [], Inl Panic)
          | Some ctx \<Rightarrow>
              let pending_msg = from_persisted_retries kc ctx created now msg s in
              if \<not> open destination then Some (p, [], Inl (Err SendError))
              else Some (p\<lparr>mp_message_nonce := mp_message_nonce p + 1\<rparr>, [(destination, pending_msg)], Inr ()))"

section \<open>The scan ends\<close>

definition unprocessed :: "('db, 'e) message_processor \<Rightarrow> 'db \<Rightarrow> u32 \<Rightarrow> bool" where
  "unprocessed p s n \<longleftrightarrow>
     \<not> ((\<exists>m. retrieve_message_by_nonce (mp_db p) n s = Inr (Some m)) \<and>
        retrieve_processed_by_nonce (mp_db p) n s = Inr (Some True))"

lemma scan_stops:
  assumes "unprocessed p s (mp_message_nonce p)"
  shows "\<exists>p' r. try_get_unprocessed_message p s = Some (p', r)"
  using assms
  by (subst try_get_unprocessed_message.simps)
     (auto simp: unprocessed_def Let_def split: sum.splits option.splits)

lemma scan_continues:
  assumes "\<not> unprocessed p s (mp_message_nonce p)"
  shows "\<exists>m. try_get_unprocessed_message p s = try_get_unprocessed_message
    (p\<lparr>mp_metrics := set_nonce_gauges m (mp_metrics p), mp_message_nonce := mp_message_nonce p + 1\<rparr>) s"
  using assms
  by (subst try_get_unprocessed_message.simps) (auto simp: unprocessed_def Let_def)

text \<open>
  C36. The scan for the next message ends whenever some nonce has no stored message or one not marked as
  processed, whatever nonce it starts from: the nonce wraps around, and the scan fails to return only
  when all of the \<open>2 ^ 32\<close> nonces are stored and processed.
\<close>

theorem scan_terminates:
  "(\<exists>r. try_get_unprocessed_message p s = Some r) \<longleftrightarrow> (\<exists>n. unprocessed p s n)"
proof
  assume "\<exists>n. unprocessed p s n"
  then obtain n where "unprocessed p s n" by blast
  then show "\<exists>r. try_get_unprocessed_message p s = Some r"
  proof (induction "unat (n - mp_message_nonce p)" arbitrary: p rule: less_induct)
    case less
    show ?case
    proof (cases "unprocessed p s (mp_message_nonce p)")
      case True
      then show ?thesis using scan_stops [of p s] by auto
    next
      case False
      then have "n \<noteq> mp_message_nonce p" using less.prems by auto
      then have "n - mp_message_nonce p \<noteq> 0" by simp
      then have "unat (n - mp_message_nonce p - 1) < unat (n - mp_message_nonce p)"
        by (metis unat_minus_one unat_eq_zero diff_less less_one not_gr_zero)
      then have lt: "unat (n - (mp_message_nonce p + 1)) < unat (n - mp_message_nonce p)"
        by (simp add: algebra_simps)
      obtain m where m: "try_get_unprocessed_message p s = try_get_unprocessed_message
          (p\<lparr>mp_metrics := set_nonce_gauges m (mp_metrics p), mp_message_nonce := mp_message_nonce p + 1\<rparr>) s"
        using scan_continues [OF False] by blast
      have "unprocessed (p\<lparr>mp_metrics := set_nonce_gauges m (mp_metrics p),
          mp_message_nonce := mp_message_nonce p + 1\<rparr>) s n"
        using less.prems by (simp add: unprocessed_def)
      with less.hyps [of "p\<lparr>mp_metrics := set_nonce_gauges m (mp_metrics p),
          mp_message_nonce := mp_message_nonce p + 1\<rparr>"] lt m
      show ?thesis by simp
    qed
  qed
next
  assume "\<exists>r. try_get_unprocessed_message p s = Some r"
  then obtain r where "try_get_unprocessed_message p s = Some r" by blast
  then show "\<exists>n. unprocessed p s n"
  proof (induction p s r rule: try_get_unprocessed_message.raw_induct [rotated, consumes 1, case_names 1])
    case (1 f p s r)
    show ?case
    proof (rule ccontr)
      assume no: "\<not> (\<exists>n. unprocessed p s n)"
      then obtain m where "retrieve_message_by_nonce (mp_db p) (mp_message_nonce p) s = Inr (Some m)"
        "retrieve_processed_by_nonce (mp_db p) (mp_message_nonce p) s = Inr (Some True)"
        unfolding unprocessed_def by blast
      with 1(2) have "f (p\<lparr>mp_metrics := set_nonce_gauges m (mp_metrics p),
          mp_message_nonce := mp_message_nonce p + 1\<rparr>) s = Some r"
        by (simp add: Let_def)
      from 1(1) [OF this] obtain n where "unprocessed (p\<lparr>mp_metrics := set_nonce_gauges m (mp_metrics p),
          mp_message_nonce := mp_message_nonce p + 1\<rparr>) s n"
        by blast
      then have "unprocessed p s n" unfolding unprocessed_def by simp
      with no show False by blast
    qed
  qed
qed


section \<open>What a scan finds\<close>

definition same_setup :: "('db, 'e) message_processor \<Rightarrow> ('db, 'e) message_processor \<Rightarrow> bool" where
  "same_setup p q \<longleftrightarrow> mp_db p = mp_db q \<and> mp_whitelist p = mp_whitelist q \<and>
     mp_blacklist p = mp_blacklist q \<and> mp_send_channels p = mp_send_channels q \<and>
     mp_destination_ctxs p = mp_destination_ctxs q"

lemma same_setup_simps [simp]:
  "same_setup p p" "same_setup (p\<lparr>mp_metrics := m\<rparr>) q = same_setup p q"
  "same_setup (p\<lparr>mp_message_nonce := n\<rparr>) q = same_setup p q"
  by (simp_all add: same_setup_def)

text \<open>The last nonce has no message: the scan does not wrap.\<close>

definition no_last_nonce :: "('db, 'e) message_processor \<Rightarrow> 'db \<Rightarrow> bool" where
  "no_last_nonce p s \<longleftrightarrow> retrieve_message_by_nonce (mp_db p) (- 1) s = Inr None"

definition scanned ::
  "('db, 'e) message_processor \<Rightarrow> 'db \<Rightarrow> ('db, 'e) message_processor \<Rightarrow>
     ('e db_error + hyperlane_message option) \<Rightarrow> bool" where
  "scanned p s p' r \<longleftrightarrow> same_setup p' p \<and> mp_message_nonce p \<le> mp_message_nonce p' \<and>
     (\<forall>n. mp_message_nonce p \<le> n \<and> n < mp_message_nonce p' \<longrightarrow>
        (\<exists>m. retrieve_message_by_nonce (mp_db p) n s = Inr (Some m)) \<and>
        retrieve_processed_by_nonce (mp_db p) n s = Inr (Some True)) \<and>
     (\<forall>m. r = Inr (Some m) \<longrightarrow>
        retrieve_message_by_nonce (mp_db p) (mp_message_nonce p') s = Inr (Some m) \<and>
        retrieve_processed_by_nonce (mp_db p) (mp_message_nonce p') s \<noteq> Inr (Some True))"

lemma not_last_less: "n \<noteq> - 1 \<Longrightarrow> n < n + 1" for n :: u32
  using inc_less_eq_triv_imp [of n] by (meson linorder_not_less)

lemma le_cases_inc: "m \<le> n \<Longrightarrow> n = m \<or> m + 1 \<le> n" for m n :: u32
  using inc_le [of m n] by (auto simp: order.order_iff_strict)

lemma scan_result:
  "try_get_unprocessed_message p s = Some (p', r) \<Longrightarrow> no_last_nonce p s \<Longrightarrow> scanned p s p' r"
proof (induction p s "(p', r)" arbitrary: p' r
    rule: try_get_unprocessed_message.raw_induct [rotated, consumes 1, case_names 1])
  case (1 f p s)
  show ?case
  proof (cases "\<exists>m. retrieve_message_by_nonce (mp_db p) (mp_message_nonce p) s = Inr (Some m) \<and>
      retrieve_processed_by_nonce (mp_db p) (mp_message_nonce p) s = Inr (Some True)")
    case False
    then show ?thesis
      using 1(2) by (auto simp: scanned_def Let_def split: sum.splits option.splits if_splits)
  next
    case True
    then obtain m where m: "retrieve_message_by_nonce (mp_db p) (mp_message_nonce p) s = Inr (Some m)"
      and dn: "retrieve_processed_by_nonce (mp_db p) (mp_message_nonce p) s = Inr (Some True)"
      by blast
    let ?q = "p\<lparr>mp_metrics := set_nonce_gauges m (mp_metrics p), mp_message_nonce := mp_message_nonce p + 1\<rparr>"
    have q: "f ?q s = Some (p', r)" using 1(2) m dn by (simp add: Let_def)
    have lt: "mp_message_nonce p < mp_message_nonce p + 1"
      using m 1(3) by (intro not_last_less) (auto simp: no_last_nonce_def)
    have "scanned ?q s p' r" by (rule 1(1) [OF q]) (use 1(3) in \<open>simp add: no_last_nonce_def\<close>)
    then show ?thesis
      using m dn lt le_cases_inc unfolding scanned_def same_setup_def by (auto, blast+)
  qed
qed


section \<open>Runs\<close>

text \<open>
  The processor runs next to the other tasks of the relayer, whose writes to the origin's database come
  at any time between its ticks. \<open>processor_run kc p0 es s p sent\<close>: from an empty database and the new
  processor \<open>p0\<close>, after the writes \<open>es\<close>, the database is \<open>s\<close>, the processor is \<open>p\<close> and it sent \<open>sent\<close>.
\<close>

inductive processor_run ::
  "keccak \<Rightarrow> ('db, 'e) message_processor \<Rightarrow> db_event list \<Rightarrow> 'db \<Rightarrow> ('db, 'e) message_processor \<Rightarrow>
     (u32 \<times> pending_message) list \<Rightarrow> bool"
  for kc :: keccak and p0 :: "('db, 'e) message_processor" where
  start: "fresh (mp_db p0) s \<Longrightarrow> mp_message_nonce p0 = 0 \<Longrightarrow> processor_run kc p0 [] s p0 []"
| store: "processor_run kc p0 es s p sent \<Longrightarrow> exec_db kc (mp_db p0) e s = (s', Inr ()) \<Longrightarrow>
    processor_run kc p0 (es @ [e]) s' p sent"
| tick: "processor_run kc p0 es s p sent \<Longrightarrow> mp_tick kc created now open p s = Some (p', out, Inr ()) \<Longrightarrow>
    processor_run kc p0 es s p' (sent @ out)"

text \<open>The messages the processor is to send.\<close>

definition eligible :: "('db, 'e) message_processor \<Rightarrow> hyperlane_message \<Rightarrow> bool" where
  "eligible p m \<longleftrightarrow> msg_matches (mp_whitelist p) m True \<and> \<not> msg_matches (mp_blacklist p) m False \<and>
     msg_destination m \<noteq> hrd_domain_id (mp_db p) \<and> msg_destination m \<in> mp_send_channels p"

definition sent_nonce :: "u32 \<times> pending_message \<Rightarrow> u32" where
  "sent_nonce x = msg_nonce (pm_message (snd x))"

definition processor_inv ::
  "('db, 'e) message_processor \<Rightarrow> db_event list \<Rightarrow> ('db, 'e) message_processor \<Rightarrow>
     (u32 \<times> pending_message) list \<Rightarrow> bool" where
  "processor_inv p0 es p sent \<longleftrightarrow> same_setup p p0 \<and> sorted_wrt (<) (map sent_nonce sent) \<and>
     (\<forall>x\<in>set sent. sent_nonce x < mp_message_nonce p \<and> fst x = msg_destination (pm_message (snd x)) \<and>
        eligible p0 (pm_message (snd x)) \<and>
        (\<exists>l. find (nonce_is (sent_nonce x)) (messages_of es) = Some l \<and> fst l = pm_message (snd x))) \<and>
     (\<forall>n<mp_message_nonce p. \<exists>l. find (nonce_is n) (messages_of es) = Some l \<and>
        (eligible p0 (fst l) \<longrightarrow>
           (\<exists>x\<in>set sent. pm_message (snd x) = fst l) \<or> Processed n True \<in> set es))"

definition messages_ok :: "keccak \<Rightarrow> db_event list \<Rightarrow> bool" where
  "messages_ok kc es \<longleftrightarrow> inj_on (hyperlane_message_id kc) (fst ` set (messages_of es)) \<and>
     (\<forall>l\<in>set (messages_of es). msg_nonce (fst l) \<noteq> - 1)"

lemma messages_ok_prefix: "messages_ok kc (es @ es') \<Longrightarrow> messages_ok kc es"
proof -
  have "set (messages_of es) \<subseteq> set (messages_of (es @ es'))" by (simp add: messages_of_def)
  then show "messages_ok kc (es @ es') \<Longrightarrow> messages_ok kc es"
    unfolding messages_ok_def by (meson image_mono inj_on_subset subsetD)
qed

lemma find_append: "find P xs = Some x \<Longrightarrow> find P (xs @ ys) = Some x"
  by (induction xs) auto

lemma processed_of_True: "processed_of es n = Some True \<Longrightarrow> Processed n True \<in> set es"
  unfolding processed_of_def
  by (drule map_of_SomeD) (auto split: db_event.splits if_splits)

lemma from_persisted_message [simp]:
  "pm_message (from_persisted_retries kc ctx created now m s) = m"
  by (auto simp: from_persisted_retries_def pending_message_new_def Let_def split: sum.splits option.splits)

lemma processor_inv_write: "processor_inv p0 es p sent \<Longrightarrow> processor_inv p0 (es @ [e]) p sent"
  unfolding processor_inv_def events_of_snoc(1) set_append
  by (blast intro: find_append)

text \<open>What one successful tick does.\<close>

lemma tick_cases:
  assumes "mp_tick kc created now open p s = Some (p', out, Inr ())" and "no_last_nonce p s"
  obtains (idle) "scanned p s p' (Inr None)" "out = []"
  | (skip) q m where "scanned p s q (Inr (Some m))" "p' = q\<lparr>mp_message_nonce := mp_message_nonce q + 1\<rparr>"
      "\<not> eligible q m" "out = []"
  | (send) q m pm where "scanned p s q (Inr (Some m))" "p' = q\<lparr>mp_message_nonce := mp_message_nonce q + 1\<rparr>"
      "eligible q m" "pm_message pm = m" "out = [(msg_destination m, pm)]"
proof -
  obtain q r where scan: "try_get_unprocessed_message p s = Some (q, r)"
    using assms(1) by (cases "try_get_unprocessed_message p s") (auto simp: mp_tick_def)
  have sc: "scanned p s q r" by (rule scan_result [OF scan assms(2)])
  show ?thesis
  proof (cases r)
    case (Inl e)
    then show ?thesis using assms(1) scan by (simp add: mp_tick_def)
  next
    case (Inr o')
    show ?thesis
    proof (cases o')
      case None
      then show ?thesis using assms(1) scan sc Inr idle by (simp add: mp_tick_def)
    next
      case (Some m)
      show ?thesis
      proof (cases "eligible q m")
        case False
        then have "p' = q\<lparr>mp_message_nonce := mp_message_nonce q + 1\<rparr>" "out = []"
          using assms(1) scan Inr Some by (auto simp: mp_tick_def Let_def eligible_def split: if_splits option.splits)
        then show ?thesis using skip sc Inr Some False by simp
      next
        case True
        then obtain ctx where ctx: "mp_destination_ctxs q (msg_destination m) = Some ctx"
          using assms(1) scan Inr Some
          by (cases "mp_destination_ctxs q (msg_destination m)") (auto simp: mp_tick_def Let_def eligible_def)
        then have "p' = q\<lparr>mp_message_nonce := mp_message_nonce q + 1\<rparr>"
          "out = [(msg_destination m, from_persisted_retries kc ctx created now m s)]"
          using assms(1) scan Inr Some True
          by (auto simp: mp_tick_def Let_def eligible_def split: if_splits)
        then show ?thesis using send sc Inr Some True by simp
      qed
    qed
  qed
qed


lemma processor_run_setup:
  "processor_run kc p0 es s p sent \<Longrightarrow> db_ok (mp_db p0) \<Longrightarrow> db_view kc (mp_db p0) es s"
proof (induction rule: processor_run.induct)
  case (start s)
  then show ?case by (simp add: db_view_start)
next
  case (store es s p sent e s')
  then show ?case by (intro db_view_step) simp_all
qed

lemma stored_messages:
  assumes "db_view kc h es s" and "messages_ok kc es"
  shows "retrieve_message_by_nonce h n s = Inr (map_option fst (find (nonce_is n) (messages_of es)))"
    and "retrieve_processed_by_nonce h n s = Inr (processed_of es n)"
proof -
  have "msg_view kc h (messages_of es) s" "flags_view h es s" using assms(1) by (simp_all add: db_view_def)
  then show "retrieve_message_by_nonce h n s = Inr (map_option fst (find (nonce_is n) (messages_of es)))"
    "retrieve_processed_by_nonce h n s = Inr (processed_of es n)"
    using assms(2) msg_view_retrieve [of kc h "messages_of es" s n]
    by (simp_all add: messages_ok_def flags_view_def)
qed

lemma stored_last:
  assumes "db_view kc (mp_db p) es s" and "messages_ok kc es"
  shows "no_last_nonce p s"
proof -
  have "find (nonce_is (- 1)) (messages_of es) = None"
    using assms(2) by (auto simp: messages_ok_def find_None_iff)
  then show ?thesis by (simp add: no_last_nonce_def stored_messages(1) [OF assms])
qed

lemma eligible_cong: "same_setup p q \<Longrightarrow> eligible p m = eligible q m"
  by (simp add: eligible_def same_setup_def)

text \<open>The scan extends what the invariant says of the nonces passed.\<close>

lemma processor_inv_scan:
  assumes inv: "processor_inv p0 es p sent" and scan: "scanned p s q r"
    and view: "db_view kc (mp_db p) es s" and ok: "messages_ok kc es"
  shows "processor_inv p0 es q sent"
proof -
  have "\<exists>l. find (nonce_is n) (messages_of es) = Some l \<and> Processed n True \<in> set es"
    if n: "mp_message_nonce p \<le> n" "n < mp_message_nonce q" for n
  proof -
    obtain m where "retrieve_message_by_nonce (mp_db p) n s = Inr (Some m)"
      and "retrieve_processed_by_nonce (mp_db p) n s = Inr (Some True)"
      using n scan unfolding scanned_def by blast
    then show ?thesis
      using processed_of_True [of es n] by (auto simp: stored_messages [OF view ok])
  qed
  moreover have "same_setup q p0" using inv scan by (auto simp: processor_inv_def scanned_def same_setup_def)
  moreover have "mp_message_nonce p \<le> mp_message_nonce q" using scan by (simp add: scanned_def)
  ultimately show ?thesis
    using inv unfolding processor_inv_def by (meson linorder_not_less order.strict_trans2)
qed

lemma less_inc: "n < m + 1 \<Longrightarrow> n < m \<or> n = m" for n m :: u32
  using less_inc_imp_less_eq [of n m] by (auto simp: order.order_iff_strict)

lemma processor_inv_tick:
  assumes inv: "processor_inv p0 es p sent" and view: "db_view kc (mp_db p) es s" and ok: "messages_ok kc es"
    and run: "mp_tick kc created now open p s = Some (p', out, Inr ())"
  shows "processor_inv p0 es p' (sent @ out)"
  using run stored_last [OF view ok]
proof (cases rule: tick_cases)
  case idle
  then show ?thesis using processor_inv_scan [OF inv _ view ok] by simp
next
  case (skip q m)
  have q: "processor_inv p0 es q sent" by (rule processor_inv_scan [OF inv skip(1) view ok])
  have m: "retrieve_message_by_nonce (mp_db p) (mp_message_nonce q) s = Inr (Some m)"
    using skip(1) by (simp add: scanned_def)
  then obtain l where l: "find (nonce_is (mp_message_nonce q)) (messages_of es) = Some l" "fst l = m"
    by (auto simp: stored_messages(1) [OF view ok])
  have "\<not> eligible p0 m" using skip(3) q eligible_cong [of q p0] by (simp add: processor_inv_def)
  moreover have "mp_message_nonce q < mp_message_nonce q + 1"
    using m stored_last [OF view ok] by (intro not_last_less) (auto simp: no_last_nonce_def)
  moreover have "\<exists>l. find (nonce_is k) (messages_of es) = Some l \<and>
        (eligible p0 (fst l) \<longrightarrow> (\<exists>x\<in>set sent. pm_message (snd x) = fst l) \<or> Processed k True \<in> set es)"
    if "k < mp_message_nonce q + 1" for k
  proof (cases "k = mp_message_nonce q")
    case True
    then show ?thesis using l \<open>\<not> eligible p0 m\<close> by auto
  next
    case False
    then have "k < mp_message_nonce q" using that less_inc by blast
    then show ?thesis using q unfolding processor_inv_def by blast
  qed
  ultimately show ?thesis
    using q unfolding processor_inv_def skip(2,4)
    by (auto intro: order.strict_trans)
next
  case (send q m pm)
  have q: "processor_inv p0 es q sent" by (rule processor_inv_scan [OF inv send(1) view ok])
  have m: "retrieve_message_by_nonce (mp_db p) (mp_message_nonce q) s = Inr (Some m)"
    using send(1) by (simp add: scanned_def)
  then obtain l where l: "find (nonce_is (mp_message_nonce q)) (messages_of es) = Some l" "fst l = m"
    by (auto simp: stored_messages(1) [OF view ok])
  then have n: "msg_nonce m = mp_message_nonce q" by (auto simp: find_Some_iff)
  have el: "eligible p0 m" using send(3) q eligible_cong [of q p0] by (simp add: processor_inv_def)
  have lt: "mp_message_nonce q < mp_message_nonce q + 1"
    using m stored_last [OF view ok] by (intro not_last_less) (auto simp: no_last_nonce_def)
  have sorted: "sorted_wrt (<) (map sent_nonce (sent @ out))"
    using q n by (auto simp: processor_inv_def send sorted_wrt_append sent_nonce_def)
  have sent: "sent_nonce x < mp_message_nonce p' \<and> fst x = msg_destination (pm_message (snd x)) \<and>
        eligible p0 (pm_message (snd x)) \<and>
        (\<exists>l. find (nonce_is (sent_nonce x)) (messages_of es) = Some l \<and> fst l = pm_message (snd x))"
    if "x \<in> set (sent @ out)" for x
  proof (cases "x \<in> set sent")
    case True
    then show ?thesis using q lt by (auto simp: processor_inv_def send(2))
  next
    case False
    then have "x = (msg_destination m, pm)" using that by (simp add: send)
    then show ?thesis using el l n lt by (simp add: sent_nonce_def send)
  qed
  have passed: "\<exists>l. find (nonce_is k) (messages_of es) = Some l \<and>
        (eligible p0 (fst l) \<longrightarrow>
           (\<exists>x\<in>set (sent @ out). pm_message (snd x) = fst l) \<or> Processed k True \<in> set es)"
    if "k < mp_message_nonce p'" for k
  proof (cases "k = mp_message_nonce q")
    case True
    then show ?thesis using l by (auto simp: send)
  next
    case False
    then have "k < mp_message_nonce q" using that less_inc by (auto simp: send(2))
    then obtain l' where l': "find (nonce_is k) (messages_of es) = Some l'"
      "eligible p0 (fst l') \<longrightarrow> (\<exists>x\<in>set sent. pm_message (snd x) = fst l') \<or> Processed k True \<in> set es"
      using q unfolding processor_inv_def by blast
    then show ?thesis unfolding set_append by blast
  qed
  have "same_setup p' p0" using q by (simp add: processor_inv_def send(2))
  with sorted sent passed show ?thesis unfolding processor_inv_def by blast
qed

lemma processor_inv_run:
  assumes "db_ok (mp_db p0)"
  shows "processor_run kc p0 es s p sent \<Longrightarrow> messages_ok kc es \<Longrightarrow> processor_inv p0 es p sent"
proof (induction rule: processor_run.induct)
  case (start s)
  then show ?case by (simp add: processor_inv_def)
next
  case (store es s p sent e s')
  then show ?case using messages_ok_prefix processor_inv_write by blast
next
  case (tick es s p sent created now "open" p' out)
  have "same_setup p p0" using tick by (simp add: processor_inv_def)
  then have "db_view kc (mp_db p) es s"
    using processor_run_setup [OF tick.hyps(1) assms] by (simp add: same_setup_def)
  then show ?case using processor_inv_tick [OF _ _ tick.prems tick.hyps(2)] tick.IH tick.prems by blast
qed

section \<open>The messages sent\<close>

text \<open>
  C10. In every interleaving of the processor with the writes of the other tasks of the relayer, it
  sends messages in strictly increasing order of their nonces, so that none is sent twice; each is the
  first message stored with its nonce, passes the whitelist and the blacklist, and goes to the submitter of
  its destination, which is not the origin. None is forgotten: every nonce the processor has passed is
  stored, and its message was sent, is not to be sent, or was marked as processed. The hypotheses are that
  RocksDB reads back what was written, that message ids do not collide, and that the last nonce is unused.
\<close>

theorem processor_sends_in_order:
  assumes "rocks_ok R" and "mp_db p0 = hyperlane_rocks_db_new domain_id name R"
    and "processor_run kc p0 es s p sent" and "messages_ok kc es"
  shows "sorted_wrt (<) (map (\<lambda>(d, pm). msg_nonce (pm_message pm)) sent) \<and>
    (\<forall>(d, pm)\<in>set sent. d = msg_destination (pm_message pm) \<and> d \<noteq> domain_id \<and> d \<in> mp_send_channels p0 \<and>
       msg_matches (mp_whitelist p0) (pm_message pm) True \<and>
       \<not> msg_matches (mp_blacklist p0) (pm_message pm) False \<and>
       map_option fst (find (nonce_is (msg_nonce (pm_message pm))) (messages_of es)) = Some (pm_message pm)) \<and>
    (\<forall>n<mp_message_nonce p. \<exists>l. find (nonce_is n) (messages_of es) = Some l \<and>
       (eligible p0 (fst l) \<longrightarrow> (\<exists>(d, pm)\<in>set sent. pm_message pm = fst l) \<or> Processed n True \<in> set es))"
proof -
  have "db_ok (mp_db p0)" using assms(1,2) by (simp add: hyperlane_rocks_db_new_def typed_db_new_def)
  then have inv: "processor_inv p0 es p sent" by (rule processor_inv_run [OF _ assms(3,4)])
  have "map sent_nonce sent = map (\<lambda>(d, pm). msg_nonce (pm_message pm)) sent"
    by (simp add: sent_nonce_def split_def)
  moreover have "hrd_domain_id (mp_db p0) = domain_id" using assms(2) by (simp add: hyperlane_rocks_db_new_def)
  ultimately show ?thesis
    using inv unfolding processor_inv_def eligible_def sent_nonce_def by (fastforce simp: split_def)
qed


text \<open>One message is stored, and one tick sends it.\<close>

definition one_message :: "db_event list" where
  "one_message = [Messages [(sample_msg 0 [1], sample_meta 7 0)]]"

definition sample_processor :: "(bytes \<rightharpoonup> bytes, unit) message_processor" where
  "sample_processor = message_processor_new sample_db matching_list_default matching_list_default
     \<lparr>max_last_known_message_nonce_gauge = 0, last_known_message_nonce_gauges = Map.empty\<rparr> {0}
     (\<lambda>_. Some \<lparr>ctx_origin_db = sample_db,
        ctx_gas_payment_enforcer = gas_payment_enforcer_new sample_confs sample_db,
        ctx_transaction_gas_limit = None\<rparr>)"

lemma sample_processor_simps:
  "mp_db sample_processor = sample_db" "mp_message_nonce sample_processor = 0"
  "mp_whitelist sample_processor = matching_list_default" "mp_blacklist sample_processor = matching_list_default"
  "mp_send_channels sample_processor = {0}" "hrd_domain_id sample_db = 1"
  by (simp_all add: sample_processor_def message_processor_new_def sample_db_def hyperlane_rocks_db_new_def)

lemma one_message_of:
  "messages_of one_message = [(sample_msg 0 [1], sample_meta 7 0)]" "messages_ok last_keccak one_message"
  by (simp_all add: one_message_def messages_of_def messages_ok_def sample_msg_def)

lemma sample_processor_run:
  "\<exists>s p pm. processor_run last_keccak sample_processor one_message s p [(0, pm)]"
proof -
  have fits: "db_fits ([] @ one_message)"
    by (simp add: one_message_def db_fits_def gas_fits_def exp_fits_def payments_of_def expenditures_of_def
        sum_for_def new_payments_def spent_def)
  have view0: "db_view last_keccak sample_db [] Map.empty" by (rule db_view_start [OF sample_db_ok(3)])
  obtain s where s: "exec_db last_keccak sample_db (one_message ! 0) Map.empty = (s, Inr ())"
    using db_step_total [OF sample_db_ok(1,2) view0, of "one_message ! 0"] fits by (auto simp: one_message_def)
  have view: "db_view last_keccak sample_db one_message s"
    using db_view_step [OF sample_db_ok(1) view0 s] by (simp add: one_message_def)
  let ?m = "sample_msg 0 [1]"
  have m: "retrieve_message_by_nonce sample_db 0 s = Inr (Some ?m)"
    "retrieve_processed_by_nonce sample_db 0 s = Inr None"
    using stored_messages [OF view one_message_of(2), of 0]
    by (simp_all add: one_message_of(1) sample_msg_def) (simp add: one_message_def processed_of_def)
  have r: "processor_run last_keccak sample_processor one_message s sample_processor []"
    using processor_run.store [OF processor_run.start, of sample_processor Map.empty last_keccak "one_message ! 0" s]
      sample_db_ok(3) s
    by (simp add: sample_processor_simps) (simp add: one_message_def)
  have "mp_destination_ctxs sample_processor 0 \<noteq> None"
    by (simp add: sample_processor_def message_processor_new_def)
  then obtain p pm where "mp_tick last_keccak 0 0 (\<lambda>_. True) sample_processor s = Some (p, [(0, pm)], Inr ())"
    by (auto simp: mp_tick_def try_get_unprocessed_message.simps [of sample_processor s] m Let_def
        sample_processor_simps matching_list_default_def msg_matches_iff sample_msg_def message_default_def)
  from processor_run.tick [OF r this] show ?thesis by auto
qed

theorem processor_sends_in_order_witness:
  "\<exists>s p pm. processor_run last_keccak sample_processor one_message s p [(0, pm)] \<and> pm_message pm = sample_msg 0 [1]"
proof -
  obtain s p pm where run: "processor_run last_keccak sample_processor one_message s p [(0, pm)]"
    using sample_processor_run by blast
  have db: "mp_db sample_processor = hyperlane_rocks_db_new 1 (str_bytes ''ethereum'') map_rocks"
    by (simp add: sample_processor_simps sample_db_def)
  from processor_sends_in_order [OF map_rocks_ok(1) db run one_message_of(2)]
  have "pm_message pm = sample_msg 0 [1]" by (auto simp: one_message_of(1) split: if_splits)
  with run show ?thesis by blast
qed

end
