(* ===== verification/Mailbox_Correct.thy ===== *)
theory Mailbox_Correct
  imports Mailbox
begin

text \<open>
  Correctness of the mailbox program: its data formats, initialization, dispatching (the outbox tree
  is the Merkle tree of the dispatched message ids), exactly-once processing over any sequence of
  instructions, verification before delivery, and access control.
\<close>

section \<open>Data formats\<close>

interpretation borsh_inbox: borsh ser_inbox de_inbox always
  by unfold_locales
     (auto simp: ser_inbox_def de_inbox_def result_simps borsh_iffs
        borsh_u8.de_ser borsh_u32.de_ser borsh_u64.de_ser borsh_h256.de_ser)

definition tree_valid :: "incremental_merkle \<Rightarrow> bool" where
  "tree_valid t \<longleftrightarrow> length (im_branch t) = TREE_DEPTH"

lemma de_tree_iff: "de_tree bs = Inr (t, rest) \<longleftrightarrow> bs = ser_tree t @ rest \<and> tree_valid t"
  by (cases t)
     (auto simp: de_tree_def ser_tree_def tree_valid_def result_simps borsh_iffs list_all_iff
        borsh_list [OF borsh_h256.borsh_axioms])

interpretation borsh_tree: borsh ser_tree de_tree tree_valid
  by unfold_locales (auto simp: de_tree_iff)

interpretation borsh_outbox: borsh ser_outbox de_outbox "\<lambda>x. tree_valid (ob_tree x)"
  by unfold_locales
     (auto simp: ser_outbox_def de_outbox_def result_simps borsh_iffs borsh_tree.de_iff
        borsh_u8.de_ser borsh_u32.de_ser borsh_pubkey_option.de_ser borsh_tree.de_ser)

lemma length_ser_tree: "tree_valid t \<Longrightarrow> length (ser_tree t) = 1032"
proof -
  have "length (concat (map ser_h256 hs)) = 32 * length hs" for hs
    by (induction hs) simp_all
  then show "tree_valid t \<Longrightarrow> length (ser_tree t) = 1032"
    by (simp add: ser_tree_def tree_valid_def TREE_DEPTH_def)
qed

lemma length_ser_inbox: "length (ser_inbox x) = inbox_size x"
  by (simp add: ser_inbox_def inbox_size_def)

lemma length_ser_outbox:
  "tree_valid (ob_tree x) \<Longrightarrow>
   length (ser_outbox x) = (if ob_owner x = None then outbox_size x - 32 else outbox_size x)"
  by (cases "ob_owner x")
     (simp_all add: ser_outbox_def outbox_size_def length_ser_tree length_ser_option_h256)

lemma length_discriminators [simp]:
  "length DISPATCHED_MESSAGE_DISCRIMINATOR = 8" "length PROCESSED_MESSAGE_DISCRIMINATOR = 8"
  by (simp_all add: DISPATCHED_MESSAGE_DISCRIMINATOR_def PROCESSED_MESSAGE_DISCRIMINATOR_def)

lemma length_ser_processed_message:
  "pm_discriminator m = PROCESSED_MESSAGE_DISCRIMINATOR \<Longrightarrow>
   length (ser_processed_message m) = processed_message_size m"
  by (simp add: ser_processed_message_def processed_message_size_def)

lemma length_ser_dispatched_message: "length (ser_dispatched_message m) = dispatched_message_size m"
  by (simp add: ser_dispatched_message_def dispatched_message_size_def)

interpretation borsh_processed_message: borsh ser_processed_message de_processed_message
  "\<lambda>m. pm_discriminator m = PROCESSED_MESSAGE_DISCRIMINATOR"
  by unfold_locales
     (auto simp: ser_processed_message_def de_processed_message_def result_simps borsh_defs)

interpretation dispatched_message_enc:
  encoding "\<lambda>m. (ser_dispatched_message m, length (ser_dispatched_message m))" de_dispatched_message
    "\<lambda>m. dm_discriminator m = DISPATCHED_MESSAGE_DISCRIMINATOR"
  by unfold_locales
     (auto simp: ser_dispatched_message_def de_dispatched_message_def result_simps)

interpretation borsh_mailbox_instruction:
  borsh ser_mailbox_instruction de_mailbox_instruction mailbox_instruction_valid
proof
  fix x rest
  assume "mailbox_instruction_valid x"
  then show "de_mailbox_instruction (ser_mailbox_instruction x @ rest) = Inr (x, rest)"
    by (cases x) (simp_all add: de_mailbox_instruction_def borsh_u8.de_ser borsh_u32.de_ser
        borsh_h256.de_ser borsh_bytes.de_ser borsh_pubkey_option.de_ser)
next
  fix bs x rest
  assume "de_mailbox_instruction bs = Inr (x, rest)"
  then show "bs = ser_mailbox_instruction x @ rest \<and> mailbox_instruction_valid x"
    by (auto simp: de_mailbox_instruction_def result_simps borsh_iffs split: if_splits)
qed

interpretation mailbox_codec:
  instruction_codec mailbox_into_instruction_data mailbox_from_instruction_data
  by unfold_locales
     (auto simp: mailbox_into_instruction_data_def mailbox_from_instruction_data_def result_simps
        borsh_mailbox_instruction.try_from_slice_iff)

interpretation outbox_ac: access_control ob_owner outbox_set_owner
  by unfold_locales (simp add: outbox_set_owner_def)

section \<open>Fetching the inbox and the outbox\<close>

lemma outbox_fetch_holds:
  assumes "holds ser_outbox x k (vm_ledger vm)" and "tree_valid (ob_tree x)" and "ai_key i = k"
  shows "outbox_fetch rt pid i vm = Inr y \<longleftrightarrow>
    y = x \<and> k \<notin> set (vm_borrowed vm) \<and> acc_owner (vm_ledger vm k) = pid \<and>
    rt_create_program_address rt (outbox_seeds @ [[ob_bump_seed x]]) pid = Inr k"
proof -
  obtain tail where d: "acc_data (vm_ledger vm k) = ser_bool True @ ser_outbox x @ tail"
    using assms(1) by (auto simp: holds_def)
  have "fetch (lift_de de_outbox) outbox_default (acc_data (vm_ledger vm k)) = Inr x"
    unfolding d
    by (rule fetch_stored) (simp add: lift_de_def borsh_outbox.de_ser [OF assms(2)])
  then show ?thesis
    using assms(3) by (auto simp: outbox_fetch_def result_simps owner_of_def)
qed

lemma outbox_fetch_valid:
  assumes "outbox_fetch rt pid i vm = Inr x"
  shows "tree_valid (ob_tree x) \<and> ai_key i \<notin> set (vm_borrowed vm) \<and> owner_of i vm = pid"
  using assms
  by (auto simp: outbox_fetch_def result_simps fetch_def fetch_data_def borsh_outbox.de_iff
      outbox_default_def tree_valid_def im_default_def split: if_splits option.splits)

lemma inbox_verify_holds:
  assumes "holds ser_inbox x k (vm_ledger vm)" and "ai_key i = k"
  shows "inbox_verify rt pid i vm (acc_data (vm_ledger vm k)) = Inr y \<longleftrightarrow>
    y = x \<and> acc_owner (vm_ledger vm k) = pid \<and>
    rt_create_program_address rt (inbox_seeds @ [[ib_bump_seed x]]) pid = Inr k"
proof -
  obtain tail where d: "acc_data (vm_ledger vm k) = ser_bool True @ ser_inbox x @ tail"
    using assms(1) by (auto simp: holds_def)
  have "fetch (lift_de de_inbox) inbox_default (acc_data (vm_ledger vm k)) = Inr x"
    unfolding d by (rule fetch_stored) (simp add: lift_de_def borsh_inbox.de_ser)
  then show ?thesis
    using assms(2) by (auto simp: inbox_verify_def result_simps owner_of_def)
qed

section \<open>The accounts of the mailbox\<close>

lemma space_small:
  "account_size inbox_size x < 2 ^ 64" "account_size outbox_size y < 2 ^ 64"
  "account_size processed_message_size z < 2 ^ 64"
  by (simp_all add: account_size_def inbox_size_def outbox_size_def processed_message_size_def)

lemma dispatched_space_small:
  assumes "\<not> length body > MAX_MESSAGE_BODY_BYTES"
  shows "account_size dispatched_message_size
    (dispatched_message_new n slot k (to_vec message_write_to
      \<lparr>msg_version = v, msg_nonce = m, msg_origin = orig, msg_sender = s, msg_destination = dest,
       msg_recipient = r, msg_body = body\<rparr>)) < 2 ^ 64"
  using assms
  by (simp add: account_size_def dispatched_message_size_def dispatched_message_new_def to_vec_def
      message_write_to_def MAX_MESSAGE_BODY_BYTES_def)

lemma mailbox_initialize_keeps:
  assumes sys: "system_program_ok rt" and pid: "pid \<noteq> SYSTEM_PROGRAM_ID"
  shows "on_success (mailbox_initialize rt pid accounts init vm) (keeps pid vm)"
  unfolding mailbox_initialize_def
  by (intro success_intros)
     (auto simp: on_success_def dest!: store_keeps [where pid = pid] create_pda_account_keeps [OF sys pid space_small(1)]
        create_pda_account_keeps [OF sys pid space_small(2)] intro: keeps_trans)

lemma get_recipient_ism_keeps:
  assumes "cpi_frame rt pid"
  shows "on_success (get_recipient_ism rt r infos metas d vm)
    (\<lambda>(ism, vm'). keeps pid vm vm' \<and> vm_borrowed vm' = vm_borrowed vm)"
  unfolding get_recipient_ism_def
  by (intro success_intros)
     (auto simp: on_success_def invoke_def dest: invoke_signed_keeps [OF assms]
        invoke_signed_frame [OF assms])

lemma inbox_process_checks_keeps:
  assumes "cpi_frame rt pid"
  shows "on_success (inbox_process_checks kc rt pid accounts p vm) (\<lambda>(pc, vm'). keeps pid vm vm')"
  unfolding inbox_process_checks_def
  by (intro success_intros)
     (auto simp: on_success_def inbox_fetch_refmut_def result_simps
        dest!: on_successD [OF get_recipient_ism_keeps [OF assms]])

lemma inbox_process_deliver_keeps:
  assumes sys: "system_program_ok rt" and pid: "pid \<noteq> SYSTEM_PROGRAM_ID" and cpi: "cpi_frame rt pid"
  shows "on_success (inbox_process_deliver rt pid p pc vm) (keeps pid vm)"
  unfolding inbox_process_deliver_def
  by (intro success_intros)
     (auto simp: ok_or_eq_Inr on_success_def dest!: store_keeps [where pid = pid]
        create_pda_account_keeps [OF sys pid space_small(3)] invoke_keeps [OF cpi]
        invoke_signed_keeps [OF cpi] dest: store_in_slice_keepsD intro: keeps_trans)

lemma inbox_process_keeps:
  assumes "system_program_ok rt" and "pid \<noteq> SYSTEM_PROGRAM_ID" and "cpi_frame rt pid"
  shows "on_success (inbox_process kc rt pid accounts p vm) (keeps pid vm)"
  unfolding inbox_process_def
  by (intro success_intros)
     (auto simp: on_success_def dest!: on_successD [OF inbox_process_checks_keeps [OF assms(3)]]
        on_successD [OF inbox_process_deliver_keeps [OF assms]] intro: keeps_trans)

lemma outbox_dispatch_keeps:
  assumes sys: "system_program_ok rt" and pid: "pid \<noteq> SYSTEM_PROGRAM_ID" and cpi: "cpi_frame rt pid"
  shows "on_success (outbox_dispatch kc rt pid accounts d vm) (keeps pid vm)"
  unfolding outbox_dispatch_def
  by (intro success_intros)
     (auto simp: on_success_def set_return_data_def dest!: store_keeps [where pid = pid] invoke_keeps [OF cpi]
        create_pda_account_keeps [OF sys pid dispatched_space_small] intro: keeps_trans)

lemmas mailbox_handler_defs =
  inbox_get_recipient_ism_def inbox_set_default_ism_def outbox_get_count_def
  outbox_get_latest_checkpoint_def outbox_get_root_def mailbox_get_owner_def
  mailbox_transfer_ownership_def

lemma mailbox_views_keep:
  assumes "cpi_frame rt pid"
  shows "on_success (inbox_get_recipient_ism rt pid accounts r vm) (keeps pid vm)"
    "on_success (inbox_set_default_ism rt pid accounts ism vm) (keeps pid vm)"
    "on_success (outbox_get_count rt pid accounts vm) (keeps pid vm)"
    "on_success (outbox_get_latest_checkpoint kc rt pid accounts vm) (keeps pid vm)"
    "on_success (outbox_get_root kc rt pid accounts vm) (keeps pid vm)"
    "on_success (mailbox_get_owner rt pid accounts vm) (keeps pid vm)"
    "on_success (mailbox_transfer_ownership rt pid accounts n vm) (keeps pid vm)"
  unfolding mailbox_handler_defs
  by (intro success_intros; auto simp: on_success_def set_return_data_def dest!: store_keeps [where pid = pid]
        on_successD [OF get_recipient_ism_keeps [OF assms]])+

lemma mailbox_process_instruction_keeps:
  assumes "system_program_ok rt" and "pid \<noteq> SYSTEM_PROGRAM_ID" and "cpi_frame rt pid"
    and "mailbox_process_instruction kc rt pid accounts data vm = Inr vm'"
  shows "keeps pid vm vm'"
proof -
  obtain ix where "mailbox_from_instruction_data data = Inr ix"
    using assms(4) by (auto simp: mailbox_process_instruction_def result_simps)
  then show ?thesis
    using assms(4) mailbox_views_keep [OF assms(3)] mailbox_initialize_keeps [OF assms(1,2)]
      inbox_process_keeps [OF assms(1-3)] outbox_dispatch_keeps [OF assms(1-3)]
    by (cases ix) (simp_all add: mailbox_process_instruction_def on_success_def)
qed

section \<open>Processing a message once\<close>

text \<open>A message is marked as processed by the account derived from its id.\<close>

definition processed_key :: "runtime \<Rightarrow> pubkey \<Rightarrow> h256 \<Rightarrow> pubkey" where
  "processed_key rt pid mid = fst (rt_find_program_address rt (processed_message_seeds mid) pid)"

definition processed :: "runtime \<Rightarrow> pubkey \<Rightarrow> h256 \<Rightarrow> vm \<Rightarrow> bool" where
  "processed rt pid mid vm \<longleftrightarrow> owned_data pid (processed_key rt pid mid) (vm_ledger vm)"

lemma message_read_rest: "message_read_from bs = Inr (m, r) \<Longrightarrow> r = []"
  by (auto simp: message_read_from_def Let_def result_simps)

lemma inbox_process_checks_facts:
  "on_success (inbox_process_checks kc rt pid accounts p vm) (\<lambda>(pc, vm').
     message_read_from (ip_message p) = Inr (pc_message pc, []) \<and>
     pc_message_id pc = hyperlane_message_id kc (pc_message pc) \<and>
     msg_version (pc_message pc) = VERSION \<and>
     ib_local_domain (pc_inbox pc) = msg_destination (pc_message pc) \<and>
     ai_key (pc_processed pc) = processed_key rt pid (pc_message_id pc) \<and>
     acc_data (vm_ledger vm (ai_key (pc_processed pc))) = [])"
  unfolding inbox_process_checks_def
  by (intro success_intros)
     (auto simp: inbox_fetch_refmut_def result_simps processed_key_def dest: message_read_rest
        split: sum.splits failure.splits)

lemma inbox_process_checks_borrowed:
  assumes "cpi_frame rt pid"
  shows "on_success (inbox_process_checks kc rt pid accounts p vm) (\<lambda>(pc, vm').
     ai_key (pc_inbox_info pc) \<in> set (vm_borrowed vm'))"
  unfolding inbox_process_checks_def
  by (intro success_intros)
     (auto simp: inbox_fetch_refmut_def result_simps
        dest!: on_successD [OF get_recipient_ism_keeps [OF assms]])

lemma inbox_process_deliver_steps:
  assumes "inbox_process_deliver rt pid p pc vm = Inr vm'"
  obtains vdata vm1 vm2 vm3 count d hdata vm4 where
    "ism_encode (IsmVerify \<lparr>vi_metadata = ip_metadata p, vi_message = ip_message p\<rparr>) = Inr vdata"
    "invoke rt \<lparr>ix_program_id = pc_ism pc, ix_accounts = map meta_of (pc_ism_infos pc), ix_data = vdata\<rparr>
       (pc_ism_infos pc) vm = Inr vm1"
    "create_pda_account rt (pc_payer pc) (account_size processed_message_size
         (processed_message_new (ib_processed_count (pc_inbox pc)) (pc_message_id pc) (rt_slot rt))) pid
       (pc_system pc) (pc_processed pc)
       (processed_message_seeds (pc_message_id pc) @ [[pc_processed_bump pc]]) vm1 = Inr vm2"
    "store ser_processed_message
       (processed_message_new (ib_processed_count (pc_inbox pc)) (pc_message_id pc) (rt_slot rt))
       (pc_processed pc) False vm2 = Inr vm3"
    "unat count = Suc (unat (ib_processed_count (pc_inbox pc)))"
    "store_in_slice ser_inbox ((pc_inbox pc)\<lparr>ib_processed_count := count\<rparr>)
       (acc_data (vm_ledger vm3 (ai_key (pc_inbox_info pc)))) = Some d"
    "recipient_encode (Handle \<lparr>hi_origin = msg_origin (pc_message pc),
       hi_sender = msg_sender (pc_message pc), hi_message = msg_body (pc_message pc)\<rparr>) = Inr hdata"
    "invoke_signed rt
       \<lparr>ix_program_id = msg_recipient (pc_message pc),
        ix_accounts = \<lparr>am_pubkey = ai_key (pc_authority pc), am_is_signer = True,
                       am_is_writable = False\<rparr> # map meta_of (pc_recipient_infos pc),
        ix_data = hdata\<rparr>
       (pc_authority pc # pc_recipient_infos pc)
       [process_authority_seeds (msg_recipient (pc_message pc)) @ [[pc_authority_bump pc]]]
       (write_data (ai_key (pc_inbox_info pc)) d vm3) = Inr vm4"
    "invoke rt \<lparr>ix_program_id = rt_spl_noop_id rt, ix_accounts = [],
       ix_data = inbox_log (pc_message_id pc)\<rparr> [] vm4 = Inr vm'"
  using assms unfolding inbox_process_deliver_def Let_def
  by (auto simp: rbind_eq_Inr ok_or_eq_Inr checked_add_Inr
      simp del: ism_encode.simps recipient_encode.simps)

lemma inbox_process_deliver_marks:
  assumes sys: "system_program_ok rt" and cpi: "cpi_frame rt pid"
    and run: "inbox_process_deliver rt pid p pc vm = Inr vm'"
  shows "owned_data pid (ai_key (pc_processed pc)) (vm_ledger vm')"
  using run
proof (rule inbox_process_deliver_steps)
  fix vdata vm1 vm2 vm3 count d hdata vm4
  assume "create_pda_account rt (pc_payer pc) (account_size processed_message_size
         (processed_message_new (ib_processed_count (pc_inbox pc)) (pc_message_id pc) (rt_slot rt))) pid
       (pc_system pc) (pc_processed pc)
       (processed_message_seeds (pc_message_id pc) @ [[pc_processed_bump pc]]) vm1 = Inr vm2"
    "store ser_processed_message
       (processed_message_new (ib_processed_count (pc_inbox pc)) (pc_message_id pc) (rt_slot rt))
       (pc_processed pc) False vm2 = Inr vm3"
  then have own: "owned_data pid (ai_key (pc_processed pc)) (vm_ledger vm3)"
    by (rule create_store_owned [OF sys space_small(3)])
  assume "store_in_slice ser_inbox ((pc_inbox pc)\<lparr>ib_processed_count := count\<rparr>)
       (acc_data (vm_ledger vm3 (ai_key (pc_inbox_info pc)))) = Some d"
  then have "keeps pid vm3 (write_data (ai_key (pc_inbox_info pc)) d vm3)"
    by (rule store_in_slice_keeps)
  also assume "invoke_signed rt
       \<lparr>ix_program_id = msg_recipient (pc_message pc),
        ix_accounts = \<lparr>am_pubkey = ai_key (pc_authority pc), am_is_signer = True,
                       am_is_writable = False\<rparr> # map meta_of (pc_recipient_infos pc),
        ix_data = hdata\<rparr>
       (pc_authority pc # pc_recipient_infos pc)
       [process_authority_seeds (msg_recipient (pc_message pc)) @ [[pc_authority_bump pc]]]
       (write_data (ai_key (pc_inbox_info pc)) d vm3) = Inr vm4"
  note invoke_signed_keeps [OF cpi this]
  also assume "invoke rt \<lparr>ix_program_id = rt_spl_noop_id rt, ix_accounts = [],
       ix_data = inbox_log (pc_message_id pc)\<rparr> [] vm4 = Inr vm'"
  note invoke_keeps [OF cpi this]
  finally show ?thesis using own by (rule keepsD)
qed

text \<open>A CPI is refused when it names an account that is borrowed.\<close>

lemma invoke_signed_guard:
  assumes "invoke_signed rt ix infos seeds vm = Inr vm'" and "k \<in> set (vm_borrowed vm)"
    and "i \<in> set infos" and "meta_of i \<in> set (ix_accounts ix)"
  shows "ai_key i \<noteq> k"
proof -
  have "am_pubkey (meta_of i) = ai_key i" by (simp add: meta_of_def)
  then show ?thesis
    using assms unfolding invoke_signed_def require_eq_Inr list_all_iff by metis
qed

lemma inbox_process_parts:
  assumes "inbox_process kc rt pid accounts p vm = Inr vm'"
  obtains pc vm1 vm2 where
    "inbox_process_checks kc rt pid accounts p vm = Inr (pc, vm1)"
    "inbox_process_deliver rt pid p pc vm1 = Inr vm2"
    "vm' = vm2\<lparr>vm_borrowed := vm_borrowed vm\<rparr>"
  using assms by (auto simp: inbox_process_def rbind_eq_Inr)

lemma inbox_process_marks:
  assumes "system_program_ok rt" and "cpi_frame rt pid"
    and "inbox_process kc rt pid accounts p vm = Inr vm'"
  shows "\<exists>m. message_read_from (ip_message p) = Inr (m, []) \<and>
    \<not> processed rt pid (hyperlane_message_id kc m) vm \<and>
    processed rt pid (hyperlane_message_id kc m) vm'"
  using assms(3)
proof (rule inbox_process_parts)
  fix pc vm1 vm2
  assume c: "inbox_process_checks kc rt pid accounts p vm = Inr (pc, vm1)"
    and d: "inbox_process_deliver rt pid p pc vm1 = Inr vm2"
    and vm': "vm' = vm2\<lparr>vm_borrowed := vm_borrowed vm\<rparr>"
  show ?thesis
    using on_successD [OF inbox_process_checks_facts c] inbox_process_deliver_marks [OF assms(1,2) d]
    by (auto simp: processed_def owned_data_def vm')
qed

text \<open>
  What the recipient's answer means: no answer, an empty one and an encoded \<^verbatim>\<open>None\<close> stand for the default
  ISM, an encoded \<^verbatim>\<open>Some\<close> for the ISM it carries; an answer of another program means nothing.
\<close>

definition answers_ism :: "pubkey \<Rightarrow> pubkey \<Rightarrow> (pubkey \<times> bytes) option \<Rightarrow> pubkey \<Rightarrow> bool" where
  "answers_ism recipient default_ism answer ism \<longleftrightarrow>
     (case answer of
        None \<Rightarrow> ism = default_ism
      | Some (program, data) \<Rightarrow> program = recipient \<and>
          (data \<in> {[], ser_option ser_h256 None} \<and> ism = default_ism \<or> data = ser_option ser_h256 (Some ism)))"

lemma get_recipient_ism_steps:
  assumes "get_recipient_ism rt r infos (map meta_of infos) d vm = Inr (ism, vm')"
  shows "\<exists>data l answer. recipient_decode data = Inr InterchainSecurityModule \<and>
    invoke_signed rt \<lparr>ix_program_id = r, ix_accounts = map meta_of infos, ix_data = data\<rparr> infos [] vm = Inr vm' \<and>
    rt_invoke rt \<lparr>ix_program_id = r, ix_accounts = map meta_of infos, ix_data = data\<rparr> infos [] (vm_ledger vm) =
      Inr (l, answer) \<and>
    vm' = vm\<lparr>vm_ledger := l, vm_return_data := answer\<rparr> \<and> answers_ism r d answer ism"
proof -
  obtain data vm1 where data: "recipient_encode InterchainSecurityModule = Inr data"
    and inv: "invoke_signed rt \<lparr>ix_program_id = r, ix_accounts = map meta_of infos, ix_data = data\<rparr> infos [] vm = Inr vm1"
    using assms by (auto simp: get_recipient_ism_def result_simps invoke_def)
  obtain l answer where l: "rt_invoke rt \<lparr>ix_program_id = r, ix_accounts = map meta_of infos, ix_data = data\<rparr> infos []
      (vm_ledger vm) = Inr (l, answer)" and vm1: "vm1 = vm\<lparr>vm_ledger := l, vm_return_data := answer\<rparr>"
    using invoke_signed_Inr [OF inv] by blast
  have "vm' = vm1 \<and> answers_ism r d answer ism"
    using assms unfolding get_recipient_ism_def data rbind.simps invoke_def inv vm1
    by (auto simp: answers_ism_def result_simps try_from_rest_def borsh_pubkey_option.try_from_slice_iff
        split: option.splits if_splits) (metis option.exhaust)
  then show ?thesis using recipient_codec.decode_encode [OF data] inv l vm1 by blast
qed

lemma accounts_until_Inr:
  "accounts_until k xs = Inr (before, rest) \<Longrightarrow> xs = before @ rest \<and> rest \<noteq> [] \<and> ai_key (hd rest) = k"
  by (induction k xs arbitrary: before rest rule: accounts_until.induct) (auto simp: result_simps split: if_splits)

lemma inbox_process_checks_layout:
  "on_success (inbox_process_checks kc rt pid accounts p vm) (\<lambda>(pc, vm').
     \<exists>get_infos noop ism_info recipient_info.
       accounts = [pc_payer pc, pc_system pc, pc_inbox_info pc, pc_authority pc, pc_processed pc] @
         get_infos @ [noop, ism_info] @ pc_ism_infos pc @ [recipient_info] @ pc_recipient_infos pc \<and>
       ai_key ism_info = pc_ism pc \<and>
       inbox_fetch_refmut rt pid (pc_inbox_info pc) vm =
         Inr (pc_inbox pc, vm\<lparr>vm_borrowed := ai_key (pc_inbox_info pc) # vm_borrowed vm\<rparr>) \<and>
       get_recipient_ism rt (msg_recipient (pc_message pc)) get_infos (map meta_of get_infos)
         (ib_default_ism (pc_inbox pc)) (vm\<lparr>vm_borrowed := ai_key (pc_inbox_info pc) # vm_borrowed vm\<rparr>) =
         Inr (pc_ism pc, vm'))"
  unfolding inbox_process_checks_def
  apply (intro success_intros)
  apply (auto simp: inbox_fetch_refmut_def result_simps
      dest!: accounts_until_Inr split: sum.splits failure.splits)
  done

lemma inbox_process_deliver_calls:
  assumes d: "inbox_process_deliver rt pid p pc vm = Inr vm'"
    and guard: "ai_key (pc_inbox_info pc) \<in> set (vm_borrowed vm)"
  obtains vdata l1 rd hdata l2 r2 where
    "ism_decode vdata = Inr (IsmVerify \<lparr>vi_metadata = ip_metadata p, vi_message = ip_message p\<rparr>)"
    "rt_invoke rt \<lparr>ix_program_id = pc_ism pc, ix_accounts = map meta_of (pc_ism_infos pc), ix_data = vdata\<rparr>
      (pc_ism_infos pc) [] (vm_ledger vm) = Inr (l1, rd)"
    "recipient_decode hdata = Inr (Handle \<lparr>hi_origin = msg_origin (pc_message pc),
       hi_sender = msg_sender (pc_message pc), hi_message = msg_body (pc_message pc)\<rparr>)"
    "rt_invoke rt \<lparr>ix_program_id = msg_recipient (pc_message pc),
        ix_accounts = \<lparr>am_pubkey = ai_key (pc_authority pc), am_is_signer = True, am_is_writable = False\<rparr> #
          map meta_of (pc_recipient_infos pc), ix_data = hdata\<rparr> (pc_authority pc # pc_recipient_infos pc)
       [process_authority_seeds (msg_recipient (pc_message pc)) @ [[pc_authority_bump pc]]] l2 = Inr r2"
    "ai_key (pc_inbox_info pc) \<notin> ai_key ` set (pc_ism_infos pc @ pc_recipient_infos pc)"
proof (rule inbox_process_deliver_steps [OF d])
  fix vdata vm3 vm4 vm5 count bs hdata vm6
  assume enc: "ism_encode (IsmVerify \<lparr>vi_metadata = ip_metadata p, vi_message = ip_message p\<rparr>) = Inr vdata"
    and verify: "invoke rt \<lparr>ix_program_id = pc_ism pc, ix_accounts = map meta_of (pc_ism_infos pc), ix_data = vdata\<rparr>
      (pc_ism_infos pc) vm = Inr vm3"
    and create: "create_pda_account rt (pc_payer pc) (account_size processed_message_size
         (processed_message_new (ib_processed_count (pc_inbox pc)) (pc_message_id pc) (rt_slot rt))) pid
       (pc_system pc) (pc_processed pc)
       (processed_message_seeds (pc_message_id pc) @ [[pc_processed_bump pc]]) vm3 = Inr vm4"
    and store: "store ser_processed_message
       (processed_message_new (ib_processed_count (pc_inbox pc)) (pc_message_id pc) (rt_slot rt))
       (pc_processed pc) False vm4 = Inr vm5"
    and henc: "recipient_encode (Handle \<lparr>hi_origin = msg_origin (pc_message pc),
       hi_sender = msg_sender (pc_message pc), hi_message = msg_body (pc_message pc)\<rparr>) = Inr hdata"
    and handle: "invoke_signed rt
       \<lparr>ix_program_id = msg_recipient (pc_message pc),
        ix_accounts = \<lparr>am_pubkey = ai_key (pc_authority pc), am_is_signer = True,
                       am_is_writable = False\<rparr> # map meta_of (pc_recipient_infos pc),
        ix_data = hdata\<rparr>
       (pc_authority pc # pc_recipient_infos pc)
       [process_authority_seeds (msg_recipient (pc_message pc)) @ [[pc_authority_bump pc]]]
       (write_data (ai_key (pc_inbox_info pc)) bs vm5) = Inr vm6"
  have guard5: "ai_key (pc_inbox_info pc) \<in> set (vm_borrowed (write_data (ai_key (pc_inbox_info pc)) bs vm5))"
    using guard invoke_borrowed(2) [OF verify] create_pda_account_borrowed [OF create]
      store_borrowed [OF store] by simp
  have "ai_key i \<noteq> ai_key (pc_inbox_info pc)" if "i \<in> set (pc_ism_infos pc @ pc_recipient_infos pc)" for i
    using that invoke_signed_guard [OF verify [unfolded invoke_def] guard, of i]
      invoke_signed_guard [OF handle guard5, of i] by auto
  then have "ai_key (pc_inbox_info pc) \<notin> ai_key ` set (pc_ism_infos pc @ pc_recipient_infos pc)"
    by (metis imageE)
  then show thesis
    using that [OF ism_codec.decode_encode [OF enc] _ recipient_codec.decode_encode [OF henc]]
      invoke_signed_Inr [OF verify [unfolded invoke_def]] invoke_signed_Inr [OF handle] by blast
qed

section \<open>Runs of the mailbox\<close>

text \<open>
  The message an instruction delivers, and the runs of the mailbox: successful mailbox instructions
  interleaved with other transactions, which cannot change the data of accounts the mailbox owns.
  The second argument collects the ids of the delivered messages.
\<close>

definition delivered :: "keccak \<Rightarrow> bytes \<Rightarrow> h256 list" where
  "delivered kc data =
     (case mailbox_from_instruction_data data of
        Inr (InboxProcess p) \<Rightarrow>
          (case message_read_from (ip_message p) of
             Inr (m, _) \<Rightarrow> [hyperlane_message_id kc m] | Inl _ \<Rightarrow> [])
      | _ \<Rightarrow> [])"

inductive mailbox_run ::
  "keccak \<Rightarrow> runtime \<Rightarrow> pubkey \<Rightarrow> vm \<Rightarrow> h256 list \<Rightarrow> vm \<Rightarrow> bool"
  for kc :: keccak and rt :: runtime and pid :: pubkey and vm0 :: vm where
  start: "mailbox_run kc rt pid vm0 [] vm0"
| instr: "mailbox_run kc rt pid vm0 ids vm \<Longrightarrow>
    mailbox_process_instruction kc rt pid accounts data vm = Inr vm' \<Longrightarrow>
    mailbox_run kc rt pid vm0 (ids @ delivered kc data) vm'"
| other: "mailbox_run kc rt pid vm0 ids vm \<Longrightarrow> keeps pid vm vm' \<Longrightarrow>
    mailbox_run kc rt pid vm0 ids vm'"

lemma delivered_process:
  assumes sys: "system_program_ok rt" and cpi: "cpi_frame rt pid"
    and run: "mailbox_process_instruction kc rt pid accounts data vm = Inr vm'"
    and "mid \<in> set (delivered kc data)"
  shows "delivered kc data = [mid] \<and> \<not> processed rt pid mid vm \<and> processed rt pid mid vm'"
proof -
  obtain p where p: "mailbox_from_instruction_data data = Inr (InboxProcess p)"
    using assms(4)
    by (cases "mailbox_from_instruction_data data")
       (auto simp: delivered_def split: mailbox_instruction.splits)
  then have "inbox_process kc rt pid accounts p vm = Inr vm'"
    using run by (simp add: mailbox_process_instruction_def)
  from inbox_process_marks [OF sys cpi this] show ?thesis
    using assms(4) by (auto simp: delivered_def p)
qed

lemma mailbox_run_processed:
  assumes sys: "system_program_ok rt" and pid: "pid \<noteq> SYSTEM_PROGRAM_ID" and cpi: "cpi_frame rt pid"
  shows "mailbox_run kc rt pid vm0 ids vm \<Longrightarrow>
    distinct ids \<and> (\<forall>mid \<in> set ids. processed rt pid mid vm)"
proof (induction rule: mailbox_run.induct)
  case start
  then show ?case by simp
next
  case (instr ids vm accounts data vm')
  have keep: "keeps pid vm vm'"
    by (rule mailbox_process_instruction_keeps [OF sys pid cpi instr.hyps(2)])
  note once = delivered_process [OF sys cpi instr.hyps(2)]
  show ?case
  proof (cases "delivered kc data")
    case Nil
    then show ?thesis using instr.IH keep by (auto simp: processed_def intro: keepsD)
  next
    case (Cons mid rest)
    then have d: "delivered kc data = [mid]" and fresh: "\<not> processed rt pid mid vm"
      and now: "processed rt pid mid vm'" using once [of mid] by auto
    show ?thesis
      using instr.IH keep fresh now unfolding d by (auto simp: processed_def intro: keepsD)
  qed
next
  case (other ids vm vm')
  then show ?case by (auto simp: processed_def intro: keepsD)
qed

section \<open>Dispatching\<close>

text \<open>The message a dispatch instruction sends from an outbox with \<open>n\<close> messages.\<close>

definition dispatch_message :: "outbox \<Rightarrow> nat \<Rightarrow> outbox_dispatch_ix \<Rightarrow> hyperlane_message" where
  "dispatch_message x n d =
     \<lparr>msg_version = VERSION, msg_nonce = word_of_nat n, msg_origin = ob_local_domain x,
      msg_sender = od_sender d, msg_destination = od_destination_domain d,
      msg_recipient = od_recipient d, msg_body = od_message_body d\<rparr>"

definition dispatched_key :: "runtime \<Rightarrow> pubkey \<Rightarrow> pubkey \<Rightarrow> pubkey" where
  "dispatched_key rt pid unique = fst (rt_find_program_address rt (dispatched_message_seeds unique) pid)"

lemma count_u32_represents:
  assumes "represents kc t ids"
  shows "count_u32 t = Inr (word_of_nat (length ids))"
proof -
  have "unat (im_count t) = length ids" "length ids < 2 ^ 32"
    using assms by (simp_all add: represents_def TREE_DEPTH_def)
  moreover from this have "ucast (im_count t) = (word_of_nat (length ids) :: u32)"
    by (metis of_nat_unat)
  ultimately show ?thesis by (simp add: count_u32_def word_le_nat_alt)
qed

lemma outbox_dispatch_steps:
  assumes "outbox_dispatch kc rt pid (outbox_info # accounts) d vm = Inr vm'"
    and "outbox_fetch rt pid outbox_info vm = Inr x" and rep: "represents kc (ob_tree x) ids"
  obtains sender sys noop payer unique disp bump tree vm1 vm2 vm3 vm4 where
    "accounts = [sender, sys, noop, payer, unique, disp]"
    "ai_is_signer sender \<and> (ai_key sender = od_sender d \<or>
       fst (rt_find_program_address rt dispatch_authority_seeds (od_sender d)) = ai_key sender)"
    "ai_key disp = dispatched_key rt pid (ai_key unique)"
    "acc_data (vm_ledger vm (ai_key disp)) = []"
    "length (od_message_body d) \<le> MAX_MESSAGE_BODY_BYTES"
    "ingest kc (hyperlane_message_id kc (dispatch_message x (length ids) d)) (ob_tree x) = Some tree"
    "create_pda_account rt payer (account_size dispatched_message_size
        (dispatched_message_new (word_of_nat (length ids)) (rt_slot rt) (ai_key unique)
           (to_vec message_write_to (dispatch_message x (length ids) d)))) pid sys disp
        (dispatched_message_seeds (ai_key unique) @ [[bump]]) vm = Inr vm1"
    "store ser_dispatched_message
        (dispatched_message_new (word_of_nat (length ids)) (rt_slot rt) (ai_key unique)
           (to_vec message_write_to (dispatch_message x (length ids) d))) disp False vm1 = Inr vm2"
    "invoke_signed rt \<lparr>ix_program_id = ai_key noop, ix_accounts = [],
        ix_data = acc_data (vm_ledger vm2 (ai_key disp))\<rparr> [] [] vm2 = Inr vm3"
    "store ser_outbox (x\<lparr>ob_tree := tree\<rparr>) outbox_info True vm3 = Inr vm4"
    "vm' = set_return_data pid (h256_bytes (hyperlane_message_id kc (dispatch_message x (length ids) d))) vm4"
proof -
  have "on_success (outbox_dispatch kc rt pid (outbox_info # accounts) d vm) (\<lambda>v. v = vm' \<longrightarrow> thesis)"
    unfolding outbox_dispatch_def invoke_def
    by (intro success_intros)
       (clarsimp simp: result_simps count_u32_represents [OF rep] assms(2), rule that,
        auto simp: dispatch_message_def dispatched_key_def)
  then show thesis using assms(1) by (simp add: on_success_def)
qed

lemma represents_tree_valid: "represents kc t ids \<Longrightarrow> tree_valid t"
  by (simp add: represents_def tree_valid_def)

lemma dispatch_message_size:
  assumes "length (od_message_body d) \<le> MAX_MESSAGE_BODY_BYTES"
  shows "account_size dispatched_message_size
    (dispatched_message_new n slot k (to_vec message_write_to (dispatch_message x c d))) < 2 ^ 64"
  using assms dispatched_space_small [of "od_message_body d"] by (simp add: dispatch_message_def)

lemma ingest_Some_represents:
  assumes "represents kc t ids" and "ingest kc mid t = Some t'"
  shows "represents kc t' (ids @ [mid])"
proof -
  have "Suc (length ids) < 2 ^ TREE_DEPTH"
    using assms ingest_full [OF assms(1), of mid] by (cases "Suc (length ids) = 2 ^ TREE_DEPTH")
      (auto simp: represents_def)
  then show ?thesis using ingest_represents [OF assms(1), of mid] assms(2) by auto
qed

text \<open>The messages a mailbox has dispatched: what its outbox account says.\<close>

definition outbox_repr :: "keccak \<Rightarrow> pubkey \<Rightarrow> outbox \<Rightarrow> h256 list \<Rightarrow> vm \<Rightarrow> bool" where
  "outbox_repr kc k x ids vm \<longleftrightarrow>
     holds ser_outbox x k (vm_ledger vm) \<and> represents kc (ob_tree x) ids"

lemma outbox_repr_fetch:
  assumes "outbox_repr kc (ai_key i) x ids vm" and "outbox_fetch rt pid i vm = Inr y"
  shows "y = x \<and> acc_owner (vm_ledger vm (ai_key i)) = pid"
  using assms outbox_fetch_holds [of x "ai_key i" vm i rt pid y] represents_tree_valid
  by (auto simp: outbox_repr_def)

section \<open>A sample run\<close>

text \<open>
  A mailbox with an inbox, and an account list that processes one message for program 99, for the
  witnesses.
\<close>

definition sample_pid :: pubkey where
  "sample_pid = 1000"

definition sample_message :: hyperlane_message where
  "sample_message =
     \<lparr>msg_version = 3, msg_nonce = 0, msg_origin = 5, msg_sender = 6, msg_destination = 7,
      msg_recipient = 99, msg_body = [1]\<rparr>"

definition sample_inbox :: inbox where
  "sample_inbox =
     \<lparr>ib_local_domain = 7, ib_bump_seed = 255, ib_default_ism = 55, ib_processed_count = 0\<rparr>"

definition sample_inbox_key :: pubkey where
  "sample_inbox_key = 0x68797065726c616e652d696e626f79"

definition sample_outbox :: outbox where
  "sample_outbox =
     \<lparr>ob_local_domain = 7, ob_bump_seed = 255, ob_owner = Some 1, ob_tree = im_default\<rparr>"

definition sample_outbox_key :: pubkey where
  "sample_outbox_key = 0x68797065726c616e652d6f7574626f79"

definition sample_vm :: vm where
  "sample_vm = initial_vm ((\<lambda>_. empty_account)
     (1 := funded_account 100000,
      sample_inbox_key := data_account sample_pid (ser_bool True @ ser_inbox sample_inbox),
      sample_outbox_key := data_account sample_pid (ser_bool True @ ser_outbox sample_outbox)))"

definition sample_accounts :: "account_info list" where
  "sample_accounts =
     [signer_account 1, program_account 0, signer_account sample_inbox_key, signer_account 100,
      signer_account 43, program_account 11, program_account 55, program_account 99]"

definition sample_process :: inbox_process_ix where
  "sample_process = \<lparr>ip_metadata = [], ip_message = to_vec message_write_to sample_message\<rparr>"

lemma sample_address:
  "sim_key inbox_seeds pid = sample_inbox_key" "sim_key outbox_seeds pid = sample_outbox_key"
  by (simp_all add: sim_key_def inbox_seeds_def outbox_seeds_def str_bytes_def from_be_bytes_def
      from_le_bytes_def sample_inbox_key_def sample_outbox_key_def)

lemma sample_keys:
  "sample_inbox_key \<noteq> sample_outbox_key" "sample_outbox_key \<noteq> sample_inbox_key"
  "sample_inbox_key \<noteq> 1" "sample_outbox_key \<noteq> 1" "1 \<noteq> sample_inbox_key" "1 \<noteq> sample_outbox_key"
  by (simp_all add: sample_inbox_key_def sample_outbox_key_def)

lemma sim_key_message:
  "sim_key (process_authority_seeds k) pid = k + 1"
  "sim_key (processed_message_seeds mid) pid = mid + 1"
  "sim_key (dispatched_message_seeds k) pid = k + 1"
  using sim_key_last [of "[str_bytes ''hyperlane'', str_bytes ''-'', str_bytes ''process_authority'', str_bytes ''-'']"]
    sim_key_last [of "[str_bytes ''hyperlane'', str_bytes ''-'', str_bytes ''processed_message'', str_bytes ''-'']"]
    sim_key_last [of "[str_bytes ''hyperlane'', str_bytes ''-'', str_bytes ''dispatched_message'', str_bytes ''-'']"]
  by (simp_all add: process_authority_seeds_def processed_message_seeds_def dispatched_message_seeds_def)

lemma sample_read: "message_read_from (ip_message sample_process) = Inr (sample_message, [])"
  by (simp add: sample_process_def message_enc.read_complete)

lemma sample_fetch: "inbox_fetch_refmut sim_runtime sample_pid (signer_account sample_inbox_key) sample_vm =
   Inr (sample_inbox, sample_vm\<lparr>vm_borrowed := [sample_inbox_key]\<rparr>)"
proof -
  have h: "holds ser_inbox sample_inbox sample_inbox_key (vm_ledger sample_vm)"
    by (simp add: holds_def sample_vm_def sim_simps sample_keys)
  have "inbox_verify sim_runtime sample_pid (signer_account sample_inbox_key) sample_vm
      (acc_data (vm_ledger sample_vm sample_inbox_key)) = Inr sample_inbox"
    using inbox_verify_holds [OF h, of "signer_account sample_inbox_key" sim_runtime sample_pid sample_inbox]
    by (simp add: sim_simps sample_vm_def sample_inbox_def sample_address)
  then show ?thesis
    by (simp add: inbox_fetch_refmut_def try_borrow_mut_data_def) (simp add: sample_vm_def sim_simps)
qed

definition sample_context :: process_context where
  "sample_context =
     \<lparr>pc_message = sample_message, pc_message_id = 42, pc_inbox = sample_inbox, pc_payer = signer_account 1,
      pc_system = program_account 0, pc_inbox_info = signer_account sample_inbox_key,
      pc_authority = signer_account 100, pc_authority_bump = 255, pc_processed = signer_account 43,
      pc_processed_bump = 255, pc_ism = 55, pc_ism_infos = [], pc_recipient_infos = []\<rparr>"

lemma sample_checks:
  "inbox_process_checks (\<lambda>_. 42) sim_runtime sample_pid sample_accounts sample_process sample_vm =
   Inr (sample_context, sample_vm\<lparr>vm_borrowed := [sample_inbox_key]\<rparr>)"
  unfolding inbox_process_checks_def sample_read
  by (simp add: sample_accounts_def sample_fetch Let_def)
     (simp add: sample_message_def VERSION_def sim_simps hyperlane_message_id_def sim_key_message
        sample_inbox_def verify_account_uninitialized_def borrow_data_def owner_of_def sample_vm_def
        sample_inbox_key_def sample_outbox_key_def get_recipient_ism_def invoke_def invoke_signed_def sample_context_def)

lemma sample_deliver:
  "\<exists>vm'. inbox_process_deliver sim_runtime sample_pid sample_process sample_context
     (sample_vm\<lparr>vm_borrowed := [sample_inbox_key]\<rparr>) = Inr vm'"
proof -
  let ?vm = "sample_vm\<lparr>vm_borrowed := [sample_inbox_key], vm_return_data := None\<rparr>"
  let ?size = "account_size processed_message_size (processed_message_new 0 42 7)"
  have ism: "\<exists>d. ism_encode (IsmVerify \<lparr>vi_metadata = ip_metadata sample_process,
      vi_message = ip_message sample_process\<rparr>) = Inr d"
    by (simp add: try_to_vec_def verify_valid_def sample_process_def to_vec_def message_write_to_def
        sample_message_def)
  have handle: "\<exists>d. recipient_encode (Handle \<lparr>hi_origin = 5, hi_sender = 6, hi_message = [1]\<rparr>) = Inr d"
    by (simp add: try_to_vec_def handle_valid_def)
  obtain n' where create: "create_pda_account sim_runtime (signer_account 1) ?size sample_pid
      (program_account 0) (signer_account 43) (processed_message_seeds 42 @ [[255]]) ?vm =
    Inr (?vm\<lparr>vm_ledger := (vm_ledger ?vm)
         (1 := (vm_ledger ?vm 1)\<lparr>acc_lamports := 100000 - word_of_nat ?size\<rparr>,
          43 := \<lparr>acc_lamports = n', acc_data = replicate ?size 0, acc_owner = sample_pid\<rparr>),
        vm_return_data := None\<rparr>)"
    using sim_create_pda [of ?vm "signer_account 43" "signer_account 1" 100000 ?size sample_pid
        "program_account 0" "processed_message_seeds 42 @ [[255]]"]
    by (auto simp: sample_vm_def sim_simps sample_inbox_key_def sample_outbox_key_def account_size_def
        processed_message_size_def)
  show ?thesis
    using ism handle create
    unfolding inbox_process_deliver_def Let_def
    by (clarsimp simp: sample_context_def sample_message_def sample_inbox_def invoke_def
        simp del: ism_encode.simps recipient_encode.simps)
       (simp add: store_ok sim_simps account_size_def processed_message_size_def sample_vm_def
          sample_inbox_key_def sample_outbox_key_def length_ser_processed_message processed_message_new_def checked_add_def
          store_in_slice_def Let_def length_ser_inbox inbox_size_def invoke_signed_def invoke_def)
qed

lemma sample_run:
  "\<exists>vm'. inbox_process (\<lambda>_. 42) sim_runtime sample_pid sample_accounts sample_process sample_vm = Inr vm'"
  using sample_deliver by (auto simp: inbox_process_def sample_checks)

definition sample_dispatch :: outbox_dispatch_ix where
  "sample_dispatch =
     \<lparr>od_sender = 6, od_destination_domain = 8, od_recipient = 9, od_message_body = [1, 2]\<rparr>"

definition sample_dispatch_accounts :: "account_info list" where
  "sample_dispatch_accounts =
     [signer_account 6, program_account 0, program_account 11, signer_account 1, signer_account 200,
      signer_account 201]"

lemma sample_outbox_repr: "outbox_repr kc sample_outbox_key sample_outbox [] sample_vm"
  by (simp add: outbox_repr_def holds_def sample_vm_def sim_simps sample_keys sample_outbox_def
      represents_default)

lemma sample_outbox_fetch:
  "outbox_fetch sim_runtime sample_pid (signer_account sample_outbox_key) sample_vm = Inr sample_outbox"
proof -
  have "tree_valid (ob_tree sample_outbox)"
    using represents_tree_valid [OF represents_default] by (simp add: sample_outbox_def)
  then show ?thesis
    using outbox_fetch_holds [of sample_outbox sample_outbox_key sample_vm "signer_account sample_outbox_key"
        sim_runtime sample_pid sample_outbox] sample_outbox_repr
    by (simp add: outbox_repr_def sim_simps sample_vm_def sample_outbox_def sample_address)
qed

lemma sample_dispatch_run:
  "\<exists>vm'. outbox_dispatch (\<lambda>_. 42) sim_runtime sample_pid
     (signer_account sample_outbox_key # sample_dispatch_accounts) sample_dispatch sample_vm = Inr vm'"
proof -
  let ?m = "dispatch_message sample_outbox 0 sample_dispatch"
  let ?dm = "dispatched_message_new 0 7 200 (to_vec message_write_to ?m)"
  let ?size = "account_size dispatched_message_size ?dm"
  have size: "?size = 132"
    by (simp add: account_size_def dispatched_message_size_def dispatched_message_new_def to_vec_def
        message_write_to_def dispatch_message_def sample_dispatch_def)
  obtain tree where ing: "ingest (\<lambda>_. 42) 42 im_default = Some tree" and rep: "represents (\<lambda>_. 42) tree ([] @ [42])"
    using ingest_represents [OF represents_default, of "\<lambda>_. 42" 42] by (auto simp: TREE_DEPTH_def)
  have lens: "length (ser_outbox (sample_outbox\<lparr>ob_tree := tree\<rparr>)) = length (ser_outbox sample_outbox)"
    using represents_tree_valid [OF rep] represents_tree_valid [OF represents_default]
    by (simp add: length_ser_outbox sample_outbox_def outbox_size_def)
  obtain vm1 where create: "create_pda_account sim_runtime (signer_account 1) ?size sample_pid
      (program_account 0) (signer_account 201) (dispatched_message_seeds 200 @ [[255]]) sample_vm = Inr vm1"
    using sim_create_pda [of sample_vm "signer_account 201" "signer_account 1" 100000 ?size sample_pid
        "program_account 0" "dispatched_message_seeds 200 @ [[255]]"]
    by (auto simp: sample_vm_def sim_simps sample_inbox_key_def sample_outbox_key_def size)
  have c: "only_changes 201 sample_vm vm1" "acc_data (vm_ledger vm1 201) = replicate 132 0"
    using create_pda_account_Inr [OF sim_system_ok create] by (simp_all add: size)
  have bal: "length (ser_dispatched_message ?dm) = 131"
    using size by (simp add: length_ser_dispatched_message account_size_def)
  obtain vm2 where store1: "store ser_dispatched_message ?dm (signer_account 201) False vm1 = Inr vm2"
    using store_ok [of "signer_account 201" vm1 ser_dispatched_message ?dm False] c bal
    by (simp add: only_changes_def sample_vm_def initial_vm_def)
  have "only_changes 201 sample_vm vm2"
    using store_holds [OF store1] c(1) only_changes_trans by simp
  then have v2: "vm_borrowed vm2 = []"
    "acc_data (vm_ledger vm2 sample_outbox_key) = ser_bool True @ ser_outbox sample_outbox"
    by (auto simp: only_changes_def same_data_def sample_vm_def sim_simps sample_outbox_key_def)
  obtain vm3 where store2: "store ser_outbox (sample_outbox\<lparr>ob_tree := tree\<rparr>) (signer_account sample_outbox_key) True
      (vm2\<lparr>vm_return_data := None\<rparr>) = Inr vm3"
    using store_ok [of "signer_account sample_outbox_key" "vm2\<lparr>vm_return_data := None\<rparr>" ser_outbox "sample_outbox\<lparr>ob_tree := tree\<rparr>" True] v2 lens
    by simp
  have cnt: "count_u32 (ob_tree sample_outbox) = Inr 0"
    using count_u32_represents [OF represents_default] by (simp add: sample_outbox_def)
  have uninit: "verify_account_uninitialized (signer_account 201) sample_vm = Inr ()"
    by (simp add: verify_account_uninitialized_def borrow_data_def owner_of_def sample_vm_def sim_simps
        sample_inbox_key_def sample_outbox_key_def)
  show ?thesis
    using create [unfolded dispatch_message_def] store1 [unfolded dispatch_message_def] v2 store2
    unfolding outbox_dispatch_def sample_dispatch_accounts_def
    by (simp add: sample_outbox_fetch cnt SYSTEM_PROGRAM_ID_def sim_key_message uninit Let_def
        hyperlane_message_id_def invoke_def borrow_data_def)
       (simp add: sample_outbox_def sample_dispatch_def MAX_MESSAGE_BODY_BYTES_def ing)
qed
section \<open>Initialization\<close>

lemma mailbox_initialize_steps:
  assumes "mailbox_initialize rt pid accounts init vm = Inr vm'"
  obtains sp payer inb outb rest ib ob vm1 vm2 vm3 where
    "accounts = sp # payer # inb # outb # rest" "ai_is_signer payer"
    "ai_key inb = fst (rt_find_program_address rt inbox_seeds pid)"
    "ai_key outb = fst (rt_find_program_address rt outbox_seeds pid)"
    "acc_data (vm_ledger vm (ai_key inb)) = []"
    "create_pda_account rt payer (account_size inbox_size
        \<lparr>ib_local_domain = mi_local_domain init, ib_bump_seed = ib,
         ib_default_ism = mi_default_ism init, ib_processed_count = 0\<rparr>) pid sp inb
        (inbox_seeds @ [[ib]]) vm = Inr vm1"
    "store ser_inbox \<lparr>ib_local_domain = mi_local_domain init, ib_bump_seed = ib,
         ib_default_ism = mi_default_ism init, ib_processed_count = 0\<rparr> inb False vm1 = Inr vm2"
    "acc_data (vm_ledger vm2 (ai_key outb)) = []"
    "create_pda_account rt payer (account_size outbox_size
        \<lparr>ob_local_domain = mi_local_domain init, ob_bump_seed = ob,
         ob_owner = Some (ai_key payer), ob_tree = im_default\<rparr>) pid sp outb
        (outbox_seeds @ [[ob]]) vm2 = Inr vm3"
    "store ser_outbox \<lparr>ob_local_domain = mi_local_domain init, ob_bump_seed = ob,
         ob_owner = Some (ai_key payer), ob_tree = im_default\<rparr> outb False vm3 = Inr vm'"
proof -
  have "on_success (mailbox_initialize rt pid accounts init vm) (\<lambda>v. v = vm' \<longrightarrow> thesis)"
    unfolding mailbox_initialize_def
    by (intro success_intros on_successI) (clarsimp simp: result_simps, rule that, auto)
  then show thesis using assms by (simp add: on_success_def)
qed

lemma mailbox_initialize_holds:
  assumes sys: "system_program_ok rt"
    and run: "mailbox_initialize rt pid accounts init vm = Inr vm'"
  shows "\<exists>payer inbox_bump outbox_bump.
    payer \<in> set accounts \<and> ai_is_signer payer \<and>
    holds ser_inbox \<lparr>ib_local_domain = mi_local_domain init, ib_bump_seed = inbox_bump,
        ib_default_ism = mi_default_ism init, ib_processed_count = 0\<rparr>
      (fst (rt_find_program_address rt inbox_seeds pid)) (vm_ledger vm') \<and>
    outbox_repr kc (fst (rt_find_program_address rt outbox_seeds pid))
      \<lparr>ob_local_domain = mi_local_domain init, ob_bump_seed = outbox_bump,
       ob_owner = Some (ai_key payer), ob_tree = im_default\<rparr> [] vm'"
  using run
proof (rule mailbox_initialize_steps)
  fix sp payer inb outb :: account_info and rest ib ob and vm1 vm2 vm3 :: vm
  let ?i = "\<lparr>ib_local_domain = mi_local_domain init, ib_bump_seed = ib,
         ib_default_ism = mi_default_ism init, ib_processed_count = 0\<rparr>"
  let ?o = "\<lparr>ob_local_domain = mi_local_domain init, ob_bump_seed = ob,
         ob_owner = Some (ai_key payer), ob_tree = im_default\<rparr>"
  assume acc: "accounts = sp # payer # inb # outb # rest" "ai_is_signer payer"
    and keys: "ai_key inb = fst (rt_find_program_address rt inbox_seeds pid)"
      "ai_key outb = fst (rt_find_program_address rt outbox_seeds pid)"
    and s1: "store ser_inbox ?i inb False vm1 = Inr vm2"
    and e: "acc_data (vm_ledger vm2 (ai_key outb)) = []"
    and c: "create_pda_account rt payer (account_size outbox_size ?o) pid sp outb
        (outbox_seeds @ [[ob]]) vm2 = Inr vm3"
    and s2: "store ser_outbox ?o outb False vm3 = Inr vm'"
  have h: "holds ser_inbox ?i (ai_key inb) (vm_ledger vm2)" using store_holds [OF s1] by simp
  then have ne: "ai_key inb \<noteq> ai_key outb" using e holds_nonempty by metis
  have "only_changes (ai_key outb) vm2 vm'"
    using create_pda_account_Inr [OF sys c space_small(2)] store_holds [OF s2] only_changes_trans by blast
  then have "same_data (vm_ledger vm2) (vm_ledger vm') (ai_key inb)"
    using ne by (simp add: only_changes_def)
  then have "holds ser_inbox ?i (ai_key inb) (vm_ledger vm')" by (rule holds_same_data [OF h])
  moreover have "outbox_repr kc (ai_key outb) ?o [] vm'"
    using store_holds [OF s2] by (simp add: outbox_repr_def represents_default)
  ultimately show ?thesis unfolding keys acc(1) using acc(2) by fastforce
qed

lemma mailbox_initialize_empty:
  assumes "mailbox_initialize rt pid accounts init vm = Inr vm'"
  shows "acc_data (vm_ledger vm (fst (rt_find_program_address rt inbox_seeds pid))) = []"
  using assms by (rule mailbox_initialize_steps) simp

text \<open>An empty ledger with a payer.\<close>

definition fresh_vm :: vm where
  "fresh_vm = initial_vm ((\<lambda>_. empty_account)(1 := funded_account 100000))"

definition init_accounts :: "account_info list" where
  "init_accounts =
     [program_account 0, signer_account 1, signer_account sample_inbox_key, signer_account sample_outbox_key]"

lemma sample_initialize:
  "\<exists>vm'. mailbox_initialize sim_runtime sample_pid init_accounts
     \<lparr>mi_local_domain = 7, mi_default_ism = 55\<rparr> fresh_vm = Inr vm'"
proof -
  let ?i = "\<lparr>ib_local_domain = 7, ib_bump_seed = 255, ib_default_ism = 55, ib_processed_count = 0\<rparr> :: inbox"
  let ?o = "\<lparr>ob_local_domain = 7, ob_bump_seed = 255, ob_owner = Some 1, ob_tree = im_default\<rparr> :: outbox"
  let ?is = "account_size inbox_size ?i" and ?os = "account_size outbox_size ?o"
  have valid: "tree_valid (ob_tree ?o)"
    using represents_tree_valid [OF represents_default] by simp
  obtain n1 where c1: "create_pda_account sim_runtime (signer_account 1) ?is sample_pid (program_account 0)
      (signer_account sample_inbox_key) (inbox_seeds @ [[255]]) fresh_vm =
    Inr (fresh_vm\<lparr>vm_ledger := (vm_ledger fresh_vm)
         (1 := (vm_ledger fresh_vm 1)\<lparr>acc_lamports := 100000 - word_of_nat ?is\<rparr>,
          sample_inbox_key := \<lparr>acc_lamports = n1, acc_data = replicate ?is 0, acc_owner = sample_pid\<rparr>),
        vm_return_data := None\<rparr>)" (is "_ = Inr ?vm1")
    using sim_create_pda [of fresh_vm "signer_account sample_inbox_key" "signer_account 1" 100000 ?is sample_pid
        "program_account 0" "inbox_seeds @ [[255]]"]
    by (auto simp: fresh_vm_def sim_simps sample_keys account_size_def inbox_size_def)
  have s1: "store ser_inbox ?i (signer_account sample_inbox_key) False ?vm1 =
      Inr (write_data sample_inbox_key (ser_bool True @ ser_inbox ?i) ?vm1)" (is "_ = Inr ?vm2")
    using store_ok [of "signer_account sample_inbox_key" ?vm1 ser_inbox ?i False]
    by (simp add: fresh_vm_def sim_simps length_ser_inbox account_size_def inbox_size_def)
  obtain n2 where c2: "create_pda_account sim_runtime (signer_account 1) ?os sample_pid (program_account 0)
      (signer_account sample_outbox_key) (outbox_seeds @ [[255]]) ?vm2 =
    Inr (?vm2\<lparr>vm_ledger := (vm_ledger ?vm2)
         (1 := (vm_ledger ?vm2 1)\<lparr>acc_lamports := 100000 - word_of_nat ?is - word_of_nat ?os\<rparr>,
          sample_outbox_key := \<lparr>acc_lamports = n2, acc_data = replicate ?os 0, acc_owner = sample_pid\<rparr>),
        vm_return_data := None\<rparr>)" (is "_ = Inr ?vm3")
    using sim_create_pda [of ?vm2 "signer_account sample_outbox_key" "signer_account 1"
        "100000 - word_of_nat ?is" ?os sample_pid "program_account 0" "outbox_seeds @ [[255]]"]
    by (auto simp: fresh_vm_def sim_simps sample_keys account_size_def inbox_size_def outbox_size_def)
  have s2: "\<exists>vm'. store ser_outbox ?o (signer_account sample_outbox_key) False ?vm3 = Inr vm'"
    using store_ok [of "signer_account sample_outbox_key" ?vm3 ser_outbox ?o False] valid
    by (simp add: fresh_vm_def sim_simps length_ser_outbox account_size_def outbox_size_def)
  have u: "verify_account_uninitialized (signer_account sample_inbox_key) fresh_vm = Inr ()"
    "verify_account_uninitialized (signer_account sample_outbox_key) ?vm2 = Inr ()"
    by (simp_all add: verify_account_uninitialized_def borrow_data_def owner_of_def fresh_vm_def sim_simps
        sample_keys)
  show ?thesis
    using c1 s1 c2 s2 u
    by (simp add: mailbox_initialize_def init_accounts_def Let_def SYSTEM_PROGRAM_ID_def sample_address)
qed

section \<open>Properties\<close>

text \<open>
  C1. Every message is delivered at most once: in any run of the mailbox, whatever other transactions
  happen in between, the ids of the messages it processed are distinct, and each is marked as
  processed.
\<close>

theorem inbox_exactly_once:
  assumes "system_program_ok rt" and "pid \<noteq> SYSTEM_PROGRAM_ID" and "cpi_frame rt pid"
    and "mailbox_run kc rt pid vm0 ids vm"
  shows "distinct ids \<and> (\<forall>mid \<in> set ids. processed rt pid mid vm)"
  using mailbox_run_processed [OF assms] .

theorem inbox_exactly_once_witness:
  "\<exists>vm'. mailbox_run (\<lambda>_. 42) sim_runtime sample_pid sample_vm [42] vm' \<and>
     processed sim_runtime sample_pid 42 vm'"
proof -
  let ?data = "ser_mailbox_instruction (InboxProcess sample_process)"
  have valid: "mailbox_instruction_valid (InboxProcess sample_process)"
    by (simp add: sample_process_def to_vec_def message_write_to_def sample_message_def)
  then have ix: "mailbox_from_instruction_data ?data = Inr (InboxProcess sample_process)"
    by (simp add: mailbox_from_instruction_data_def borsh_mailbox_instruction.try_from_slice_iff
        del: ser_mailbox_instruction.simps)
  obtain vm' where "inbox_process (\<lambda>_. 42) sim_runtime sample_pid sample_accounts sample_process sample_vm = Inr vm'"
    using sample_run by blast
  then have "mailbox_process_instruction (\<lambda>_. 42) sim_runtime sample_pid sample_accounts ?data sample_vm = Inr vm'"
    by (simp add: mailbox_process_instruction_def ix del: ser_mailbox_instruction.simps)
  from mailbox_run.instr [OF mailbox_run.start this]
  have run: "mailbox_run (\<lambda>_. 42) sim_runtime sample_pid sample_vm [42] vm'"
    by (simp add: delivered_def ix sample_read hyperlane_message_id_def del: ser_mailbox_instruction.simps)
  have "sample_pid \<noteq> SYSTEM_PROGRAM_ID" by (simp add: sample_pid_def SYSTEM_PROGRAM_ID_def)
  from inbox_exactly_once [OF sim_system_ok this sim_cpi_frame run] show ?thesis
    using run by auto
qed

text \<open>
  C2. A message is delivered only after the security module its recipient chose accepted it. When
  \<^verbatim>\<open>inbox_process\<close> succeeds, the message has the supported version and is for the domain of the inbox; the
  recipient was asked for its ISM; the ISM account of the transaction is the one it answered, or the
  default ISM of the inbox when it named none; in the state this question left, that ISM was called with
  exactly this message and metadata and returned without an error; and then the recipient was called with
  the origin, sender and body of the message. None of the three calls names the inbox account, which guards
  against reentrancy.
\<close>

theorem inbox_process_verified:
  assumes "cpi_frame rt pid" and "inbox_process kc rt pid accounts p vm = Inr vm'"
  shows "\<exists>message payer system inbox_info authority processed_info get_infos noop ism_info ism_infos
      recipient_info recipient_infos inbox vm0 question answer l vdata l1 rd hdata seeds l2 r2.
    accounts = [payer, system, inbox_info, authority, processed_info] @ get_infos @ [noop, ism_info] @
      ism_infos @ [recipient_info] @ recipient_infos \<and>
    message_read_from (ip_message p) = Inr (message, []) \<and> msg_version message = VERSION \<and>
    inbox_fetch_refmut rt pid inbox_info vm = Inr (inbox, vm0) \<and> ib_local_domain inbox = msg_destination message \<and>
    recipient_decode question = Inr InterchainSecurityModule \<and>
    rt_invoke rt \<lparr>ix_program_id = msg_recipient message, ix_accounts = map meta_of get_infos, ix_data = question\<rparr>
      get_infos [] (vm_ledger vm) = Inr (l, answer) \<and>
    answers_ism (msg_recipient message) (ib_default_ism inbox) answer (ai_key ism_info) \<and>
    ism_decode vdata = Inr (IsmVerify \<lparr>vi_metadata = ip_metadata p, vi_message = ip_message p\<rparr>) \<and>
    rt_invoke rt \<lparr>ix_program_id = ai_key ism_info, ix_accounts = map meta_of ism_infos, ix_data = vdata\<rparr>
      ism_infos [] l = Inr (l1, rd) \<and>
    recipient_decode hdata = Inr (Handle \<lparr>hi_origin = msg_origin message, hi_sender = msg_sender message,
      hi_message = msg_body message\<rparr>) \<and>
    rt_invoke rt \<lparr>ix_program_id = msg_recipient message,
        ix_accounts = \<lparr>am_pubkey = ai_key authority, am_is_signer = True, am_is_writable = False\<rparr> #
          map meta_of recipient_infos, ix_data = hdata\<rparr> (authority # recipient_infos) seeds l2 = Inr r2 \<and>
    ai_key inbox_info \<notin> ai_key ` set (get_infos @ ism_infos @ recipient_infos)"
  using assms(2)
proof (rule inbox_process_parts)
  fix pc vm1 vm2
  assume c: "inbox_process_checks kc rt pid accounts p vm = Inr (pc, vm1)"
    and d: "inbox_process_deliver rt pid p pc vm1 = Inr vm2"
  note facts = on_successD [OF inbox_process_checks_facts c, unfolded prod.case]
  let ?vm0 = "vm\<lparr>vm_borrowed := ai_key (pc_inbox_info pc) # vm_borrowed vm\<rparr>"
  obtain get_infos noop ism_info recipient_info where
    acc: "accounts = [pc_payer pc, pc_system pc, pc_inbox_info pc, pc_authority pc, pc_processed pc] @
         get_infos @ [noop, ism_info] @ pc_ism_infos pc @ [recipient_info] @ pc_recipient_infos pc"
    and ism: "ai_key ism_info = pc_ism pc"
    and inbox: "inbox_fetch_refmut rt pid (pc_inbox_info pc) vm = Inr (pc_inbox pc, ?vm0)"
    and get: "get_recipient_ism rt (msg_recipient (pc_message pc)) get_infos (map meta_of get_infos)
         (ib_default_ism (pc_inbox pc)) ?vm0 = Inr (pc_ism pc, vm1)"
    using on_successD [OF inbox_process_checks_layout c] by auto
  obtain question l answer where q: "recipient_decode question = Inr InterchainSecurityModule"
    and qs: "invoke_signed rt \<lparr>ix_program_id = msg_recipient (pc_message pc), ix_accounts = map meta_of get_infos,
      ix_data = question\<rparr> get_infos [] ?vm0 = Inr vm1"
    and qi: "rt_invoke rt \<lparr>ix_program_id = msg_recipient (pc_message pc), ix_accounts = map meta_of get_infos,
      ix_data = question\<rparr> get_infos [] (vm_ledger vm) = Inr (l, answer)"
    and vm1: "vm_ledger vm1 = l"
    and a: "answers_ism (msg_recipient (pc_message pc)) (ib_default_ism (pc_inbox pc)) answer (ai_key ism_info)"
    using get_recipient_ism_steps [OF get] ism by auto
  have borrowed: "ai_key (pc_inbox_info pc) \<in> set (vm_borrowed vm1)"
    using on_successD [OF inbox_process_checks_borrowed [OF assms(1)] c] by simp
  have "ai_key (pc_inbox_info pc) \<notin> ai_key ` set get_infos"
    using invoke_signed_guard [OF qs, of "ai_key (pc_inbox_info pc)"] by fastforce
  then show ?thesis
    using inbox_process_deliver_calls [OF d borrowed] acc facts inbox q qi a
    unfolding set_append image_Un Un_iff de_Morgan_disj vm1 ism [symmetric] by metis
qed

theorem inbox_process_verified_witness:
  "\<exists>vm' message inbox vm0 answer (ism_info :: account_info) l vdata ism_infos l1 rd.
     inbox_process (\<lambda>_. 42) sim_runtime sample_pid sample_accounts sample_process sample_vm = Inr vm' \<and>
     message_read_from (ip_message sample_process) = Inr (message, []) \<and>
     inbox_fetch_refmut sim_runtime sample_pid (sample_accounts ! 2) sample_vm = Inr (inbox, vm0) \<and>
     answers_ism (msg_recipient message) (ib_default_ism inbox) answer (ai_key ism_info) \<and>
     ism_info \<in> set sample_accounts \<and>
     ism_decode vdata =
       Inr (IsmVerify \<lparr>vi_metadata = ip_metadata sample_process, vi_message = ip_message sample_process\<rparr>) \<and>
     rt_invoke sim_runtime \<lparr>ix_program_id = ai_key ism_info, ix_accounts = map meta_of ism_infos, ix_data = vdata\<rparr>
       ism_infos [] l = Inr (l1, rd)"
proof -
  obtain vm' where run: "inbox_process (\<lambda>_. 42) sim_runtime sample_pid sample_accounts sample_process sample_vm = Inr vm'"
    using sample_run by blast
  have third: "accounts ! 2 = i \<and> x \<in> set accounts"
    if "accounts = [a, b, i, c, d] @ infos @ [e, x] @ rest" for accounts infos rest :: "account_info list" and a b c d e i x
    using that by simp
  from inbox_process_verified [OF sim_cpi_frame run] show ?thesis using run third by metis
qed

text \<open>
  C5. Dispatching appends to the outbox: a successful \<^verbatim>\<open>outbox_dispatch\<close> on an outbox that has dispatched
  the message ids \<open>ids\<close> sends the message whose nonce is the number of messages before, appends its id to
  the tree, returns the id, stores the encoded message in the account derived from the unique message
  account, and was signed by the sender or by the sender's dispatch authority.
\<close>

theorem outbox_dispatch_appends:
  assumes sys: "system_program_ok rt" and cpi: "cpi_frame rt pid"
    and rep: "outbox_repr kc (ai_key outbox_info) x ids vm"
    and run: "outbox_dispatch kc rt pid (outbox_info # accounts) d vm = Inr vm'"
  shows "let m = dispatch_message x (length ids) d; mid = hyperlane_message_id kc m in
    (\<exists>tree. outbox_repr kc (ai_key outbox_info) (x\<lparr>ob_tree := tree\<rparr>) (ids @ [mid]) vm') \<and>
    vm_return_data vm' = Some (pid, h256_bytes mid) \<and>
    (\<exists>unique. holds ser_dispatched_message
       (dispatched_message_new (msg_nonce m) (rt_slot rt) unique (to_vec message_write_to m))
       (dispatched_key rt pid unique) (vm_ledger vm')) \<and>
    ai_is_signer (hd accounts) \<and>
    ai_key (hd accounts) \<in> {od_sender d, fst (rt_find_program_address rt dispatch_authority_seeds (od_sender d))}"
proof -
  obtain y where "outbox_fetch rt pid outbox_info vm = Inr y"
    using run by (auto simp: outbox_dispatch_def rbind_eq_Inr)
  then have fetch: "outbox_fetch rt pid outbox_info vm = Inr x"
    and own: "acc_owner (vm_ledger vm (ai_key outbox_info)) = pid"
    using outbox_repr_fetch [OF rep] by auto
  have tree: "represents kc (ob_tree x) ids" using rep by (simp add: outbox_repr_def)
  let ?m = "dispatch_message x (length ids) d"
  show ?thesis
  proof (rule outbox_dispatch_steps [OF run fetch tree])
    fix sender sysp noop payer unique disp :: account_info and bump tree' and vm1 vm2 vm3 vm4 :: vm
    let ?dm = "dispatched_message_new (word_of_nat (length ids)) (rt_slot rt) (ai_key unique) (to_vec message_write_to ?m)"
    assume acc: "accounts = [sender, sysp, noop, payer, unique, disp]"
      and auth: "ai_is_signer sender \<and> (ai_key sender = od_sender d \<or>
       fst (rt_find_program_address rt dispatch_authority_seeds (od_sender d)) = ai_key sender)"
      and key: "ai_key disp = dispatched_key rt pid (ai_key unique)"
      and empty: "acc_data (vm_ledger vm (ai_key disp)) = []"
      and len: "length (od_message_body d) \<le> MAX_MESSAGE_BODY_BYTES"
      and ing: "ingest kc (hyperlane_message_id kc ?m) (ob_tree x) = Some tree'"
      and create: "create_pda_account rt payer (account_size dispatched_message_size ?dm) pid sysp disp
        (dispatched_message_seeds (ai_key unique) @ [[bump]]) vm = Inr vm1"
      and store1: "store ser_dispatched_message ?dm disp False vm1 = Inr vm2"
      and noop: "invoke_signed rt \<lparr>ix_program_id = ai_key noop, ix_accounts = [],
        ix_data = acc_data (vm_ledger vm2 (ai_key disp))\<rparr> [] [] vm2 = Inr vm3"
      and store2: "store ser_outbox (x\<lparr>ob_tree := tree'\<rparr>) outbox_info True vm3 = Inr vm4"
      and vm': "vm' = set_return_data pid (h256_bytes (hyperlane_message_id kc ?m)) vm4"
    have ne: "ai_key disp \<noteq> ai_key outbox_info"
      using rep empty holds_nonempty [of ser_outbox x] by (auto simp: outbox_repr_def)
    have c: "acc_owner (vm_ledger vm1 (ai_key disp)) = pid"
      using create_pda_account_Inr [OF sys create dispatch_message_size [OF len]] by simp
    note s1 = store_holds [OF store1] and s2 = store_holds [OF store2]
    have "same_data (vm_ledger vm2) (vm_ledger vm3) (ai_key disp)"
      using invoke_signed_frame [OF cpi noop] s1 c by simp
    moreover have "same_data (vm_ledger vm3) (vm_ledger vm4) (ai_key disp)"
      using s2 ne by (simp add: only_changes_def)
    ultimately have "same_data (vm_ledger vm2) (vm_ledger vm4) (ai_key disp)"
      by (rule same_data_trans)
    then have "holds ser_dispatched_message ?dm (ai_key disp) (vm_ledger vm4)"
      by (rule holds_same_data [OF conjunct1 [OF s1]])
    then have "\<exists>unique. holds ser_dispatched_message
       (dispatched_message_new (msg_nonce ?m) (rt_slot rt) unique (to_vec message_write_to ?m))
       (dispatched_key rt pid unique) (vm_ledger vm')"
      by (auto simp: key vm' set_return_data_def dispatch_message_def)
    moreover have "outbox_repr kc (ai_key outbox_info) (x\<lparr>ob_tree := tree'\<rparr>) (ids @ [hyperlane_message_id kc ?m]) vm'"
      using s2 ingest_Some_represents [OF tree ing] by (simp add: outbox_repr_def vm' set_return_data_def)
    ultimately show ?thesis
      using auth by (auto simp: Let_def acc vm' set_return_data_def)
  qed
qed

theorem outbox_dispatch_appends_witness:
  "\<exists>vm' tree. outbox_dispatch (\<lambda>_. 42) sim_runtime sample_pid
     (signer_account sample_outbox_key # sample_dispatch_accounts) sample_dispatch sample_vm = Inr vm' \<and>
   outbox_repr (\<lambda>_. 42) sample_outbox_key (sample_outbox\<lparr>ob_tree := tree\<rparr>) [42] vm'"
proof -
  obtain vm' where run: "outbox_dispatch (\<lambda>_. 42) sim_runtime sample_pid
     (signer_account sample_outbox_key # sample_dispatch_accounts) sample_dispatch sample_vm = Inr vm'"
    using sample_dispatch_run by blast
  have rep: "outbox_repr (\<lambda>_. 42) (ai_key (signer_account sample_outbox_key)) sample_outbox [] sample_vm"
    using sample_outbox_repr by simp
  show ?thesis
    using run outbox_dispatch_appends [OF sim_system_ok sim_cpi_frame rep run]
    by (auto simp: Let_def hyperlane_message_id_def)
qed

text \<open>
  Initialization creates the mailbox once: a successful \<^verbatim>\<open>initialize\<close> leaves an inbox and an outbox for
  the given domain, with the given default ISM, no processed and no dispatched message, and the signing
  payer as owner; as long as the accounts of the mailbox stay, every further \<^verbatim>\<open>initialize\<close> fails.
\<close>

theorem mailbox_initialize_once:
  assumes "system_program_ok rt"
    and "mailbox_initialize rt pid accounts init vm = Inr vm'"
  shows "(\<exists>payer inbox_bump outbox_bump.
    payer \<in> set accounts \<and> ai_is_signer payer \<and>
    holds ser_inbox \<lparr>ib_local_domain = mi_local_domain init, ib_bump_seed = inbox_bump,
        ib_default_ism = mi_default_ism init, ib_processed_count = 0\<rparr>
      (fst (rt_find_program_address rt inbox_seeds pid)) (vm_ledger vm') \<and>
    outbox_repr kc (fst (rt_find_program_address rt outbox_seeds pid))
      \<lparr>ob_local_domain = mi_local_domain init, ob_bump_seed = outbox_bump,
       ob_owner = Some (ai_key payer), ob_tree = im_default\<rparr> [] vm') \<and>
    (\<nexists>accounts' init' vm''. mailbox_initialize rt pid accounts' init' vm' = Inr vm'')"
proof (rule conjI [OF mailbox_initialize_holds [OF assms]], clarify)
  fix accounts' init' vm''
  assume "mailbox_initialize rt pid accounts' init' vm' = Inr vm''"
  then have "acc_data (vm_ledger vm' (fst (rt_find_program_address rt inbox_seeds pid))) = []"
    by (rule mailbox_initialize_empty)
  with mailbox_initialize_holds [OF assms] show False by (auto dest: holds_nonempty)
qed

theorem mailbox_initialize_once_witness:
  "\<exists>vm'. mailbox_initialize sim_runtime sample_pid init_accounts
     \<lparr>mi_local_domain = 7, mi_default_ism = 55\<rparr> fresh_vm = Inr vm' \<and>
   (\<nexists>accounts' init' vm''. mailbox_initialize sim_runtime sample_pid accounts' init' vm' = Inr vm'')"
  using sample_initialize mailbox_initialize_once [OF sim_system_ok] by blast

text \<open>
  C32. The views of the outbox report its messages: \<^verbatim>\<open>outbox_get_root\<close> returns the root of the Merkle tree of
  the dispatched ids and \<^verbatim>\<open>outbox_get_count\<close> their number, without changing an account;
  \<^verbatim>\<open>outbox_get_latest_checkpoint\<close> never returns, it panics copying the 32 bytes of the root to a slice of
  31.
\<close>

theorem outbox_views:
  assumes "zero_table kc" and "outbox_repr kc (ai_key i) x ids vm"
    and "outbox_fetch rt pid i vm = Inr y"
  shows "outbox_get_root kc rt pid [i] vm =
      Inr (set_return_data pid (ser_simulation ser_h256 (mroot kc TREE_DEPTH ids)) vm) \<and>
    outbox_get_count rt pid [i] vm =
      Inr (set_return_data pid (ser_simulation (to_le_bytes 4) (word_of_nat (length ids) :: u32)) vm) \<and>
    outbox_get_latest_checkpoint kc rt pid [i] vm = Inl Panic"
proof -
  have rep: "represents kc (ob_tree x) ids" using assms(2) by (simp add: outbox_repr_def)
  have "outbox_fetch rt pid i vm = Inr x" using outbox_repr_fetch [OF assms(2,3)] assms(3) by simp
  then show ?thesis
    by (simp add: outbox_get_root_def outbox_get_count_def outbox_get_latest_checkpoint_def
        im_root_represents [OF assms(1) rep] count_u32_represents [OF rep] copy_from_slice_def)
qed

theorem outbox_views_witness:
  "outbox_get_root table_keccak sim_runtime sample_pid [signer_account sample_outbox_key] sample_vm =
     Inr (set_return_data sample_pid (ser_simulation ser_h256 (mroot table_keccak TREE_DEPTH [])) sample_vm)"
proof -
  have "outbox_repr table_keccak (ai_key (signer_account sample_outbox_key)) sample_outbox [] sample_vm"
    using sample_outbox_repr by simp
  from outbox_views [OF zero_table_table_keccak this sample_outbox_fetch] show ?thesis by simp
qed

text \<open>
  Only the signing owner administrates the mailbox: a successful \<^verbatim>\<open>inbox_set_default_ism\<close> or
  \<^verbatim>\<open>transfer_ownership\<close> was signed by the owner stored in the outbox, and it changes the one field it
  names, of the one account, and nothing else.
\<close>

theorem mailbox_admin_owner_only:
  "on_success (inbox_set_default_ism rt pid accounts ism vm) (\<lambda>vm'.
     \<exists>inbox_info outbox_info owner_info x y. accounts = [inbox_info, outbox_info, owner_info] \<and>
       inbox_fetch rt pid inbox_info vm = Inr x \<and> outbox_fetch rt pid outbox_info vm = Inr y \<and>
       ob_owner y = Some (ai_key owner_info) \<and> ai_is_signer owner_info \<and>
       holds ser_inbox (x\<lparr>ib_default_ism := ism\<rparr>) (ai_key inbox_info) (vm_ledger vm') \<and>
       only_changes (ai_key inbox_info) vm vm') \<and>
   on_success (mailbox_transfer_ownership rt pid accounts new_owner vm) (\<lambda>vm'.
     \<exists>outbox_info owner_info rest y. accounts = outbox_info # owner_info # rest \<and>
       outbox_fetch rt pid outbox_info vm = Inr y \<and>
       ob_owner y = Some (ai_key owner_info) \<and> ai_is_signer owner_info \<and>
       holds ser_outbox (y\<lparr>ob_owner := new_owner\<rparr>) (ai_key outbox_info) (vm_ledger vm') \<and>
       only_changes (ai_key outbox_info) vm vm')"
  unfolding inbox_set_default_ism_def mailbox_transfer_ownership_def
  by (intro conjI success_intros on_successI)
     (auto simp: next_account_info_Inr outbox_ac.ensure_owner_signer_iff outbox_ac.transfer_ownership_iff
        outbox_set_owner_def dest!: store_holds)

end
