(* ===== verification/Checkpoint.thy ===== *)
theory Checkpoint
  imports Message
begin

text \<open>
  What validators sign: checkpoints (\<^verbatim>\<open>hyperlane-core/src/types/checkpoint.rs\<close>), announcements
  (\<^verbatim>\<open>types/announcement.rs\<close>), their signing hashes and the domain hashes of \<^verbatim>\<open>utils.rs\<close>, and the
  EIP-191 hash of \<^verbatim>\<open>traits/signing.rs\<close>. Signing and recovery are operations of the signer and of the
  \<^verbatim>\<open>ethers\<close> crate: the parameters \<open>sign_hash\<close> and \<open>recover\<close>.

  The \<^verbatim>\<open>Signable\<close> trait is the interface \<open>signable\<close>; the theorems show that the hash a validator signs
  determines what was signed, also across the two kinds of signed values.
\<close>

section \<open>Model\<close>

text \<open>\<^verbatim>\<open>format!("{}", n)\<close> of a length: its decimal digits.\<close>

fun decimal :: "nat \<Rightarrow> bytes" where
  "decimal n = (if n < 10 then [word_of_nat (48 + n)]
                else decimal (n div 10) @ [word_of_nat (48 + n mod 10)])"

declare decimal.simps [simp del]

definition domain_preimage :: "h256 \<Rightarrow> u32 \<Rightarrow> string \<Rightarrow> bytes" where
  "domain_preimage address domain tag =
     to_be_bytes 4 domain @ h256_bytes address @ str_bytes tag"

definition domain_hash :: "keccak \<Rightarrow> h256 \<Rightarrow> u32 \<Rightarrow> h256" where
  "domain_hash kc address domain = kc (domain_preimage address domain ''HYPERLANE'')"

definition announcement_domain_hash :: "keccak \<Rightarrow> h256 \<Rightarrow> u32 \<Rightarrow> h256" where
  "announcement_domain_hash kc address domain =
     kc (domain_preimage address domain ''HYPERLANE_ANNOUNCEMENT'')"

record checkpoint =
  cp_merkle_tree_hook_address :: h256
  cp_mailbox_domain :: u32
  cp_root :: h256
  cp_index :: u32

record checkpoint_with_message_id =
  cpm_checkpoint :: checkpoint
  cpm_message_id :: h256

text \<open>The bytes the signing hash of a checkpoint is taken of, in the order they are chained.\<close>

definition checkpoint_preimage :: "keccak \<Rightarrow> checkpoint_with_message_id \<Rightarrow> bytes" where
  "checkpoint_preimage kc c =
     h256_bytes (domain_hash kc (cp_merkle_tree_hook_address (cpm_checkpoint c))
                   (cp_mailbox_domain (cpm_checkpoint c))) @
     h256_bytes (cp_root (cpm_checkpoint c)) @
     to_be_bytes 4 (cp_index (cpm_checkpoint c)) @
     h256_bytes (cpm_message_id c)"

definition checkpoint_signing_hash :: "keccak \<Rightarrow> checkpoint_with_message_id \<Rightarrow> h256" where
  "checkpoint_signing_hash kc c = kc (checkpoint_preimage kc c)"

text \<open>An announcement; the storage location is the byte string of its UTF-8 text.\<close>

record announcement =
  ann_validator :: h160
  ann_mailbox_address :: h256
  ann_mailbox_domain :: u32
  ann_storage_location :: bytes

definition announcement_preimage :: "keccak \<Rightarrow> announcement \<Rightarrow> bytes" where
  "announcement_preimage kc a =
     h256_bytes (announcement_domain_hash kc (ann_mailbox_address a) (ann_mailbox_domain a)) @
     ann_storage_location a"

definition announcement_signing_hash :: "keccak \<Rightarrow> announcement \<Rightarrow> h256" where
  "announcement_signing_hash kc a = kc (announcement_preimage kc a)"

definition eip191_prefix :: bytes where
  "eip191_prefix = 0x19 # str_bytes ''Ethereum Signed Message:'' @ [0x0a]"

definition hash_message :: "keccak \<Rightarrow> bytes \<Rightarrow> h256" where
  "hash_message kc message = kc ((eip191_prefix @ decimal (length message)) @ message)"

text \<open>\<^verbatim>\<open>Signable::eth_signed_message_hash\<close>, for a given \<^verbatim>\<open>signing_hash\<close>.\<close>

definition eth_signed_message_hash :: "keccak \<Rightarrow> ('v \<Rightarrow> h256) \<Rightarrow> 'v \<Rightarrow> h256" where
  "eth_signed_message_hash kc signing_hash v = hash_message kc (h256_bytes (signing_hash v))"

record ('v, 's) signed_type =
  st_value :: 'v
  st_signature :: 's

definition sign ::
  "('v \<Rightarrow> h256) \<Rightarrow> (h256 \<Rightarrow> 'e + 's) \<Rightarrow> 'v \<Rightarrow> 'e + ('v, 's) signed_type" where
  "sign signing_hash sign_hash v =
     rbind (sign_hash (signing_hash v)) (\<lambda>signature.
     Inr \<lparr>st_value = v, st_signature = signature\<rparr>)"

definition recover_signer ::
  "keccak \<Rightarrow> ('v \<Rightarrow> h256) \<Rightarrow> ('s \<Rightarrow> h256 \<Rightarrow> 'e + h160) \<Rightarrow> ('v, 's) signed_type \<Rightarrow> 'e + h160" where
  "recover_signer kc signing_hash recover st =
     recover (st_signature st) (eth_signed_message_hash kc signing_hash (st_value st))"

record 's multisig_signed_checkpoint =
  mc_checkpoint :: checkpoint_with_message_id
  mc_signatures :: "'s list"

datatype multisig_signed_checkpoint_error = InconsistentCheckpoints | EmptySignatures

definition multisig_try_from ::
  "(checkpoint_with_message_id, 's) signed_type list \<Rightarrow>
     multisig_signed_checkpoint_error + 's multisig_signed_checkpoint" where
  "multisig_try_from signed_checkpoints =
     require (signed_checkpoints \<noteq> []) EmptySignatures (
     let checkpoint = st_value (signed_checkpoints ! 0) in
     require (list_all (\<lambda>c. checkpoint = st_value c) signed_checkpoints) InconsistentCheckpoints (
     let signatures = map st_signature signed_checkpoints in
     Inr \<lparr>mc_checkpoint = checkpoint, mc_signatures = signatures\<rparr>))"

section \<open>The interface of signed values\<close>

text \<open>
  A signable value is hashed from a preimage that determines the signed part of it, given that the
  hash does not collide on the byte strings \<open>hashed v\<close> it is applied to.
\<close>

definition no_collision :: "keccak \<Rightarrow> bytes list \<Rightarrow> bool" where
  "no_collision kc bss \<longleftrightarrow> (\<forall>x \<in> set bss. \<forall>y \<in> set bss. kc x = kc y \<longrightarrow> x = y)"

lemma no_collisionD:
  "no_collision kc bss \<Longrightarrow> kc x = kc y \<Longrightarrow> x \<in> set bss \<Longrightarrow> y \<in> set bss \<Longrightarrow> x = y"
  by (simp add: no_collision_def)

locale signable =
  fixes kc :: keccak
    and signing_hash :: "'v \<Rightarrow> h256"
    and content :: "'v \<Rightarrow> 'c"
    and hashed :: "'v \<Rightarrow> bytes list"
  assumes signing_hash_binding:
    "signing_hash v = signing_hash w \<Longrightarrow> no_collision kc (hashed v @ hashed w) \<Longrightarrow>
     content v = content w"
begin

text \<open>The byte strings hashed by \<^verbatim>\<open>eth_signed_message_hash\<close>.\<close>

definition eth_preimage :: "'v \<Rightarrow> bytes" where
  "eth_preimage v = (eip191_prefix @ decimal 32) @ h256_bytes (signing_hash v)"

lemma eth_signed_message_hash_binding:
  assumes "eth_signed_message_hash kc signing_hash v = eth_signed_message_hash kc signing_hash w"
    and "no_collision kc (eth_preimage v # hashed v @ eth_preimage w # hashed w)"
  shows "content v = content w"
proof -
  have "eth_preimage v = eth_preimage w"
    using assms(1) unfolding eth_signed_message_hash_def hash_message_def length_to_bytes eth_preimage_def
    by (rule no_collisionD [OF assms(2) [unfolded eth_preimage_def]]) simp_all
  then have "signing_hash v = signing_hash w" by (simp add: eth_preimage_def)
  moreover have "no_collision kc (hashed v @ hashed w)"
    using assms(2) by (simp add: no_collision_def)
  ultimately show ?thesis by (rule signing_hash_binding)
qed

end

lemma domain_preimage_inject [simp]:
  "domain_preimage a d s = domain_preimage a' d' s \<longleftrightarrow> a = a' \<and> d = d'"
  by (auto simp: domain_preimage_def) (metis bytes_roundtrip(5))

lemma checkpoint_preimage_inject:
  assumes "checkpoint_preimage kc c = checkpoint_preimage kc c'"
    and "no_collision kc
      [domain_preimage (cp_merkle_tree_hook_address (cpm_checkpoint c)) (cp_mailbox_domain (cpm_checkpoint c)) ''HYPERLANE'',
       domain_preimage (cp_merkle_tree_hook_address (cpm_checkpoint c')) (cp_mailbox_domain (cpm_checkpoint c')) ''HYPERLANE'']"
  shows "c = c'"
proof -
  have parts: "domain_hash kc (cp_merkle_tree_hook_address (cpm_checkpoint c)) (cp_mailbox_domain (cpm_checkpoint c)) =
      domain_hash kc (cp_merkle_tree_hook_address (cpm_checkpoint c')) (cp_mailbox_domain (cpm_checkpoint c'))"
    "cp_root (cpm_checkpoint c) = cp_root (cpm_checkpoint c')"
    "to_be_bytes 4 (cp_index (cpm_checkpoint c)) = to_be_bytes 4 (cp_index (cpm_checkpoint c'))"
    "cpm_message_id c = cpm_message_id c'"
    using assms(1) by (simp_all add: checkpoint_preimage_def)
  then have "cp_index (cpm_checkpoint c) = cp_index (cpm_checkpoint c')"
    by (metis bytes_roundtrip(5))
  moreover have "cp_merkle_tree_hook_address (cpm_checkpoint c) = cp_merkle_tree_hook_address (cpm_checkpoint c') \<and>
      cp_mailbox_domain (cpm_checkpoint c) = cp_mailbox_domain (cpm_checkpoint c')"
    using no_collisionD [OF assms(2) parts(1) [unfolded domain_hash_def]] by simp
  ultimately show ?thesis using parts by simp
qed

text \<open>The byte strings hashed for the signing hash of a checkpoint, and of an announcement.\<close>

definition checkpoint_hashed :: "keccak \<Rightarrow> checkpoint_with_message_id \<Rightarrow> bytes list" where
  "checkpoint_hashed kc c =
     [checkpoint_preimage kc c,
      domain_preimage (cp_merkle_tree_hook_address (cpm_checkpoint c))
        (cp_mailbox_domain (cpm_checkpoint c)) ''HYPERLANE'']"

definition announcement_hashed :: "keccak \<Rightarrow> announcement \<Rightarrow> bytes list" where
  "announcement_hashed kc a =
     [announcement_preimage kc a,
      domain_preimage (ann_mailbox_address a) (ann_mailbox_domain a) ''HYPERLANE_ANNOUNCEMENT'']"

text \<open>The validator address is not part of what an announcement signs.\<close>

definition announcement_content :: "announcement \<Rightarrow> h256 \<times> u32 \<times> bytes" where
  "announcement_content a = (ann_mailbox_address a, ann_mailbox_domain a, ann_storage_location a)"

interpretation checkpoint_sig:
  signable kc "checkpoint_signing_hash kc" "\<lambda>c. c" "checkpoint_hashed kc" for kc
proof
  fix c c'
  assume eq: "checkpoint_signing_hash kc c = checkpoint_signing_hash kc c'"
    and nc: "no_collision kc (checkpoint_hashed kc c @ checkpoint_hashed kc c')"
  have "checkpoint_preimage kc c = checkpoint_preimage kc c'"
    by (rule no_collisionD [OF nc eq [unfolded checkpoint_signing_hash_def]])
       (simp_all add: checkpoint_hashed_def)
  then show "c = c'"
    by (rule checkpoint_preimage_inject)
       (use nc in \<open>simp add: checkpoint_hashed_def no_collision_def\<close>)
qed

interpretation announcement_sig:
  signable kc "announcement_signing_hash kc" announcement_content "announcement_hashed kc" for kc
proof
  fix a b
  assume eq: "announcement_signing_hash kc a = announcement_signing_hash kc b"
    and nc: "no_collision kc (announcement_hashed kc a @ announcement_hashed kc b)"
  have pre: "announcement_preimage kc a = announcement_preimage kc b"
    by (rule no_collisionD [OF nc eq [unfolded announcement_signing_hash_def]])
       (simp_all add: announcement_hashed_def)
  then have dom: "announcement_domain_hash kc (ann_mailbox_address a) (ann_mailbox_domain a) =
      announcement_domain_hash kc (ann_mailbox_address b) (ann_mailbox_domain b)"
    and loc: "ann_storage_location a = ann_storage_location b"
    by (simp_all add: announcement_preimage_def)
  show "announcement_content a = announcement_content b"
    using no_collisionD [OF nc dom [unfolded announcement_domain_hash_def]] loc
    by (simp add: announcement_hashed_def announcement_content_def)
qed

text \<open>A stand-in for the hash, for the witnesses: it separates inputs of different lengths.\<close>

definition length_keccak :: keccak where
  "length_keccak bs = word_of_nat (length bs)"

definition sample_checkpoint :: checkpoint_with_message_id where
  "sample_checkpoint =
     \<lparr>cpm_checkpoint = \<lparr>cp_merkle_tree_hook_address = 1, cp_mailbox_domain = 2, cp_root = 3, cp_index = 4\<rparr>,
      cpm_message_id = 5\<rparr>"

section \<open>Properties\<close>

text \<open>
  Signatures on announcements and on checkpoints cannot be mistaken for each other: the two
  signing hashes never agree unless Keccak collides on the byte strings hashed for them.
\<close>

theorem signing_domain_separation:
  assumes "no_collision kc (checkpoint_hashed kc c @ announcement_hashed kc a)"
  shows "checkpoint_signing_hash kc c \<noteq> announcement_signing_hash kc a"
proof
  assume eq: "checkpoint_signing_hash kc c = announcement_signing_hash kc a"
  have "checkpoint_preimage kc c = announcement_preimage kc a"
    by (rule no_collisionD [OF assms eq [unfolded checkpoint_signing_hash_def announcement_signing_hash_def]])
       (simp_all add: checkpoint_hashed_def announcement_hashed_def)
  then have dom: "domain_hash kc (cp_merkle_tree_hook_address (cpm_checkpoint c)) (cp_mailbox_domain (cpm_checkpoint c)) =
      announcement_domain_hash kc (ann_mailbox_address a) (ann_mailbox_domain a)"
    by (simp add: checkpoint_preimage_def announcement_preimage_def)
  have "domain_preimage (cp_merkle_tree_hook_address (cpm_checkpoint c)) (cp_mailbox_domain (cpm_checkpoint c)) ''HYPERLANE'' =
      domain_preimage (ann_mailbox_address a) (ann_mailbox_domain a) ''HYPERLANE_ANNOUNCEMENT''"
    by (rule no_collisionD [OF assms dom [unfolded domain_hash_def announcement_domain_hash_def]])
       (simp_all add: checkpoint_hashed_def announcement_hashed_def)
  then show False
    by (auto simp: domain_preimage_def dest: arg_cong [where f = length])
qed

theorem signing_domain_separation_witness:
  "checkpoint_signing_hash length_keccak sample_checkpoint \<noteq>
   announcement_signing_hash length_keccak
     \<lparr>ann_validator = 1, ann_mailbox_address = 2, ann_mailbox_domain = 3, ann_storage_location = []\<rparr>"
  by (rule signing_domain_separation)
     (simp add: no_collision_def checkpoint_hashed_def announcement_hashed_def length_keccak_def
        checkpoint_preimage_def announcement_preimage_def domain_preimage_def)

text \<open>
  What the property needs of the recovery of \<^verbatim>\<open>ethers\<close>: over the given digests, a signature does not recover
  to the same address twice (the recovered key is an injective function of the digest, addresses are hashes of keys).
\<close>

definition recovery_binding :: "('s \<Rightarrow> h256 \<Rightarrow> 'e + h160) \<Rightarrow> 's \<Rightarrow> h256 list \<Rightarrow> bool" where
  "recovery_binding recover s ds \<longleftrightarrow>
     (\<forall>d \<in> set ds. \<forall>d' \<in> set ds. \<forall>a. recover s d = Inr a \<longrightarrow> recover s d' = Inr a \<longrightarrow> d = d')"

lemma no_collision_subset: "no_collision kc xs \<Longrightarrow> set ys \<subseteq> set xs \<Longrightarrow> no_collision kc ys"
  unfolding no_collision_def by blast

text \<open>
  For the witness: a hash of the length and the last byte, signatures that are the digest they sign, a second
  checkpoint for another message, and an announcement.
\<close>

definition last_keccak :: keccak where
  "last_keccak bs = word_of_nat (256 * length bs + unat (last bs))"

definition digest_recover :: "h256 \<Rightarrow> h256 \<Rightarrow> unit + h160" where
  "digest_recover s digest = (if s = digest then Inr 7 else Inl ())"

definition sample_announcement :: announcement where
  "sample_announcement =
     \<lparr>ann_validator = 7, ann_mailbox_address = 2, ann_mailbox_domain = 3, ann_storage_location = [9]\<rparr>"

lemma last_keccak_h256:
  "last_keccak (xs @ h256_bytes w) = word_of_nat (256 * (length xs + 32) + unat w mod 256)"
proof -
  have "last (xs @ h256_bytes w) = word_of_nat (unat w mod 256)"
  proof -
    have "h256_bytes w = rev (le_of_nat (Suc 31) (unat w))"
      by (simp add: to_be_bytes_def to_le_bytes_def del: le_of_nat.simps)
    then show ?thesis by (simp only: le_of_nat.simps rev.simps append_assoc [symmetric] last_snoc)
  qed
  then show ?thesis by (simp add: last_keccak_def unat_of_nat)
qed

lemma no_collision_distinct: "distinct (map kc xs) \<Longrightarrow> no_collision kc xs"
  unfolding no_collision_def distinct_map inj_on_def by blast

lemma last_keccak_preimages:
  "last_keccak (checkpoint_preimage kc c) = word_of_nat (25600 + unat (cpm_message_id c) mod 256)"
  "last_keccak (domain_preimage k d ''HYPERLANE'') = 11589"
  "last_keccak (domain_preimage k d ''HYPERLANE_ANNOUNCEMENT'') = 14932"
  "last_keccak (announcement_preimage kc sample_announcement) = 8457"
proof -
  show "last_keccak (checkpoint_preimage kc c) = word_of_nat (25600 + unat (cpm_message_id c) mod 256)"
    unfolding checkpoint_preimage_def append_assoc [symmetric] last_keccak_h256 by simp
qed (simp_all add: last_keccak_def domain_preimage_def announcement_preimage_def sample_announcement_def str_bytes_def)

lemma last_keccak_eth:
  "last_keccak (checkpoint_sig.eth_preimage last_keccak sample_checkpoint) = 15365"
  "last_keccak (checkpoint_sig.eth_preimage last_keccak (sample_checkpoint\<lparr>cpm_message_id := 6\<rparr>)) = 15366"
  "last_keccak (announcement_sig.eth_preimage last_keccak sample_announcement) = 15369"
proof -
  have "length (eip191_prefix @ decimal 32) = 28" by (simp add: eip191_prefix_def decimal.simps)
  then show "last_keccak (checkpoint_sig.eth_preimage last_keccak sample_checkpoint) = 15365"
    "last_keccak (checkpoint_sig.eth_preimage last_keccak (sample_checkpoint\<lparr>cpm_message_id := 6\<rparr>)) = 15366"
    "last_keccak (announcement_sig.eth_preimage last_keccak sample_announcement) = 15369"
    unfolding checkpoint_sig.eth_preimage_def announcement_sig.eth_preimage_def last_keccak_h256
      checkpoint_signing_hash_def announcement_signing_hash_def last_keccak_preimages
    by (simp_all add: sample_checkpoint_def)
qed

lemma sample_no_collision:
  "no_collision last_keccak
    (checkpoint_sig.eth_preimage last_keccak sample_checkpoint # checkpoint_hashed last_keccak sample_checkpoint @
     checkpoint_sig.eth_preimage last_keccak (sample_checkpoint\<lparr>cpm_message_id := 6\<rparr>) #
       checkpoint_hashed last_keccak (sample_checkpoint\<lparr>cpm_message_id := 6\<rparr>) @
     announcement_sig.eth_preimage last_keccak sample_announcement # announcement_hashed last_keccak sample_announcement)"
proof (rule no_collision_subset [OF no_collision_distinct])
  let ?c = sample_checkpoint and ?d = "sample_checkpoint\<lparr>cpm_message_id := 6\<rparr>" and ?a = sample_announcement
  let ?list = "[checkpoint_sig.eth_preimage last_keccak ?c, checkpoint_preimage last_keccak ?c,
      checkpoint_sig.eth_preimage last_keccak ?d, checkpoint_preimage last_keccak ?d,
      domain_preimage 1 2 ''HYPERLANE'', announcement_sig.eth_preimage last_keccak ?a,
      announcement_preimage last_keccak ?a, domain_preimage 2 3 ''HYPERLANE_ANNOUNCEMENT'']"
  show "distinct (map last_keccak ?list)"
    by (simp add: last_keccak_preimages last_keccak_eth) (simp add: sample_checkpoint_def)
  show "set (checkpoint_sig.eth_preimage last_keccak ?c # checkpoint_hashed last_keccak ?c @
     checkpoint_sig.eth_preimage last_keccak ?d # checkpoint_hashed last_keccak ?d @
     announcement_sig.eth_preimage last_keccak ?a # announcement_hashed last_keccak ?a) \<subseteq> set ?list"
    by (simp add: checkpoint_hashed_def announcement_hashed_def sample_checkpoint_def sample_announcement_def)
qed

lemma recovery_bindingD:
  "recovery_binding recover s ds \<Longrightarrow> recover s d = Inr a \<Longrightarrow> recover s d' = Inr a \<Longrightarrow>
   d \<in> set ds \<Longrightarrow> d' \<in> set ds \<Longrightarrow> d = d'"
  unfolding recovery_binding_def by blast

text \<open>
  C27. What a validator signs is one checkpoint: if a signature over a checkpoint recovers to a signer, then
  the same signature over a checkpoint that differs in hook address, domain, root, index or message id, or
  over an announcement, does not recover to that signer, unless Keccak collides on the byte strings hashed
  for them or the recovery gives the same address for their different digests.
\<close>

theorem checkpoint_signature_binding:
  assumes "recover_signer kc (checkpoint_signing_hash kc) recover \<lparr>st_value = c, st_signature = s\<rparr> = Inr signer"
    and "c' \<noteq> c"
    and "no_collision kc
      (checkpoint_sig.eth_preimage kc c # checkpoint_hashed kc c @
       checkpoint_sig.eth_preimage kc c' # checkpoint_hashed kc c' @
       announcement_sig.eth_preimage kc a # announcement_hashed kc a)"
    and "recovery_binding recover s
      [eth_signed_message_hash kc (checkpoint_signing_hash kc) c,
       eth_signed_message_hash kc (checkpoint_signing_hash kc) c',
       eth_signed_message_hash kc (announcement_signing_hash kc) a]"
  shows "recover_signer kc (checkpoint_signing_hash kc) recover \<lparr>st_value = c', st_signature = s\<rparr> \<noteq> Inr signer \<and>
    recover_signer kc (announcement_signing_hash kc) recover \<lparr>st_value = a, st_signature = s\<rparr> \<noteq> Inr signer"
proof (intro conjI notI)
  assume "recover_signer kc (checkpoint_signing_hash kc) recover \<lparr>st_value = c', st_signature = s\<rparr> = Inr signer"
  then have "eth_signed_message_hash kc (checkpoint_signing_hash kc) c =
      eth_signed_message_hash kc (checkpoint_signing_hash kc) c'"
    using assms(1) unfolding recover_signer_def signed_type.simps
    by (intro recovery_bindingD [OF assms(4)]) simp_all
  then have "c = c'"
    by (rule checkpoint_sig.eth_signed_message_hash_binding) (rule no_collision_subset [OF assms(3)], auto)
  then show False using assms(2) by simp
next
  assume "recover_signer kc (announcement_signing_hash kc) recover \<lparr>st_value = a, st_signature = s\<rparr> = Inr signer"
  then have "eth_signed_message_hash kc (checkpoint_signing_hash kc) c =
      eth_signed_message_hash kc (announcement_signing_hash kc) a"
    using assms(1) unfolding recover_signer_def signed_type.simps
    by (intro recovery_bindingD [OF assms(4)]) simp_all
  then have "checkpoint_sig.eth_preimage kc c = announcement_sig.eth_preimage kc a"
    unfolding eth_signed_message_hash_def hash_message_def length_to_bytes
      checkpoint_sig.eth_preimage_def announcement_sig.eth_preimage_def
    by (rule no_collisionD [OF assms(3) [unfolded checkpoint_sig.eth_preimage_def announcement_sig.eth_preimage_def]])
       simp_all
  then have "checkpoint_signing_hash kc c = announcement_signing_hash kc a"
    by (simp add: checkpoint_sig.eth_preimage_def announcement_sig.eth_preimage_def)
  moreover have "no_collision kc (checkpoint_hashed kc c @ announcement_hashed kc a)"
    by (rule no_collision_subset [OF assms(3)]) auto
  ultimately show False using signing_domain_separation by blast
qed

theorem checkpoint_signature_binding_witness:
  "let s = eth_signed_message_hash last_keccak (checkpoint_signing_hash last_keccak) sample_checkpoint in
     recover_signer last_keccak (checkpoint_signing_hash last_keccak) digest_recover
       \<lparr>st_value = sample_checkpoint, st_signature = s\<rparr> = Inr 7 \<and>
     recover_signer last_keccak (checkpoint_signing_hash last_keccak) digest_recover
       \<lparr>st_value = sample_checkpoint\<lparr>cpm_message_id := 6\<rparr>, st_signature = s\<rparr> \<noteq> Inr 7 \<and>
     recover_signer last_keccak (announcement_signing_hash last_keccak) digest_recover
       \<lparr>st_value = sample_announcement, st_signature = s\<rparr> \<noteq> Inr 7"
proof -
  let ?c = "sample_checkpoint" and ?d = "sample_checkpoint\<lparr>cpm_message_id := 6\<rparr>" and ?a = sample_announcement
  let ?s = "eth_signed_message_hash last_keccak (checkpoint_signing_hash last_keccak) ?c"
  have nc: "no_collision last_keccak
      (checkpoint_sig.eth_preimage last_keccak ?c # checkpoint_hashed last_keccak ?c @
       checkpoint_sig.eth_preimage last_keccak ?d # checkpoint_hashed last_keccak ?d @
       announcement_sig.eth_preimage last_keccak ?a # announcement_hashed last_keccak ?a)"
    by (rule sample_no_collision)
  have r: "recover_signer last_keccak (checkpoint_signing_hash last_keccak) digest_recover
       \<lparr>st_value = ?c, st_signature = ?s\<rparr> = Inr 7"
    by (simp add: recover_signer_def digest_recover_def)
  have "?d \<noteq> ?c" by (simp add: sample_checkpoint_def)
  from checkpoint_signature_binding [OF r this nc] r show ?thesis
    by (simp add: recovery_binding_def digest_recover_def Let_def)
qed

text \<open>
  A multisig checkpoint is made exactly from a non-empty list of signatures over one checkpoint,
  and keeps every signature in its order.
\<close>

theorem multisig_try_from_ok:
  "multisig_try_from sc = Inr m \<longleftrightarrow>
   sc \<noteq> [] \<and> map st_value sc = replicate (length sc) (mc_checkpoint m) \<and>
   map st_signature sc = mc_signatures m"
proof -
  have "list_all (\<lambda>c. st_value (sc ! 0) = st_value c) sc \<longleftrightarrow>
      map st_value sc = replicate (length sc) (st_value (sc ! 0))"
    by (auto simp: list_all_iff map_replicate_const intro!: replicate_eqI dest: map_eq_imp_length_eq)
       (metis in_set_replicate list.set_map imageI)
  moreover have "map st_value sc = replicate (length sc) v \<Longrightarrow> sc \<noteq> [] \<Longrightarrow> st_value (sc ! 0) = v" for v
    by (metis length_greater_0_conv nth_map nth_replicate)
  ultimately show ?thesis
    by (cases m) (auto simp: multisig_try_from_def Let_def result_simps)
qed

end
