(* ===== verification/Multisig.thy ===== *)
theory Multisig
  imports Checkpoint Interfaces "HOL-Library.Sublist"
begin

text \<open>
  Quorums of validator signatures on Solana: the libraries \<^verbatim>\<open>ecdsa-signature\<close> and \<^verbatim>\<open>multisig-ism\<close> and
  the metadata and configuration of \<^verbatim>\<open>programs/ism/multisig-ism-message-id\<close> (\<^verbatim>\<open>metadata.rs\<close>,
  \<^verbatim>\<open>ValidatorsAndThreshold\<close> of \<^verbatim>\<open>instruction.rs\<close>). The syscall \<^verbatim>\<open>secp256k1_recover\<close> is a parameter, from a
  hash, a recovery id and a signature to the 64 bytes of a public key.
\<close>

type_synonym secp256k1 = "bytes \<Rightarrow> u8 \<Rightarrow> bytes \<Rightarrow> bytes option"

section \<open>Signatures\<close>

record ecdsa_signature =
  es_serialized_rs :: bytes
  es_recovery_id :: u8

datatype ecdsa_signature_error = InvalidLength | InvalidRecoveryId

definition ecdsa_from_bytes :: "bytes \<Rightarrow> ecdsa_signature_error + ecdsa_signature" where
  "ecdsa_from_bytes bs =
     require (length bs = 65) InvalidLength (
     let serialized_rs = take 64 bs;
         recovery_id = bs ! 64;
         recovery_id = (if recovery_id = 27 \<or> recovery_id = 28 then recovery_id - 27 else recovery_id) in
     require (\<not> recovery_id > 1) InvalidRecoveryId (
     Inr \<lparr>es_serialized_rs = serialized_rs, es_recovery_id = recovery_id\<rparr>))"

definition ecdsa_as_fixed_bytes :: "ecdsa_signature \<Rightarrow> bytes" where
  "ecdsa_as_fixed_bytes s = es_serialized_rs s @ [es_recovery_id s]"

definition ecdsa_recover :: "keccak \<Rightarrow> secp256k1 \<Rightarrow> bytes \<Rightarrow> ecdsa_signature \<Rightarrow> h160 option" where
  "ecdsa_recover kc secp hash s =
     (case secp hash (es_recovery_id s) (es_serialized_rs s) of
        None \<Rightarrow> None
      | Some public_key \<Rightarrow> Some (from_be_bytes (drop 12 (h256_bytes (kc public_key)))))"

text \<open>What the type \<^verbatim>\<open>[u8; 64]\<close> and the constructor guarantee of a signature.\<close>

definition ecdsa_valid :: "ecdsa_signature \<Rightarrow> bool" where
  "ecdsa_valid s \<longleftrightarrow> length (es_serialized_rs s) = 64 \<and> es_recovery_id s \<le> 1"

section \<open>Quorums\<close>

datatype multisig_ism_error = InvalidSignature | ThresholdNotMet

record 'v multisig_ism =
  mm_signed_data :: 'v
  mm_signatures :: "ecdsa_signature list"
  mm_validators :: "h160 list"
  mm_threshold :: u8

text \<open>The inner loop: the index of the next validator that is the signer, or the number of validators.\<close>

function next_validator :: "h160 list \<Rightarrow> h160 \<Rightarrow> nat \<Rightarrow> nat" where
  "next_validator validators signer validator_index =
     (if validator_index < length validators \<and> signer \<noteq> validators ! validator_index
      then next_validator validators signer (Suc validator_index)
      else validator_index)"
  by auto

termination next_validator
  by (relation "measure (\<lambda>(validators, _, i). length validators - i)") auto

declare next_validator.simps [simp del]

text \<open>
  The outer loop over \<^verbatim>\<open>i in 0..threshold\<close>, from \<open>i\<close> with \<open>n\<close> rounds left. Indexing the signatures panics
  when there are fewer than the threshold.
\<close>

primrec verify_rounds ::
  "(ecdsa_signature \<Rightarrow> h160 option) \<Rightarrow> ecdsa_signature list \<Rightarrow> h160 list \<Rightarrow> nat \<Rightarrow> nat \<Rightarrow> nat \<Rightarrow>
     multisig_ism_error failure + unit" where
  "verify_rounds recover signatures validators 0 i validator_index = Inr ()"
| "verify_rounds recover signatures validators (Suc n) i validator_index =
     (if \<not> i < length signatures then Inl Panic
      else rbind (ok_or (recover (signatures ! i)) (Err InvalidSignature)) (\<lambda>signer.
           let validator_index = next_validator validators signer validator_index in
           require (\<not> validator_index \<ge> length validators) (Err ThresholdNotMet) (
           verify_rounds recover signatures validators n (Suc i) (Suc validator_index))))"

definition multisig_verify ::
  "keccak \<Rightarrow> secp256k1 \<Rightarrow> ('v \<Rightarrow> h256) \<Rightarrow> 'v multisig_ism \<Rightarrow> multisig_ism_error failure + unit" where
  "multisig_verify kc secp signing_hash m =
     (let signed_digest = eth_signed_message_hash kc signing_hash (mm_signed_data m) in
      verify_rounds (ecdsa_recover kc secp (h256_bytes signed_digest)) (mm_signatures m)
        (mm_validators m) (unat (mm_threshold m)) 0 0)"

section \<open>Validators and thresholds\<close>

datatype multisig_program_error =
    AccountOutOfOrder
  | AccountNotOwner
  | ProgramIdNotOwner
  | AccountNotInitialized
  | InvalidSignatureRecoveryId
  | MsInvalidSignature
  | MsThresholdNotMet
  | InvalidValidatorsAndThreshold
  | AlreadyInitialized
  | InvalidMetadata

primrec multisig_error_code :: "multisig_program_error \<Rightarrow> u32" where
  "multisig_error_code AccountOutOfOrder = 1"
| "multisig_error_code AccountNotOwner = 2"
| "multisig_error_code ProgramIdNotOwner = 3"
| "multisig_error_code AccountNotInitialized = 4"
| "multisig_error_code InvalidSignatureRecoveryId = 5"
| "multisig_error_code MsInvalidSignature = 6"
| "multisig_error_code MsThresholdNotMet = 7"
| "multisig_error_code InvalidValidatorsAndThreshold = 8"
| "multisig_error_code AlreadyInitialized = 9"
| "multisig_error_code InvalidMetadata = 10"

primrec multisig_error_from :: "multisig_ism_error \<Rightarrow> multisig_program_error" where
  "multisig_error_from InvalidSignature = MsInvalidSignature"
| "multisig_error_from ThresholdNotMet = MsThresholdNotMet"

abbreviation multisig_err :: "multisig_program_error \<Rightarrow> program_error failure" where
  "multisig_err e \<equiv> Err (Custom (multisig_error_code e))"

record validators_and_threshold =
  vt_validators :: "h160 list"
  vt_threshold :: u8

text \<open>The loop inserts the validators into a set and stops at the first that is in it already.\<close>

fun no_duplicates :: "h160 set \<Rightarrow> h160 list \<Rightarrow> bool" where
  "no_duplicates seen [] \<longleftrightarrow> True"
| "no_duplicates seen (v # vs) \<longleftrightarrow> v \<notin> seen \<and> no_duplicates (insert v seen) vs"

definition vt_validate :: "validators_and_threshold \<Rightarrow> unit exec" where
  "vt_validate c =
     require (\<not> (vt_threshold c = 0 \<or> unat (vt_threshold c) > length (vt_validators c)))
       (multisig_err InvalidValidatorsAndThreshold) (
     require (no_duplicates {} (vt_validators c)) (multisig_err InvalidValidatorsAndThreshold) (
     Inr ()))"

section \<open>Metadata\<close>

record multisig_metadata =
  md_origin_merkle_tree_hook :: h256
  md_merkle_root :: h256
  md_merkle_index :: u32
  md_validator_signatures :: "ecdsa_signature list"

definition ORIGIN_MAILBOX_OFFSET :: nat where "ORIGIN_MAILBOX_OFFSET = 0"
definition MERKLE_ROOT_OFFSET :: nat where "MERKLE_ROOT_OFFSET = 32"
definition MERKLE_INDEX_OFFSET :: nat where "MERKLE_INDEX_OFFSET = 64"
definition SIGNATURES_OFFSET :: nat where "SIGNATURES_OFFSET = 68"
definition SIGNATURE_LENGTH :: nat where "SIGNATURE_LENGTH = 65"

definition sub_slice :: "bytes \<Rightarrow> nat \<Rightarrow> nat \<Rightarrow> bytes" where
  "sub_slice bs a b = take (b - a) (drop a bs)"

text \<open>The loop over the signatures, from the \<open>i\<close>-th with \<open>n\<close> left.\<close>

primrec read_signatures ::
  "bytes \<Rightarrow> nat \<Rightarrow> nat \<Rightarrow> multisig_program_error + ecdsa_signature list" where
  "read_signatures bs 0 i = Inr []"
| "read_signatures bs (Suc n) i =
     (let signature_offset = SIGNATURES_OFFSET + i * SIGNATURE_LENGTH in
      rbind (map_err (\<lambda>_. InvalidMetadata)
               (ecdsa_from_bytes (sub_slice bs signature_offset (signature_offset + SIGNATURE_LENGTH))))
        (\<lambda>signature.
      rbind (read_signatures bs n (Suc i)) (\<lambda>rest.
      Inr (signature # rest))))"

definition metadata_try_from :: "bytes \<Rightarrow> multisig_program_error + multisig_metadata" where
  "metadata_try_from bs =
     require (\<not> length bs < SIGNATURES_OFFSET + SIGNATURE_LENGTH) InvalidMetadata (
     let origin_mailbox = h256_from_slice (sub_slice bs ORIGIN_MAILBOX_OFFSET MERKLE_ROOT_OFFSET);
         merkle_root = h256_from_slice (sub_slice bs MERKLE_ROOT_OFFSET MERKLE_INDEX_OFFSET);
         merkle_index = from_be_bytes (sub_slice bs MERKLE_INDEX_OFFSET SIGNATURES_OFFSET);
         signature_bytes_len = length bs - SIGNATURES_OFFSET in
     require (signature_bytes_len mod SIGNATURE_LENGTH = 0) InvalidMetadata (
     rbind (read_signatures bs (signature_bytes_len div SIGNATURE_LENGTH) 0) (\<lambda>validator_signatures.
     Inr \<lparr>md_origin_merkle_tree_hook = origin_mailbox, md_merkle_root = merkle_root,
          md_merkle_index = merkle_index, md_validator_signatures = validator_signatures\<rparr>)))"

definition metadata_write_to :: "multisig_metadata \<Rightarrow> bytes \<times> nat" where
  "metadata_write_to m =
     (let bs = h256_bytes (md_origin_merkle_tree_hook m) @ h256_bytes (md_merkle_root m) @
               to_be_bytes 4 (md_merkle_index m) @
               concat (map ecdsa_as_fixed_bytes (md_validator_signatures m))
      in (bs, length bs))"

section \<open>Correctness of signatures and metadata\<close>

lemma ecdsa_roundtrip: "ecdsa_valid s \<Longrightarrow> ecdsa_from_bytes (ecdsa_as_fixed_bytes s) = Inr s"
proof -
  assume "ecdsa_valid s"
  then have "length (es_serialized_rs s) = 64" "es_recovery_id s \<le> 1" by (simp_all add: ecdsa_valid_def)
  moreover from this have "es_recovery_id s \<noteq> 27" "es_recovery_id s \<noteq> 28"
    by (auto simp: word_le_nat_alt)
  ultimately show ?thesis
    by (simp add: ecdsa_from_bytes_def ecdsa_as_fixed_bytes_def nth_append not_less)
qed

lemma ecdsa_from_bytes_valid: "ecdsa_from_bytes bs = Inr s \<Longrightarrow> ecdsa_valid s"
  by (auto simp: ecdsa_from_bytes_def Let_def result_simps ecdsa_valid_def not_less)

lemma length_ecdsa: "ecdsa_valid s \<Longrightarrow> length (ecdsa_as_fixed_bytes s) = SIGNATURE_LENGTH"
  by (simp add: ecdsa_valid_def ecdsa_as_fixed_bytes_def SIGNATURE_LENGTH_def)

lemma length_ecdsas:
  "list_all ecdsa_valid ss \<Longrightarrow> length (concat (map ecdsa_as_fixed_bytes ss)) = SIGNATURE_LENGTH * length ss"
  by (induction ss) (simp_all add: length_ecdsa)

lemma read_signatures_append:
  assumes "length hdr = SIGNATURES_OFFSET" and "list_all ecdsa_valid ss" and "list_all ecdsa_valid ss'"
  shows "read_signatures (hdr @ concat (map ecdsa_as_fixed_bytes (ss' @ ss))) (length ss) (length ss') = Inr ss"
  using assms
proof (induction ss arbitrary: ss')
  case Nil
  then show ?case by simp
next
  case (Cons s ss)
  let ?bs = "hdr @ concat (map ecdsa_as_fixed_bytes (ss' @ s # ss))"
  have "sub_slice ?bs (SIGNATURES_OFFSET + length ss' * SIGNATURE_LENGTH)
      (SIGNATURES_OFFSET + length ss' * SIGNATURE_LENGTH + SIGNATURE_LENGTH) = ecdsa_as_fixed_bytes s"
    using Cons.prems by (simp add: sub_slice_def length_ecdsas length_ecdsa mult.commute)
  moreover have "read_signatures ?bs (length ss) (Suc (length ss')) = Inr ss"
    using Cons.IH [of "ss' @ [s]"] Cons.prems by simp
  ultimately show ?case using Cons.prems by (simp add: ecdsa_roundtrip)
qed

lemma read_signatures_valid:
  "read_signatures bs n i = Inr ss \<Longrightarrow> length ss = n \<and> list_all ecdsa_valid ss"
  by (induction n arbitrary: i ss) (auto simp: Let_def result_simps dest: ecdsa_from_bytes_valid)

section \<open>Correctness of quorums\<close>

lemma next_validator_ge: "i \<le> next_validator vs s i"
  by (induction vs s i rule: next_validator.induct) (subst next_validator.simps, auto)

lemma next_validator_found:
  "next_validator vs s i < length vs \<Longrightarrow> vs ! next_validator vs s i = s"
  by (induction vs s i rule: next_validator.induct) (subst (asm) next_validator.simps, subst next_validator.simps, auto split: if_splits)

text \<open>The rest of the validators after the first one that signed.\<close>

lemma next_validator_subseq:
  "subseq (s # ss) (drop i vs) \<longleftrightarrow>
   next_validator vs s i < length vs \<and> subseq ss (drop (Suc (next_validator vs s i)) vs)"
proof (induction vs s i rule: next_validator.induct)
  case (1 vs s i)
  show ?case
  proof (cases "i < length vs")
    case False
    then show ?thesis by (subst next_validator.simps, simp)
  next
    case True
    then have d: "drop i vs = vs ! i # drop (Suc i) vs" by (simp add: Cons_nth_drop_Suc)
    show ?thesis
    proof (cases "s = vs ! i")
      case True
      with \<open>i < length vs\<close> have "next_validator vs s i = i" by (subst next_validator.simps) simp
      with True \<open>i < length vs\<close> show ?thesis by (simp add: d)
    next
      case False
      with \<open>i < length vs\<close> have "next_validator vs s i = next_validator vs s (Suc i)"
        by (subst next_validator.simps) simp
      with False 1 \<open>i < length vs\<close> show ?thesis by (simp add: d)
    qed
  qed
qed

lemma verify_rounds_iff:
  "verify_rounds recover sigs vs n i j = Inr () \<longleftrightarrow>
   (n > 0 \<longrightarrow> i + n \<le> length sigs) \<and>
   (\<exists>signers. map recover (take n (drop i sigs)) = map Some signers \<and> subseq signers (drop j vs))"
proof (induction n arbitrary: i j)
  case 0
  then show ?case by simp
next
  case (Suc n)
  show ?case
  proof (cases "i < length sigs")
    case False
    then show ?thesis by simp
  next
    case True
    then have d: "take (Suc n) (drop i sigs) = sigs ! i # take n (drop (Suc i) sigs)"
      by (simp add: Cons_nth_drop_Suc [symmetric])
    show ?thesis
    proof (cases "recover (sigs ! i)")
      case None
      with True show ?thesis by (auto simp: d)
    next
      case (Some s)
      have "(\<exists>signers. map recover (take (Suc n) (drop i sigs)) = map Some signers \<and> subseq signers (drop j vs)) \<longleftrightarrow>
        (\<exists>ss. map recover (take n (drop (Suc i) sigs)) = map Some ss \<and> subseq (s # ss) (drop j vs))"
        by (auto simp: d Some Cons_eq_map_conv)
      with True Some Suc show ?thesis
        by (auto simp: Let_def result_simps next_validator_subseq not_le)
    qed
  qed
qed

text \<open>The address a signature of the quorum recovers to, over the digest of the signed data.\<close>

definition quorum_signer ::
  "keccak \<Rightarrow> secp256k1 \<Rightarrow> ('v \<Rightarrow> h256) \<Rightarrow> 'v multisig_ism \<Rightarrow> ecdsa_signature \<Rightarrow> h160 option" where
  "quorum_signer kc secp signing_hash m =
     ecdsa_recover kc secp (h256_bytes (eth_signed_message_hash kc signing_hash (mm_signed_data m)))"

lemma multisig_verify_iff:
  "multisig_verify kc secp signing_hash m = Inr () \<longleftrightarrow>
   unat (mm_threshold m) \<le> length (mm_signatures m) \<and>
   (\<exists>signers. map (quorum_signer kc secp signing_hash m)
        (take (unat (mm_threshold m)) (mm_signatures m)) = map Some signers \<and>
      subseq signers (mm_validators m))"
  by (auto simp: multisig_verify_def verify_rounds_iff quorum_signer_def Let_def)

lemma verify_rounds_panic:
  assumes "map recover (drop i sigs) = map Some signers" and "subseq signers (drop j vs)"
    and "length sigs < i + n" and "i \<le> length sigs"
  shows "verify_rounds recover sigs vs n i j = Inl Panic"
  using assms
proof (induction n arbitrary: i j signers)
  case 0
  then show ?case by simp
next
  case (Suc n)
  show ?case
  proof (cases "i < length sigs")
    case False
    then show ?thesis by simp
  next
    case True
    then have "drop i sigs = sigs ! i # drop (Suc i) sigs" by (simp add: Cons_nth_drop_Suc)
    with Suc.prems(1) obtain s ss where s: "recover (sigs ! i) = Some s" "signers = s # ss"
      "map recover (drop (Suc i) sigs) = map Some ss" by (auto simp: Cons_eq_map_conv)
    then show ?thesis
      using Suc.IH [OF s(3)] Suc.prems(2,3) True by (auto simp: Let_def next_validator_subseq not_le)
  qed
qed

lemma quorum_card:
  assumes "distinct vs" and "subseq signers vs" and "map f sigs = map Some signers"
  shows "length sigs \<le> card {v \<in> set vs. \<exists>s \<in> set sigs. f s = Some v}"
proof -
  have "distinct signers" using assms(1,2) by (auto intro: subseqs_distinctD)
  moreover have "set signers \<subseteq> {v \<in> set vs. \<exists>s \<in> set sigs. f s = Some v}"
  proof
    fix v
    assume v: "v \<in> set signers"
    then have "Some v \<in> set (map f sigs)" by (simp add: assms(3))
    with v show "v \<in> {v \<in> set vs. \<exists>s \<in> set sigs. f s = Some v}"
      using assms(2) by (auto elim: list_emb_set)
  qed
  ultimately have "length signers \<le> card {v \<in> set vs. \<exists>s \<in> set sigs. f s = Some v}"
    using card_mono [of "{v \<in> set vs. \<exists>s \<in> set sigs. f s = Some v}" "set signers"] distinct_card [of signers]
    by simp
  moreover have "length sigs = length signers" using arg_cong [OF assms(3), of length] by simp
  ultimately show ?thesis by simp
qed

lemma multisig_verify_card:
  assumes "multisig_verify kc secp signing_hash m = Inr ()" and "distinct (mm_validators m)"
  shows "unat (mm_threshold m) \<le> card {v \<in> set (mm_validators m).
    \<exists>s \<in> set (mm_signatures m). quorum_signer kc secp signing_hash m s = Some v}"
proof -
  let ?f = "quorum_signer kc secp signing_hash m" and ?used = "take (unat (mm_threshold m)) (mm_signatures m)"
  obtain signers where s: "map ?f ?used = map Some signers" "subseq signers (mm_validators m)"
    and len: "unat (mm_threshold m) \<le> length (mm_signatures m)"
    using assms(1) by (auto simp: multisig_verify_iff)
  from len have "unat (mm_threshold m) = length ?used" by simp
  also have "\<dots> \<le> card {v \<in> set (mm_validators m). \<exists>s \<in> set ?used. ?f s = Some v}"
    by (rule quorum_card [OF assms(2) s(2,1)])
  also have "\<dots> \<le> card {v \<in> set (mm_validators m). \<exists>s \<in> set (mm_signatures m). ?f s = Some v}"
    by (rule card_mono) (auto dest: in_set_takeD)
  finally show ?thesis .
qed

lemma no_duplicates_iff: "no_duplicates seen vs \<longleftrightarrow> distinct vs \<and> set vs \<inter> seen = {}"
  by (induction vs arbitrary: seen) auto

lemma vt_validate_iff:
  "vt_validate c = Inr u \<longleftrightarrow>
   0 < vt_threshold c \<and> unat (vt_threshold c) \<le> length (vt_validators c) \<and> distinct (vt_validators c)"
  by (auto simp: vt_validate_def result_simps no_duplicates_iff word_gt_0)

lemmas offset_defs =
  ORIGIN_MAILBOX_OFFSET_def MERKLE_ROOT_OFFSET_def MERKLE_INDEX_OFFSET_def SIGNATURES_OFFSET_def
  SIGNATURE_LENGTH_def

lemma metadata_read_back:
  assumes ne: "md_validator_signatures m \<noteq> []" and v: "list_all ecdsa_valid (md_validator_signatures m)"
  shows "metadata_try_from (to_vec metadata_write_to m) = Inr m"
proof -
  let ?hdr = "h256_bytes (md_origin_merkle_tree_hook m) @ h256_bytes (md_merkle_root m) @
               to_be_bytes 4 (md_merkle_index m)"
  have "read_signatures (?hdr @ concat (map ecdsa_as_fixed_bytes ([] @ md_validator_signatures m)))
      (length (md_validator_signatures m)) (length ([] :: ecdsa_signature list)) = Inr (md_validator_signatures m)"
    by (rule read_signatures_append [OF _ v]) (simp_all add: SIGNATURES_OFFSET_def)
  then show ?thesis
    using ne by (simp add: metadata_try_from_def to_vec_def metadata_write_to_def Let_def length_ecdsas [OF v]
        offset_defs sub_slice_def neq_Nil_conv)
qed

text \<open>A quorum of one, with a hash and a recovery function for the witnesses.\<close>

definition sample_hash :: keccak where
  "sample_hash = (\<lambda>_. 42)"

definition sample_secp :: secp256k1 where
  "sample_secp hash rid rs = Some rs"

definition sample_validator :: h160 where
  "sample_validator = from_be_bytes (drop 12 (h256_bytes 42))"

definition sample_signature :: ecdsa_signature where
  "sample_signature = \<lparr>es_serialized_rs = replicate 64 1, es_recovery_id = 0\<rparr>"

definition sample_multisig :: "unit multisig_ism" where
  "sample_multisig =
     \<lparr>mm_signed_data = (), mm_signatures = [sample_signature], mm_validators = [sample_validator, sample_validator + 1],
      mm_threshold = 1\<rparr>"

lemma sample_recover: "ecdsa_recover sample_hash sample_secp h s = Some sample_validator"
  by (simp add: ecdsa_recover_def sample_hash_def sample_secp_def sample_validator_def)

lemma sample_quorum:
  "unat (mm_threshold sample_multisig) \<le> length (mm_signatures sample_multisig) \<and>
   (\<exists>signers. map (quorum_signer sample_hash sample_secp (\<lambda>_. 0) sample_multisig)
        (take (unat (mm_threshold sample_multisig)) (mm_signatures sample_multisig)) = map Some signers \<and>
      subseq signers (mm_validators sample_multisig))"
  by (auto simp: quorum_signer_def sample_recover sample_multisig_def intro!: exI [of _ "[sample_validator]"])

section \<open>Properties\<close>

text \<open>
  C20. Quorum verification is exact: \<^verbatim>\<open>MultisigIsm::verify\<close> succeeds exactly when the first \<open>threshold\<close>
  signatures recover, over the digest of the signed data, to validators of the set in its order; with
  a set without duplicates at least \<open>threshold\<close> validators signed. With fewer signatures than the
  threshold, all of them from validators in order, it panics instead of returning an error.
\<close>

theorem multisig_verify_quorum:
  "(multisig_verify kc secp signing_hash m = Inr () \<longleftrightarrow>
      unat (mm_threshold m) \<le> length (mm_signatures m) \<and>
      (\<exists>signers. map (quorum_signer kc secp signing_hash m)
           (take (unat (mm_threshold m)) (mm_signatures m)) = map Some signers \<and>
         subseq signers (mm_validators m))) \<and>
   (multisig_verify kc secp signing_hash m = Inr () \<and> distinct (mm_validators m) \<longrightarrow>
      unat (mm_threshold m) \<le> card {v \<in> set (mm_validators m).
        \<exists>s \<in> set (mm_signatures m). quorum_signer kc secp signing_hash m s = Some v}) \<and>
   (length (mm_signatures m) < unat (mm_threshold m) \<and>
      (\<exists>signers. map (quorum_signer kc secp signing_hash m) (mm_signatures m) = map Some signers \<and>
         subseq signers (mm_validators m)) \<longrightarrow>
      multisig_verify kc secp signing_hash m = Inl Panic)"
proof (intro conjI impI; (elim conjE exE)?)
  show "multisig_verify kc secp signing_hash m = Inr () \<longleftrightarrow>
      unat (mm_threshold m) \<le> length (mm_signatures m) \<and>
      (\<exists>signers. map (quorum_signer kc secp signing_hash m)
           (take (unat (mm_threshold m)) (mm_signatures m)) = map Some signers \<and>
         subseq signers (mm_validators m))" by (rule multisig_verify_iff)
next
  assume "multisig_verify kc secp signing_hash m = Inr ()" and d: "distinct (mm_validators m)"
  then show "unat (mm_threshold m) \<le> card {v \<in> set (mm_validators m).
        \<exists>s \<in> set (mm_signatures m). quorum_signer kc secp signing_hash m s = Some v}"
    by (rule multisig_verify_card)
next
  fix signers
  assume "length (mm_signatures m) < unat (mm_threshold m)"
    and "map (quorum_signer kc secp signing_hash m) (mm_signatures m) = map Some signers"
    and "subseq signers (mm_validators m)"
  then show "multisig_verify kc secp signing_hash m = Inl Panic"
    using verify_rounds_panic [of _ 0 "mm_signatures m" signers 0 "mm_validators m"]
    by (simp add: multisig_verify_def quorum_signer_def Let_def)
qed

theorem multisig_verify_quorum_witness:
  "multisig_verify sample_hash sample_secp (\<lambda>_. 0) sample_multisig = Inr () \<and>
   1 \<le> card {v \<in> set (mm_validators sample_multisig). \<exists>s \<in> set (mm_signatures sample_multisig).
     quorum_signer sample_hash sample_secp (\<lambda>_. 0) sample_multisig s = Some v}"
proof -
  have "multisig_verify sample_hash sample_secp (\<lambda>_. 0) sample_multisig = Inr ()"
    using multisig_verify_quorum [of sample_hash sample_secp "\<lambda>_. 0" sample_multisig] sample_quorum by blast
  moreover have "distinct (mm_validators sample_multisig)" "unat (mm_threshold sample_multisig) = 1"
    by (simp_all add: sample_multisig_def)
  ultimately show ?thesis
    using multisig_verify_quorum [of sample_hash sample_secp "\<lambda>_. 0" sample_multisig] by simp
qed

text \<open>
  The metadata of a quorum round-trips: what \<^verbatim>\<open>write_to\<close> produces for at least one well-formed
  signature is parsed back to the same metadata, and every metadata that is parsed has at least one
  signature and only well-formed ones.
\<close>

theorem metadata_roundtrip:
  "(md_validator_signatures m \<noteq> [] \<and> list_all ecdsa_valid (md_validator_signatures m) \<longrightarrow>
      metadata_try_from (to_vec metadata_write_to m) = Inr m) \<and>
   (metadata_try_from bs = Inr m' \<longrightarrow>
      md_validator_signatures m' \<noteq> [] \<and> list_all ecdsa_valid (md_validator_signatures m') \<and>
      length bs = SIGNATURES_OFFSET + SIGNATURE_LENGTH * length (md_validator_signatures m'))"
proof (intro conjI impI; (elim conjE)?)
  assume "md_validator_signatures m \<noteq> []" and "list_all ecdsa_valid (md_validator_signatures m)"
  then show "metadata_try_from (to_vec metadata_write_to m) = Inr m" by (rule metadata_read_back)
next
  assume r: "metadata_try_from bs = Inr m'"
  then have l: "length (md_validator_signatures m') = (length bs - SIGNATURES_OFFSET) div SIGNATURE_LENGTH"
    "list_all ecdsa_valid (md_validator_signatures m')"
    by (auto simp: metadata_try_from_def Let_def result_simps dest: read_signatures_valid)
  from r have b: "\<not> length bs < SIGNATURES_OFFSET + SIGNATURE_LENGTH"
    "(length bs - SIGNATURES_OFFSET) mod SIGNATURE_LENGTH = 0"
    by (auto simp: metadata_try_from_def Let_def result_simps)
  show "list_all ecdsa_valid (md_validator_signatures m')" by (rule l(2))
  show len: "length bs = SIGNATURES_OFFSET + SIGNATURE_LENGTH * length (md_validator_signatures m')"
    using b l(1) by (auto simp: SIGNATURES_OFFSET_def SIGNATURE_LENGTH_def)
  show "md_validator_signatures m' \<noteq> []" using b(1) len by (auto simp: SIGNATURE_LENGTH_def)
qed

theorem metadata_roundtrip_witness:
  "metadata_try_from (to_vec metadata_write_to
     \<lparr>md_origin_merkle_tree_hook = 1, md_merkle_root = 2, md_merkle_index = 3,
      md_validator_signatures = mm_signatures sample_multisig\<rparr>) =
   Inr \<lparr>md_origin_merkle_tree_hook = 1, md_merkle_root = 2, md_merkle_index = 3,
      md_validator_signatures = mm_signatures sample_multisig\<rparr>"
  using metadata_roundtrip [of "\<lparr>md_origin_merkle_tree_hook = 1, md_merkle_root = 2, md_merkle_index = 3,
      md_validator_signatures = mm_signatures sample_multisig\<rparr>"]
  by (simp add: sample_multisig_def ecdsa_valid_def sample_signature_def)

end
