(* ===== verification/Multisig_Ism.thy ===== *)
theory Multisig_Ism
  imports Multisig
begin

text \<open>
  The security module program \<^verbatim>\<open>programs/ism/multisig-ism-message-id\<close>: the interface
  \<^verbatim>\<open>libraries/multisig-ism/src/interface.rs\<close>, the accounts (\<^verbatim>\<open>accounts.rs\<close>), the instructions
  (\<^verbatim>\<open>instruction.rs\<close>) and every handler of \<^verbatim>\<open>processor.rs\<close>. A message is accepted when a quorum of the
  validators stored for its origin signed the checkpoint that carries its id.
\<close>

section \<open>Instructions\<close>

datatype multisig_ism_instruction =
    ValidatorsAndThreshold bytes
  | ValidatorsAndThresholdAccountMetas bytes

definition VALIDATORS_AND_THRESHOLD_DISCRIMINATOR :: bytes where
  "VALIDATORS_AND_THRESHOLD_DISCRIMINATOR = [82, 96, 5, 220, 241, 173, 13, 50]"

definition VALIDATORS_AND_THRESHOLD_ACCOUNT_METAS_DISCRIMINATOR :: bytes where
  "VALIDATORS_AND_THRESHOLD_ACCOUNT_METAS_DISCRIMINATOR = [113, 7, 132, 85, 239, 247, 157, 204]"

primrec multisig_encode :: "multisig_ism_instruction \<Rightarrow> bytes exec" where
  "multisig_encode (ValidatorsAndThreshold message) =
     Inr (VALIDATORS_AND_THRESHOLD_DISCRIMINATOR @ message)"
| "multisig_encode (ValidatorsAndThresholdAccountMetas message) =
     Inr (VALIDATORS_AND_THRESHOLD_ACCOUNT_METAS_DISCRIMINATOR @ message)"

definition multisig_decode :: "bytes \<Rightarrow> multisig_ism_instruction exec" where
  "multisig_decode buf =
     require (\<not> length buf < DISCRIMINATOR_LENGTH) (Err InvalidInstructionData) (
     let discriminator = take DISCRIMINATOR_LENGTH buf; rest = drop DISCRIMINATOR_LENGTH buf in
     if discriminator = VALIDATORS_AND_THRESHOLD_DISCRIMINATOR then Inr (ValidatorsAndThreshold rest)
     else if discriminator = VALIDATORS_AND_THRESHOLD_ACCOUNT_METAS_DISCRIMINATOR
     then Inr (ValidatorsAndThresholdAccountMetas rest)
     else Inl (Err InvalidInstructionData))"

definition ser_vt :: "validators_and_threshold \<Rightarrow> bytes" where
  "ser_vt c = ser_vec ser_h160 (vt_validators c) @ ser_u8 (vt_threshold c)"

definition de_vt :: "validators_and_threshold de" where
  "de_vt r =
     rbind (de_vec de_h160 r) (\<lambda>(validators, r).
     rbind (de_u8 r) (\<lambda>(threshold, r).
     Inr (\<lparr>vt_validators = validators, vt_threshold = threshold\<rparr>, r)))"

definition vt_size_ok :: "validators_and_threshold \<Rightarrow> bool" where
  "vt_size_ok c \<longleftrightarrow> length (vt_validators c) < 2 ^ 32"

record domained =
  dd_domain :: u32
  dd_data :: validators_and_threshold

datatype msig_instruction =
    MsInitialize
  | SetValidatorsAndThreshold domained
  | MsGetOwner
  | MsTransferOwnership "pubkey option"

primrec ser_msig_instruction :: "msig_instruction \<Rightarrow> bytes" where
  "ser_msig_instruction MsInitialize = ser_u8 0"
| "ser_msig_instruction (SetValidatorsAndThreshold d) = ser_u8 1 @ ser_u32 (dd_domain d) @ ser_vt (dd_data d)"
| "ser_msig_instruction MsGetOwner = ser_u8 2"
| "ser_msig_instruction (MsTransferOwnership k) = ser_u8 3 @ ser_option ser_h256 k"

definition de_msig_instruction :: "msig_instruction de" where
  "de_msig_instruction r =
     rbind (de_u8 r) (\<lambda>(tag, r).
     if tag = 0 then Inr (MsInitialize, r)
     else if tag = 1 then
       rbind (de_u32 r) (\<lambda>(domain, r).
       rbind (de_vt r) (\<lambda>(data, r).
       Inr (SetValidatorsAndThreshold \<lparr>dd_domain = domain, dd_data = data\<rparr>, r)))
     else if tag = 2 then Inr (MsGetOwner, r)
     else if tag = 3 then rbind (de_option de_h256 r) (\<lambda>(k, r). Inr (MsTransferOwnership k, r))
     else Inl InvalidData)"

fun msig_instruction_valid :: "msig_instruction \<Rightarrow> bool" where
  "msig_instruction_valid (SetValidatorsAndThreshold d) \<longleftrightarrow> vt_size_ok (dd_data d)"
| "msig_instruction_valid _ \<longleftrightarrow> True"

definition msig_decode :: "bytes \<Rightarrow> msig_instruction exec" where
  "msig_decode data = discriminator_decode PROGRAM_INSTRUCTION_DISCRIMINATOR de_msig_instruction data"

section \<open>Accounts\<close>

definition access_control_seeds :: "bytes list" where
  "access_control_seeds = [str_bytes ''multisig_ism_message_id'', str_bytes ''-'', str_bytes ''access_control'']"

definition domain_data_seeds :: "u32 \<Rightarrow> bytes list" where
  "domain_data_seeds domain =
     [str_bytes ''multisig_ism_message_id'', str_bytes ''-'', to_le_bytes 4 domain, str_bytes ''-'',
      str_bytes ''domain_data'']"

record domain_data =
  dom_bump_seed :: u8
  dom_validators_and_threshold :: validators_and_threshold

definition ser_domain_data :: "domain_data \<Rightarrow> bytes" where
  "ser_domain_data d = ser_u8 (dom_bump_seed d) @ ser_vt (dom_validators_and_threshold d)"

definition de_domain_data :: "domain_data de" where
  "de_domain_data r =
     rbind (de_u8 r) (\<lambda>(bump, r).
     rbind (de_vt r) (\<lambda>(vt, r).
     Inr (\<lparr>dom_bump_seed = bump, dom_validators_and_threshold = vt\<rparr>, r)))"

record access_control_data =
  acd_bump_seed :: u8
  acd_owner :: "pubkey option"

definition ser_acd :: "access_control_data \<Rightarrow> bytes" where
  "ser_acd d = ser_u8 (acd_bump_seed d) @ ser_option ser_h256 (acd_owner d)"

definition de_acd :: "access_control_data de" where
  "de_acd r =
     rbind (de_u8 r) (\<lambda>(bump, r).
     rbind (de_option de_h256 r) (\<lambda>(owner, r).
     Inr (\<lparr>acd_bump_seed = bump, acd_owner = owner\<rparr>, r)))"

definition acd_size :: "access_control_data \<Rightarrow> nat" where
  "acd_size d = 1 + 1 + 32"

definition acd_set_owner :: "pubkey option \<Rightarrow> access_control_data \<Rightarrow> access_control_data exec" where
  "acd_set_owner new_owner d = Inr (d\<lparr>acd_owner := new_owner\<rparr>)"

section \<open>Handlers\<close>

text \<open>\<^verbatim>\<open>ModuleType::MessageIdMultisig as u32\<close>.\<close>

definition ISM_TYPE :: u32 where
  "ISM_TYPE = 5"

definition msig_initialize :: "runtime \<Rightarrow> pubkey \<Rightarrow> account_info list \<Rightarrow> vm \<Rightarrow> vm exec" where
  "msig_initialize rt program_id accounts vm =
     rbind (next_account_info accounts) (\<lambda>(owner_account, accounts).
     require (ai_is_signer owner_account) (Err MissingRequiredSignature) (
     rbind (next_account_info accounts) (\<lambda>(access_control_pda_account, accounts).
     let (access_control_pda_key, bump_seed) = rt_find_program_address rt access_control_seeds program_id in
     require (ai_key access_control_pda_account = access_control_pda_key) (multisig_err AccountOutOfOrder) (
     rbind (borrow_data access_control_pda_account vm) (\<lambda>d.
     rbind (case fetch_data (lift_de de_acd) d of
              Inr (Some _) \<Rightarrow> Inl (multisig_err AlreadyInitialized)
            | Inr None \<Rightarrow> Inr ()
            | Inl (Err _) \<Rightarrow> Inr ()
            | Inl Panic \<Rightarrow> Inl Panic) (\<lambda>_.
     rbind (next_account_info accounts) (\<lambda>(system_program_account, accounts).
     require (ai_key system_program_account = SYSTEM_PROGRAM_ID) (multisig_err AccountOutOfOrder) (
     let access_control_account = \<lparr>acd_bump_seed = bump_seed, acd_owner = Some (ai_key owner_account)\<rparr> in
     rbind (create_pda_account rt owner_account (account_size acd_size access_control_account) program_id
              system_program_account access_control_pda_account (access_control_seeds @ [[bump_seed]]) vm) (\<lambda>vm.
     store ser_acd access_control_account access_control_pda_account False vm)))))))))"

definition msig_validators_and_threshold ::
  "runtime \<Rightarrow> pubkey \<Rightarrow> account_info list \<Rightarrow> u32 \<Rightarrow> vm \<Rightarrow> validators_and_threshold exec" where
  "msig_validators_and_threshold rt program_id accounts domain vm =
     rbind (next_account_info accounts) (\<lambda>(domain_pda_account, accounts).
     require (owner_of domain_pda_account vm = program_id) (multisig_err ProgramIdNotOwner) (
     rbind (borrow_data domain_pda_account vm) (\<lambda>d.
     rbind (fetch_data (lift_de de_domain_data) d) (\<lambda>o'.
     rbind (ok_or o' (multisig_err AccountNotInitialized)) (\<lambda>domain_data.
     rbind (create_program_address rt (domain_data_seeds domain @ [[dom_bump_seed domain_data]]) program_id)
       (\<lambda>domain_pda_key.
     require (ai_key domain_pda_account = domain_pda_key) (multisig_err AccountOutOfOrder) (
     Inr (dom_validators_and_threshold domain_data))))))))"

definition msig_verify ::
  "keccak \<Rightarrow> secp256k1 \<Rightarrow> runtime \<Rightarrow> pubkey \<Rightarrow> account_info list \<Rightarrow> bytes \<Rightarrow> bytes \<Rightarrow> vm \<Rightarrow> unit exec" where
  "msig_verify kc secp rt program_id accounts metadata_bytes message_bytes vm =
     rbind (map_err (\<lambda>e. multisig_err e) (metadata_try_from metadata_bytes)) (\<lambda>metadata.
     rbind (map_err (\<lambda>_. Err InvalidArgument) (message_read_from message_bytes)) (\<lambda>(message, _).
     rbind (msig_validators_and_threshold rt program_id accounts (msg_origin message) vm) (\<lambda>vt.
     let multisig_ism =
       \<lparr>mm_signed_data =
          \<lparr>cpm_checkpoint =
             \<lparr>cp_merkle_tree_hook_address = md_origin_merkle_tree_hook metadata,
              cp_mailbox_domain = msg_origin message,
              cp_root = md_merkle_root metadata,
              cp_index = msg_nonce message\<rparr>,
           cpm_message_id = hyperlane_message_id kc message\<rparr>,
        mm_signatures = md_validator_signatures metadata,
        mm_validators = vt_validators vt,
        mm_threshold = vt_threshold vt\<rparr> in
     map_err (\<lambda>f. case f of Err e \<Rightarrow> multisig_err (multisig_error_from e) | Panic \<Rightarrow> Panic)
       (multisig_verify kc secp (checkpoint_signing_hash kc) multisig_ism))))"

definition readonly_meta :: "pubkey \<Rightarrow> account_meta" where
  "readonly_meta k = \<lparr>am_pubkey = k, am_is_signer = False, am_is_writable = False\<rparr>"

definition msig_verify_account_metas :: "runtime \<Rightarrow> pubkey \<Rightarrow> bytes \<Rightarrow> account_meta list exec" where
  "msig_verify_account_metas rt program_id message_bytes =
     rbind (map_err (\<lambda>_. Err InvalidArgument) (message_read_from message_bytes)) (\<lambda>(message, _).
     Inr [readonly_meta (fst (rt_find_program_address rt (domain_data_seeds (msg_origin message)) program_id))])"

text \<open>The \<^verbatim>\<open>try_to_vec\<close> of a configuration that was deserialized does not fail: its list is short enough.\<close>

definition msig_get_validators_and_threshold ::
  "runtime \<Rightarrow> pubkey \<Rightarrow> account_info list \<Rightarrow> u32 \<Rightarrow> vm \<Rightarrow> vm exec" where
  "msig_get_validators_and_threshold rt program_id accounts domain vm =
     rbind (msig_validators_and_threshold rt program_id accounts domain vm) (\<lambda>vt.
     rbind (try_to_vec vt_size_ok (ser_simulation ser_vt) vt) (\<lambda>bs.
     Inr (set_return_data program_id bs vm)))"

definition msig_get_validators_and_threshold_account_metas ::
  "runtime \<Rightarrow> pubkey \<Rightarrow> u32 \<Rightarrow> account_meta list exec" where
  "msig_get_validators_and_threshold_account_metas rt program_id domain =
     Inr [readonly_meta (fst (rt_find_program_address rt (domain_data_seeds domain) program_id))]"

definition msig_access_control_data ::
  "runtime \<Rightarrow> pubkey \<Rightarrow> account_info \<Rightarrow> vm \<Rightarrow> access_control_data exec" where
  "msig_access_control_data rt program_id access_control_pda_account vm =
     rbind (borrow_data access_control_pda_account vm) (\<lambda>d.
     rbind (fetch_data (lift_de de_acd) d) (\<lambda>o'.
     rbind (ok_or o' (multisig_err AccountNotInitialized)) (\<lambda>access_control_data.
     rbind (create_program_address rt (access_control_seeds @ [[acd_bump_seed access_control_data]]) program_id)
       (\<lambda>access_control_pda_key.
     require (ai_key access_control_pda_account = access_control_pda_key) (multisig_err AccountOutOfOrder) (
     require (owner_of access_control_pda_account vm = program_id) (multisig_err ProgramIdNotOwner) (
     Inr access_control_data))))))"

text \<open>The bump seed of the domain account: the stored one, or that of the account created now.\<close>

definition msig_domain_account ::
  "runtime \<Rightarrow> pubkey \<Rightarrow> account_info \<Rightarrow> account_info \<Rightarrow> account_info list \<Rightarrow> u32 \<Rightarrow> vm \<Rightarrow> (u8 \<times> vm) exec" where
  "msig_domain_account rt program_id owner_account domain_pda_account accounts domain vm =
     rbind (borrow_data domain_pda_account vm) (\<lambda>d.
     let create =
       (let (domain_pda_key, domain_pda_bump) = rt_find_program_address rt (domain_data_seeds domain) program_id in
        require (ai_key domain_pda_account = domain_pda_key) (multisig_err AccountOutOfOrder) (
        rbind (next_account_info accounts) (\<lambda>(system_program_account, accounts).
        require (ai_key system_program_account = SYSTEM_PROGRAM_ID) (multisig_err AccountOutOfOrder) (
        rbind (create_pda_account rt owner_account 1024 program_id system_program_account domain_pda_account
                 (domain_data_seeds domain @ [[domain_pda_bump]]) vm) (\<lambda>vm.
        Inr (domain_pda_bump, vm)))))) in
     case fetch_data (lift_de de_domain_data) d of
       Inr (Some domain_data) \<Rightarrow>
         rbind (create_program_address rt (domain_data_seeds domain @ [[dom_bump_seed domain_data]]) program_id)
           (\<lambda>domain_pda_key.
         require (ai_key domain_pda_account = domain_pda_key) (multisig_err AccountOutOfOrder) (
         require (owner_of domain_pda_account vm = program_id) (multisig_err ProgramIdNotOwner) (
         Inr (dom_bump_seed domain_data, vm))))
     | Inr None \<Rightarrow> create
     | Inl (Err _) \<Rightarrow> create
     | Inl Panic \<Rightarrow> Inl Panic)"

definition msig_set_validators_and_threshold ::
  "runtime \<Rightarrow> pubkey \<Rightarrow> account_info list \<Rightarrow> domained \<Rightarrow> vm \<Rightarrow> vm exec" where
  "msig_set_validators_and_threshold rt program_id accounts config vm =
     rbind (vt_validate (dd_data config)) (\<lambda>_.
     rbind (next_account_info accounts) (\<lambda>(owner_account, accounts).
     rbind (next_account_info accounts) (\<lambda>(access_control_pda_account, accounts).
     rbind (msig_access_control_data rt program_id access_control_pda_account vm) (\<lambda>access_control_data.
     rbind (ensure_owner_signer (acd_owner access_control_data) owner_account) (\<lambda>_.
     rbind (next_account_info accounts) (\<lambda>(domain_pda_account, accounts).
     rbind (msig_domain_account rt program_id owner_account domain_pda_account accounts (dd_domain config) vm)
       (\<lambda>(bump_seed, vm).
     store ser_domain_data \<lparr>dom_bump_seed = bump_seed, dom_validators_and_threshold = dd_data config\<rparr>
       domain_pda_account True vm)))))))"

definition msig_get_owner :: "runtime \<Rightarrow> pubkey \<Rightarrow> account_info list \<Rightarrow> vm \<Rightarrow> vm exec" where
  "msig_get_owner rt program_id accounts vm =
     rbind (next_account_info accounts) (\<lambda>(access_control_pda_account, accounts).
     rbind (msig_access_control_data rt program_id access_control_pda_account vm) (\<lambda>access_control_data.
     Inr (set_return_data program_id (ser_simulation (ser_option ser_h256) (acd_owner access_control_data)) vm)))"

definition msig_transfer_ownership ::
  "runtime \<Rightarrow> pubkey \<Rightarrow> account_info list \<Rightarrow> pubkey option \<Rightarrow> vm \<Rightarrow> vm exec" where
  "msig_transfer_ownership rt program_id accounts new_owner vm =
     rbind (next_account_info accounts) (\<lambda>(owner_account, accounts).
     rbind (next_account_info accounts) (\<lambda>(access_control_pda_account, accounts).
     rbind (msig_access_control_data rt program_id access_control_pda_account vm) (\<lambda>access_control_data.
     rbind (ac_transfer_ownership acd_owner acd_set_owner owner_account new_owner access_control_data)
       (\<lambda>access_control_data.
     store ser_acd access_control_data access_control_pda_account False vm))))"

text \<open>
  The instruction data is tried as an instruction of each interface in turn. Neither of the first two
  decoders panics.
\<close>

definition msig_process_instruction ::
  "keccak \<Rightarrow> secp256k1 \<Rightarrow> runtime \<Rightarrow> pubkey \<Rightarrow> account_info list \<Rightarrow> bytes \<Rightarrow> vm \<Rightarrow> vm exec" where
  "msig_process_instruction kc secp rt program_id accounts instruction_data vm =
     (case ism_decode instruction_data of
        Inr IsmType \<Rightarrow> Inr (set_return_data program_id (ser_simulation ser_u32 ISM_TYPE) vm)
      | Inr (IsmVerify v) \<Rightarrow>
          rbind (msig_verify kc secp rt program_id accounts (vi_metadata v) (vi_message v) vm) (\<lambda>_. Inr vm)
      | Inr (IsmVerifyAccountMetas v) \<Rightarrow>
          rbind (msig_verify_account_metas rt program_id (vi_message v)) (\<lambda>metas.
          Inr (set_return_data program_id (ser_simulation (ser_vec ser_account_meta) metas) vm))
      | Inl _ \<Rightarrow>
     (case multisig_decode instruction_data of
        Inr (ValidatorsAndThreshold message_bytes) \<Rightarrow>
          rbind (map_err (\<lambda>_. Err InvalidArgument) (message_read_from message_bytes)) (\<lambda>(message, _).
          msig_get_validators_and_threshold rt program_id accounts (msg_origin message) vm)
      | Inr (ValidatorsAndThresholdAccountMetas message_bytes) \<Rightarrow>
          rbind (map_err (\<lambda>_. Err InvalidArgument) (message_read_from message_bytes)) (\<lambda>(message, _).
          rbind (msig_get_validators_and_threshold_account_metas rt program_id (msg_origin message)) (\<lambda>metas.
          Inr (set_return_data program_id (ser_simulation (ser_vec ser_account_meta) metas) vm)))
      | Inl _ \<Rightarrow>
     rbind (msig_decode instruction_data) (\<lambda>ix.
     case ix of
       MsInitialize \<Rightarrow> msig_initialize rt program_id accounts vm
     | SetValidatorsAndThreshold config \<Rightarrow> msig_set_validators_and_threshold rt program_id accounts config vm
     | MsGetOwner \<Rightarrow> msig_get_owner rt program_id accounts vm
     | MsTransferOwnership new_owner \<Rightarrow> msig_transfer_ownership rt program_id accounts new_owner vm)))"

end
