(* ===== verification/Multisig_Correct.thy ===== *)
theory Multisig_Correct
  imports Multisig_Ism
begin

text \<open>
  Correctness of the multisig security module: its data formats, that only the owner configures it,
  that every configuration it stores is a validated one over all runs of the program, and that it
  accepts a message only if a quorum of the stored validators signed it.
\<close>

section \<open>Data formats\<close>

interpretation borsh_validators: borsh "ser_vec ser_h160" "de_vec de_h160"
  "\<lambda>vs. length vs < 2 ^ 32 \<and> list_all always vs"
  by (rule borsh_vec) (rule borsh_h160.borsh_axioms)

interpretation borsh_vt: borsh ser_vt de_vt vt_size_ok
  by unfold_locales
     (auto simp: ser_vt_def de_vt_def vt_size_ok_def result_simps borsh_iffs borsh_validators.de_iff
        list_all_iff borsh_u8.de_ser borsh_validators.de_ser)

interpretation borsh_domain_data: borsh ser_domain_data de_domain_data
  "\<lambda>d. vt_size_ok (dom_validators_and_threshold d)"
  by unfold_locales
     (auto simp: ser_domain_data_def de_domain_data_def result_simps borsh_iffs borsh_vt.de_iff
        borsh_u8.de_ser borsh_vt.de_ser)

interpretation borsh_acd: borsh ser_acd de_acd always
  by unfold_locales (auto simp: ser_acd_def de_acd_def result_simps borsh_iffs borsh_u8.de_ser
      borsh_pubkey_option.de_ser)

interpretation borsh_msig_instruction: borsh ser_msig_instruction de_msig_instruction msig_instruction_valid
proof
  fix x rest
  assume "msig_instruction_valid x"
  then show "de_msig_instruction (ser_msig_instruction x @ rest) = Inr (x, rest)"
    by (cases x) (simp_all add: de_msig_instruction_def borsh_u8.de_ser borsh_u32.de_ser
        borsh_vt.de_ser borsh_pubkey_option.de_ser)
next
  fix bs x rest
  assume "de_msig_instruction bs = Inr (x, rest)"
  then show "bs = ser_msig_instruction x @ rest \<and> msig_instruction_valid x"
    by (auto simp: de_msig_instruction_def result_simps borsh_iffs borsh_vt.de_iff split: if_splits)
qed

interpretation multisig_codec: instruction_codec multisig_encode multisig_decode
proof
  fix i bs
  assume "multisig_encode i = Inr bs"
  then show "multisig_decode bs = Inr i"
    by (cases i)
       (auto simp: multisig_decode_def VALIDATORS_AND_THRESHOLD_DISCRIMINATOR_def
          VALIDATORS_AND_THRESHOLD_ACCOUNT_METAS_DISCRIMINATOR_def DISCRIMINATOR_LENGTH_def Let_def)
qed

interpretation acd_ac: access_control acd_owner acd_set_owner
  by unfold_locales (simp add: acd_set_owner_def)

section \<open>What the handlers read\<close>

lemma holds_domain_data_unique:
  assumes "holds ser_domain_data x k l" and "vt_size_ok (dom_validators_and_threshold x)"
    and "fetch_data (lift_de de_domain_data) (acc_data (l k)) = Inr o'"
  shows "o' = Some x"
proof -
  obtain tail where d: "acc_data (l k) = ser_bool True @ ser_domain_data x @ tail"
    using assms(1) by (auto simp: holds_def)
  have "ser_bool True = [1]" by (simp add: ser_bool_def)
  then show ?thesis
    using assms(3) borsh_domain_data.de_ser [of x tail, OF assms(2)] borsh_bool.de_ser [of True "ser_domain_data x @ tail"]
    by (auto simp: fetch_data_def d lift_de_def borsh_err_def)
qed

lemma msig_validators_and_threshold_Inr:
  assumes "msig_validators_and_threshold rt pid accounts domain vm = Inr vt"
  shows "\<exists>i rest bump. accounts = i # rest \<and> owner_of i vm = pid \<and>
    fetch_data (lift_de de_domain_data) (acc_data (vm_ledger vm (ai_key i))) =
      Inr (Some \<lparr>dom_bump_seed = bump, dom_validators_and_threshold = vt\<rparr>) \<and>
    rt_create_program_address rt (domain_data_seeds domain @ [[bump]]) pid = Inr (ai_key i)"
proof -
  have "on_success (msig_validators_and_threshold rt pid accounts domain vm) (\<lambda>vt.
    \<exists>i rest bump. accounts = i # rest \<and> owner_of i vm = pid \<and>
    fetch_data (lift_de de_domain_data) (acc_data (vm_ledger vm (ai_key i))) =
      Inr (Some \<lparr>dom_bump_seed = bump, dom_validators_and_threshold = vt\<rparr>) \<and>
    rt_create_program_address rt (domain_data_seeds domain @ [[bump]]) pid = Inr (ai_key i))"
    unfolding msig_validators_and_threshold_def
  proof (intro success_intros)
    fix r rest d o' k and i :: account_info and x :: domain_data
    assume "next_account_info accounts = Inr r" "r = (i, rest)" "owner_of i vm = pid"
      "borrow_data i vm = Inr d" "fetch_data (lift_de de_domain_data) d = Inr o'"
      "ok_or o' (multisig_err AccountNotInitialized) = Inr x"
      "create_program_address rt (domain_data_seeds domain @ [[dom_bump_seed x]]) pid = Inr k" "ai_key i = k"
    then show "\<exists>i rest bump. accounts = i # rest \<and> owner_of i vm = pid \<and>
      fetch_data (lift_de de_domain_data) (acc_data (vm_ledger vm (ai_key i))) =
        Inr (Some \<lparr>dom_bump_seed = bump, dom_validators_and_threshold = dom_validators_and_threshold x\<rparr>) \<and>
      rt_create_program_address rt (domain_data_seeds domain @ [[bump]]) pid = Inr (ai_key i)"
      by (intro exI [of _ i] exI [of _ rest] exI [of _ "dom_bump_seed x"])
         (simp add: result_simps)
  qed
  then show ?thesis using assms by (rule on_successD)
qed

section \<open>Configurations\<close>

text \<open>What \<^verbatim>\<open>validate\<close> checks.\<close>

definition vt_ok :: "validators_and_threshold \<Rightarrow> bool" where
  "vt_ok c \<longleftrightarrow> 0 < vt_threshold c \<and> unat (vt_threshold c) \<le> length (vt_validators c) \<and>
     distinct (vt_validators c)"

text \<open>
  The addresses of the domain accounts and of the access control account do not collide: they are
  hashes of different seeds.
\<close>

definition msig_addresses_distinct :: "runtime \<Rightarrow> pubkey \<Rightarrow> bool" where
  "msig_addresses_distinct rt pid \<longleftrightarrow>
     (\<forall>d b b' k. rt_create_program_address rt (domain_data_seeds d @ [[b]]) pid = Inr k \<longrightarrow>
        rt_create_program_address rt (access_control_seeds @ [[b']]) pid \<noteq> Inr k)"

definition domain_address :: "runtime \<Rightarrow> pubkey \<Rightarrow> pubkey \<Rightarrow> bool" where
  "domain_address rt pid k \<longleftrightarrow>
     (\<exists>d b. rt_create_program_address rt (domain_data_seeds d @ [[b]]) pid = Inr k)"

text \<open>Every domain account of the program holds a validated configuration.\<close>

definition configured :: "domain_data \<Rightarrow> bool" where
  "configured x \<longleftrightarrow> vt_size_ok (dom_validators_and_threshold x) \<and> vt_ok (dom_validators_and_threshold x)"

definition msig_inv :: "runtime \<Rightarrow> pubkey \<Rightarrow> vm \<Rightarrow> bool" where
  "msig_inv rt pid vm \<longleftrightarrow>
     (\<forall>k. domain_address rt pid k \<and> acc_owner (vm_ledger vm k) = pid \<longrightarrow>
        (\<exists>x. holds ser_domain_data x k (vm_ledger vm) \<and> configured x))"

lemma msig_inv_step:
  assumes "msig_inv rt pid vm" and "only_changes k vm vm'"
    and "domain_address rt pid k \<Longrightarrow> acc_owner (vm_ledger vm' k) = pid \<Longrightarrow>
      \<exists>x. holds ser_domain_data x k (vm_ledger vm') \<and> configured x"
  shows "msig_inv rt pid vm'"
  unfolding msig_inv_def
proof (intro allI impI, elim conjE)
  fix j
  assume j: "domain_address rt pid j" "acc_owner (vm_ledger vm' j) = pid"
  show "\<exists>x. holds ser_domain_data x j (vm_ledger vm') \<and> configured x"
  proof (cases "j = k")
    case True
    then show ?thesis using assms(3) j by simp
  next
    case False
    then have same: "same_data (vm_ledger vm) (vm_ledger vm') j"
      using assms(2) by (simp add: only_changes_def)
    then obtain x where h: "holds ser_domain_data x j (vm_ledger vm)" and x: "configured x"
      using assms(1) j by (auto simp: msig_inv_def same_data_def)
    from holds_same_data [OF h same] x show ?thesis by blast
  qed
qed

lemma domain_not_access_control:
  assumes "msig_addresses_distinct rt pid"
    and "rt_create_program_address rt (access_control_seeds @ [[b]]) pid = Inr k"
  shows "\<not> domain_address rt pid k"
  using assms by (auto simp: msig_addresses_distinct_def domain_address_def)

section \<open>Preservation\<close>

lemma msig_initialize_inv:
  assumes sys: "system_program_ok rt" and pda: "pda_canonical rt" and dist: "msig_addresses_distinct rt pid"
    and inv: "msig_inv rt pid vm"
  shows "on_success (msig_initialize rt pid accounts vm) (msig_inv rt pid)"
  unfolding msig_initialize_def
proof (intro success_intros on_successI)
  fix p1 p2 p3 r1 r2 r3 d u v key bump and own ac sp :: account_info and acd :: access_control_data
    and vm1 vm2 :: vm
  assume f: "rt_find_program_address rt access_control_seeds pid = v" "v = (key, bump)" and k: "ai_key ac = key"
    and acd: "\<lparr>acd_bump_seed = bump, acd_owner = Some (ai_key own)\<rparr> = acd"
    and c: "create_pda_account rt own (account_size acd_size acd) pid sp ac (access_control_seeds @ [[bump]]) vm = Inr vm1"
    and s: "store ser_acd acd ac False vm1 = Inr vm2"
  have small: "account_size acd_size acd < 2 ^ 64" by (simp add: account_size_def acd_size_def)
  have "only_changes (ai_key ac) vm vm2"
    using create_pda_account_Inr [OF sys c small] store_holds [OF s] only_changes_trans by blast
  moreover have "\<not> domain_address rt pid (ai_key ac)"
    using domain_not_access_control [OF dist pda_canonicalD [OF pda f(1) [unfolded f(2)]]] k by simp
  ultimately show "msig_inv rt pid vm2" by (intro msig_inv_step [OF inv]) auto
qed

lemma msig_access_control_data_Inr:
  assumes "msig_access_control_data rt pid i vm = Inr x"
  shows "rt_create_program_address rt (access_control_seeds @ [[acd_bump_seed x]]) pid = Inr (ai_key i) \<and>
    owner_of i vm = pid \<and> holds ser_acd x (ai_key i) (vm_ledger vm)"
  using assms
  by (auto simp: msig_access_control_data_def result_simps fetch_data_def borsh_iffs borsh_acd.de_iff
      holds_def split: if_splits)

lemma msig_transfer_ownership_inv:
  assumes dist: "msig_addresses_distinct rt pid" and inv: "msig_inv rt pid vm"
  shows "on_success (msig_transfer_ownership rt pid accounts n vm) (msig_inv rt pid)"
  unfolding msig_transfer_ownership_def
proof (intro success_intros on_successI)
  fix p1 r1 p2 r2 and own ac :: account_info and x y :: access_control_data and vm1 :: vm
  assume a: "msig_access_control_data rt pid ac vm = Inr x"
    and s: "store ser_acd y ac False vm = Inr vm1"
  have "\<not> domain_address rt pid (ai_key ac)"
    using domain_not_access_control [OF dist] msig_access_control_data_Inr [OF a] by blast
  then show "msig_inv rt pid vm1"
    using store_holds [OF s] by (intro msig_inv_step [OF inv, of "ai_key ac"]) auto
qed

lemma msig_domain_account_Inr:
  assumes sys: "system_program_ok rt" and pda: "pda_canonical rt"
    and run: "msig_domain_account rt pid own i accounts domain vm = Inr (bump, vm')"
  shows "only_changes (ai_key i) vm vm' \<and> acc_owner (vm_ledger vm' (ai_key i)) = pid \<and>
    rt_create_program_address rt (domain_data_seeds domain @ [[bump]]) pid = Inr (ai_key i)"
proof -
  let ?create = "let (domain_pda_key, domain_pda_bump) = rt_find_program_address rt (domain_data_seeds domain) pid in
        require (ai_key i = domain_pda_key) (multisig_err AccountOutOfOrder) (
        rbind (next_account_info accounts) (\<lambda>(system_program_account, accounts).
        require (ai_key system_program_account = SYSTEM_PROGRAM_ID) (multisig_err AccountOutOfOrder) (
        rbind (create_pda_account rt own 1024 pid system_program_account i
                 (domain_data_seeds domain @ [[domain_pda_bump]]) vm) (\<lambda>vm.
        Inr (domain_pda_bump, vm)))))"
  have create: "?create = Inr (bump, vm') \<Longrightarrow> ?thesis"
    using pda create_pda_account_Inr [OF sys, where space = 1024]
    by (auto simp: Let_def result_simps pda_canonical_def split: prod.splits)
  show ?thesis
  proof (cases "fetch_data (lift_de de_domain_data) (acc_data (vm_ledger vm (ai_key i)))")
    case (Inl e)
    then show ?thesis using run
      by (cases e) (intro create, simp_all add: msig_domain_account_def result_simps Let_def)
  next
    case (Inr o')
    show ?thesis
    proof (cases o')
      case None
      then show ?thesis using run Inr by (intro create) (simp add: msig_domain_account_def result_simps Let_def)
    next
      case (Some x)
      then show ?thesis using run Inr
        by (auto simp: msig_domain_account_def result_simps Let_def owner_of_def)
    qed
  qed
qed


lemma msig_set_validators_and_threshold_facts:
  assumes sys: "system_program_ok rt" and pda: "pda_canonical rt"
  shows "on_success (msig_set_validators_and_threshold rt pid accounts config vm) (\<lambda>vm'.
    \<exists>own ac dom rest x bump. accounts = own # ac # dom # rest \<and>
      msig_access_control_data rt pid ac vm = Inr x \<and>
      acd_owner x = Some (ai_key own) \<and> ai_is_signer own \<and> vt_ok (dd_data config) \<and>
      rt_create_program_address rt (domain_data_seeds (dd_domain config) @ [[bump]]) pid = Inr (ai_key dom) \<and>
      holds ser_domain_data \<lparr>dom_bump_seed = bump, dom_validators_and_threshold = dd_data config\<rparr>
        (ai_key dom) (vm_ledger vm') \<and>
      acc_owner (vm_ledger vm' (ai_key dom)) = pid \<and> only_changes (ai_key dom) vm vm')"
  unfolding msig_set_validators_and_threshold_def
proof (intro success_intros on_successI)
  fix u p1 r1 p2 r2 u' p3 r3 dp bump and own ac dom :: account_info and x :: access_control_data
    and vm1 vm2 :: vm
  assume v: "vt_validate (dd_data config) = Inr u"
    and acc: "next_account_info accounts = Inr p1" "p1 = (own, r1)" "next_account_info r1 = Inr p2"
      "p2 = (ac, r2)" "next_account_info r2 = Inr p3" "p3 = (dom, r3)"
    and a: "msig_access_control_data rt pid ac vm = Inr x"
    and o: "ensure_owner_signer (acd_owner x) own = Inr u'"
    and d: "msig_domain_account rt pid own dom r3 (dd_domain config) vm = Inr dp" "dp = (bump, vm1)"
    and s: "store ser_domain_data \<lparr>dom_bump_seed = bump, dom_validators_and_threshold = dd_data config\<rparr>
       dom True vm1 = Inr vm2"
  note dom = msig_domain_account_Inr [OF sys pda d(1) [unfolded d(2)]]
  have "only_changes (ai_key dom) vm vm2" using dom store_holds [OF s] only_changes_trans by blast
  then show "\<exists>own ac dom rest x bump. accounts = own # ac # dom # rest \<and>
      msig_access_control_data rt pid ac vm = Inr x \<and>
      acd_owner x = Some (ai_key own) \<and> ai_is_signer own \<and> vt_ok (dd_data config) \<and>
      rt_create_program_address rt (domain_data_seeds (dd_domain config) @ [[bump]]) pid = Inr (ai_key dom) \<and>
      holds ser_domain_data \<lparr>dom_bump_seed = bump, dom_validators_and_threshold = dd_data config\<rparr>
        (ai_key dom) (vm_ledger vm2) \<and>
      acc_owner (vm_ledger vm2 (ai_key dom)) = pid \<and> only_changes (ai_key dom) vm vm2"
    using acc a o v dom store_holds [OF s]
    by (intro exI [of _ own] exI [of _ ac] exI [of _ dom] exI [of _ r3] exI [of _ x] exI [of _ bump])
       (simp add: result_simps acd_ac.ensure_owner_signer_iff vt_validate_iff vt_ok_def)
qed

lemma msig_set_validators_and_threshold_inv:
  assumes "system_program_ok rt" and "pda_canonical rt" and inv: "msig_inv rt pid vm"
    and size: "vt_size_ok (dd_data config)"
    and run: "msig_set_validators_and_threshold rt pid accounts config vm = Inr vm'"
  shows "msig_inv rt pid vm'"
proof -
  obtain bump and dom :: account_info where
    h: "holds ser_domain_data \<lparr>dom_bump_seed = bump, dom_validators_and_threshold = dd_data config\<rparr>
        (ai_key dom) (vm_ledger vm')" and ok: "vt_ok (dd_data config)"
    and c: "only_changes (ai_key dom) vm vm'"
    using on_successD [OF msig_set_validators_and_threshold_facts [OF assms(1,2)] run] by blast
  show ?thesis
    by (rule msig_inv_step [OF inv c]) (use h ok size in \<open>auto simp: configured_def\<close>)
qed

lemma msig_decode_valid:
  assumes "msig_decode data = Inr ix"
  shows "msig_instruction_valid ix"
proof -
  have "try_from_slice de_msig_instruction (drop DISCRIMINATOR_LENGTH data) = Inr ix"
    using assms by (auto simp: msig_decode_def discriminator_decode_def result_simps split: if_splits)
  then show ?thesis by (simp add: borsh_msig_instruction.try_from_slice_iff)
qed

lemma msig_inv_return [simp]: "msig_inv rt pid (set_return_data p bs vm) = msig_inv rt pid vm"
  by (simp add: msig_inv_def set_return_data_def)

lemma msig_views_inv:
  assumes "msig_inv rt pid vm"
  shows "on_success (msig_get_validators_and_threshold rt pid accounts domain vm) (msig_inv rt pid)"
    "on_success (msig_get_owner rt pid accounts vm) (msig_inv rt pid)"
  unfolding msig_get_validators_and_threshold_def msig_get_owner_def
  by (intro success_intros; simp add: assms)+

lemma msig_process_instruction_inv:
  assumes "system_program_ok rt" and "pda_canonical rt" and "msig_addresses_distinct rt pid"
    and inv: "msig_inv rt pid vm"
    and run: "msig_process_instruction kc secp rt pid accounts data vm = Inr vm'"
  shows "msig_inv rt pid vm'"
proof (cases "ism_decode data")
  case (Inr i)
  then show ?thesis
    using run inv by (cases i) (auto simp: msig_process_instruction_def result_simps)
next
  case ism: (Inl e)
  show ?thesis
  proof (cases "multisig_decode data")
    case (Inr i)
    then show ?thesis
      using run inv ism on_successD [OF msig_views_inv(1) [OF inv]]
      by (cases i) (auto simp: msig_process_instruction_def result_simps)
  next
    case (Inl e')
    obtain ix where ix: "msig_decode data = Inr ix"
      using run ism Inl by (auto simp: msig_process_instruction_def result_simps)
    note valid = msig_decode_valid [OF ix]
    show ?thesis
      using run ism Inl ix valid msig_set_validators_and_threshold_inv [OF assms(1,2) inv]
        on_successD [OF msig_initialize_inv [OF assms(1-3) inv]]
        on_successD [OF msig_transfer_ownership_inv [OF assms(3) inv]]
        on_successD [OF msig_views_inv(2) [OF inv]]
      by (cases ix) (auto simp: msig_process_instruction_def)
  qed
qed

section \<open>Runs\<close>

text \<open>Instructions of the program interleaved with other transactions.\<close>

inductive msig_run :: "keccak \<Rightarrow> secp256k1 \<Rightarrow> runtime \<Rightarrow> pubkey \<Rightarrow> vm \<Rightarrow> bool"
  for kc :: keccak and secp :: secp256k1 and rt :: runtime and pid :: pubkey where
  start: "(\<And>k. domain_address rt pid k \<Longrightarrow> acc_owner (vm_ledger vm k) \<noteq> pid) \<Longrightarrow> msig_run kc secp rt pid vm"
| instr: "msig_run kc secp rt pid vm \<Longrightarrow>
    msig_process_instruction kc secp rt pid accounts data vm = Inr vm' \<Longrightarrow> msig_run kc secp rt pid vm'"
| outside: "msig_run kc secp rt pid vm \<Longrightarrow> outside_step (domain_address rt pid) pid vm vm' \<Longrightarrow> msig_run kc secp rt pid vm'"

lemma msig_outside_inv:
  assumes inv: "msig_inv rt pid vm" and step: "outside_step (domain_address rt pid) pid vm vm'"
  shows "msig_inv rt pid vm'"
  unfolding msig_inv_def
proof (intro allI impI, elim conjE)
  fix k
  assume k: "domain_address rt pid k" "acc_owner (vm_ledger vm' k) = pid"
  then have own: "acc_owner (vm_ledger vm k) = pid" and same: "same_data (vm_ledger vm) (vm_ledger vm') k"
    using outside_step_owned [OF step] by auto
  obtain x where h: "holds ser_domain_data x k (vm_ledger vm)" and x: "configured x"
    using inv own k(1) by (auto simp: msig_inv_def)
  from holds_same_data [OF h same] x show "\<exists>x. holds ser_domain_data x k (vm_ledger vm') \<and> configured x"
    by blast
qed

lemma msig_run_inv:
  assumes "system_program_ok rt" and "pda_canonical rt" and "msig_addresses_distinct rt pid"
  shows "msig_run kc secp rt pid vm \<Longrightarrow> msig_inv rt pid vm"
proof (induction rule: msig_run.induct)
  case (start vm)
  then show ?case by (auto simp: msig_inv_def)
next
  case (instr vm accounts data vm')
  show ?case by (rule msig_process_instruction_inv [OF assms instr.IH instr.hyps(2)])
next
  case (outside vm vm')
  show ?case by (rule msig_outside_inv [OF outside.IH outside.hyps(2)])
qed

section \<open>Verification\<close>

text \<open>The checkpoint a message and its metadata stand for.\<close>

definition message_checkpoint :: "keccak \<Rightarrow> multisig_metadata \<Rightarrow> hyperlane_message \<Rightarrow> checkpoint_with_message_id" where
  "message_checkpoint kc metadata message =
     \<lparr>cpm_checkpoint =
        \<lparr>cp_merkle_tree_hook_address = md_origin_merkle_tree_hook metadata,
         cp_mailbox_domain = msg_origin message, cp_root = md_merkle_root metadata,
         cp_index = msg_nonce message\<rparr>,
      cpm_message_id = hyperlane_message_id kc message\<rparr>"

definition signed_checkpoint ::
  "keccak \<Rightarrow> secp256k1 \<Rightarrow> checkpoint_with_message_id \<Rightarrow> ecdsa_signature list \<Rightarrow> h160 \<Rightarrow> bool" where
  "signed_checkpoint kc secp c sigs v \<longleftrightarrow>
     (\<exists>s \<in> set sigs. ecdsa_recover kc secp
        (h256_bytes (eth_signed_message_hash kc (checkpoint_signing_hash kc) c)) s = Some v)"

lemma msig_verify_Inr:
  assumes "msig_verify kc secp rt pid accounts md mb vm = Inr u"
  obtains metadata message vt where
    "metadata_try_from md = Inr metadata" "message_read_from mb = Inr (message, [])"
    "msig_validators_and_threshold rt pid accounts (msg_origin message) vm = Inr vt"
    "multisig_verify kc secp (checkpoint_signing_hash kc)
       \<lparr>mm_signed_data = message_checkpoint kc metadata message,
        mm_signatures = md_validator_signatures metadata, mm_validators = vt_validators vt,
        mm_threshold = vt_threshold vt\<rparr> = Inr ()"
proof -
  have "message_read_from bs = Inr (m, r) \<Longrightarrow> r = []" for bs m r
    by (auto simp: message_read_from_def Let_def result_simps)
  then show thesis
    using assms that by (auto simp: msig_verify_def result_simps Let_def message_checkpoint_def)
qed

lemma msig_verify_quorum_inv:
  assumes inv: "msig_inv rt pid vm" and run: "msig_verify kc secp rt pid accounts md mb vm = Inr u"
  shows "\<exists>metadata message vt bump.
    metadata_try_from md = Inr metadata \<and> message_read_from mb = Inr (message, []) \<and>
    holds ser_domain_data \<lparr>dom_bump_seed = bump, dom_validators_and_threshold = vt\<rparr>
      (ai_key (hd accounts)) (vm_ledger vm) \<and>
    rt_create_program_address rt (domain_data_seeds (msg_origin message) @ [[bump]]) pid = Inr (ai_key (hd accounts)) \<and>
    0 < vt_threshold vt \<and>
    unat (vt_threshold vt) \<le> card {v \<in> set (vt_validators vt).
      signed_checkpoint kc secp (message_checkpoint kc metadata message) (md_validator_signatures metadata) v}"
proof (rule msig_verify_Inr [OF run])
  fix metadata message vt
  assume md: "metadata_try_from md = Inr metadata" and m: "message_read_from mb = Inr (message, [])"
    and vt: "msig_validators_and_threshold rt pid accounts (msg_origin message) vm = Inr vt"
    and q: "multisig_verify kc secp (checkpoint_signing_hash kc)
       \<lparr>mm_signed_data = message_checkpoint kc metadata message,
        mm_signatures = md_validator_signatures metadata, mm_validators = vt_validators vt,
        mm_threshold = vt_threshold vt\<rparr> = Inr ()"
  obtain rest bump and i :: account_info where acc: "accounts = i # rest" and own: "owner_of i vm = pid"
    and f: "fetch_data (lift_de de_domain_data) (acc_data (vm_ledger vm (ai_key i))) =
      Inr (Some \<lparr>dom_bump_seed = bump, dom_validators_and_threshold = vt\<rparr>)"
    and k: "rt_create_program_address rt (domain_data_seeds (msg_origin message) @ [[bump]]) pid = Inr (ai_key i)"
    using msig_validators_and_threshold_Inr [OF vt] by blast
  have "domain_address rt pid (ai_key i)" using k by (auto simp: domain_address_def)
  then obtain x where h: "holds ser_domain_data x (ai_key i) (vm_ledger vm)" and x: "configured x"
    using inv own by (auto simp: msig_inv_def owner_of_def)
  have xeq: "x = \<lparr>dom_bump_seed = bump, dom_validators_and_threshold = vt\<rparr>"
    using holds_domain_data_unique [OF h _ f] x by (simp add: configured_def)
  with x have ok: "vt_ok vt" by (simp add: configured_def)
  then have "unat (vt_threshold vt) \<le> card {v \<in> set (vt_validators vt).
      signed_checkpoint kc secp (message_checkpoint kc metadata message) (md_validator_signatures metadata) v}"
    using multisig_verify_card [OF q] by (simp add: vt_ok_def quorum_signer_def signed_checkpoint_def)
  then show ?thesis
    using md m acc k ok h [unfolded xeq]
    by (intro exI [of _ metadata] exI [of _ message] exI [of _ vt] exI [of _ bump]) (simp add: vt_ok_def)
qed

section \<open>A sample run\<close>

text \<open>
  The program is initialized by account 1 and configured with one validator for domain 5; a message
  from that domain then verifies.
\<close>

definition msig_ac_key :: pubkey where
  "msig_ac_key = sim_key access_control_seeds 2000"

definition msig_dom_key :: pubkey where
  "msig_dom_key = sim_key (domain_data_seeds 5) 2000"

lemma seeds_last:
  "concat (domain_data_seeds d) = (str_bytes ''multisig_ism_message_id-'' @ to_le_bytes 4 d @ str_bytes ''-domain_dat'') @ [97]"
  "concat access_control_seeds = str_bytes ''multisig_ism_message_id-access_contro'' @ [108]"
  by (simp_all add: domain_data_seeds_def access_control_seeds_def str_bytes_def)

lemma sim_domain_not_ac: "sim_key (domain_data_seeds d) pid \<noteq> sim_key access_control_seeds pid"
proof
  assume "sim_key (domain_data_seeds d) pid = sim_key access_control_seeds pid"
  then have "97 = (108 :: u8)" unfolding sim_key_def seeds_last add_right_cancel by (rule from_be_bytes_last)
  then show False by simp
qed

lemma sim_msig_addresses: "msig_addresses_distinct sim_runtime pid"
  unfolding msig_addresses_distinct_def
  by (auto simp: sim_runtime_def sim_create_address_def split: if_splits)
     (metis sim_domain_not_ac)

lemma sim_msig_key_1: "sim_key access_control_seeds pid \<noteq> 1" "sim_key (domain_data_seeds d) pid \<noteq> 1"
proof -
  have nz: "from_be_bytes (xs @ [x]) + 1 \<noteq> (1 :: h256)" if "x \<noteq> 0" for xs x
    using from_be_bytes_last [of xs x "[]" 0] that by (auto simp: from_be_bytes_def from_le_bytes_def)
  show "sim_key access_control_seeds pid \<noteq> 1" unfolding sim_key_def seeds_last by (rule nz) simp
  show "sim_key (domain_data_seeds d) pid \<noteq> 1" unfolding sim_key_def seeds_last by (rule nz) simp
qed

definition msig_vt :: validators_and_threshold where
  "msig_vt = \<lparr>vt_validators = [sample_validator, sample_validator + 1], vt_threshold = 1\<rparr>"

text \<open>The ledger after the program was initialized by account 1.\<close>

definition msig_vm :: vm where
  "msig_vm = initial_vm ((\<lambda>_. empty_account)
     (1 := funded_account 100000,
      msig_ac_key := data_account 2000 (ser_bool True @ ser_acd \<lparr>acd_bump_seed = 255, acd_owner = Some 1\<rparr>)))"

lemma msig_keys:
  "msig_ac_key \<noteq> 1" "msig_dom_key \<noteq> 1" "msig_dom_key \<noteq> msig_ac_key" "msig_ac_key \<noteq> msig_dom_key"
  "1 \<noteq> msig_ac_key" "1 \<noteq> msig_dom_key"
  using sim_msig_key_1(1) [of 2000] sim_msig_key_1(2) [of 5 2000] sim_domain_not_ac [of 5 2000]
  by (auto simp: msig_ac_key_def msig_dom_key_def)

lemma msig_vm_run: "msig_run kc secp sim_runtime 2000 msig_vm"
proof (rule msig_run.start)
  fix k
  assume "domain_address sim_runtime 2000 k"
  then obtain d where "k = sim_key (domain_data_seeds d) 2000"
    by (auto simp: domain_address_def sim_runtime_def sim_create_address_def split: if_splits)
  then have "k \<noteq> msig_ac_key" "k \<noteq> 1"
    using sim_domain_not_ac sim_msig_key_1 by (auto simp: msig_ac_key_def)
  then show "acc_owner (vm_ledger msig_vm k) \<noteq> 2000"
    by (simp add: msig_vm_def sim_simps)
qed

definition msig_set_accounts :: "account_info list" where
  "msig_set_accounts =
     [signer_account 1, signer_account msig_ac_key, signer_account msig_dom_key, program_account 0]"

lemma msig_sample_ac:
  "msig_access_control_data sim_runtime 2000 (signer_account msig_ac_key) msig_vm =
   Inr \<lparr>acd_bump_seed = 255, acd_owner = Some 1\<rparr>"
proof -
  let ?x = "\<lparr>acd_bump_seed = 255, acd_owner = Some 1\<rparr> :: access_control_data"
  have "acc_data (vm_ledger msig_vm msig_ac_key) = ser_bool True @ ser_acd ?x"
    by (simp add: msig_vm_def sim_simps)
  moreover have "fetch_data (lift_de de_acd) (ser_bool True @ ser_acd ?x) = Inr (Some ?x)"
    using borsh_acd.de_ser [of ?x "[]"] borsh_bool.de_ser [of True "ser_acd ?x"]
    by (simp add: fetch_data_def lift_de_def borsh_err_def ser_bool_def)
  ultimately show ?thesis
    by (simp add: msig_access_control_data_def borrow_data_def create_program_address_def owner_of_def)
       (simp add: msig_vm_def sim_simps msig_ac_key_def)
qed

lemma msig_sample_set:
  "\<exists>vm'. msig_set_validators_and_threshold sim_runtime 2000 msig_set_accounts
     \<lparr>dd_domain = 5, dd_data = msig_vt\<rparr> msig_vm = Inr vm'"
proof -
  let ?x = "\<lparr>dom_bump_seed = 255, dom_validators_and_threshold = msig_vt\<rparr>"
  have empty: "acc_data (vm_ledger msig_vm msig_dom_key) = []" by (simp add: msig_vm_def sim_simps msig_keys)
  obtain vm1 where create: "create_pda_account sim_runtime (signer_account 1) 1024 2000 (program_account 0)
      (signer_account msig_dom_key) (domain_data_seeds 5 @ [[255]]) msig_vm = Inr vm1"
    using sim_create_pda [of msig_vm "signer_account msig_dom_key" "signer_account 1" 100000 1024 2000
        "program_account 0" "domain_data_seeds 5 @ [[255]]"]
    by (auto simp: msig_vm_def sim_simps msig_keys)
  note c = create_pda_account_Inr [OF sim_system_ok create]
  have "\<exists>vm2. store ser_domain_data ?x (signer_account msig_dom_key) True vm1 = Inr vm2"
    using store_ok [of "signer_account msig_dom_key" vm1 ser_domain_data ?x True] c
    by (simp add: only_changes_def msig_vm_def initial_vm_def ser_domain_data_def ser_vt_def msig_vt_def ser_vec_def)
  moreover have "msig_domain_account sim_runtime 2000 (signer_account 1) (signer_account msig_dom_key)
      [program_account 0] 5 msig_vm = Inr (255, vm1)"
    using create by (simp add: msig_domain_account_def borrow_data_def empty fetch_data_def Let_def
        SYSTEM_PROGRAM_ID_def) (simp add: msig_vm_def initial_vm_def msig_dom_key_def)
  ultimately show ?thesis
    by (simp add: msig_set_validators_and_threshold_def msig_set_accounts_def msig_sample_ac
        vt_validate_def msig_vt_def ensure_owner_signer_def)
qed

lemma msig_validators_and_threshold_ok:
  assumes "holds ser_domain_data \<lparr>dom_bump_seed = bump, dom_validators_and_threshold = vt\<rparr> (ai_key i) (vm_ledger vm)"
    and "vt_size_ok vt" and "acc_owner (vm_ledger vm (ai_key i)) = pid" and "ai_key i \<notin> set (vm_borrowed vm)"
    and "rt_create_program_address rt (domain_data_seeds domain @ [[bump]]) pid = Inr (ai_key i)"
  shows "msig_validators_and_threshold rt pid (i # rest) domain vm = Inr vt"
proof -
  let ?x = "\<lparr>dom_bump_seed = bump, dom_validators_and_threshold = vt\<rparr>"
  obtain tail where "acc_data (vm_ledger vm (ai_key i)) = ser_bool True @ ser_domain_data ?x @ tail"
    using assms(1) by (auto simp: holds_def)
  then have "fetch_data (lift_de de_domain_data) (acc_data (vm_ledger vm (ai_key i))) = Inr (Some ?x)"
    using borsh_domain_data.de_ser [of ?x tail] borsh_bool.de_ser [of True "ser_domain_data ?x @ tail"] assms(2)
    by (simp add: fetch_data_def lift_de_def borsh_err_def ser_bool_def)
  then show ?thesis
    using assms by (simp add: msig_validators_and_threshold_def owner_of_def borrow_data_def create_program_address_def)
qed

definition msig_message :: hyperlane_message where
  "msig_message = message_default\<lparr>msg_origin := 5\<rparr>"

definition msig_metadata :: multisig_metadata where
  "msig_metadata = \<lparr>md_origin_merkle_tree_hook = 1, md_merkle_root = 2, md_merkle_index = 3,
      md_validator_signatures = [sample_signature]\<rparr>"

lemma msig_metadata_read: "metadata_try_from (to_vec metadata_write_to msig_metadata) = Inr msig_metadata"
proof -
  have v: "list_all ecdsa_valid (md_validator_signatures msig_metadata)"
    by (simp add: msig_metadata_def ecdsa_valid_def sample_signature_def)
  show ?thesis by (rule metadata_read_back [OF _ v]) (simp add: msig_metadata_def)
qed

lemma msig_message_read:
  "message_read_from (to_vec message_write_to msig_message) = Inr (msig_message, [])"
  by (simp add: message_enc.read_complete)

lemma msig_sample_verify:
  "\<exists>vm' u. msig_run sample_hash sample_secp sim_runtime 2000 vm' \<and>
     msig_verify sample_hash sample_secp sim_runtime 2000 [signer_account msig_dom_key]
       (to_vec metadata_write_to msig_metadata) (to_vec message_write_to msig_message) vm' = Inr u"
proof -
  let ?ix = "SetValidatorsAndThreshold \<lparr>dd_domain = 5, dd_data = msig_vt\<rparr>"
  let ?data = "PROGRAM_INSTRUCTION_DISCRIMINATOR @ ser_msig_instruction ?ix"
  obtain vm' where set: "msig_set_validators_and_threshold sim_runtime 2000 msig_set_accounts
     \<lparr>dd_domain = 5, dd_data = msig_vt\<rparr> msig_vm = Inr vm'" using msig_sample_set by blast
  have size: "vt_size_ok msig_vt" by (simp add: vt_size_ok_def msig_vt_def)
  then have "msig_decode ?data = Inr ?ix"
    by (simp add: msig_decode_def discriminator_decode_def PROGRAM_INSTRUCTION_DISCRIMINATOR_def
        DISCRIMINATOR_LENGTH_def borsh_msig_instruction.try_from_slice_iff del: ser_msig_instruction.simps)
  moreover have "\<exists>e. ism_decode ?data = Inl e" "\<exists>e. multisig_decode ?data = Inl e"
    by (simp_all add: ism_decode_def multisig_decode_def PROGRAM_INSTRUCTION_DISCRIMINATOR_def discriminator_defs
        VALIDATORS_AND_THRESHOLD_DISCRIMINATOR_def VALIDATORS_AND_THRESHOLD_ACCOUNT_METAS_DISCRIMINATOR_def
        del: ser_msig_instruction.simps)
  ultimately have "msig_process_instruction sample_hash sample_secp sim_runtime 2000 msig_set_accounts ?data msig_vm = Inr vm'"
    using set by (auto simp: msig_process_instruction_def simp del: ser_msig_instruction.simps)
  then have run: "msig_run sample_hash sample_secp sim_runtime 2000 vm'" by (rule msig_run.instr [OF msig_vm_run])
  note facts = on_successD [OF msig_set_validators_and_threshold_facts [OF sim_system_ok sim_pda_canonical] set]
  then obtain bump where
    h: "holds ser_domain_data \<lparr>dom_bump_seed = bump, dom_validators_and_threshold = msig_vt\<rparr> msig_dom_key (vm_ledger vm')"
    and o: "acc_owner (vm_ledger vm' msig_dom_key) = 2000" and c: "only_changes msig_dom_key msig_vm vm'"
    and k: "rt_create_program_address sim_runtime (domain_data_seeds 5 @ [[bump]]) 2000 = Inr msig_dom_key"
    by (auto simp: msig_set_accounts_def)
  have "vm_borrowed vm' = []" using c by (simp add: only_changes_def msig_vm_def initial_vm_def)
  then have "msig_validators_and_threshold sim_runtime 2000 [signer_account msig_dom_key] 5 vm' = Inr msig_vt"
    using h o k size by (intro msig_validators_and_threshold_ok [where bump = bump]) simp_all
  moreover have "verify_rounds (\<lambda>_. Some sample_validator) [sample_signature] (vt_validators msig_vt) 1 0 0 = Inr ()"
    unfolding verify_rounds_iff by (auto simp: msig_vt_def intro!: exI [of _ "[sample_validator]"])
  ultimately have "msig_verify sample_hash sample_secp sim_runtime 2000 [signer_account msig_dom_key]
       (to_vec metadata_write_to msig_metadata) (to_vec message_write_to msig_message) vm' = Inr ()"
    unfolding msig_verify_def msig_metadata_read msig_message_read
    by (simp add: multisig_verify_def Let_def msig_message_def msig_metadata_def sample_recover [abs_def] msig_vt_def)
  with run show ?thesis by blast
qed

section \<open>Properties\<close>

text \<open>
  C4. The security module accepts a message only with a quorum: in every run of the program, however
  other transactions interleave, a successful \<^verbatim>\<open>verify\<close> means that at least \<open>threshold > 0\<close> of the
  distinct validators stored for the origin of the message signed the checkpoint with the message's
  id and nonce.
\<close>

theorem msig_verify_quorum:
  assumes "system_program_ok rt" and "pda_canonical rt" and "msig_addresses_distinct rt pid"
    and "msig_run kc secp rt pid vm"
    and "msig_verify kc secp rt pid accounts md mb vm = Inr u"
  shows "\<exists>metadata message vt bump.
    metadata_try_from md = Inr metadata \<and> message_read_from mb = Inr (message, []) \<and>
    holds ser_domain_data \<lparr>dom_bump_seed = bump, dom_validators_and_threshold = vt\<rparr>
      (ai_key (hd accounts)) (vm_ledger vm) \<and>
    rt_create_program_address rt (domain_data_seeds (msg_origin message) @ [[bump]]) pid = Inr (ai_key (hd accounts)) \<and>
    0 < vt_threshold vt \<and>
    unat (vt_threshold vt) \<le> card {v \<in> set (vt_validators vt).
      signed_checkpoint kc secp (message_checkpoint kc metadata message) (md_validator_signatures metadata) v}"
  using msig_verify_quorum_inv [OF msig_run_inv [OF assms(1-4)] assms(5)] .

theorem msig_verify_quorum_witness:
  "\<exists>vm' (vt :: validators_and_threshold). msig_run sample_hash sample_secp sim_runtime 2000 vm' \<and> 0 < vt_threshold vt \<and>
    unat (vt_threshold vt) \<le> card {v \<in> set (vt_validators vt).
      signed_checkpoint sample_hash sample_secp (message_checkpoint sample_hash msig_metadata msig_message)
        [sample_signature] v}"
proof -
  obtain vm' u where run: "msig_run sample_hash sample_secp sim_runtime 2000 vm'"
    and v: "msig_verify sample_hash sample_secp sim_runtime 2000 [signer_account msig_dom_key]
       (to_vec metadata_write_to msig_metadata) (to_vec message_write_to msig_message) vm' = Inr u"
    using msig_sample_verify by blast
  obtain vt :: validators_and_threshold where "0 < vt_threshold vt" and "unat (vt_threshold vt) \<le> card {v \<in> set (vt_validators vt).
      signed_checkpoint sample_hash sample_secp (message_checkpoint sample_hash msig_metadata msig_message)
        (md_validator_signatures msig_metadata) v}"
    using msig_verify_quorum [OF sim_system_ok sim_pda_canonical sim_msig_addresses run v]
    unfolding msig_metadata_read msig_message_read by auto
  moreover have "md_validator_signatures msig_metadata = [sample_signature]" by (simp add: msig_metadata_def)
  ultimately show ?thesis using run by auto
qed

text \<open>
  C31. Only the owner configures the security module: a successful \<^verbatim>\<open>set_validators_and_threshold\<close> was
  signed by the owner stored in the access control account, and stores exactly the given
  configuration, which is validated (a threshold between 1 and the number of distinct validators), in
  the account derived from the domain.
\<close>

theorem msig_configure_owner_only:
  assumes "system_program_ok rt" and "pda_canonical rt"
    and "msig_set_validators_and_threshold rt pid accounts config vm = Inr vm'"
  shows "\<exists>own ac dom rest x bump. accounts = own # ac # dom # rest \<and>
      msig_access_control_data rt pid ac vm = Inr x \<and>
      acd_owner x = Some (ai_key own) \<and> ai_is_signer own \<and> vt_ok (dd_data config) \<and>
      rt_create_program_address rt (domain_data_seeds (dd_domain config) @ [[bump]]) pid = Inr (ai_key dom) \<and>
      holds ser_domain_data \<lparr>dom_bump_seed = bump, dom_validators_and_threshold = dd_data config\<rparr>
        (ai_key dom) (vm_ledger vm') \<and>
      acc_owner (vm_ledger vm' (ai_key dom)) = pid \<and> only_changes (ai_key dom) vm vm'"
  using on_successD [OF msig_set_validators_and_threshold_facts [OF assms(1,2)] assms(3)] .

theorem msig_configure_owner_only_witness:
  "\<exists>(vm' :: vm) bump. holds ser_domain_data \<lparr>dom_bump_seed = bump, dom_validators_and_threshold = msig_vt\<rparr>
     msig_dom_key (vm_ledger vm') \<and> vt_ok msig_vt"
proof -
  obtain vm' where "msig_set_validators_and_threshold sim_runtime 2000 msig_set_accounts
     \<lparr>dd_domain = 5, dd_data = msig_vt\<rparr> msig_vm = Inr vm'" using msig_sample_set by blast
  from msig_configure_owner_only [OF sim_system_ok sim_pda_canonical this]
  obtain bump where "holds ser_domain_data \<lparr>dom_bump_seed = bump, dom_validators_and_threshold = msig_vt\<rparr>
     msig_dom_key (vm_ledger vm')" and "vt_ok msig_vt" by (auto simp: msig_set_accounts_def)
  then show ?thesis by blast
qed

end
