(* ===== verification/Igp_Props.thy ===== *)
theory Igp_Props
  imports Igp_Correct
begin

text \<open>
  The properties of the gas paymaster, with a sample run on the runtime of the witnesses: the program
  is initialized next to an account with an oracle, and a payment is made.
\<close>

section \<open>A sample run\<close>

lemma fetch_prefixed_ok:
  assumes "holds (ser_discriminator disc ser) x (ai_key i) (vm_ledger vm)" and "length disc = 8"
    and "\<And>tail. de (ser x @ tail) = Inr (x, tail)" and "ai_key i \<notin> set (vm_borrowed vm)"
  shows "fetch_prefixed disc de dflt i vm = Inr x"
proof -
  obtain tail where d: "acc_data (vm_ledger vm (ai_key i)) = ser_bool True @ disc @ ser x @ tail"
    using assms(1) by (auto simp: holds_def ser_discriminator_def)
  show ?thesis
    using assms borsh_bool.de_ser [of True "disc @ ser x @ tail"]
    by (simp add: fetch_prefixed_def borrow_data_def fetch_def fetch_data_def d lift_de_def borsh_err_def
        de_discriminator_def DISCRIMINATOR_LENGTH_def ser_bool_def)
qed

definition sample_igp :: igp where
  "sample_igp =
     \<lparr>igp_bump_seed = 255, igp_salt = 100, igp_owner = Some 1, igp_beneficiary = 2,
      igp_gas_oracles = [(5, RemoteGasData \<lparr>rg_token_exchange_rate = 10 ^ 19, rg_gas_price = 3, rg_token_decimals = 9\<rparr>)]\<rparr>"

definition sample_overhead_igp :: overhead_igp where
  "sample_overhead_igp =
     \<lparr>oi_bump_seed = 255, oi_salt = 200, oi_owner = Some 1, oi_inner = 101, oi_gas_overheads = [(5, 4)]\<rparr>"

definition igp_vm :: vm where
  "igp_vm = initial_vm ((\<lambda>_. empty_account)
     (1 := funded_account 100000,
      101 := \<lparr>acc_lamports = 1000, acc_data = ser_bool True @ ser_discriminator IGP_DISCRIMINATOR ser_igp sample_igp,
              acc_owner = 3000\<rparr>,
      201 := \<lparr>acc_lamports = 1000,
              acc_data = ser_bool True @ ser_discriminator OVERHEAD_IGP_DISCRIMINATOR ser_overhead_igp sample_overhead_igp,
              acc_owner = 3000\<rparr>))"

lemma de_ser_igp:
  assumes "hm_valid always (igp_gas_oracles x)"
  shows "de_igp (ser_igp x @ tail) = Inr (x, tail)"
  unfolding ser_igp_def de_igp_def append_assoc
  using assms
  by (simp add: borsh_u8.de_ser borsh_h256.de_ser borsh_pubkey_option.de_ser
      de_ser_hash_map [OF borsh_u32.borsh_axioms borsh_gas_oracle.borsh_axioms])

lemma sample_igp_fetch:
  assumes "holds (ser_discriminator IGP_DISCRIMINATOR ser_igp) sample_igp (ai_key i) (vm_ledger vm)" "ai_key i \<notin> set (vm_borrowed vm)"
  shows "fetch_prefixed IGP_DISCRIMINATOR de_igp dflt i vm = Inr sample_igp"
proof (rule fetch_prefixed_ok [OF assms(1) _ _ assms(2)])
  show "de_igp (ser_igp sample_igp @ tail) = Inr (sample_igp, tail)" for tail
    by (rule de_ser_igp) (simp add: hm_valid_def hm_sorted_def sample_igp_def)
qed simp

lemma sample_overhead_igp_fetch:
  assumes "holds (ser_discriminator OVERHEAD_IGP_DISCRIMINATOR ser_overhead_igp) sample_overhead_igp (ai_key i) (vm_ledger vm)"
    and "ai_key i \<notin> set (vm_borrowed vm)"
  shows "fetch_prefixed OVERHEAD_IGP_DISCRIMINATOR de_overhead_igp dflt i vm = Inr sample_overhead_igp"
proof (rule fetch_prefixed_ok [OF assms(1) _ _ assms(2)])
  have "hm_valid always (oi_gas_overheads sample_overhead_igp)"
    by (simp add: hm_valid_def hm_sorted_def sample_overhead_igp_def)
  then show "de_overhead_igp (ser_overhead_igp sample_overhead_igp @ tail) = Inr (sample_overhead_igp, tail)" for tail
    unfolding ser_overhead_igp_def de_overhead_igp_def append_assoc
    by (simp add: borsh_u8.de_ser borsh_h256.de_ser borsh_pubkey_option.de_ser
        de_ser_hash_map [OF borsh_u32.borsh_axioms borsh_u64.borsh_axioms])
qed simp

definition pd_key :: pubkey where
  "pd_key = sim_key igp_program_data_seeds 3000"

lemma pd_key_neq: "pd_key \<noteq> 1" "pd_key \<noteq> 101" "pd_key \<noteq> 301" "pd_key \<noteq> 201"
  "1 \<noteq> pd_key" "101 \<noteq> pd_key" "301 \<noteq> pd_key" "201 \<noteq> pd_key"
proof -
  have c: "concat igp_program_data_seeds = str_bytes ''hyperlane_igp-program_dat'' @ [97]"
    by (simp add: igp_program_data_seeds_def str_bytes_def)
  show "pd_key \<noteq> 1" "pd_key \<noteq> 101" "pd_key \<noteq> 301" "pd_key \<noteq> 201"
    unfolding pd_key_def
    by (rule sim_key_neq [OF c, of _ "[]" 0], simp_all add: from_be_bytes_def from_le_bytes_def)
       (rule sim_key_neq [OF c, of _ "[]" 100] sim_key_neq [OF c, of _ "[1]" 44] sim_key_neq [OF c, of _ "[]" 200],
        simp_all add: from_be_bytes_def from_le_bytes_def)+
  then show "1 \<noteq> pd_key" "101 \<noteq> pd_key" "301 \<noteq> pd_key" "201 \<noteq> pd_key" by auto
qed

lemma igp_sample_init:
  obtains vm1 where
    "igp_init sim_runtime 3000 [program_account 0, signer_account 1, signer_account pd_key] igp_vm = Inr vm1"
    "holds (ser_discriminator PROGRAM_DATA_DISCRIMINATOR ser_program_data)
       \<lparr>pd_bump_seed = 255, pd_payment_count = 0\<rparr> pd_key (vm_ledger vm1)"
    "acc_owner (vm_ledger vm1 pd_key) = 3000" "length (acc_data (vm_ledger vm1 pd_key)) = 18"
    "vm_ledger vm1 101 = vm_ledger igp_vm 101" "vm_ledger vm1 201 = vm_ledger igp_vm 201" "vm_ledger vm1 301 = empty_account"
    "acc_lamports (vm_ledger vm1 1) = 99982" "vm_borrowed vm1 = []"
proof -
  let ?x = "\<lparr>pd_bump_seed = 255, pd_payment_count = 0\<rparr> :: program_data"
  obtain n' where c: "create_pda_account sim_runtime (signer_account 1) 18 3000 (program_account 0)
      (signer_account pd_key) (igp_program_data_seeds @ [[255]]) igp_vm =
    Inr (igp_vm\<lparr>vm_ledger := (vm_ledger igp_vm)
         (1 := (vm_ledger igp_vm 1)\<lparr>acc_lamports := 99982\<rparr>,
          pd_key := \<lparr>acc_lamports = n', acc_data = replicate 18 0, acc_owner = 3000\<rparr>),
        vm_return_data := None\<rparr>)" (is "_ = Inr ?vm")
    using sim_create_pda [of igp_vm "signer_account pd_key" "signer_account 1" 100000 18 3000
        "program_account 0" "igp_program_data_seeds @ [[255]]"]
    by (auto simp: igp_vm_def sim_simps pd_key_neq)
  let ?S = "ser_discriminator PROGRAM_DATA_DISCRIMINATOR ser_program_data"
  have l: "length (?S ?x) = 17" by (simp add: ser_discriminator_def ser_program_data_def)
  have b: "vm_borrowed igp_vm = []" by (simp add: igp_vm_def initial_vm_def)
  have s: "store ?S ?x (signer_account pd_key) False ?vm = Inr (write_data pd_key (ser_bool True @ ?S ?x) ?vm)"
    using store_ok [of "signer_account pd_key" ?vm ?S ?x False] l b by simp
  have "verify_account_uninitialized (signer_account pd_key) igp_vm = Inr ()"
    by (simp add: verify_account_uninitialized_def borrow_data_def owner_of_def igp_vm_def sim_simps pd_key_neq)
  moreover have "account_size (discriminator_size program_data_size) ?x = 18"
    by (simp add: account_size_def discriminator_size_def program_data_size_def DISCRIMINATOR_LENGTH_def)
  ultimately have i: "igp_init sim_runtime 3000 [program_account 0, signer_account 1, signer_account pd_key] igp_vm =
      Inr (write_data pd_key (ser_bool True @ ?S ?x) ?vm)"
    using c s by (simp add: igp_init_def check_system_program_def SYSTEM_PROGRAM_ID_def pd_key_def [symmetric])
  show thesis
    by (rule that [OF i])
       (use l b in \<open>simp_all add: write_data_def holds_def pd_key_neq, simp add: igp_vm_def sim_simps pd_key_neq\<close>)
qed

definition pay_accounts :: "account_info list" where
  "pay_accounts = [program_account 0, signer_account 1, signer_account pd_key, signer_account 300,
     signer_account 301, signer_account 101, signer_account 201]"

definition sample_payment :: pay_for_gas_ix where
  "sample_payment = \<lparr>pg_message_id = 42, pg_destination_domain = 5, pg_gas_amount = 7\<rparr>"

lemma sample_quote: "igp_quote_gas_payment sample_igp 5 11 = Inr 33"
  by (simp add: igp_quote_gas_payment_eq sample_igp_def hm_get_def quote_fits_def quote_spec_def quote_scaled_def)

lemma igp_sample_pay:
  assumes h: "holds (ser_discriminator PROGRAM_DATA_DISCRIMINATOR ser_program_data)
       \<lparr>pd_bump_seed = 255, pd_payment_count = 0\<rparr> pd_key (vm_ledger vm)"
    and pd: "acc_owner (vm_ledger vm pd_key) = 3000" "length (acc_data (vm_ledger vm pd_key)) = 18"
    and l: "vm_ledger vm 101 = vm_ledger igp_vm 101" "vm_ledger vm 201 = vm_ledger igp_vm 201"
      "vm_ledger vm 301 = empty_account" "acc_lamports (vm_ledger vm 1) = 99982" and b: "vm_borrowed vm = []"
  shows "\<exists>vm'. pay_for_gas sim_runtime 3000 pay_accounts sample_payment vm = Inr vm'"
proof -
  let ?P = "\<lparr>pd_bump_seed = 255, pd_payment_count = 0\<rparr> :: program_data"
  let ?g = "\<lparr>gp_sequence_number = 0, gp_igp = 101, gp_destination_domain = 5, gp_message_id = 42,
     gp_gas_amount = 11, gp_payment = 33, gp_unique_gas_payment_pubkey = 300, gp_slot = 7\<rparr> :: gas_payment_data"
  let ?SP = "ser_discriminator PROGRAM_DATA_DISCRIMINATOR ser_program_data"
  let ?SG = "ser_discriminator GAS_PAYMENT_DISCRIMINATOR ser_gas_payment"
  have igp: "fetch_prefixed IGP_DISCRIMINATOR de_igp igp_default (signer_account 101) vm = Inr sample_igp"
    using l(1) b by (intro sample_igp_fetch) (auto simp: holds_def igp_vm_def initial_vm_def)
  have ov: "fetch_prefixed OVERHEAD_IGP_DISCRIMINATOR de_overhead_igp overhead_igp_default (signer_account 201) vm =
      Inr sample_overhead_igp"
    using l(2) b by (intro sample_overhead_igp_fetch) (auto simp: holds_def igp_vm_def initial_vm_def)
  have pdf: "fetch_prefixed PROGRAM_DATA_DISCRIMINATOR de_program_data program_data_default
      (signer_account pd_key) vm = Inr ?P"
    using h b by (intro fetch_prefixed_ok) (simp_all, rule borsh_program_data.de_ser, simp)
  have lam: "acc_lamports (vm_ledger vm 101) = 1000" "acc_owner (vm_ledger vm 101) = 3000"
    "acc_owner (vm_ledger vm 201) = 3000"
    using l(1,2) by (simp_all add: igp_vm_def initial_vm_def)
  obtain vm1 where t: "invoke_system sim_runtime (SysTransfer 1 101 33) [signer_account 1, signer_account 101] vm = Inr vm1"
    and v1: "vm_borrowed vm1 = []" "vm_ledger vm1 301 = empty_account" "acc_lamports (vm_ledger vm1 1) = 99949"
      "vm_ledger vm1 pd_key = vm_ledger vm pd_key"
    using l(3,4) lam b by (simp add: invoke_system_def invoke_system_signed_def sim_runtime_def sim_move_def
        checked_sub_def checked_add_def pd_key_neq)
  have sz: "account_size (discriminator_size gas_payment_size) ?g = 141"
    by (simp add: account_size_def discriminator_size_def gas_payment_size_def DISCRIMINATOR_LENGTH_def)
  obtain vm2 where c: "create_pda_account sim_runtime (signer_account 1) 141 3000 (program_account 0)
      (signer_account 301) (igp_gas_payment_seeds 300 @ [[255]]) vm1 = Inr vm2"
    and v2: "vm_borrowed vm2 = []" "acc_data (vm_ledger vm2 301) = replicate 141 0"
      "vm_ledger vm2 pd_key = vm_ledger vm pd_key"
    using sim_create_pda [of vm1 "signer_account 301" "signer_account 1" 99949 141 3000
        "program_account 0" "igp_gas_payment_seeds 300 @ [[255]]"] v1 by (auto simp: pd_key_neq)
  have lg: "length (?SG ?g) = 140" by (simp add: ser_discriminator_def ser_gas_payment_def)
  obtain vm3 where s1: "store ?SG ?g (signer_account 301) False vm2 = Inr vm3"
    and v3: "vm_borrowed vm3 = []" "vm_ledger vm3 pd_key = vm_ledger vm pd_key"
    using store_ok [of "signer_account 301" vm2 ?SG ?g False] lg v2 by (simp add: write_data_def pd_key_neq)
  have lp: "length (?SP (?P\<lparr>pd_payment_count := 1\<rparr>)) = 17" by (simp add: ser_discriminator_def ser_program_data_def)
  have s2: "\<exists>vm'. store ?SP (?P\<lparr>pd_payment_count := 1\<rparr>) (signer_account pd_key) False vm3 = Inr vm'"
    using store_ok [of "signer_account pd_key" vm3 ?SP "?P\<lparr>pd_payment_count := 1\<rparr>" False] lp v3 pd(2) by simp
  have u: "verify_account_uninitialized (signer_account 301) vm = Inr ()"
    using l b by (simp add: verify_account_uninitialized_def borrow_data_def owner_of_def empty_account_def)
  have k: "sim_key (igp_gas_payment_seeds 300) 3000 = 301" "sim_key (igp_seeds 100) 3000 = 101"
    "sim_key (overhead_igp_seeds 200) 3000 = 201"
    using sim_key_last [of "[str_bytes ''hyperlane_igp'', str_bytes ''-'', str_bytes ''gas_payment'', str_bytes ''-'']" 300 3000]
      sim_key_last [of "[str_bytes ''hyperlane_igp'', str_bytes ''-'', str_bytes ''igp'', str_bytes ''-'']" 100 3000]
      sim_key_last [of "[str_bytes ''hyperlane_igp'', str_bytes ''-'', str_bytes ''overhead_igp'', str_bytes ''-'']" 200 3000]
    by (simp_all add: igp_gas_payment_seeds_def igp_seeds_def overhead_igp_seeds_def)
  have a: "create_program_address sim_runtime (igp_program_data_seeds @ [[255]]) 3000 = Inr pd_key"
    "create_program_address sim_runtime (igp_seeds 100 @ [[255]]) 3000 = Inr 101"
    "create_program_address sim_runtime (overhead_igp_seeds 200 @ [[255]]) 3000 = Inr 201"
    by (simp_all add: create_program_address_def sim_runtime_def sim_create_address_def pd_key_def k)
  have i: "igp_salt sample_igp = 100" "igp_bump_seed sample_igp = 255" by (simp_all add: sample_igp_def)
  have "pay_gas_amount sim_runtime 3000 [signer_account 201] (signer_account 101) 5 7 vm = Inr 11"
    using lam(3) by (simp add: pay_gas_amount_def owner_of_def ov a sample_overhead_igp_def gas_overhead_def hm_get_def
        checked_add_def)
  then show ?thesis
    using s2 unfolding pay_for_gas_def pay_accounts_def sample_payment_def
    by (simp add: check_system_program_def SYSTEM_PROGRAM_ID_def pdf a pd k u owner_of_def lam igp i
        igp_err_def sample_quote t sz c s1 checked_add_def)
qed

lemma try_from_rest_ix: "igp_instruction_valid ix \<Longrightarrow> try_from_rest de_igp_instruction (ser_igp_instruction ix) = Inr ix"
  using borsh_igp_instruction.de_ser [of ix "[]"]
  by (simp add: try_from_rest_def borsh_err_def lift_de_def borsh_igp_instruction.try_from_slice_iff)

lemma sample_pid: "3000 \<noteq> SYSTEM_PROGRAM_ID"
  by (simp add: SYSTEM_PROGRAM_ID_def)

text \<open>The sample run, with one payment.\<close>

lemma igp_sample_run:
  obtains vm1 vm2 g where "igp_run sim_runtime 3000 [] vm1" "igp_run sim_runtime 3000 [g] vm2"
    "pay_for_gas sim_runtime 3000 pay_accounts sample_payment vm1 = Inr vm2"
proof -
  obtain vm1 where i: "igp_init sim_runtime 3000 [program_account 0, signer_account 1, signer_account pd_key] igp_vm = Inr vm1"
    and f: "\<exists>vm'. pay_for_gas sim_runtime 3000 pay_accounts sample_payment vm1 = Inr vm'"
    using igp_sample_init igp_sample_pay by metis
  obtain vm2 where p: "pay_for_gas sim_runtime 3000 pay_accounts sample_payment vm1 = Inr vm2" using f by blast
  have r0: "igp_run sim_runtime 3000 [] igp_vm"
  proof (rule igp_run.start)
    fix k
    assume "acc_owner (vm_ledger igp_vm k) = 3000"
    then have k: "k = 101 \<or> k = 201" by (auto simp: igp_vm_def sim_simps split: if_splits)
    have "\<not> tagged PROGRAM_DATA_DISCRIMINATOR 101 (vm_ledger igp_vm)"
      "\<not> tagged PROGRAM_DATA_DISCRIMINATOR 201 (vm_ledger igp_vm)"
      by (auto simp: tagged_def igp_vm_def initial_vm_def ser_discriminator_def variant_discriminators)
    moreover have "\<not> pd_address sim_runtime 3000 101" "\<not> pd_address sim_runtime 3000 201"
      using pd_key_neq(2,4) by (auto simp: pd_address_def sim_runtime_def sim_create_address_def pd_key_def)
    ultimately show "\<not> pd_address sim_runtime 3000 k \<and> \<not> tagged PROGRAM_DATA_DISCRIMINATOR k (vm_ledger igp_vm)"
      using k by auto
  qed
  note d = try_from_rest_ix [of IgpInit, simplified igp_instruction_valid.simps, OF TrueI]
  have r1: "igp_run sim_runtime 3000 [] vm1"
  proof (rule igp_run.instr [OF r0])
    show "try_from_rest de_igp_instruction (ser_igp_instruction IgpInit) \<noteq> Inr (PayForGas q)" for q
      unfolding d by simp
    show "igp_process_instruction sim_runtime 3000 [program_account 0, signer_account 1, signer_account pd_key]
        (ser_igp_instruction IgpInit) igp_vm = Inr vm1"
      using i unfolding igp_process_instruction_def d by simp
  qed
  have d: "try_from_rest de_igp_instruction (ser_igp_instruction (PayForGas sample_payment)) =
      Inr (PayForGas sample_payment)" by (rule try_from_rest_ix) simp
  have e: "igp_process_instruction sim_runtime 3000 pay_accounts (ser_igp_instruction (PayForGas sample_payment)) vm1 = Inr vm2"
    using p unfolding igp_process_instruction_def d by simp
  obtain g where "holds (ser_discriminator GAS_PAYMENT_DISCRIMINATOR ser_gas_payment) g
      (ai_key (pay_accounts ! 4)) (vm_ledger vm2)"
    using pay_for_gas_facts [OF sim_system_ok sample_pid conjunct1 [OF igp_run_inv [OF sim_system_ok sample_pid r1]] p]
    by blast
  from igp_run.pay [OF r1 d e this] have "igp_run sim_runtime 3000 ([] @ [g]) vm2" .
  then show thesis using that r1 p by simp
qed

section \<open>The gas a payment charges for\<close>

lemma pay_gas_amount_overhead:
  assumes "pay_gas_amount rt pid (o_info # rest) i d n vm = Inr m"
  shows "\<exists>oi. owner_of o_info vm = pid \<and>
    fetch_prefixed OVERHEAD_IGP_DISCRIMINATOR de_overhead_igp overhead_igp_default o_info vm = Inr oi \<and>
    rt_create_program_address rt (overhead_igp_seeds (oi_salt oi) @ [[oi_bump_seed oi]]) pid = Inr (ai_key o_info) \<and>
    oi_inner oi = ai_key i \<and>
    unat m = unat n + (case hm_get (oi_gas_overheads oi) d of None \<Rightarrow> 0 | Some g \<Rightarrow> unat g)"
  using assms
  by (auto simp: pay_gas_amount_def result_simps create_program_address_def gas_overhead_def checked_add_Inr
      split: option.splits)

lemma pay_gas_amount_drop:
  assumes "pay_gas_amount rt pid (drop 6 accounts) i d n vm = Inr m" and "6 \<le> length accounts"
  shows "(length accounts = 6 \<longrightarrow> m = n) \<and> (length accounts > 6 \<longrightarrow> (\<exists>oi.
    owner_of (accounts ! 6) vm = pid \<and>
    fetch_prefixed OVERHEAD_IGP_DISCRIMINATOR de_overhead_igp overhead_igp_default (accounts ! 6) vm = Inr oi \<and>
    rt_create_program_address rt (overhead_igp_seeds (oi_salt oi) @ [[oi_bump_seed oi]]) pid = Inr (ai_key (accounts ! 6)) \<and>
    oi_inner oi = ai_key i \<and>
    unat m = unat n + (case hm_get (oi_gas_overheads oi) d of None \<Rightarrow> 0 | Some g \<Rightarrow> unat g)))"
proof (cases "length accounts = 6")
  case True
  then show ?thesis using assms(1) by (simp add: pay_gas_amount_def)
next
  case False
  then have "drop 6 accounts = accounts ! 6 # drop 7 accounts" using assms(2) by (simp add: Cons_nth_drop_Suc [symmetric])
  then show ?thesis using False pay_gas_amount_overhead assms(1) by auto
qed

section \<open>Claims and configuration\<close>

lemma igp_claim_facts:
  assumes run: "igp_claim rt pid accounts vm = Inr vm'"
  shows "\<exists>sp i b rest igp.
    accounts = sp # i # b # rest \<and> owner_of i vm = pid \<and>
    fetch_prefixed IGP_DISCRIMINATOR de_igp igp_default i vm = Inr igp \<and>
    rt_create_program_address rt (igp_seeds (igp_salt igp) @ [[igp_bump_seed igp]]) pid = Inr (ai_key i) \<and>
    ai_key b = igp_beneficiary igp \<and>
    (let rent = rt_minimum_balance rt (length (acc_data (vm_ledger vm (ai_key i)))) in
      rent \<le> lamports i vm' \<and>
      (ai_key i \<noteq> ai_key b \<longrightarrow>
        unat (lamports i vm') = min (unat rent) (unat (lamports i vm)) \<and>
        unat (lamports b vm') = unat (lamports b vm) + (unat (lamports i vm) - unat rent))) \<and>
    (\<forall>k. same_data (vm_ledger vm) (vm_ledger vm') k) \<and>
    (\<forall>k. k \<noteq> ai_key i \<and> k \<noteq> ai_key b \<longrightarrow> vm_ledger vm' k = vm_ledger vm k)"
proof -
  obtain sp i b rest igp n m where a: "accounts = sp # i # b # rest" "owner_of i vm = pid"
    "fetch_prefixed IGP_DISCRIMINATOR de_igp igp_default i vm = Inr igp"
    "rt_create_program_address rt (igp_seeds (igp_salt igp) @ [[igp_bump_seed igp]]) pid = Inr (ai_key i)"
    "ai_key b = igp_beneficiary igp"
    and n: "unat n = unat (lamports i vm) -
        (unat (lamports i vm) - unat (rt_minimum_balance rt (length (acc_data (vm_ledger vm (ai_key i))))))"
    and m: "unat m = unat (lamports b (set_lamports (ai_key i) n vm)) +
        (unat (lamports i vm) - unat (rt_minimum_balance rt (length (acc_data (vm_ledger vm (ai_key i))))))"
    and v: "vm' = set_lamports (ai_key b) m (set_lamports (ai_key i) n vm)"
    and r: "rt_minimum_balance rt (length (acc_data (vm_ledger vm' (ai_key i)))) \<le> lamports i vm'"
  proof -
    have "on_success (igp_claim rt pid accounts vm) (\<lambda>v. v = vm' \<longrightarrow> thesis)"
      unfolding igp_claim_def
      by (intro success_intros on_successI)
         (clarsimp simp: result_simps unat_saturating_sub verify_rent_exempt_def create_program_address_def borrow_data_def,
          rule that, auto simp: owner_of_def unat_saturating_sub split: if_splits)
    then show thesis using run by (simp add: on_success_def)
  qed
  have same: "same_data (vm_ledger vm) (vm_ledger vm') k" for k
    unfolding v by (rule same_data_trans [OF set_lamports_same set_lamports_same])
  then have "length (acc_data (vm_ledger vm' (ai_key i))) = length (acc_data (vm_ledger vm (ai_key i)))"
    by (simp add: same_data_def)
  with r a n m same show ?thesis
    by (intro exI [of _ sp] exI [of _ i] exI [of _ b] exI [of _ rest] exI [of _ igp])
       (auto simp: v set_lamports_def lamports_def Let_def min_def)
qed

text \<open>Only the signing owner changes an account, and only the field an instruction names.\<close>

definition admin_step :: "pubkey \<Rightarrow> bytes \<Rightarrow> 'a de \<Rightarrow> ('a \<Rightarrow> bytes) \<Rightarrow> ('a \<Rightarrow> pubkey option) \<Rightarrow> account_info list \<Rightarrow>
    ('a \<Rightarrow> 'a) \<Rightarrow> vm \<Rightarrow> vm \<Rightarrow> bool" where
  "admin_step pid disc de ser owner accounts f vm vm' \<longleftrightarrow>
     (\<exists>i own rest x d r. accounts = i # own # rest \<and> owner_of i vm = pid \<and>
        acc_data (vm_ledger vm (ai_key i)) = ser_bool True @ disc @ d \<and> de d = Inr (x, r) \<and>
        owner x = Some (ai_key own) \<and> ai_is_signer own \<and>
        holds (ser_discriminator disc ser) (f x) (ai_key i) (vm_ledger vm') \<and> only_changes (ai_key i) vm vm')"

lemma admin_stepI:
  assumes "get_igp_variant_and_verify_owner pid accounts disc de dflt owner vm = Inr (i, x, own)"
    and "length disc = 8" and "owner dflt = None"
    and "holds (ser_discriminator disc ser) (f x) (ai_key i) (vm_ledger vm')" "only_changes (ai_key i) vm vm'"
  shows "admin_step pid disc de ser owner accounts f vm vm'"
  using get_variant_Inr [OF assms(1-3)] assms(4,5) unfolding admin_step_def by blast

lemma transfer_variant_step:
  assumes "transfer_igp_variant_ownership pid accounts disc de ser dflt owner (\<lambda>w x. Inr (upd w x)) new_owner vm = Inr vm'"
    and "length disc = 8" and "owner dflt = None"
  shows "admin_step pid disc de ser owner accounts (upd new_owner) vm vm'"
  using assms(1) unfolding transfer_igp_variant_ownership_def
  by (auto simp: rbind_eq_Inr dest!: store_holds intro!: admin_stepI [where dflt = dflt and owner = owner, OF _ assms(2,3)])

lemma set_oracle_configs_step:
  assumes sys: "system_program_ok rt" and run: "set_gas_oracle_configs rt pid accounts cs vm = Inr vm'"
  shows "admin_step pid IGP_DISCRIMINATOR de_igp ser_igp igp_owner (tl accounts)
    (\<lambda>x. x\<lparr>igp_gas_oracles := fold oracle_config_update cs (igp_gas_oracles x)\<rparr>) vm vm'"
  using run unfolding set_gas_oracle_configs_def
  by (auto simp: rbind_eq_Inr check_system_program_Inr Let_def
      dest!: store_with_rent_exempt_realloc_Inr [OF sys]
      intro!: admin_stepI [where dflt = igp_default and owner = igp_owner, OF _ length_igp_discriminators(3) default_owners(1)])

lemma set_overheads_step:
  assumes sys: "system_program_ok rt" and run: "set_destination_gas_overheads rt pid accounts cs vm = Inr vm'"
  shows "admin_step pid OVERHEAD_IGP_DISCRIMINATOR de_overhead_igp ser_overhead_igp oi_owner (tl accounts)
    (\<lambda>x. x\<lparr>oi_gas_overheads := fold overhead_config_update cs (oi_gas_overheads x)\<rparr>) vm vm'"
  using run unfolding set_destination_gas_overheads_def
  by (auto simp: rbind_eq_Inr check_system_program_Inr Let_def
      dest!: store_with_rent_exempt_realloc_Inr [OF sys]
      intro!: admin_stepI [where dflt = overhead_igp_default and owner = oi_owner, OF _ length_igp_discriminators(2) default_owners(2)])

lemma set_beneficiary_step:
  assumes "set_igp_beneficiary pid accounts b vm = Inr vm'"
  shows "admin_step pid IGP_DISCRIMINATOR de_igp ser_igp igp_owner accounts (\<lambda>x. x\<lparr>igp_beneficiary := b\<rparr>) vm vm'"
  using assms unfolding set_igp_beneficiary_def
  by (auto simp: rbind_eq_Inr dest!: store_holds
      intro!: admin_stepI [where dflt = igp_default and owner = igp_owner, OF _ length_igp_discriminators(3) default_owners(1)])

text \<open>The last configuration given for a domain counts.\<close>

lemma oracle_updates:
  "hm_get (fold oracle_config_update cs m) d =
   (case map_of (rev (map (\<lambda>c. (gc_domain c, gc_gas_oracle c)) cs)) d of None \<Rightarrow> hm_get m d | Some c \<Rightarrow> c)"
proof -
  have "fold oracle_config_update cs m = fold (\<lambda>(k, c). case c of Some v \<Rightarrow> hm_insert k v | None \<Rightarrow> hm_remove k)
      (map (\<lambda>c. (gc_domain c, gc_gas_oracle c)) cs) m"
    by (induction cs arbitrary: m) (auto simp: oracle_config_update_def split: option.splits)
  then show ?thesis by (simp only: hm.get_updates)
qed

lemma overhead_updates:
  "hm_get (fold overhead_config_update cs m) d =
   (case map_of (rev (map (\<lambda>c. (go_destination_domain c, go_gas_overhead c)) cs)) d of None \<Rightarrow> hm_get m d | Some c \<Rightarrow> c)"
proof -
  have "fold overhead_config_update cs m = fold (\<lambda>(k, c). case c of Some v \<Rightarrow> hm_insert k v | None \<Rightarrow> hm_remove k)
      (map (\<lambda>c. (go_destination_domain c, go_gas_overhead c)) cs) m"
    by (induction cs arbitrary: m) (auto simp: overhead_config_update_def split: option.splits)
  then show ?thesis by (simp only: hm.get_updates)
qed

lemma sample_igp_length: "length (acc_data (vm_ledger igp_vm 101)) = 149"
  by (simp add: igp_vm_def initial_vm_def ser_discriminator_def ser_igp_def sample_igp_def ser_hash_map_def ser_vec_def
      ser_entry_def ser_gas_oracle_def ser_option_def)

lemma sample_igp_vm:
  "fetch_prefixed IGP_DISCRIMINATOR de_igp igp_default (signer_account 101) igp_vm = Inr sample_igp"
  "acc_owner (vm_ledger igp_vm 101) = 3000" "vm_borrowed igp_vm = []" "acc_lamports (vm_ledger igp_vm 101) = 1000"
proof -
  show "fetch_prefixed IGP_DISCRIMINATOR de_igp igp_default (signer_account 101) igp_vm = Inr sample_igp"
    by (rule sample_igp_fetch) (auto simp: holds_def igp_vm_def initial_vm_def)
qed (simp_all add: igp_vm_def initial_vm_def)

lemma sample_configure:
  "\<exists>vm'. set_gas_oracle_configs sim_runtime 3000 [program_account 0, signer_account 101, signer_account 1]
     [\<lparr>gc_domain = 5, gc_gas_oracle = None\<rparr>] igp_vm = Inr vm'"
proof -
  let ?x = "sample_igp\<lparr>igp_gas_oracles := []\<rparr>" and ?S = "ser_discriminator IGP_DISCRIMINATOR ser_igp"
  have "length (?S ?x) = 110"
    by (simp add: ser_discriminator_def ser_igp_def sample_igp_def ser_hash_map_def ser_vec_def ser_option_def)
  then have "\<exists>vm'. store ?S ?x (signer_account 101) False igp_vm = Inr vm'"
    using store_ok [of "signer_account 101" igp_vm ?S ?x False] by (simp add: sample_igp_vm sample_igp_length)
  moreover have "fold oracle_config_update [\<lparr>gc_domain = 5, gc_gas_oracle = None\<rparr>] (igp_gas_oracles sample_igp) = []"
    "account_size (discriminator_size igp_size) ?x = 111" "igp_owner sample_igp = Some 1"
    by (simp_all add: oracle_config_update_def sample_igp_def hm_remove_def account_size_def discriminator_size_def
        igp_size_def DISCRIMINATOR_LENGTH_def)
  ultimately show ?thesis
    by (simp add: set_gas_oracle_configs_def check_system_program_def SYSTEM_PROGRAM_ID_def Let_def
        get_igp_variant_and_verify_owner_def owner_of_def sample_igp_vm ensure_owner_signer_def
        store_with_rent_exempt_realloc_def borrow_data_def sample_igp_length lamports_def sim_runtime_def)
qed

lemma sample_claim:
  "\<exists>vm'. igp_claim sim_runtime 3000 [program_account 0, signer_account 101, signer_account 2] igp_vm = Inr vm'"
proof -
  have k: "sim_key (igp_seeds 100) 3000 = 101"
    using sim_key_last [of "[str_bytes ''hyperlane_igp'', str_bytes ''-'', str_bytes ''igp'', str_bytes ''-'']" 100 3000]
    by (simp add: igp_seeds_def)
  have i: "igp_salt sample_igp = 100" "igp_bump_seed sample_igp = 255" "igp_beneficiary sample_igp = 2"
    by (simp_all add: sample_igp_def)
  have z: "acc_lamports (vm_ledger igp_vm 2) = 0" by (simp add: igp_vm_def sim_simps)
  show ?thesis
    by (simp add: igp_claim_def check_system_program_def SYSTEM_PROGRAM_ID_def owner_of_def sample_igp_vm i
        create_program_address_def sim_runtime_def sim_create_address_def k borrow_data_def sample_igp_length Let_def
        lamports_def saturating_sub_def checked_sub_def checked_add_def set_lamports_def z verify_rent_exempt_def)
qed

section \<open>Properties\<close>

text \<open>
  C28. Quotes are exact: the quote for a domain without an oracle is the error
  \<^verbatim>\<open>NoGasOracleSetForDestinationDomain\<close>; with an oracle it is the price of the gas converted with the
  exchange rate and the decimals, rounded down, computed without wrap-around, and the program panics
  exactly when an intermediate product exceeds 256 bits, the decimals exceed 86, or the quote exceeds
  64 bits.
\<close>

theorem igp_quote_exact:
  "igp_quote_gas_payment x domain gas_amount =
   (case hm_get (igp_gas_oracles x) domain of
      None \<Rightarrow> Inl (Err NoGasOracleSetForDestinationDomain)
    | Some (RemoteGasData d) \<Rightarrow>
        if quote_fits d gas_amount then Inr (word_of_nat (quote_spec d gas_amount)) else Inl Panic)"
  by (rule igp_quote_gas_payment_eq)

text \<open>
  C14. Gas payments are numbered without gaps: in every run of the program, however other transactions
  interleave, the recorded payments carry the sequence numbers 0, 1, 2, and so on, which is what the
  indexer of the relayer relies on.
\<close>

theorem igp_sequence_numbers:
  assumes "system_program_ok rt" and "pid \<noteq> SYSTEM_PROGRAM_ID" and "igp_run rt pid ps vm"
  shows "map (\<lambda>g. unat (gp_sequence_number g)) ps = [0..<length ps]"
  using igp_run_inv [OF assms] by blast

theorem igp_sequence_numbers_witness:
  "\<exists>vm (g :: gas_payment_data). igp_run sim_runtime 3000 [g] vm \<and> unat (gp_sequence_number g) = 0"
proof -
  obtain vm and g :: gas_payment_data where r: "igp_run sim_runtime 3000 [g] vm" using igp_sample_run by metis
  then show ?thesis using igp_sequence_numbers [OF sim_system_ok sample_pid r] by auto
qed

text \<open>
  C21. A payment for gas charges the quote and records it. The payer signed; the gas charged for is the gas
  asked for, plus the overhead that the overhead paymaster has stored for the domain when one is given,
  which must be an account of the program at its address with this paymaster as inner one; the quote of
  the paymaster for that much gas is transferred to it; and the gas payment account holds the message, the
  domain, the gas amount, the payment and the next sequence number.
\<close>

theorem igp_pay_for_gas_exact:
  assumes "system_program_ok rt" and "pid \<noteq> SYSTEM_PROGRAM_ID" and "igp_run rt pid ps vm"
    and "pay_for_gas rt pid accounts payment vm = Inr vm'"
  shows "\<exists>g igp. length accounts \<ge> 6 \<and>
    holds (ser_discriminator GAS_PAYMENT_DISCRIMINATOR ser_gas_payment) g (ai_key (accounts ! 4)) (vm_ledger vm') \<and>
    unat (gp_sequence_number g) = length ps \<and> gp_igp g = ai_key (accounts ! 5) \<and>
    gp_message_id g = pg_message_id payment \<and> gp_destination_domain g = pg_destination_domain payment \<and>
    fetch_prefixed IGP_DISCRIMINATOR de_igp igp_default (accounts ! 5) vm = Inr igp \<and>
    (length accounts = 6 \<longrightarrow> gp_gas_amount g = pg_gas_amount payment) \<and>
    (length accounts > 6 \<longrightarrow> (\<exists>oi.
       owner_of (accounts ! 6) vm = pid \<and>
       fetch_prefixed OVERHEAD_IGP_DISCRIMINATOR de_overhead_igp overhead_igp_default (accounts ! 6) vm = Inr oi \<and>
       rt_create_program_address rt (overhead_igp_seeds (oi_salt oi) @ [[oi_bump_seed oi]]) pid = Inr (ai_key (accounts ! 6)) \<and>
       oi_inner oi = ai_key (accounts ! 5) \<and>
       unat (gp_gas_amount g) = unat (pg_gas_amount payment) +
         (case hm_get (oi_gas_overheads oi) (pg_destination_domain payment) of None \<Rightarrow> 0 | Some n \<Rightarrow> unat n))) \<and>
    igp_quote_gas_payment igp (pg_destination_domain payment) (gp_gas_amount g) = Inr (gp_payment g) \<and>
    ai_is_signer (accounts ! 1) \<and>
    (ai_key (accounts ! 1) \<noteq> ai_key (accounts ! 5) \<longrightarrow>
       unat (lamports (accounts ! 5) vm') = unat (lamports (accounts ! 5) vm) + unat (gp_payment g))"
  using pay_for_gas_facts [OF assms(1,2) conjunct1 [OF igp_run_inv [OF assms(1-3)]] assms(4)]
  by (elim exE conjE) (drule (1) pay_gas_amount_drop, blast)

theorem igp_pay_for_gas_exact_witness:
  "\<exists>vm vm' (g :: gas_payment_data).
     pay_for_gas sim_runtime 3000 pay_accounts sample_payment vm = Inr vm' \<and> unat (gp_sequence_number g) = 0 \<and>
     holds (ser_discriminator GAS_PAYMENT_DISCRIMINATOR ser_gas_payment) g 301 (vm_ledger vm') \<and> gp_message_id g = 42 \<and>
     (\<exists>oi. fetch_prefixed OVERHEAD_IGP_DISCRIMINATOR de_overhead_igp overhead_igp_default (signer_account 201) vm = Inr oi \<and>
        unat (gp_gas_amount g) = 7 + (case hm_get (oi_gas_overheads oi) 5 of None \<Rightarrow> 0 | Some n \<Rightarrow> unat n))"
proof -
  obtain vm vm' where r: "igp_run sim_runtime 3000 [] vm"
    and p: "pay_for_gas sim_runtime 3000 pay_accounts sample_payment vm = Inr vm'" using igp_sample_run by metis
  from igp_pay_for_gas_exact [OF sim_system_ok sample_pid r p] p show ?thesis
    by (fastforce simp: pay_accounts_def sample_payment_def)
qed

text \<open>
  C29. Claims are paid to the beneficiary: whoever sends the instruction, a claim moves exactly what the
  paymaster account holds above its rent-exempt minimum to the stored beneficiary, leaves the minimum,
  and changes nothing else.
\<close>

theorem igp_claim_beneficiary:
  assumes "igp_claim rt pid accounts vm = Inr vm'"
  shows "\<exists>sp i b rest igp.
    accounts = sp # i # b # rest \<and> owner_of i vm = pid \<and>
    fetch_prefixed IGP_DISCRIMINATOR de_igp igp_default i vm = Inr igp \<and>
    rt_create_program_address rt (igp_seeds (igp_salt igp) @ [[igp_bump_seed igp]]) pid = Inr (ai_key i) \<and>
    ai_key b = igp_beneficiary igp \<and>
    (let rent = rt_minimum_balance rt (length (acc_data (vm_ledger vm (ai_key i)))) in
      rent \<le> lamports i vm' \<and>
      (ai_key i \<noteq> ai_key b \<longrightarrow>
        unat (lamports i vm') = min (unat rent) (unat (lamports i vm)) \<and>
        unat (lamports b vm') = unat (lamports b vm) + (unat (lamports i vm) - unat rent))) \<and>
    (\<forall>k. same_data (vm_ledger vm) (vm_ledger vm') k) \<and>
    (\<forall>k. k \<noteq> ai_key i \<and> k \<noteq> ai_key b \<longrightarrow> vm_ledger vm' k = vm_ledger vm k)"
  by (rule igp_claim_facts [OF assms])

theorem igp_claim_beneficiary_witness:
  "\<exists>vm'. igp_claim sim_runtime 3000 [program_account 0, signer_account 101, signer_account 2] igp_vm = Inr vm' \<and>
     unat (lamports (signer_account 2) vm') = 851 \<and> unat (lamports (signer_account 101) vm') = 149"
proof -
  obtain vm' where c: "igp_claim sim_runtime 3000 [program_account 0, signer_account 101, signer_account 2] igp_vm = Inr vm'"
    using sample_claim by blast
  have "acc_lamports (vm_ledger igp_vm 2) = 0" by (simp add: igp_vm_def sim_simps)
  then show ?thesis
    using igp_claim_beneficiary [OF c] c
    by (auto simp: Let_def sample_igp_length lamports_def sample_igp_vm sim_runtime_def)
qed

text \<open>
  C30. Only owners configure: a successful update of the gas oracles or the gas overheads was signed by
  the stored owner of the account, changes only that account, and the stored map gives for every
  domain the last configuration of the instruction, or what it gave before.
\<close>

theorem igp_configure_owner_only:
  assumes "system_program_ok rt"
  shows "on_success (set_gas_oracle_configs rt pid accounts cs vm) (\<lambda>vm'.
      \<exists>f. admin_step pid IGP_DISCRIMINATOR de_igp ser_igp igp_owner (tl accounts)
        (\<lambda>x. x\<lparr>igp_gas_oracles := f (igp_gas_oracles x)\<rparr>) vm vm' \<and>
        (\<forall>m d. hm_get (f m) d =
          (case map_of (rev (map (\<lambda>c. (gc_domain c, gc_gas_oracle c)) cs)) d of None \<Rightarrow> hm_get m d | Some c \<Rightarrow> c))) \<and>
    on_success (set_destination_gas_overheads rt pid accounts os vm) (\<lambda>vm'.
      \<exists>f. admin_step pid OVERHEAD_IGP_DISCRIMINATOR de_overhead_igp ser_overhead_igp oi_owner (tl accounts)
        (\<lambda>x. x\<lparr>oi_gas_overheads := f (oi_gas_overheads x)\<rparr>) vm vm' \<and>
        (\<forall>m d. hm_get (f m) d =
          (case map_of (rev (map (\<lambda>c. (go_destination_domain c, go_gas_overhead c)) os)) d of
             None \<Rightarrow> hm_get m d | Some c \<Rightarrow> c)))"
  unfolding on_success_def
  using set_oracle_configs_step [OF assms] set_overheads_step [OF assms] oracle_updates overhead_updates
  by blast

theorem igp_configure_owner_only_witness:
  "\<exists>vm' f. admin_step 3000 IGP_DISCRIMINATOR de_igp ser_igp igp_owner [signer_account 101, signer_account 1]
     (\<lambda>x. x\<lparr>igp_gas_oracles := f (igp_gas_oracles x)\<rparr>) igp_vm vm' \<and> hm_get (f (igp_gas_oracles sample_igp)) 5 = None"
proof -
  obtain vm' where "set_gas_oracle_configs sim_runtime 3000 [program_account 0, signer_account 101, signer_account 1]
     [\<lparr>gc_domain = 5, gc_gas_oracle = None\<rparr>] igp_vm = Inr vm'" using sample_configure by blast
  from on_successD [OF conjunct1 [OF igp_configure_owner_only [OF sim_system_ok]] this]
  obtain f where "admin_step 3000 IGP_DISCRIMINATOR de_igp ser_igp igp_owner [signer_account 101, signer_account 1]
       (\<lambda>x. x\<lparr>igp_gas_oracles := f (igp_gas_oracles x)\<rparr>) igp_vm vm'" "hm_get (f (igp_gas_oracles sample_igp)) 5 = None"
    by (auto split: option.splits)
  then show ?thesis by blast
qed

end
