(* ===== verification/Validator_Announce.thy ===== *)
theory Validator_Announce
  imports Multisig
begin

text \<open>
  The program validators announce their checkpoint storage with,
  \<^verbatim>\<open>sealevel/programs/validator-announce\<close>: accounts (\<^verbatim>\<open>accounts.rs\<close>), seeds (\<^verbatim>\<open>pda_seeds.rs\<close>),
  instructions (\<^verbatim>\<open>instruction.rs\<close>) and every handler of \<^verbatim>\<open>processor.rs\<close>. A \<^verbatim>\<open>String\<close> is the byte string
  of its UTF-8 text.
\<close>

section \<open>Strings\<close>

definition continuation :: "u8 \<Rightarrow> bool" where
  "continuation b \<longleftrightarrow> 0x80 \<le> b \<and> b \<le> 0xBF"

text \<open>\<^verbatim>\<open>std::str::from_utf8\<close>: no overlong forms, no surrogates, nothing above U+10FFFF.\<close>

fun utf8_valid :: "bytes \<Rightarrow> bool" where
  "utf8_valid [] = True"
| "utf8_valid (a # r) =
     (if a < 0x80 then utf8_valid r
      else if 0xC2 \<le> a \<and> a \<le> 0xDF then
        (case r of b # r \<Rightarrow> continuation b \<and> utf8_valid r | _ \<Rightarrow> False)
      else if 0xE0 \<le> a \<and> a \<le> 0xEF then
        (case r of b # c # r \<Rightarrow>
           continuation b \<and> (a = 0xE0 \<longrightarrow> 0xA0 \<le> b) \<and> (a = 0xED \<longrightarrow> b \<le> 0x9F) \<and>
           continuation c \<and> utf8_valid r | _ \<Rightarrow> False)
      else if 0xF0 \<le> a \<and> a \<le> 0xF4 then
        (case r of b # c # d # r \<Rightarrow>
           continuation b \<and> (a = 0xF0 \<longrightarrow> 0x90 \<le> b) \<and> (a = 0xF4 \<longrightarrow> b \<le> 0x8F) \<and>
           continuation c \<and> continuation d \<and> utf8_valid r | _ \<Rightarrow> False)
      else False)"

definition de_string :: "bytes de" where
  "de_string r = rbind (de_bytes r) (\<lambda>(s, r). require (utf8_valid s) InvalidData (Inr (s, r)))"

definition string_valid :: "bytes \<Rightarrow> bool" where
  "string_valid s \<longleftrightarrow> length s < 2 ^ 32 \<and> utf8_valid s"

section \<open>Seeds and errors\<close>

definition validator_announce_seeds :: "bytes list" where
  "validator_announce_seeds =
     [str_bytes ''hyperlane_validator_announce'', str_bytes ''-'', str_bytes ''validator_announce'']"

definition storage_locations_seeds :: "h160 \<Rightarrow> bytes list" where
  "storage_locations_seeds validator =
     [str_bytes ''hyperlane_validator_announce'', str_bytes ''-'', str_bytes ''storage_locations'',
      str_bytes ''-'', to_be_bytes 20 validator]"

definition replay_protection_seeds :: "bytes \<Rightarrow> bytes list" where
  "replay_protection_seeds replay_id =
     [str_bytes ''hyperlane_validator_announce'', str_bytes ''-'', str_bytes ''replay_protection'',
      str_bytes ''-'', replay_id]"

datatype va_error = SignatureError | SignerMismatch

primrec va_error_code :: "va_error \<Rightarrow> u32" where
  "va_error_code SignatureError = 1"
| "va_error_code SignerMismatch = 2"

section \<open>Accounts\<close>

record validator_announce =
  va_bump_seed :: u8
  va_mailbox :: pubkey
  va_local_domain :: u32

definition validator_announce_default :: validator_announce where
  "validator_announce_default = \<lparr>va_bump_seed = 0, va_mailbox = 0, va_local_domain = 0\<rparr>"

definition ser_va :: "validator_announce \<Rightarrow> bytes" where
  "ser_va x = ser_u8 (va_bump_seed x) @ ser_h256 (va_mailbox x) @ ser_u32 (va_local_domain x)"

definition de_va :: "validator_announce de" where
  "de_va r =
     rbind (de_u8 r) (\<lambda>(bump, r).
     rbind (de_h256 r) (\<lambda>(mailbox, r).
     rbind (de_u32 r) (\<lambda>(domain, r).
     Inr (\<lparr>va_bump_seed = bump, va_mailbox = mailbox, va_local_domain = domain\<rparr>, r))))"

definition va_size :: "validator_announce \<Rightarrow> nat" where
  "va_size x = 1 + 32 + 4"

definition verify_self_account_info ::
  "runtime \<Rightarrow> pubkey \<Rightarrow> validator_announce \<Rightarrow> account_info \<Rightarrow> vm \<Rightarrow> unit exec" where
  "verify_self_account_info rt program_id x maybe_self vm =
     rbind (create_program_address rt (validator_announce_seeds @ [[va_bump_seed x]]) program_id)
       (\<lambda>expected_key.
     require (\<not> (owner_of maybe_self vm \<noteq> program_id \<or> ai_key maybe_self \<noteq> expected_key))
       (Err InvalidAccountData) (Inr ()))"

record validator_storage_locations =
  sl_bump_seed :: u8
  sl_storage_locations :: "bytes list"

definition storage_locations_default :: validator_storage_locations where
  "storage_locations_default = \<lparr>sl_bump_seed = 0, sl_storage_locations = []\<rparr>"

definition ser_sl :: "validator_storage_locations \<Rightarrow> bytes" where
  "ser_sl x = ser_u8 (sl_bump_seed x) @ ser_vec ser_bytes (sl_storage_locations x)"

definition de_sl :: "validator_storage_locations de" where
  "de_sl r =
     rbind (de_u8 r) (\<lambda>(bump, r).
     rbind (de_vec de_string r) (\<lambda>(storage_locations, r).
     Inr (\<lparr>sl_bump_seed = bump, sl_storage_locations = storage_locations\<rparr>, r)))"

definition size_increase_for_new_storage_location :: "bytes \<Rightarrow> nat" where
  "size_increase_for_new_storage_location new_storage_location = 4 + length new_storage_location"

definition sl_size :: "validator_storage_locations \<Rightarrow> nat" where
  "sl_size x = 1 + 4 + sum_list (map size_increase_for_new_storage_location (sl_storage_locations x))"

text \<open>The data of a replay protection account is \<^verbatim>\<open>()\<close>.\<close>

definition replay_protection_size :: "unit \<Rightarrow> nat" where
  "replay_protection_size x = 0"

section \<open>Instructions\<close>

record va_init =
  vi_mailbox :: pubkey
  vi_local_domain :: u32

record announce_ix =
  an_validator :: h160
  an_storage_location :: bytes
  an_signature :: bytes

datatype va_instruction = VaInit va_init | Announce announce_ix

primrec ser_va_instruction :: "va_instruction \<Rightarrow> bytes" where
  "ser_va_instruction (VaInit i) = ser_u8 0 @ ser_h256 (vi_mailbox i) @ ser_u32 (vi_local_domain i)"
| "ser_va_instruction (Announce a) =
     ser_u8 1 @ ser_h160 (an_validator a) @ ser_bytes (an_storage_location a) @ ser_bytes (an_signature a)"

definition de_va_instruction :: "va_instruction de" where
  "de_va_instruction r =
     rbind (de_u8 r) (\<lambda>(tag, r).
     if tag = 0 then
       rbind (de_h256 r) (\<lambda>(mailbox, r).
       rbind (de_u32 r) (\<lambda>(domain, r).
       Inr (VaInit \<lparr>vi_mailbox = mailbox, vi_local_domain = domain\<rparr>, r)))
     else if tag = 1 then
       rbind (de_h160 r) (\<lambda>(validator, r).
       rbind (de_string r) (\<lambda>(storage_location, r).
       rbind (de_bytes r) (\<lambda>(signature, r).
       Inr (Announce \<lparr>an_validator = validator, an_storage_location = storage_location,
                      an_signature = signature\<rparr>, r))))
     else Inl InvalidData)"

primrec va_instruction_valid :: "va_instruction \<Rightarrow> bool" where
  "va_instruction_valid (VaInit i) = True"
| "va_instruction_valid (Announce a) =
     (string_valid (an_storage_location a) \<and> length (an_signature a) < 2 ^ 32)"

definition va_from_instruction_data :: "bytes \<Rightarrow> va_instruction exec" where
  "va_from_instruction_data data =
     map_err (\<lambda>_. Err InvalidInstructionData) (try_from_slice de_va_instruction data)"

definition va_into_instruction_data :: "va_instruction \<Rightarrow> bytes exec" where
  "va_into_instruction_data ix = Inr (ser_va_instruction ix)"

definition replay_id :: "keccak \<Rightarrow> announce_ix \<Rightarrow> bytes" where
  "replay_id kc a = h256_bytes (kc (to_be_bytes 20 (an_validator a) @ an_storage_location a))"

section \<open>Handlers\<close>

definition va_process_init ::
  "runtime \<Rightarrow> pubkey \<Rightarrow> account_info list \<Rightarrow> va_init \<Rightarrow> vm \<Rightarrow> vm exec" where
  "va_process_init rt program_id accounts init vm =
     rbind (next_account_info accounts) (\<lambda>(payer_info, accounts).
     require (ai_is_signer payer_info) (Err MissingRequiredSignature) (
     rbind (next_account_info accounts) (\<lambda>(system_program_info, accounts).
     require (ai_key system_program_info = SYSTEM_PROGRAM_ID) (Err IncorrectProgramId) (
     rbind (next_account_info accounts) (\<lambda>(validator_announce_info, accounts).
     require (ai_is_writable validator_announce_info) (Err InvalidAccountData) (
     require (owner_of validator_announce_info vm = SYSTEM_PROGRAM_ID) (Err AccountAlreadyInitialized) (
     rbind (borrow_data validator_announce_info vm) (\<lambda>d.
     require (d = []) (Err AccountAlreadyInitialized) (
     let (validator_announce_key, validator_announce_bump_seed) =
           rt_find_program_address rt validator_announce_seeds program_id in
     require (ai_key validator_announce_info = validator_announce_key) (Err IncorrectProgramId) (
     let validator_announce = \<lparr>va_bump_seed = validator_announce_bump_seed, va_mailbox = vi_mailbox init,
                               va_local_domain = vi_local_domain init\<rparr> in
     rbind (create_pda_account rt payer_info (account_size va_size validator_announce) program_id
              system_program_info validator_announce_info
              (validator_announce_seeds @ [[validator_announce_bump_seed]]) vm) (\<lambda>vm.
     store ser_va validator_announce validator_announce_info False vm)))))))))))"

definition va_announcement :: "announce_ix \<Rightarrow> validator_announce \<Rightarrow> announcement" where
  "va_announcement announce x =
     \<lparr>ann_validator = an_validator announce, ann_mailbox_address = va_mailbox x,
      ann_mailbox_domain = va_local_domain x, ann_storage_location = an_storage_location announce\<rparr>"

definition va_err :: "va_error \<Rightarrow> program_error failure" where
  "va_err e = Err (Custom (va_error_code e))"

definition verify_validator_signed_announcement ::
  "keccak \<Rightarrow> secp256k1 \<Rightarrow> announce_ix \<Rightarrow> validator_announce \<Rightarrow> unit exec" where
  "verify_validator_signed_announcement kc secp announce x =
     (let announcement = va_announcement announce x;
          announcement_digest = eth_signed_message_hash kc (announcement_signing_hash kc) announcement in
      rbind (map_err (\<lambda>_. va_err SignatureError) (ecdsa_from_bytes (an_signature announce))) (\<lambda>signature.
      rbind (ok_or (ecdsa_recover kc secp (h256_bytes announcement_digest) signature) (va_err SignatureError))
        (\<lambda>recovered_signer.
      require (recovered_signer = ann_validator announcement) (Err InvalidAccountData) (Inr ()))))"

text \<open>The new content of the storage locations account, which is created when it does not exist.\<close>

definition new_storage_locations ::
  "runtime \<Rightarrow> pubkey \<Rightarrow> account_info \<Rightarrow> account_info \<Rightarrow> account_info \<Rightarrow> announce_ix \<Rightarrow> vm \<Rightarrow>
     (validator_storage_locations \<times> nat \<times> vm) exec" where
  "new_storage_locations rt program_id payer_info system_program_info info announcement vm =
     rbind (if owner_of info vm = program_id then rbind (borrow_data info vm) (\<lambda>d. Inr (d \<noteq> []))
            else Inr False) (\<lambda>initialized.
     if initialized then
       rbind (borrow_data info vm) (\<lambda>d.
       rbind (fetch (lift_de de_sl) storage_locations_default d) (\<lambda>x.
       rbind (create_program_address rt
                (storage_locations_seeds (an_validator announcement) @ [[sl_bump_seed x]]) program_id)
         (\<lambda>expected_key.
       require (ai_key info = expected_key) (Err IncorrectProgramId) (
       let new_serialized_size =
             length d + size_increase_for_new_storage_location (an_storage_location announcement) in
       Inr (x\<lparr>sl_storage_locations := sl_storage_locations x @ [an_storage_location announcement]\<rparr>,
            new_serialized_size, vm)))))
     else
       let (key, bump_seed) =
             rt_find_program_address rt (storage_locations_seeds (an_validator announcement)) program_id in
       require (ai_key info = key) (Err IncorrectProgramId) (
       let x = \<lparr>sl_bump_seed = bump_seed, sl_storage_locations = [an_storage_location announcement]\<rparr>;
           size = account_size sl_size x in
       rbind (create_pda_account rt payer_info size program_id system_program_info info
                (storage_locations_seeds (an_validator announcement) @ [[bump_seed]]) vm) (\<lambda>vm.
       Inr (x, size, vm))))"

definition update_validator_storage_locations ::
  "runtime \<Rightarrow> pubkey \<Rightarrow> account_info \<Rightarrow> account_info \<Rightarrow> account_info \<Rightarrow> announce_ix \<Rightarrow> vm \<Rightarrow> vm exec" where
  "update_validator_storage_locations rt program_id payer_info system_program_info info announcement vm =
     rbind (new_storage_locations rt program_id payer_info system_program_info info announcement vm)
       (\<lambda>(x, new_serialized_size, vm).
     rbind (borrow_data info vm) (\<lambda>d.
     let existing_serialized_size = length d;
         required_rent = rt_minimum_balance rt new_serialized_size;
         current = lamports info vm in
     rbind (if current < required_rent
            then invoke_system rt (SysTransfer (ai_key payer_info) (ai_key info) (required_rent - current))
                   [payer_info, info] vm
            else Inr vm) (\<lambda>vm.
     rbind (if existing_serialized_size \<noteq> new_serialized_size then realloc info new_serialized_size vm
            else Inr vm) (\<lambda>vm.
     store ser_sl x info False vm))))"

definition create_replay_protection_account ::
  "runtime \<Rightarrow> pubkey \<Rightarrow> account_info \<Rightarrow> account_info \<Rightarrow> account_info \<Rightarrow> bytes \<Rightarrow> u8 \<Rightarrow> vm \<Rightarrow> vm exec" where
  "create_replay_protection_account rt program_id payer_info system_program_info info id' bump_seed vm =
     create_pda_account rt payer_info (account_size replay_protection_size ()) program_id
       system_program_info info (replay_protection_seeds id' @ [[bump_seed]]) vm"

definition process_announce ::
  "keccak \<Rightarrow> secp256k1 \<Rightarrow> runtime \<Rightarrow> pubkey \<Rightarrow> account_info list \<Rightarrow> announce_ix \<Rightarrow> vm \<Rightarrow> vm exec" where
  "process_announce kc secp rt program_id accounts announcement vm =
     rbind (next_account_info accounts) (\<lambda>(payer_info, accounts).
     require (ai_is_signer payer_info) (Err MissingRequiredSignature) (
     rbind (next_account_info accounts) (\<lambda>(system_program_info, accounts).
     require (ai_key system_program_info = SYSTEM_PROGRAM_ID) (Err IncorrectProgramId) (
     rbind (next_account_info accounts) (\<lambda>(validator_announce_info, accounts).
     rbind (borrow_data validator_announce_info vm) (\<lambda>d.
     rbind (fetch (lift_de de_va) validator_announce_default d) (\<lambda>x.
     rbind (verify_self_account_info rt program_id x validator_announce_info vm) (\<lambda>_.
     rbind (next_account_info accounts) (\<lambda>(validator_storage_locations_info, accounts).
     rbind (next_account_info accounts) (\<lambda>(replay_protection_info, accounts).
     let id' = replay_id kc announcement;
         (expected_replay_protection_key, replay_protection_bump_seed) =
           rt_find_program_address rt (replay_protection_seeds id') program_id in
     require (ai_key replay_protection_info = expected_replay_protection_key) (Err IncorrectProgramId) (
     require (ai_is_writable replay_protection_info) (Err InvalidAccountData) (
     rbind (borrow_data replay_protection_info vm) (\<lambda>d.
     require (d = []) (Err AccountAlreadyInitialized) (
     rbind (verify_validator_signed_announcement kc secp announcement x) (\<lambda>_.
     rbind (update_validator_storage_locations rt program_id payer_info system_program_info
              validator_storage_locations_info announcement vm) (\<lambda>vm.
     create_replay_protection_account rt program_id payer_info system_program_info
       replay_protection_info id' replay_protection_bump_seed vm))))))))))))))))"

definition va_process_instruction ::
  "keccak \<Rightarrow> secp256k1 \<Rightarrow> runtime \<Rightarrow> pubkey \<Rightarrow> account_info list \<Rightarrow> bytes \<Rightarrow> vm \<Rightarrow> vm exec" where
  "va_process_instruction kc secp rt program_id accounts instruction_data vm =
     rbind (va_from_instruction_data instruction_data) (\<lambda>ix.
     case ix of
       VaInit init \<Rightarrow> va_process_init rt program_id accounts init vm
     | Announce announce \<Rightarrow> process_announce kc secp rt program_id accounts announce vm)"

end
