(* ===== verification/Validator_Announce_Correct.thy ===== *)
theory Validator_Announce_Correct
  imports Validator_Announce
begin

text \<open>
  Correctness of the announcement program: in every run the storage locations account of a validator
  holds exactly the locations it announced, in order and each once, and each announcement was signed by
  the validator for the mailbox and domain of the program.
\<close>

section \<open>Data formats\<close>

interpretation borsh_string: borsh ser_bytes de_string string_valid
  by unfold_locales (auto simp: de_string_def string_valid_def result_simps borsh_iffs borsh_bytes.de_ser)

interpretation borsh_strings: borsh "ser_vec ser_bytes" "de_vec de_string"
  "\<lambda>xs. length xs < 2 ^ 32 \<and> list_all string_valid xs"
  by (rule borsh_vec) (rule borsh_string.borsh_axioms)

interpretation borsh_va: borsh ser_va de_va always
  by unfold_locales (auto simp: ser_va_def de_va_def result_simps borsh_iffs borsh_u8.de_ser borsh_h256.de_ser
      borsh_u32.de_ser)

definition sl_valid :: "validator_storage_locations \<Rightarrow> bool" where
  "sl_valid x \<longleftrightarrow> length (sl_storage_locations x) < 2 ^ 32 \<and> list_all string_valid (sl_storage_locations x)"

interpretation borsh_sl: borsh ser_sl de_sl sl_valid
  by unfold_locales (auto simp: ser_sl_def de_sl_def sl_valid_def result_simps borsh_iffs borsh_strings.de_iff
      borsh_u8.de_ser borsh_strings.de_ser)

interpretation borsh_va_instruction: borsh ser_va_instruction de_va_instruction va_instruction_valid
proof
  fix x rest
  assume "va_instruction_valid x"
  then show "de_va_instruction (ser_va_instruction x @ rest) = Inr (x, rest)"
    by (cases x) (simp_all add: de_va_instruction_def borsh_u8.de_ser borsh_u32.de_ser borsh_h256.de_ser
        borsh_h160.de_ser borsh_string.de_ser borsh_bytes.de_ser)
next
  fix bs x rest
  assume "de_va_instruction bs = Inr (x, rest)"
  then show "bs = ser_va_instruction x @ rest \<and> va_instruction_valid x"
    by (auto simp: de_va_instruction_def result_simps borsh_iffs borsh_string.de_iff split: if_splits)
qed

lemma va_from_instruction_data_iff:
  "va_from_instruction_data data = Inr ix \<longleftrightarrow> data = ser_va_instruction ix \<and> va_instruction_valid ix"
  by (simp add: va_from_instruction_data_def result_simps borsh_va_instruction.try_from_slice_iff)

lemma length_ser_sl: "length (ser_sl x) = sl_size x"
proof -
  have "length (concat (map ser_bytes xs)) = sum_list (map size_increase_for_new_storage_location xs)" for xs
    by (induction xs) (simp_all add: size_increase_for_new_storage_location_def)
  then show ?thesis by (simp add: ser_sl_def ser_vec_def sl_size_def)
qed

lemma length_locations_size: "4 * length (sl_storage_locations x) \<le> sl_size x"
proof -
  have "4 * length xs \<le> sum_list (map size_increase_for_new_storage_location xs)" for xs
    by (induction xs) (simp_all add: size_increase_for_new_storage_location_def)
  from this [of "sl_storage_locations x"] show ?thesis by (simp add: sl_size_def)
qed

text \<open>An account that holds exactly a value is read back.\<close>

lemma fetch_exact:
  assumes "\<And>rest. de (ser x @ rest) = Inr (x, rest)"
  shows "fetch (lift_de de) dflt (ser_bool True @ ser x) = Inr x"
  using assms [of "[]"] borsh_bool.de_ser [of True "ser x"]
  by (simp add: fetch_def fetch_data_def lift_de_def borsh_err_def ser_bool_def)

text \<open>Storing into an account of exactly the right size.\<close>

lemma store_exact:
  assumes s: "store ser x i False vm = Inr vm'"
    and len: "length (acc_data (vm_ledger vm (ai_key i))) = Suc (length (ser x))"
  shows "vm' = write_data (ai_key i) (ser_bool True @ ser x) vm"
  using assms
  by (auto simp: store_def store_loop.simps result_simps store_in_slice_def Let_def split: option.splits if_splits)

section \<open>Addresses\<close>

definition va_address :: "runtime \<Rightarrow> pubkey \<Rightarrow> pubkey \<Rightarrow> bool" where
  "va_address rt pid k \<longleftrightarrow> (\<exists>b. rt_create_program_address rt (validator_announce_seeds @ [[b]]) pid = Inr k)"

definition storage_address :: "runtime \<Rightarrow> pubkey \<Rightarrow> h160 \<Rightarrow> pubkey \<Rightarrow> bool" where
  "storage_address rt pid v k \<longleftrightarrow> (\<exists>b. rt_create_program_address rt (storage_locations_seeds v @ [[b]]) pid = Inr k)"

definition va_key :: "runtime \<Rightarrow> pubkey \<Rightarrow> pubkey" where
  "va_key rt pid = fst (rt_find_program_address rt validator_announce_seeds pid)"

definition storage_key :: "runtime \<Rightarrow> pubkey \<Rightarrow> h160 \<Rightarrow> pubkey" where
  "storage_key rt pid v = fst (rt_find_program_address rt (storage_locations_seeds v) pid)"

definition replay_key :: "keccak \<Rightarrow> runtime \<Rightarrow> pubkey \<Rightarrow> announcement \<Rightarrow> pubkey" where
  "replay_key kc rt pid a =
     fst (rt_find_program_address rt
       (replay_protection_seeds (h256_bytes (kc (to_be_bytes 20 (ann_validator a) @ ann_storage_location a)))) pid)"

text \<open>The addresses of the announcements made do not collide with others of the program.\<close>

definition va_no_collisions :: "keccak \<Rightarrow> runtime \<Rightarrow> pubkey \<Rightarrow> announcement set \<Rightarrow> bool" where
  "va_no_collisions kc rt pid as \<longleftrightarrow>
     (\<forall>a \<in> as.
        (\<forall>k. storage_address rt pid (ann_validator a) k \<longrightarrow>
           \<not> va_address rt pid k \<and> (\<forall>v. storage_address rt pid v k \<longrightarrow> v = ann_validator a)) \<and>
        \<not> va_address rt pid (replay_key kc rt pid a) \<and> (\<forall>v. \<not> storage_address rt pid v (replay_key kc rt pid a)))"

lemma no_collisionsD:
  assumes "va_no_collisions kc rt pid as" and "a \<in> as"
  shows "storage_address rt pid (ann_validator a) k \<Longrightarrow> \<not> va_address rt pid k"
    "storage_address rt pid (ann_validator a) k \<Longrightarrow> storage_address rt pid v k \<Longrightarrow> v = ann_validator a"
    "\<not> va_address rt pid (replay_key kc rt pid a)" "\<not> storage_address rt pid v (replay_key kc rt pid a)"
  using assms unfolding va_no_collisions_def by blast+

lemma storage_key_address: "pda_canonical rt \<Longrightarrow> storage_address rt pid v (storage_key rt pid v)"
  unfolding storage_address_def storage_key_def by (metis pda_canonicalD prod.collapse)

lemma va_key_address: "pda_canonical rt \<Longrightarrow> va_address rt pid (va_key rt pid)"
  unfolding va_address_def va_key_def by (metis pda_canonicalD prod.collapse)

section \<open>Invariant\<close>

definition signed_announcement :: "keccak \<Rightarrow> secp256k1 \<Rightarrow> announcement \<Rightarrow> bool" where
  "signed_announcement kc secp a \<longleftrightarrow>
     (\<exists>s. ecdsa_recover kc secp
        (h256_bytes (eth_signed_message_hash kc (announcement_signing_hash kc) a)) s = Some (ann_validator a))"

definition announced :: "announcement list \<Rightarrow> h160 \<Rightarrow> bytes list" where
  "announced as v = map ann_storage_location (filter (\<lambda>a. ann_validator a = v) as)"

text \<open>The storage locations account of a validator, the account of one announcement, and the program's.\<close>

definition locations_stored :: "runtime \<Rightarrow> pubkey \<Rightarrow> announcement list \<Rightarrow> vm \<Rightarrow> bool" where
  "locations_stored rt pid as vm \<longleftrightarrow>
     (\<forall>v k. storage_address rt pid v k \<and> acc_owner (vm_ledger vm k) = pid \<longrightarrow>
        k = storage_key rt pid v \<and> sl_valid \<lparr>sl_bump_seed = 0, sl_storage_locations = announced as v\<rparr> \<and>
        (\<exists>b. acc_data (vm_ledger vm k) =
          ser_bool True @ ser_sl \<lparr>sl_bump_seed = b, sl_storage_locations = announced as v\<rparr>))"

definition announcement_ok :: "keccak \<Rightarrow> secp256k1 \<Rightarrow> runtime \<Rightarrow> pubkey \<Rightarrow> vm \<Rightarrow> announcement \<Rightarrow> bool" where
  "announcement_ok kc secp rt pid vm a \<longleftrightarrow>
     acc_owner (vm_ledger vm (storage_key rt pid (ann_validator a))) = pid \<and>
     acc_owner (vm_ledger vm (replay_key kc rt pid a)) = pid \<and>
     acc_data (vm_ledger vm (replay_key kc rt pid a)) \<noteq> [] \<and>
     signed_announcement kc secp a"

definition va_configured :: "runtime \<Rightarrow> pubkey \<Rightarrow> announcement list \<Rightarrow> vm \<Rightarrow> bool" where
  "va_configured rt pid as vm \<longleftrightarrow>
     (\<forall>k. va_address rt pid k \<and> acc_owner (vm_ledger vm k) = pid \<longrightarrow>
        k = va_key rt pid \<and>
        (\<exists>x tail. acc_data (vm_ledger vm k) = ser_bool True @ ser_va x @ tail \<and>
          (\<forall>a \<in> set as. ann_mailbox_address a = va_mailbox x \<and> ann_mailbox_domain a = va_local_domain x))) \<and>
     (as \<noteq> [] \<longrightarrow> acc_owner (vm_ledger vm (va_key rt pid)) = pid)"

definition va_inv :: "keccak \<Rightarrow> secp256k1 \<Rightarrow> runtime \<Rightarrow> pubkey \<Rightarrow> announcement list \<Rightarrow> vm \<Rightarrow> bool" where
  "va_inv kc secp rt pid as vm \<longleftrightarrow>
     locations_stored rt pid as vm \<and> list_all (announcement_ok kc secp rt pid vm) as \<and>
     va_configured rt pid as vm \<and> distinct (map (\<lambda>a. (ann_validator a, ann_storage_location a)) as)"

lemma announced_snoc:
  "announced (as @ [a]) v = announced as v @ (if ann_validator a = v then [ann_storage_location a] else [])"
  by (simp add: announced_def)

lemma announced_Nil: "announced as v = [] \<longleftrightarrow> (\<forall>a \<in> set as. ann_validator a \<noteq> v)"
  by (auto simp: announced_def filter_empty_conv)

lemma locations_storedD:
  assumes "locations_stored rt pid as vm" and "storage_address rt pid v k" and "acc_owner (vm_ledger vm k) = pid"
  shows "k = storage_key rt pid v" "sl_valid \<lparr>sl_bump_seed = 0, sl_storage_locations = announced as v\<rparr>"
    "\<exists>b. acc_data (vm_ledger vm k) =
       ser_bool True @ ser_sl \<lparr>sl_bump_seed = b, sl_storage_locations = announced as v\<rparr>"
  using assms unfolding locations_stored_def by blast+

section \<open>One announcement\<close>

text \<open>The new content is the old one with the location appended.\<close>

lemma new_storage_locations_facts:
  assumes sys: "system_program_ok rt" and pda: "pda_canonical rt" and pid: "pid \<noteq> SYSTEM_PROGRAM_ID"
    and inv: "locations_stored rt pid as vm"
    and old: "announced as (an_validator an) \<noteq> [] \<Longrightarrow> acc_owner (vm_ledger vm (storage_key rt pid (an_validator an))) = pid"
    and loc: "length (an_storage_location an) < 2 ^ 32"
    and run: "new_storage_locations rt pid payer sp i an vm = Inr (x, n, vm1)"
  shows "ai_key i = storage_key rt pid (an_validator an) \<and> only_changes (ai_key i) vm vm1 \<and>
    acc_owner (vm_ledger vm1 (ai_key i)) = pid \<and>
    sl_storage_locations x = announced as (an_validator an) @ [an_storage_location an] \<and>
    n = Suc (sl_size x)"
proof -
  let ?v = "an_validator an" and ?L = "announced as (an_validator an)"
  let ?k = "storage_key rt pid ?v" and ?d = "acc_data (vm_ledger vm (ai_key i))"
  have size: "sl_size \<lparr>sl_bump_seed = b, sl_storage_locations = xs @ [y]\<rparr> =
      sl_size \<lparr>sl_bump_seed = b, sl_storage_locations = xs\<rparr> + size_increase_for_new_storage_location y" for b xs y
    by (simp add: sl_size_def)
  show ?thesis
  proof (cases "owner_of i vm = pid \<and> ?d \<noteq> []")
    case True
    then obtain y where f: "fetch (lift_de de_sl) storage_locations_default ?d = Inr y"
      and key: "rt_create_program_address rt (storage_locations_seeds ?v @ [[sl_bump_seed y]]) pid = Inr (ai_key i)"
      and x: "x = y\<lparr>sl_storage_locations := sl_storage_locations y @ [an_storage_location an]\<rparr>"
      and n: "n = length ?d + size_increase_for_new_storage_location (an_storage_location an)" and vm1: "vm1 = vm"
      using run by (auto simp: new_storage_locations_def result_simps)
    have a: "storage_address rt pid ?v (ai_key i)" using key by (auto simp: storage_address_def)
    have o: "acc_owner (vm_ledger vm (ai_key i)) = pid" using True by (simp add: owner_of_def)
    note st = locations_storedD [OF inv a o]
    obtain b where d: "?d = ser_bool True @ ser_sl \<lparr>sl_bump_seed = b, sl_storage_locations = ?L\<rparr>"
      using st(3) by blast
    have "fetch (lift_de de_sl) storage_locations_default ?d = Inr \<lparr>sl_bump_seed = b, sl_storage_locations = ?L\<rparr>"
      unfolding d by (rule fetch_exact, rule borsh_sl.de_ser) (use st(2) in \<open>simp add: sl_valid_def\<close>)
    then have y: "y = \<lparr>sl_bump_seed = b, sl_storage_locations = ?L\<rparr>" using f by simp
    show ?thesis using st(1) o x n vm1 y d by (simp add: size length_ser_sl)
  next
    case False
    obtain key bump where f: "rt_find_program_address rt (storage_locations_seeds ?v) pid = (key, bump)" by force
    let ?x = "\<lparr>sl_bump_seed = bump, sl_storage_locations = [an_storage_location an]\<rparr>"
    have k: "ai_key i = key" "key = ?k" and x: "x = ?x" and n: "n = account_size sl_size ?x"
      and c: "create_pda_account rt payer (account_size sl_size ?x) pid sp i
        (storage_locations_seeds ?v @ [[bump]]) vm = Inr vm1"
      using run False f by (auto simp: new_storage_locations_def result_simps storage_key_def Let_def split: if_splits)
    have "account_size sl_size ?x < 2 ^ 64"
      using loc by (simp add: account_size_def sl_size_def size_increase_for_new_storage_location_def)
    note cs = create_pda_account_Inr [OF sys c this]
    have "?L = []" using old cs pid k by auto
    then show ?thesis using cs k x n by (simp add: account_size_def)
  qed
qed

lemma update_storage_locations_facts:
  assumes "system_program_ok rt" and "pda_canonical rt" and "pid \<noteq> SYSTEM_PROGRAM_ID"
    and "locations_stored rt pid as vm"
    and "announced as (an_validator an) \<noteq> [] \<Longrightarrow> acc_owner (vm_ledger vm (storage_key rt pid (an_validator an))) = pid"
    and "length (an_storage_location an) < 2 ^ 32"
    and run: "update_validator_storage_locations rt pid payer sp i an vm = Inr vm'"
  shows "ai_key i = storage_key rt pid (an_validator an) \<and> only_changes (ai_key i) vm vm' \<and>
    acc_owner (vm_ledger vm' (ai_key i)) = pid \<and>
    (\<exists>b. acc_data (vm_ledger vm' (ai_key i)) = ser_bool True @
      ser_sl \<lparr>sl_bump_seed = b, sl_storage_locations = announced as (an_validator an) @ [an_storage_location an]\<rparr>)"
proof -
  obtain x n vm1 vm2 vm3 where new: "new_storage_locations rt pid payer sp i an vm = Inr (x, n, vm1)"
    and t: "(if lamports i vm1 < rt_minimum_balance rt n
       then invoke_system rt (SysTransfer (ai_key payer) (ai_key i) (rt_minimum_balance rt n - lamports i vm1)) [payer, i] vm1
       else Inr vm1) = Inr vm2"
    and r: "(if length (acc_data (vm_ledger vm1 (ai_key i))) \<noteq> n then realloc i n vm2 else Inr vm2) = Inr vm3"
    and s: "store ser_sl x i False vm3 = Inr vm'"
    using run unfolding update_validator_storage_locations_def Let_def
    by (clarsimp simp only: rbind_eq_Inr borrow_data_Inr split_paired_all prod.case)
  note facts = new_storage_locations_facts [OF assms(1-6) new]
  have 2: "only_changes (ai_key i) vm1 vm2 \<and> same_data (vm_ledger vm1) (vm_ledger vm2) (ai_key i)"
    using t system_changes(1) [OF assms(1)] by (auto simp: invoke_system_def split: if_splits)
  have 3: "only_changes (ai_key i) vm2 vm3 \<and> acc_owner (vm_ledger vm3 (ai_key i)) = acc_owner (vm_ledger vm2 (ai_key i)) \<and>
      length (acc_data (vm_ledger vm3 (ai_key i))) = n"
    using r 2 by (auto simp: realloc_def result_simps same_data_def split: if_splits)
  have "vm' = write_data (ai_key i) (ser_bool True @ ser_sl x) vm3"
    by (rule store_exact [OF s]) (use 3 facts in \<open>simp add: length_ser_sl\<close>)
  moreover have "only_changes (ai_key i) vm vm3" using facts 2 3 only_changes_trans by blast
  moreover have "ser_sl x = ser_sl \<lparr>sl_bump_seed = sl_bump_seed x,
      sl_storage_locations = announced as (an_validator an) @ [an_storage_location an]\<rparr>"
    using facts by (simp add: ser_sl_def)
  ultimately show ?thesis
    using facts 2 3 only_changes_trans [OF _ only_changes_write]
    by (intro conjI exI [of _ "sl_bump_seed x"]) (auto simp: same_data_def)
qed

text \<open>What a successful announcement checked and did.\<close>

lemma process_announce_steps:
  assumes "process_announce kc secp rt pid accounts an vm = Inr vm'"
  obtains payer sp va sl rp rest x bump vm1 where
    "accounts = payer # sp # va # sl # rp # rest"
    "fetch (lift_de de_va) validator_announce_default (acc_data (vm_ledger vm (ai_key va))) = Inr x"
    "va_address rt pid (ai_key va)" "acc_owner (vm_ledger vm (ai_key va)) = pid"
    "ai_key rp = replay_key kc rt pid (va_announcement an x)" "acc_data (vm_ledger vm (ai_key rp)) = []"
    "signed_announcement kc secp (va_announcement an x)"
    "update_validator_storage_locations rt pid payer sp sl an vm = Inr vm1"
    "create_pda_account rt payer 1 pid sp rp (replay_protection_seeds (replay_id kc an) @ [[bump]]) vm1 = Inr vm'"
proof -
  have "on_success (process_announce kc secp rt pid accounts an vm) (\<lambda>v. v = vm' \<longrightarrow> thesis)"
    unfolding process_announce_def
  proof (intro success_intros on_successI impI)
    fix p1 r1 p2 r2 p3 r3 p4 r4 p5 r5 id' fk key bump d d' u u' x and payer sp va sl rp :: account_info and vm1 vm2 :: vm
    assume acc: "next_account_info accounts = Inr p1" "p1 = (payer, r1)" "next_account_info r1 = Inr p2"
        "p2 = (sp, r2)" "next_account_info r2 = Inr p3" "p3 = (va, r3)" "next_account_info r3 = Inr p4"
        "p4 = (sl, r4)" "next_account_info r4 = Inr p5" "p5 = (rp, r5)"
      and d: "borrow_data va vm = Inr d" and f: "fetch (lift_de de_va) validator_announce_default d = Inr x"
      and v: "verify_self_account_info rt pid x va vm = Inr u"
      and id': "replay_id kc an = id'" and fk: "rt_find_program_address rt (replay_protection_seeds id') pid = fk"
        "fk = (key, bump)" "ai_key rp = key" and d': "borrow_data rp vm = Inr d'" "d' = []"
      and sig: "verify_validator_signed_announcement kc secp an x = Inr u'"
      and up: "update_validator_storage_locations rt pid payer sp sl an vm = Inr vm1"
      and c: "create_replay_protection_account rt pid payer sp rp id' bump vm1 = Inr vm2" and e: "vm2 = vm'"
    show thesis
    proof (rule that)
      show "accounts = payer # sp # va # sl # rp # r5" using acc by (auto simp: result_simps)
      show "fetch (lift_de de_va) validator_announce_default (acc_data (vm_ledger vm (ai_key va))) = Inr x"
        using d f by (simp add: result_simps)
      show "va_address rt pid (ai_key va)" "acc_owner (vm_ledger vm (ai_key va)) = pid"
        using v by (auto simp: verify_self_account_info_def result_simps va_address_def owner_of_def)
      show "ai_key rp = replay_key kc rt pid (va_announcement an x)"
        using fk id' by (simp add: replay_key_def va_announcement_def replay_id_def)
      show "acc_data (vm_ledger vm (ai_key rp)) = []" using d' by (simp add: result_simps)
      show "signed_announcement kc secp (va_announcement an x)"
        using sig by (auto simp: verify_validator_signed_announcement_def Let_def result_simps signed_announcement_def)
      show "update_validator_storage_locations rt pid payer sp sl an vm = Inr vm1" by (rule up)
      show "create_pda_account rt payer 1 pid sp rp (replay_protection_seeds (replay_id kc an) @ [[bump]]) vm1 = Inr vm'"
        using c e id' by (simp add: create_replay_protection_account_def account_size_def replay_protection_size_def)
    qed
  qed
  then show thesis using assms by (simp add: on_success_def)
qed

lemma va_configuredD:
  assumes "va_configured rt pid as vm" and "va_address rt pid k" and "acc_owner (vm_ledger vm k) = pid"
  shows "k = va_key rt pid \<and> (\<exists>x tail. acc_data (vm_ledger vm k) = ser_bool True @ ser_va x @ tail \<and>
    (\<forall>a \<in> set as. ann_mailbox_address a = va_mailbox x \<and> ann_mailbox_domain a = va_local_domain x))"
  by (rule assms(1) [unfolded va_configured_def, THEN conjunct1, THEN spec, THEN mp]) (simp add: assms(2,3))

lemma fetch_va:
  assumes "va_configured rt pid as vm" and "va_address rt pid k" and "acc_owner (vm_ledger vm k) = pid"
    and "fetch (lift_de de_va) validator_announce_default (acc_data (vm_ledger vm k)) = Inr x"
  shows "k = va_key rt pid \<and> (\<exists>tail. acc_data (vm_ledger vm k) = ser_bool True @ ser_va x @ tail) \<and>
    (\<forall>a \<in> set as. ann_mailbox_address a = va_mailbox x \<and> ann_mailbox_domain a = va_local_domain x)"
proof -
  obtain y tail where k: "k = va_key rt pid" and d: "acc_data (vm_ledger vm k) = ser_bool True @ ser_va y @ tail"
    and y: "\<forall>a \<in> set as. ann_mailbox_address a = va_mailbox y \<and> ann_mailbox_domain a = va_local_domain y"
    using va_configuredD [OF assms(1-3)] by blast
  have "fetch (lift_de de_va) validator_announce_default (ser_bool True @ ser_va y @ tail) = Inr y"
    using borsh_va.de_ser [of y tail] borsh_bool.de_ser [of True "ser_va y @ tail"]
    by (simp add: fetch_def fetch_data_def lift_de_def borsh_err_def ser_bool_def)
  then have "x = y" using assms(4) d by simp
  then show ?thesis using k d y by blast
qed

lemma announce_inv:
  assumes sys: "system_program_ok rt" and pda: "pda_canonical rt" and pid: "pid \<noteq> SYSTEM_PROGRAM_ID"
    and inv: "va_inv kc secp rt pid as vm" and ix: "va_instruction_valid (Announce an)"
    and run: "process_announce kc secp rt pid accounts an vm = Inr vm'"
    and x: "fetch (lift_de de_va) validator_announce_default (acc_data (vm_ledger vm (ai_key (accounts ! 2)))) = Inr x"
    and nc: "va_no_collisions kc rt pid (set (as @ [va_announcement an x]))"
    and small: "\<And>k. length (acc_data (vm_ledger vm' k)) \<le> 10 * 1024 * 1024"
  shows "va_inv kc secp rt pid (as @ [va_announcement an x]) vm'"
proof (rule process_announce_steps [OF run])
  fix payer sp va sl rp :: account_info and rest y bump and vm1 :: vm
  let ?a = "va_announcement an x" and ?v = "an_validator an"
  assume acc: "accounts = payer # sp # va # sl # rp # rest"
    and f: "fetch (lift_de de_va) validator_announce_default (acc_data (vm_ledger vm (ai_key va))) = Inr y"
    and va: "va_address rt pid (ai_key va)" "acc_owner (vm_ledger vm (ai_key va)) = pid"
    and rp0: "ai_key rp = replay_key kc rt pid (va_announcement an y)" and fresh: "acc_data (vm_ledger vm (ai_key rp)) = []"
    and sig0: "signed_announcement kc secp (va_announcement an y)"
    and up: "update_validator_storage_locations rt pid payer sp sl an vm = Inr vm1"
    and c: "create_pda_account rt payer 1 pid sp rp (replay_protection_seeds (replay_id kc an) @ [[bump]]) vm1 = Inr vm'"
  have y: "y = x" using f x acc by (simp add: numeral_2_eq_2)
  note rp = rp0 [unfolded y] and sig = sig0 [unfolded y]
  have loc: "locations_stored rt pid as vm" and ok: "list_all (announcement_ok kc secp rt pid vm) as"
    and conf: "va_configured rt pid as vm" and dist: "distinct (map (\<lambda>a. (ann_validator a, ann_storage_location a)) as)"
    using inv by (simp_all add: va_inv_def)
  have v: "ann_validator ?a = ?v" "ann_storage_location ?a = an_storage_location an"
    "ann_mailbox_address ?a = va_mailbox x" "ann_mailbox_domain ?a = va_local_domain x"
    by (simp_all add: va_announcement_def)
  note ncs = no_collisionsD [OF nc]
  have old: "acc_owner (vm_ledger vm (storage_key rt pid ?v)) = pid" if "announced as ?v \<noteq> []"
    using that ok by (auto simp: announced_Nil list_all_iff announcement_ok_def)
  have len: "length (an_storage_location an) < 2 ^ 32" using ix by (simp add: string_valid_def)
  note up' = update_storage_locations_facts [OF sys pda pid loc old len up]
  have one: "(1::nat) < 2 ^ 64" by simp
  note cr = create_pda_account_Inr [OF sys c one]
  have sa: "storage_address rt pid ?v (ai_key sl)" using storage_key_address [OF pda] up' by metis
  have neq: "ai_key rp \<noteq> ai_key sl" using ncs(4) [of ?a ?v] sa rp by auto
  have same: "same_data (vm_ledger vm) (vm_ledger vm') k" if "k \<noteq> ai_key sl" "k \<noteq> ai_key rp" for k
    using up' cr that unfolding only_changes_def by (metis same_data_trans)
  have sl: "acc_owner (vm_ledger vm' (ai_key sl)) = pid"
    "\<exists>b. acc_data (vm_ledger vm' (ai_key sl)) = ser_bool True @
      ser_sl \<lparr>sl_bump_seed = b, sl_storage_locations = announced (as @ [?a]) ?v\<rparr>"
  proof -
    have "same_data (vm_ledger vm1) (vm_ledger vm') (ai_key sl)" using cr neq unfolding only_changes_def by metis
    then show "acc_owner (vm_ledger vm' (ai_key sl)) = pid"
      "\<exists>b. acc_data (vm_ledger vm' (ai_key sl)) = ser_bool True @
        ser_sl \<lparr>sl_bump_seed = b, sl_storage_locations = announced (as @ [?a]) ?v\<rparr>"
      using up' v by (auto simp: same_data_def announced_snoc)
  qed
  have rpd: "acc_data (vm_ledger vm' (ai_key rp)) \<noteq> []" "acc_owner (vm_ledger vm' (ai_key rp)) = pid"
    using cr by simp_all
  have owned: "acc_owner (vm_ledger vm' k) = pid \<and> acc_data (vm_ledger vm' k) \<noteq> []"
    if "acc_owner (vm_ledger vm k) = pid" "acc_data (vm_ledger vm k) \<noteq> []" for k
    using that sl rpd same [of k] by (cases "k = ai_key sl"; cases "k = ai_key rp") (auto simp: same_data_def ser_bool_def)
  have "locations_stored rt pid (as @ [?a]) vm'"
    unfolding locations_stored_def
  proof (intro allI impI, elim conjE)
    fix w k
    assume w: "storage_address rt pid w k" "acc_owner (vm_ledger vm' k) = pid"
    have rpk: "k \<noteq> ai_key rp" using ncs(4) [of ?a w] w(1) rp by auto
    show "k = storage_key rt pid w \<and> sl_valid \<lparr>sl_bump_seed = 0, sl_storage_locations = announced (as @ [?a]) w\<rparr> \<and>
        (\<exists>b. acc_data (vm_ledger vm' k) =
          ser_bool True @ ser_sl \<lparr>sl_bump_seed = b, sl_storage_locations = announced (as @ [?a]) w\<rparr>)"
    proof (cases "k = ai_key sl")
      case True
      then have wv: "w = ?v" using ncs(2) [of ?a k w] sa w(1) v(1) by auto
      obtain b where b: "acc_data (vm_ledger vm' k) = ser_bool True @
          ser_sl \<lparr>sl_bump_seed = b, sl_storage_locations = announced (as @ [?a]) w\<rparr>" using sl(2) True wv by auto
      have "length (announced (as @ [?a]) w) < 2 ^ 32"
        using small [of k] length_locations_size [of "\<lparr>sl_bump_seed = b, sl_storage_locations = announced (as @ [?a]) w\<rparr>"]
        by (simp add: b length_ser_sl)
      moreover have "list_all string_valid (announced (as @ [?a]) w)"
      proof (cases "announced as ?v = []")
        case True
        then show ?thesis using ix wv v by (simp add: announced_snoc)
      next
        case False
        have "list_all string_valid (announced as ?v)"
          using locations_storedD(2) [OF loc storage_key_address [OF pda] old [OF False]] by (simp add: sl_valid_def)
        then show ?thesis using ix wv v by (simp add: announced_snoc)
      qed
      ultimately show ?thesis using b True wv up' by (auto simp: sl_valid_def)
    next
      case False
      have s: "same_data (vm_ledger vm) (vm_ledger vm') k" by (rule same [OF False rpk])
      have o: "acc_owner (vm_ledger vm k) = pid" using s w(2) by (simp add: same_data_def)
      note st = locations_storedD [OF loc w(1) o]
      have "w \<noteq> ?v" using st(1) False up' by auto
      then have "announced (as @ [?a]) w = announced as w" using v(1) by (simp add: announced_snoc)
      then show ?thesis using st s by (simp add: same_data_def)
    qed
  qed
  moreover have "announcement_ok kc secp rt pid vm' b" if b: "b \<in> set as" for b
  proof -
    have bok: "announcement_ok kc secp rt pid vm b" using ok b by (simp add: list_all_iff)
    then have o: "acc_owner (vm_ledger vm (storage_key rt pid (ann_validator b))) = pid" by (simp add: announcement_ok_def)
    have "acc_data (vm_ledger vm (storage_key rt pid (ann_validator b))) \<noteq> []"
      using locations_storedD(3) [OF loc storage_key_address [OF pda] o] by (auto simp: ser_bool_def)
    then show ?thesis using owned o bok by (auto simp: announcement_ok_def)
  qed
  moreover have "announcement_ok kc secp rt pid vm' ?a"
    using sl(1) rpd sig up' rp v(1) by (simp add: announcement_ok_def)
  moreover have "va_configured rt pid (as @ [?a]) vm'"
  proof -
    have vs: "same_data (vm_ledger vm) (vm_ledger vm') k" if "va_address rt pid k" for k
      using that ncs(1) [of ?a k] ncs(3) [of ?a] sa rp v(1) by (intro same) auto
    note fv = fetch_va [OF conf va]
    have "k = va_key rt pid \<and> (\<exists>x tail. acc_data (vm_ledger vm' k) = ser_bool True @ ser_va x @ tail \<and>
          (\<forall>a \<in> set (as @ [?a]). ann_mailbox_address a = va_mailbox x \<and> ann_mailbox_domain a = va_local_domain x))"
      if k: "va_address rt pid k" "acc_owner (vm_ledger vm' k) = pid" for k
    proof -
      have "acc_owner (vm_ledger vm k) = pid" using vs [OF k(1)] k(2) by (simp add: same_data_def)
      then have "k = va_key rt pid" using conf k(1) unfolding va_configured_def by blast
      moreover from this obtain tail where "acc_data (vm_ledger vm' k) = ser_bool True @ ser_va x @ tail"
        using fv [OF f] vs [OF k(1)] y by (auto simp: same_data_def)
      moreover have "\<forall>a \<in> set (as @ [?a]). ann_mailbox_address a = va_mailbox x \<and> ann_mailbox_domain a = va_local_domain x"
        using fv [OF f] y v(3,4) by auto
      ultimately show ?thesis by blast
    qed
    moreover have "acc_owner (vm_ledger vm' (va_key rt pid)) = pid"
      using fv [OF f] va(2) vs [OF va(1)] by (simp add: same_data_def)
    ultimately show ?thesis unfolding va_configured_def by blast
  qed
  moreover have "(?v, an_storage_location an) \<notin> set (map (\<lambda>a. (ann_validator a, ann_storage_location a)) as)"
  proof
    assume "(?v, an_storage_location an) \<in> set (map (\<lambda>a. (ann_validator a, ann_storage_location a)) as)"
    then obtain b where b: "b \<in> set as" "ann_validator b = ?v" "ann_storage_location b = an_storage_location an" by auto
    then have "replay_key kc rt pid b = ai_key rp" using rp v by (simp add: replay_key_def)
    then show False using ok b(1) fresh by (auto simp: list_all_iff announcement_ok_def)
  qed
  ultimately show "va_inv kc secp rt pid (as @ [?a]) vm'"
    using dist v by (auto simp: va_inv_def list_all_iff)
qed

section \<open>Runs\<close>

lemma va_init_inv:
  assumes sys: "system_program_ok rt" and pda: "pda_canonical rt" and pid: "pid \<noteq> SYSTEM_PROGRAM_ID"
    and nc: "va_no_collisions kc rt pid (set as)" and inv: "va_inv kc secp rt pid as vm"
    and va: "\<And>v. \<not> storage_address rt pid v (va_key rt pid)"
  shows "on_success (va_process_init rt pid accounts i vm) (va_inv kc secp rt pid as)"
  unfolding va_process_init_def
proof (intro success_intros on_successI)
  fix p1 r1 p2 r2 p3 r3 d fk key bump and payer sp info :: account_info and x :: validator_announce and vm1 vm2 :: vm
  assume f: "rt_find_program_address rt validator_announce_seeds pid = fk" "fk = (key, bump)" "ai_key info = key"
    and x: "\<lparr>va_bump_seed = bump, va_mailbox = vi_mailbox i, va_local_domain = vi_local_domain i\<rparr> = x"
    and c: "create_pda_account rt payer (account_size va_size x) pid sp info (validator_announce_seeds @ [[bump]]) vm = Inr vm1"
    and s: "store ser_va x info False vm1 = Inr vm2"
  have k: "ai_key info = va_key rt pid" using f by (simp add: va_key_def)
  have small: "account_size va_size x < 2 ^ 64" by (simp add: account_size_def va_size_def)
  note cr = create_pda_account_Inr [OF sys c small]
  obtain tail where d: "acc_data (vm_ledger vm2 (va_key rt pid)) = ser_bool True @ ser_va x @ tail"
    and o: "acc_owner (vm_ledger vm2 (va_key rt pid)) = pid"
    using store_holds [OF s] cr k by (auto simp: holds_def)
  have same: "same_data (vm_ledger vm) (vm_ledger vm2) j" if "j \<noteq> va_key rt pid" for j
    using cr store_holds [OF s] that k unfolding only_changes_def by (metis same_data_trans)
  have none: "as = []" using inv cr pid k by (auto simp: va_inv_def va_configured_def)
  have "locations_stored rt pid as vm2"
    unfolding locations_stored_def
  proof (intro allI impI, elim conjE)
    fix v j
    assume j: "storage_address rt pid v j" "acc_owner (vm_ledger vm2 j) = pid"
    then have s': "same_data (vm_ledger vm) (vm_ledger vm2) j" using va by (intro same) auto
    then have "acc_owner (vm_ledger vm j) = pid" using j(2) by (simp add: same_data_def)
    moreover have "locations_stored rt pid as vm" using inv by (simp add: va_inv_def)
    ultimately show "j = storage_key rt pid v \<and> sl_valid \<lparr>sl_bump_seed = 0, sl_storage_locations = announced as v\<rparr> \<and>
        (\<exists>b. acc_data (vm_ledger vm2 j) = ser_bool True @ ser_sl \<lparr>sl_bump_seed = b, sl_storage_locations = announced as v\<rparr>)"
      using locations_storedD [of rt pid as vm v j] j(1) s' by (simp add: same_data_def)
  qed
  moreover have "j = va_key rt pid" if "va_address rt pid j" "acc_owner (vm_ledger vm2 j) = pid" for j
  proof (rule ccontr)
    assume "j \<noteq> va_key rt pid"
    then have "acc_owner (vm_ledger vm j) = pid" using same [of j] that(2) by (simp add: same_data_def)
    then show False using inv that(1) \<open>j \<noteq> va_key rt pid\<close> unfolding va_inv_def va_configured_def by blast
  qed
  moreover have "\<exists>x tail. acc_data (vm_ledger vm2 (va_key rt pid)) = ser_bool True @ ser_va x @ tail"
    using d by blast
  ultimately have "locations_stored rt pid [] vm2" "va_configured rt pid [] vm2"
    unfolding va_configured_def none by (simp_all, metis)
  then show "va_inv kc secp rt pid as vm2" by (simp add: va_inv_def none)
qed

text \<open>
  A run with the announcements it accepted. The runtime commits a transaction only when no account is
  longer than 10 MiB.
\<close>

definition va_derived :: "runtime \<Rightarrow> pubkey \<Rightarrow> pubkey \<Rightarrow> bool" where
  "va_derived rt pid k \<longleftrightarrow> va_address rt pid k \<or> (\<exists>v. storage_address rt pid v k)"

inductive va_run :: "keccak \<Rightarrow> secp256k1 \<Rightarrow> runtime \<Rightarrow> pubkey \<Rightarrow> announcement list \<Rightarrow> vm \<Rightarrow> bool"
  for kc :: keccak and secp :: secp256k1 and rt :: runtime and pid :: pubkey where
  start: "(\<And>k. va_derived rt pid k \<Longrightarrow> acc_owner (vm_ledger vm k) \<noteq> pid) \<Longrightarrow> va_run kc secp rt pid [] vm"
| init: "va_run kc secp rt pid as vm \<Longrightarrow> va_from_instruction_data data = Inr (VaInit i) \<Longrightarrow>
    va_process_instruction kc secp rt pid accounts data vm = Inr vm' \<Longrightarrow> va_run kc secp rt pid as vm'"
| announce: "va_run kc secp rt pid as vm \<Longrightarrow> va_from_instruction_data data = Inr (Announce an) \<Longrightarrow>
    va_process_instruction kc secp rt pid accounts data vm = Inr vm' \<Longrightarrow>
    fetch (lift_de de_va) validator_announce_default (acc_data (vm_ledger vm (ai_key (accounts ! 2)))) = Inr x \<Longrightarrow>
    (\<And>k. length (acc_data (vm_ledger vm' k)) \<le> 10 * 1024 * 1024) \<Longrightarrow>
    va_run kc secp rt pid (as @ [va_announcement an x]) vm'"
| outside: "va_run kc secp rt pid as vm \<Longrightarrow> outside_step (va_derived rt pid) pid vm vm' \<Longrightarrow> va_run kc secp rt pid as vm'"

lemma outside_va_inv:
  assumes pda: "pda_canonical rt" and inv: "va_inv kc secp rt pid as vm"
    and step: "outside_step (va_derived rt pid) pid vm vm'"
  shows "va_inv kc secp rt pid as vm'"
proof -
  have same: "same_data (vm_ledger vm) (vm_ledger vm') k" if "acc_owner (vm_ledger vm k) = pid" for k
    using step that by (simp add: outside_step_def)
  have own: "acc_owner (vm_ledger vm k) = pid \<and> same_data (vm_ledger vm) (vm_ledger vm') k"
    if "va_derived rt pid k" "acc_owner (vm_ledger vm' k) = pid" for k
    using outside_step_owned [OF step that] .
  have "locations_stored rt pid as vm'"
    unfolding locations_stored_def
  proof (intro allI impI, elim conjE)
    fix v k
    assume k: "storage_address rt pid v k" "acc_owner (vm_ledger vm' k) = pid"
    then have o: "acc_owner (vm_ledger vm k) = pid" "same_data (vm_ledger vm) (vm_ledger vm') k"
      using own [of k] by (auto simp: va_derived_def)
    moreover have "locations_stored rt pid as vm" using inv by (simp add: va_inv_def)
    ultimately show "k = storage_key rt pid v \<and> sl_valid \<lparr>sl_bump_seed = 0, sl_storage_locations = announced as v\<rparr> \<and>
        (\<exists>b. acc_data (vm_ledger vm' k) = ser_bool True @ ser_sl \<lparr>sl_bump_seed = b, sl_storage_locations = announced as v\<rparr>)"
      using locations_storedD [of rt pid as vm v k] k(1) by (simp add: same_data_def)
  qed
  moreover have "announcement_ok kc secp rt pid vm' a" if "announcement_ok kc secp rt pid vm a" for a
    using that same by (auto simp: announcement_ok_def same_data_def)
  moreover have "va_configured rt pid as vm'"
  proof -
    have conf: "va_configured rt pid as vm" using inv by (simp add: va_inv_def)
    have "k = va_key rt pid \<and> (\<exists>x tail. acc_data (vm_ledger vm' k) = ser_bool True @ ser_va x @ tail \<and>
          (\<forall>a \<in> set as. ann_mailbox_address a = va_mailbox x \<and> ann_mailbox_domain a = va_local_domain x))"
      if k: "va_address rt pid k" "acc_owner (vm_ledger vm' k) = pid" for k
    proof -
      have o: "acc_owner (vm_ledger vm k) = pid" and e: "acc_data (vm_ledger vm' k) = acc_data (vm_ledger vm k)"
        using own [OF _ k(2)] k(1) by (simp_all add: va_derived_def same_data_def)
      show ?thesis unfolding e by (rule va_configuredD [OF conf k(1) o])
    qed
    moreover have "as \<noteq> [] \<longrightarrow> acc_owner (vm_ledger vm' (va_key rt pid)) = pid"
      using conf same [of "va_key rt pid"] by (auto simp: va_configured_def same_data_def)
    ultimately show ?thesis unfolding va_configured_def by blast
  qed
  ultimately show ?thesis using inv by (auto simp: va_inv_def list_all_iff)
qed

lemma va_run_inv:
  assumes sys: "system_program_ok rt" and pda: "pda_canonical rt" and pid: "pid \<noteq> SYSTEM_PROGRAM_ID"
    and va: "\<And>v. \<not> storage_address rt pid v (va_key rt pid)"
  shows "va_run kc secp rt pid as vm \<Longrightarrow> va_no_collisions kc rt pid (set as) \<Longrightarrow> va_inv kc secp rt pid as vm"
proof (induction rule: va_run.induct)
  case (start vm)
  then show ?case
    by (auto simp: va_inv_def locations_stored_def va_configured_def va_derived_def)
next
  case (init as vm data i accounts vm')
  have "va_process_init rt pid accounts i vm = Inr vm'"
    using init.hyps(2,3) by (simp add: va_process_instruction_def)
  then show ?case using on_successD [OF va_init_inv [OF sys pda pid init.prems init.IH [OF init.prems] va]] by blast
next
  case (announce as vm data an accounts vm' x)
  have "va_no_collisions kc rt pid (set as)" using announce.prems by (simp add: va_no_collisions_def)
  then have inv: "va_inv kc secp rt pid as vm" by (rule announce.IH)
  have run: "process_announce kc secp rt pid accounts an vm = Inr vm'"
    using announce.hyps(2,3) by (simp add: va_process_instruction_def)
  have valid: "va_instruction_valid (Announce an)" using announce.hyps(2) by (simp add: va_from_instruction_data_iff)
  show ?case by (rule announce_inv [OF sys pda pid inv valid run announce.hyps(4) announce.prems announce.hyps(5)])
next
  case (outside as vm vm')
  show ?case by (rule outside_va_inv [OF pda outside.IH [OF outside.prems] outside.hyps(2)])
qed

section \<open>A sample run\<close>

text \<open>A runtime whose derived addresses of the program are known.\<close>

definition va_sim_key :: "bytes list \<Rightarrow> pubkey" where
  "va_sim_key seeds =
     (if length seeds = 3 then 900
      else if seeds ! 2 = str_bytes ''storage_locations'' then 1000000 + ucast (from_be_bytes (seeds ! 4) :: h160)
      else 901)"

definition va_runtime :: runtime where
  "va_runtime = sim_runtime
     \<lparr>rt_find_program_address := (\<lambda>seeds pid. (va_sim_key seeds, 255)),
      rt_create_program_address := (\<lambda>seeds pid.
        if seeds \<noteq> [] \<and> last seeds = [255] then Inr (va_sim_key (butlast seeds)) else Inl InvalidSeeds)\<rparr>"

lemma va_sim_keys [simp]:
  "va_sim_key validator_announce_seeds = 900"
  "va_sim_key (storage_locations_seeds v) = 1000000 + ucast v"
  "va_sim_key (replay_protection_seeds r) = 901"
  by (simp_all add: va_sim_key_def validator_announce_seeds_def storage_locations_seeds_def
      replay_protection_seeds_def str_bytes_def)

lemma va_runtime_addresses [simp]:
  "rt_find_program_address va_runtime seeds pid = (va_sim_key seeds, 255)"
  "rt_create_program_address va_runtime (seeds @ [[b]]) pid =
     (if b = 255 then Inr (va_sim_key seeds) else Inl InvalidSeeds)"
  by (simp_all add: va_runtime_def)

lemma va_runtime_fields:
  "rt_system va_runtime = rt_system sim_runtime" "rt_minimum_balance va_runtime = rt_minimum_balance sim_runtime"
  by (simp_all add: va_runtime_def)

lemma va_runtime_system [simp]:
  "create_pda_account va_runtime = create_pda_account sim_runtime"
  "rt_minimum_balance va_runtime n = word_of_nat n" "system_program_ok va_runtime"
proof -
  show "create_pda_account va_runtime = create_pda_account sim_runtime"
    unfolding fun_eq_iff create_pda_account_def invoke_system_def invoke_system_signed_def va_runtime_fields by simp
  show "rt_minimum_balance va_runtime n = word_of_nat n"
    unfolding va_runtime_fields by (simp add: sim_runtime_def)
  show "system_program_ok va_runtime"
    using sim_system_ok unfolding system_program_ok_def system_transfer_ok_def system_create_ok_def
      system_allocate_ok_def system_assign_ok_def va_runtime_fields by assumption
qed

lemma va_pda_canonical: "pda_canonical va_runtime"
  by (simp add: pda_canonical_def)

lemma unat_storage_sim: "unat (1000000 + ucast (v :: h160) :: pubkey) = 1000000 + unat v"
  using unsigned_less [of v, where 'a = nat] by (simp add: unat_word_ariths unsigned_ucast_eq take_bit_nat_eq_self)

lemma storage_sim_above:
  assumes "unat k < 1000000"
  shows "1000000 + ucast (v :: h160) \<noteq> (k :: pubkey)" "k \<noteq> 1000000 + ucast (v :: h160)"
  using unat_storage_sim [of v] assms by auto

lemma storage_sim_neq:
  "1000000 + ucast (v :: h160) \<noteq> (900 :: pubkey)" "1000000 + ucast (v :: h160) \<noteq> (901 :: pubkey)"
  "1000000 + ucast (v :: h160) \<noteq> (1 :: pubkey)"
  "(900 :: pubkey) \<noteq> 1000000 + ucast (v :: h160)" "(901 :: pubkey) \<noteq> 1000000 + ucast (v :: h160)"
  "(1 :: pubkey) \<noteq> 1000000 + ucast (v :: h160)"
  by (rule storage_sim_above, simp)+

lemma storage_sim_inj: "1000000 + ucast (v :: h160) = (1000000 + ucast (w :: h160) :: pubkey) \<Longrightarrow> v = w"
  using unat_storage_sim [of v] unat_storage_sim [of w] by (metis add_left_cancel word_unat_eq_iff)

lemma va_sim_addresses [simp]:
  "storage_address va_runtime pid v k \<longleftrightarrow> k = 1000000 + ucast v" "va_address va_runtime pid k \<longleftrightarrow> k = 900"
  "va_key va_runtime pid = 900" "storage_key va_runtime pid v = 1000000 + ucast v"
  "replay_key kc va_runtime pid a = 901"
  by (auto simp: storage_address_def va_address_def va_key_def storage_key_def replay_key_def)

lemma va_sim_no_collisions: "va_no_collisions kc va_runtime pid as"
  using storage_sim_neq storage_sim_inj by (auto simp: va_no_collisions_def)

definition sample_announce :: announce_ix where
  "sample_announce = \<lparr>an_validator = sample_validator, an_storage_location = [115], an_signature = replicate 65 1\<rparr>"

definition va_vm :: vm where
  "va_vm = initial_vm ((\<lambda>_. empty_account)(1 := funded_account 100000))"

definition sample_va :: validator_announce where
  "sample_va = \<lparr>va_bump_seed = 255, va_mailbox = 7, va_local_domain = 5\<rparr>"

abbreviation va_sl_key :: pubkey where
  "va_sl_key \<equiv> 1000000 + ucast sample_validator"

lemma va_sample_init:
  obtains vm1 where
    "va_process_init va_runtime 4000 [signer_account 1, program_account 0, signer_account 900]
       \<lparr>vi_mailbox = 7, vi_local_domain = 5\<rparr> va_vm = Inr vm1"
    "acc_data (vm_ledger vm1 900) = ser_bool True @ ser_va sample_va" "acc_owner (vm_ledger vm1 900) = 4000"
    "vm_ledger vm1 va_sl_key = empty_account" "vm_ledger vm1 901 = empty_account"
    "acc_lamports (vm_ledger vm1 1) = 99962" "vm_borrowed vm1 = []"
    "\<And>k. k \<noteq> 900 \<Longrightarrow> acc_data (vm_ledger vm1 k) = []"
proof -
  obtain vm1 where c: "create_pda_account sim_runtime (signer_account 1) 38 4000 (program_account 0)
      (signer_account 900) (validator_announce_seeds @ [[255]]) va_vm = Inr vm1"
    and v: "acc_data (vm_ledger vm1 900) = replicate 38 0" "acc_owner (vm_ledger vm1 900) = 4000"
      "vm_ledger vm1 va_sl_key = empty_account" "vm_ledger vm1 901 = empty_account"
      "acc_lamports (vm_ledger vm1 1) = 99962" "vm_borrowed vm1 = []"
      "\<And>k. k \<noteq> 900 \<Longrightarrow> acc_data (vm_ledger vm1 k) = []"
    using sim_create_pda_eq [of va_vm "signer_account 900" "signer_account 1" 100000 38 4000
        "program_account 0" "validator_announce_seeds @ [[255]]"]
    by (simp add: va_vm_def initial_vm_def empty_account_def funded_account_def storage_sim_neq)
  have l: "length (ser_va sample_va) = 37" by (simp add: ser_va_def)
  have s: "store ser_va sample_va (signer_account 900) False vm1 = Inr (write_data 900 (ser_bool True @ ser_va sample_va) vm1)"
    using store_ok [of "signer_account 900" vm1 ser_va sample_va False] l v by simp
  have e: "acc_data (vm_ledger va_vm 900) = []" "acc_owner (vm_ledger va_vm 900) = 0" "vm_borrowed va_vm = []"
    by (simp_all add: va_vm_def initial_vm_def empty_account_def SYSTEM_PROGRAM_ID_def)
  have z: "account_size va_size x = 38" for x by (simp add: account_size_def va_size_def)
  have "va_process_init va_runtime 4000 [signer_account 1, program_account 0, signer_account 900]
      \<lparr>vi_mailbox = 7, vi_local_domain = 5\<rparr> va_vm = Inr (write_data 900 (ser_bool True @ ser_va sample_va) vm1)"
    using c s e by (simp add: va_process_init_def SYSTEM_PROGRAM_ID_def owner_of_def borrow_data_def z sample_va_def)
  from that [OF this] show thesis using v by (simp add: storage_sim_neq)
qed

lemma va_sample_announce:
  assumes va: "acc_data (vm_ledger vm 900) = ser_bool True @ ser_va sample_va" "acc_owner (vm_ledger vm 900) = 4000"
    and e: "vm_ledger vm va_sl_key = empty_account" "vm_ledger vm 901 = empty_account"
      "acc_lamports (vm_ledger vm 1) = 99962" "vm_borrowed vm = []"
      "\<And>k. k \<noteq> 900 \<Longrightarrow> acc_data (vm_ledger vm k) = []"
  shows "\<exists>vm'. process_announce sample_hash sample_secp va_runtime 4000
    [signer_account 1, program_account 0, signer_account 900, signer_account va_sl_key, signer_account 901]
    sample_announce vm = Inr vm' \<and> (\<forall>k. length (acc_data (vm_ledger vm' k)) \<le> 10 * 1024 * 1024)"
proof -
  let ?x = "\<lparr>sl_bump_seed = 255, sl_storage_locations = [[115]]\<rparr>"
  have f: "fetch (lift_de de_va) validator_announce_default (acc_data (vm_ledger vm 900)) = Inr sample_va"
    unfolding va by (rule fetch_exact) (simp add: borsh_va.de_ser)
  obtain vm1 where c: "create_pda_account sim_runtime (signer_account 1) 11 4000 (program_account 0)
      (signer_account va_sl_key) (storage_locations_seeds sample_validator @ [[255]]) vm = Inr vm1"
    and v1: "acc_data (vm_ledger vm1 va_sl_key) = replicate 11 0" "acc_lamports (vm_ledger vm1 va_sl_key) = 11"
      "vm_ledger vm1 901 = empty_account" "acc_lamports (vm_ledger vm1 1) = 99951" "vm_borrowed vm1 = []"
      "\<And>k. k \<noteq> 900 \<Longrightarrow> length (acc_data (vm_ledger vm1 k)) \<le> 11" "vm_ledger vm1 900 = vm_ledger vm 900"
    using sim_create_pda_eq [of vm "signer_account va_sl_key" "signer_account 1" 99962 11 4000
        "program_account 0" "storage_locations_seeds sample_validator @ [[255]]"] e
    by (simp add: storage_sim_neq)
  have z: "account_size sl_size ?x = 11" "account_size replay_protection_size () = 1"
    by (simp_all add: account_size_def sl_size_def size_increase_for_new_storage_location_def replay_protection_size_def)
  have l: "length (ser_sl ?x) = 10" by (simp add: length_ser_sl sl_size_def size_increase_for_new_storage_location_def)
  let ?vm2 = "write_data va_sl_key (ser_bool True @ ser_sl ?x) vm1"
  have s: "store ser_sl ?x (signer_account va_sl_key) False vm1 = Inr ?vm2"
    using store_ok [of "signer_account va_sl_key" vm1 ser_sl ?x False] l v1 by simp
  have up: "update_validator_storage_locations va_runtime 4000 (signer_account 1) (program_account 0)
      (signer_account va_sl_key) sample_announce vm = Inr ?vm2"
    using c s e v1 z
    by (simp add: update_validator_storage_locations_def new_storage_locations_def owner_of_def empty_account_def
        SYSTEM_PROGRAM_ID_def sample_announce_def Let_def borrow_data_def lamports_def)
  have n2: "vm_ledger ?vm2 901 = empty_account" "acc_lamports (vm_ledger ?vm2 1) = 99951"
    using v1 by (simp_all add: storage_sim_neq)
  obtain vm' where r: "create_pda_account sim_runtime (signer_account 1) 1 4000 (program_account 0)
      (signer_account 901) (replay_protection_seeds (replay_id sample_hash sample_announce) @ [[255]]) ?vm2 = Inr vm'"
    and v': "\<And>k. k \<noteq> 901 \<Longrightarrow> acc_data (vm_ledger vm' k) = acc_data (vm_ledger ?vm2 k)" "length (acc_data (vm_ledger vm' 901)) = 1"
    using sim_create_pda_eq [of ?vm2 "signer_account 901" "signer_account 1" 99951 1 4000
        "program_account 0" "replay_protection_seeds (replay_id sample_hash sample_announce) @ [[255]]"] v1 n2
    by (simp add: storage_sim_neq)
  have "length (acc_data (vm_ledger vm' k)) \<le> 10 * 1024 * 1024" for k
  proof (cases "k = 901")
    case True
    then show ?thesis using v'(2) by simp
  next
    case F: False
    have "length (acc_data (vm_ledger ?vm2 k)) \<le> 38"
    proof (cases "k = va_sl_key")
      case True
      then show ?thesis using l by simp
    next
      case False
      then show ?thesis using v1(6) [of k] v1(7) va(1) by (cases "k = 900") (simp_all add: ser_va_def)
    qed
    then show ?thesis using v'(1) [OF F] by simp
  qed
  moreover have "\<exists>s. ecdsa_from_bytes (replicate 65 1) = Inr s"
    by (simp add: ecdsa_from_bytes_def Let_def nth_replicate)
  then have "verify_validator_signed_announcement sample_hash sample_secp sample_announce sample_va = Inr ()"
    by (auto simp: verify_validator_signed_announcement_def sample_announce_def sample_recover va_announcement_def Let_def)
  then have "process_announce sample_hash sample_secp va_runtime 4000
    [signer_account 1, program_account 0, signer_account 900, signer_account va_sl_key, signer_account 901]
    sample_announce vm = Inr vm'"
    using f up r e va
    by (simp add: process_announce_def SYSTEM_PROGRAM_ID_def borrow_data_def verify_self_account_info_def
        create_program_address_def owner_of_def sample_va_def empty_account_def create_replay_protection_account_def z)
  ultimately show ?thesis by blast
qed

lemma va_sample_pid: "4000 \<noteq> SYSTEM_PROGRAM_ID"
  by (simp add: SYSTEM_PROGRAM_ID_def)

lemma va_sample_run:
  obtains vm where "va_run sample_hash sample_secp va_runtime 4000 [va_announcement sample_announce sample_va] vm"
proof -
  obtain vm1 where i: "va_process_init va_runtime 4000 [signer_account 1, program_account 0, signer_account 900]
       \<lparr>vi_mailbox = 7, vi_local_domain = 5\<rparr> va_vm = Inr vm1"
    and d: "acc_data (vm_ledger vm1 900) = ser_bool True @ ser_va sample_va"
    and a: "\<exists>vm'. process_announce sample_hash sample_secp va_runtime 4000
      [signer_account 1, program_account 0, signer_account 900, signer_account va_sl_key, signer_account 901]
      sample_announce vm1 = Inr vm' \<and> (\<forall>k. length (acc_data (vm_ledger vm' k)) \<le> 10 * 1024 * 1024)"
    by (rule va_sample_init, rule that) (assumption | rule va_sample_announce)+
  have r0: "va_run sample_hash sample_secp va_runtime 4000 [] va_vm"
    by (rule va_run.start)
       (auto simp: va_vm_def initial_vm_def empty_account_def funded_account_def SYSTEM_PROGRAM_ID_def)
  have di: "va_from_instruction_data (ser_va_instruction ix) = Inr ix" if "va_instruction_valid ix" for ix
    using that by (simp add: va_from_instruction_data_iff)
  have r1: "va_run sample_hash sample_secp va_runtime 4000 [] vm1"
  proof (rule va_run.init [OF r0 di])
    show "va_process_instruction sample_hash sample_secp va_runtime 4000
        [signer_account 1, program_account 0, signer_account 900]
        (ser_va_instruction (VaInit \<lparr>vi_mailbox = 7, vi_local_domain = 5\<rparr>)) va_vm = Inr vm1"
      using i by (simp add: va_process_instruction_def di del: ser_va_instruction.simps)
  qed simp
  obtain vm2 where p: "process_announce sample_hash sample_secp va_runtime 4000
      [signer_account 1, program_account 0, signer_account 900, signer_account va_sl_key, signer_account 901]
      sample_announce vm1 = Inr vm2" and b: "\<And>k. length (acc_data (vm_ledger vm2 k)) \<le> 10 * 1024 * 1024"
    using a by blast
  have "va_run sample_hash sample_secp va_runtime 4000 ([] @ [va_announcement sample_announce sample_va]) vm2"
  proof (rule va_run.announce [OF r1 di _ _ b])
    show "va_instruction_valid (Announce sample_announce)"
      by (simp add: sample_announce_def string_valid_def)
    then show "va_process_instruction sample_hash sample_secp va_runtime 4000
        [signer_account 1, program_account 0, signer_account 900, signer_account va_sl_key, signer_account 901]
        (ser_va_instruction (Announce sample_announce)) vm1 = Inr vm2"
      using p by (simp add: va_process_instruction_def di del: ser_va_instruction.simps va_instruction_valid.simps)
    show "fetch (lift_de de_va) validator_announce_default (acc_data (vm_ledger vm1
        (ai_key ([signer_account 1, program_account 0, signer_account 900, signer_account va_sl_key, signer_account 901] ! 2)))) = Inr sample_va"
      using d fetch_exact [of de_va ser_va sample_va] borsh_va.de_ser by simp
  qed
  then show thesis using that by simp
qed

section \<open>Properties\<close>

text \<open>
  C9. Announcements are recorded exactly: in every run of the program, however other transactions
  interleave, the storage locations account of a validator holds exactly the locations announced for it,
  in order and each once; every announcement was signed by its validator, for the mailbox and the domain
  the program was initialized with.
\<close>

theorem announcements_recorded:
  assumes "system_program_ok rt" and "pda_canonical rt" and "pid \<noteq> SYSTEM_PROGRAM_ID"
    and "\<And>v. \<not> storage_address rt pid v (va_key rt pid)"
    and "va_run kc secp rt pid as vm" and "va_no_collisions kc rt pid (set as)"
  shows "distinct (announced as v) \<and>
    (announced as v \<noteq> [] \<longrightarrow>
      acc_owner (vm_ledger vm (storage_key rt pid v)) = pid \<and>
      (\<exists>b. acc_data (vm_ledger vm (storage_key rt pid v)) =
        ser_bool True @ ser_sl \<lparr>sl_bump_seed = b, sl_storage_locations = announced as v\<rparr>)) \<and>
    (\<forall>a \<in> set as. signed_announcement kc secp a) \<and>
    (as \<noteq> [] \<longrightarrow> (\<exists>x. holds ser_va x (va_key rt pid) (vm_ledger vm) \<and>
      (\<forall>a \<in> set as. ann_mailbox_address a = va_mailbox x \<and> ann_mailbox_domain a = va_local_domain x)))"
proof (intro conjI impI)
  note inv = va_run_inv [OF assms, unfolded va_inv_def]
  show "distinct (announced as v)"
  proof -
    have "distinct (map (\<lambda>a. (ann_validator a, ann_storage_location a)) (filter (\<lambda>a. ann_validator a = v) as))"
      using inv by (simp add: distinct_map_filter)
    then show ?thesis by (auto simp: announced_def distinct_map inj_on_def)
  qed
  assume "announced as v \<noteq> []"
  then show o: "acc_owner (vm_ledger vm (storage_key rt pid v)) = pid"
    using inv by (auto simp: announced_Nil list_all_iff announcement_ok_def)
  show "\<exists>b. acc_data (vm_ledger vm (storage_key rt pid v)) =
      ser_bool True @ ser_sl \<lparr>sl_bump_seed = b, sl_storage_locations = announced as v\<rparr>"
    using locations_storedD(3) [OF conjunct1 [OF inv] storage_key_address [OF assms(2)] o] .
next
  show "\<forall>a \<in> set as. signed_announcement kc secp a"
    using va_run_inv [OF assms] by (auto simp: va_inv_def list_all_iff announcement_ok_def)
next
  assume "as \<noteq> []"
  have conf: "va_configured rt pid as vm" using va_run_inv [OF assms] by (simp add: va_inv_def)
  then have "acc_owner (vm_ledger vm (va_key rt pid)) = pid" using \<open>as \<noteq> []\<close> by (simp add: va_configured_def)
  from va_configuredD [OF conf va_key_address [OF assms(2)] this]
  show "\<exists>x. holds ser_va x (va_key rt pid) (vm_ledger vm) \<and>
      (\<forall>a \<in> set as. ann_mailbox_address a = va_mailbox x \<and> ann_mailbox_domain a = va_local_domain x)"
    unfolding holds_def by blast
qed

theorem announcements_recorded_witness:
  "\<exists>vm b. va_run sample_hash sample_secp va_runtime 4000 [va_announcement sample_announce sample_va] vm \<and>
     acc_data (vm_ledger vm va_sl_key) = ser_bool True @ ser_sl \<lparr>sl_bump_seed = b, sl_storage_locations = [[115]]\<rparr>"
proof -
  obtain vm where r: "va_run sample_hash sample_secp va_runtime 4000 [va_announcement sample_announce sample_va] vm"
    using va_sample_run by blast
  have va: "\<not> storage_address va_runtime 4000 v (va_key va_runtime 4000)" for v by (simp add: storage_sim_neq)
  have "announced [va_announcement sample_announce sample_va] sample_validator = [[115]]"
    by (simp add: announced_def va_announcement_def sample_announce_def)
  then show ?thesis
    using announcements_recorded [OF va_runtime_system(3) va_pda_canonical va_sample_pid va r va_sim_no_collisions, of sample_validator] r
    by auto
qed

end
