(* ===== verification/Spec2Isabelle.thy ===== *)
theory Spec2Isabelle
  imports Contract_Sync_Props Token_Props Serial_Submitter Message_Processor Prover Mailbox_Correct Multisig_Correct Igp_Props Validator_Announce_Correct
begin

text \<open>Verification of the Hyperlane sources.\<close>

end
